(* ===== verification/Prelude.thy ===== *)
theory Prelude
  imports
    Main
    "HOL-Library.Word"
    "HOL-Library.List_Lexorder"
    "HOL-Library.Sublist"
    "HOL-Library.Multiset"
begin

text \<open>
  The shared ground of the development: machine integers, byte strings, big-endian integers
  and their order, world-passing computations that may fail, and the collections of facts the
  component theories extend (\<open>bytes_simps\<close> for encodings, \<open>key_simps\<close> for the
  injectivity and disjointness of storage keys, \<open>comp_simps\<close> for computations).
\<close>

unbundle bit_operations_syntax

named_theorems bytes_simps "byte encodings and their inverses"
named_theorems key_simps "injectivity and disjointness of storage keys"
named_theorems comp_simps "unfolding of world-passing computations"

section \<open>Machine integers and byte strings\<close>

type_synonym u8 = "8 word"
type_synonym u16 = "16 word"
type_synonym u32 = "32 word"
type_synonym u64 = "64 word"
type_synonym bytes = "u8 list"

text \<open>
  Identifiers of the \<open>uuid\<close> crate are 128-bit values; \<open>Uuid::as_bytes\<close> is their
  big-endian rendering, so that the derived order of \<open>Uuid\<close> is the numeric one.
\<close>

type_synonym uuid = "128 word"

text \<open>\<open>u64::div_ceil\<close>: rounds the quotient up, and cannot overflow for a divisor above 1.\<close>

definition div_ceil :: "u64 \<Rightarrow> u64 \<Rightarrow> u64" where
  "div_ceil a b = (if a mod b = 0 then a div b else a div b + 1)"

text \<open>
  \<open>n\<close> big-endian bytes of a word (\<open>to_be_bytes\<close>), and the word that a list of
  big-endian bytes denotes (\<open>from_be_bytes\<close>).
\<close>

definition be_bytes :: "nat \<Rightarrow> 'a::len word \<Rightarrow> bytes" where
  "be_bytes n w = map (\<lambda>i. ucast (drop_bit (8 * i) w)) (rev [0..<n])"

definition be_nat :: "bytes \<Rightarrow> nat" where
  "be_nat bs = foldl (\<lambda>acc b. 256 * acc + unat b) 0 bs"

definition be_word :: "bytes \<Rightarrow> 'a::len word" where
  "be_word bs = of_nat (be_nat bs)"

lemma length_be_bytes [simp]: "length (be_bytes n w) = n"
  by (simp add: be_bytes_def)

lemma be_bytes_0 [simp]: "be_bytes 0 w = []"
  by (simp add: be_bytes_def)

lemma be_bytes_Suc:
  "be_bytes (Suc n) w = ucast (drop_bit (8 * n) w) # be_bytes n w"
  by (simp add: be_bytes_def)

lemma foldl_be: "foldl (\<lambda>acc b. 256 * acc + unat b) a bs = a * 256 ^ length bs + be_nat bs"
  for bs :: bytes
proof (induction bs arbitrary: a)
  case Nil
  then show ?case by (simp add: be_nat_def)
next
  case (Cons b bs)
  have "foldl (\<lambda>acc b. 256 * acc + unat b) a (b # bs)
      = (256 * a + unat b) * 256 ^ length bs + be_nat bs"
    using Cons.IH by simp
  moreover have "be_nat (b # bs) = unat b * 256 ^ length bs + be_nat bs"
    using Cons.IH [of "unat b"] by (simp add: be_nat_def)
  ultimately show ?case by (simp add: algebra_simps)
qed

lemma be_nat_Nil [simp]: "be_nat [] = 0"
  by (simp add: be_nat_def)

lemma be_nat_Cons: "be_nat (b # bs) = unat b * 256 ^ length bs + be_nat bs"
  using foldl_be [of "unat b" bs] by (simp add: be_nat_def)

lemma be_nat_bound: "be_nat bs < 256 ^ length bs"
proof (induction bs)
  case Nil
  then show ?case by simp
next
  case (Cons b bs)
  have "unat b < 256" using unsigned_less [of b] by simp
  then have "unat b * 256 ^ length bs \<le> 255 * 256 ^ length bs"
    by (intro mult_right_mono) auto
  then show ?case using Cons unfolding be_nat_Cons length_Cons power_Suc by linarith
qed

lemma unat_ucast_byte: "unat (ucast (drop_bit (8 * n) w) :: u8) = unat w div 256 ^ n mod 256"
  for w :: "'a::len word"
proof -
  have p: "(256::nat) ^ n = 2 ^ (8 * n)" by (simp add: power_mult)
  have "unat (drop_bit (8 * n) w) = unat w div 2 ^ (8 * n)"
    by (simp add: unsigned_drop_bit_eq take_bit_nat_eq_self flip: drop_bit_eq_div)
  then show ?thesis by (simp add: p unsigned_ucast_eq take_bit_eq_mod)
qed

lemma be_nat_be_bytes: "be_nat (be_bytes n w) = unat w mod 256 ^ n"
proof (induction n)
  case 0
  then show ?case by simp
next
  case (Suc n)
  have "unat w mod 256 ^ Suc n
      = unat w mod 256 ^ n + 256 ^ n * (unat w div 256 ^ n mod 256)"
    using mod_mult2_eq [of "unat w" "256 ^ n" 256] by (simp add: mult.commute)
  moreover have "be_nat (be_bytes (Suc n) w)
      = unat w div 256 ^ n mod 256 * 256 ^ n + be_nat (be_bytes n w)"
    by (simp add: be_bytes_Suc be_nat_Cons unat_ucast_byte)
  ultimately show ?case using Suc by (simp add: mult.commute)
qed

lemma be_word_be_bytes:
  assumes "LENGTH('a) \<le> 8 * n"
  shows "be_word (be_bytes n w) = (w :: 'a::len word)"
proof -
  have "unat w < 2 ^ LENGTH('a)" by (rule unsigned_less)
  also have "\<dots> \<le> (2::nat) ^ (8 * n)" using assms by (intro power_increasing) auto
  also have "(2::nat) ^ (8 * n) = 256 ^ n" by (simp add: power_mult)
  finally show ?thesis by (simp add: be_word_def be_nat_be_bytes)
qed

lemma be_word_be_bytes_u64 [bytes_simps, simp]: "be_word (be_bytes 8 w) = (w :: u64)"
  by (rule be_word_be_bytes) simp

lemma be_word_be_bytes_uuid [bytes_simps, simp]: "be_word (be_bytes 16 w) = (w :: uuid)"
  by (rule be_word_be_bytes) simp

lemma be_bytes_u64_inject [bytes_simps, simp]:
  "be_bytes 8 v = be_bytes 8 w \<longleftrightarrow> v = w" for v w :: u64
  by (metis be_word_be_bytes_u64)

lemma be_bytes_uuid_inject [bytes_simps, simp]:
  "be_bytes 16 v = be_bytes 16 w \<longleftrightarrow> v = w" for v w :: uuid
  by (metis be_word_be_bytes_uuid)

section \<open>Byte strings in key order\<close>

text \<open>
  Keys are compared byte by byte, the order \<open>HOL-Library.List_Lexorder\<close> gives to lists.
\<close>

lemma append_less_append:
  "length xs = length ys \<Longrightarrow> xs @ a < ys @ b \<longleftrightarrow> xs < ys \<or> xs = ys \<and> a < b"
  for xs ys a b :: "'a::linorder list"
  by (induction xs ys rule: list_induct2) auto

lemma append_le_append:
  "length xs = length ys \<Longrightarrow> xs @ a \<le> ys @ b \<longleftrightarrow> xs < ys \<or> xs = ys \<and> a \<le> b"
  for xs ys a b :: "'a::linorder list"
  by (induction xs ys rule: list_induct2) auto

lemma append_same_less [simp]: "xs @ a < xs @ b \<longleftrightarrow> a < b"
  for xs a b :: "'a::linorder list"
  by (simp add: append_less_append)

lemma append_same_le [simp]: "xs @ a \<le> xs @ b \<longleftrightarrow> a \<le> b"
  for xs a b :: "'a::linorder list"
  by (simp add: append_le_append)

lemma less_iff_be_nat: "length xs = length ys \<Longrightarrow> xs < ys \<longleftrightarrow> be_nat xs < be_nat ys"
  for xs ys :: bytes
proof (induction xs ys rule: list_induct2)
  case Nil
  then show ?case by simp
next
  case (Cons x xs y ys)
  let ?p = "(256::nat) ^ length ys"
  have bx: "be_nat xs < ?p" and bounds: "be_nat ys < ?p"
    using be_nat_bound [of xs] be_nat_bound [of ys] Cons.hyps by simp_all
  have step: "a * ?p + be_nat as < b * ?p + be_nat bs"
    if "a < b" "be_nat as < ?p" for a b and as bs :: bytes
  proof -
    from that(1) have "Suc a * ?p \<le> b * ?p" by (intro mult_right_mono) auto
    then show ?thesis using that(2) by simp
  qed
  consider "x < y" | "x = y" | "y < x" by force
  then show ?case
  proof cases
    case 1
    then have "unat x < unat y" by (simp add: word_less_nat_alt)
    from step [OF this bx] show ?thesis using 1 Cons.hyps by (simp add: be_nat_Cons)
  next
    case 2
    with Cons show ?thesis by (simp add: be_nat_Cons)
  next
    case 3
    then have "unat y < unat x" by (simp add: word_less_nat_alt)
    from step [OF this bounds, of xs] have "be_nat (y # ys) < be_nat (x # xs)"
      using Cons.hyps by (simp add: be_nat_Cons)
    with 3 show ?thesis by auto
  qed
qed

lemma be_nat_inject: "length xs = length ys \<Longrightarrow> be_nat xs = be_nat ys \<longleftrightarrow> xs = ys"
  using less_iff_be_nat [of xs ys] less_iff_be_nat [of ys xs]
  by (metis less_irrefl linorder_less_linear)

lemma be_nat_be_bytes_u64 [simp]: "be_nat (be_bytes 8 w) = unat w" for w :: u64
  using unsigned_less [of w, where 'a = nat] by (simp add: be_nat_be_bytes)

lemma be_bytes_less_u64 [simp]: "be_bytes 8 v < be_bytes 8 w \<longleftrightarrow> v < w" for v w :: u64
  by (simp add: less_iff_be_nat word_less_nat_alt)

lemma be_bytes_le_u64 [simp]: "be_bytes 8 v \<le> be_bytes 8 w \<longleftrightarrow> v \<le> w" for v w :: u64
  using be_bytes_less_u64 [of w v] by (simp add: not_less [symmetric])

lemma unat_succ_u64: "w \<noteq> - 1 \<Longrightarrow> unat (w + 1) = Suc (unat w)" for w :: u64
  by (metis add.commute add_eq_0_iff unatSuc)

section \<open>Association lists\<close>

text \<open>
  A \<open>HashMap\<close> that is iterated is the list of its entries, in the order of insertion:
  \<open>insert\<close> replaces an entry or adds one, \<open>try_insert\<close> keeps an entry that is there.
\<close>

fun map_insert :: "'k \<Rightarrow> 'v \<Rightarrow> ('k \<times> 'v) list \<Rightarrow> ('k \<times> 'v) list" where
  "map_insert k v [] = [(k, v)]"
| "map_insert k v ((k', v') # xs) = (if k = k' then (k, v) # xs else (k', v') # map_insert k v xs)"

definition map_try_insert :: "'k \<Rightarrow> 'v \<Rightarrow> ('k \<times> 'v) list \<Rightarrow> ('k \<times> 'v) list" where
  "map_try_insert k v xs = (if map_of xs k = None then map_insert k v xs else xs)"

lemma map_insert_keys: "set (map fst (map_insert k v xs)) = insert k (set (map fst xs))"
  by (induction k v xs rule: map_insert.induct) auto

lemma distinct_map_insert: "distinct (map fst xs) \<Longrightarrow> distinct (map fst (map_insert k v xs))"
proof (induction k v xs rule: map_insert.induct)
  case (2 k v k' v' xs)
  then show ?case using map_insert_keys [of k v xs] by (auto simp del: set_map)
qed simp

lemma map_of_map_insert: "map_of (map_insert k v xs) = (map_of xs)(k \<mapsto> v)"
  by (induction k v xs rule: map_insert.induct) (auto simp: fun_upd_twist)

lemma map_of_map_try_insert:
  "map_of (map_try_insert k v xs) = (case map_of xs k of None \<Rightarrow> (map_of xs)(k \<mapsto> v) | Some _ \<Rightarrow> map_of xs)"
  by (auto simp: map_try_insert_def map_of_map_insert split: option.splits)

lemma distinct_map_try_insert: "distinct (map fst xs) \<Longrightarrow> distinct (map fst (map_try_insert k v xs))"
  by (simp add: map_try_insert_def distinct_map_insert)

text \<open>
  \<open>collect\<close> into a \<open>HashMap\<close>, where a later pair replaces an earlier one with the same key,
  \<open>remove\<close>, and the insertion into a \<open>MultiMap\<close>.
\<close>

definition map_collect :: "('k \<times> 'v) list \<Rightarrow> ('k \<times> 'v) list" where
  "map_collect kvs = fold (\<lambda>(k, v). map_insert k v) kvs []"

definition map_remove :: "'k \<Rightarrow> ('k \<times> 'v) list \<Rightarrow> ('k \<times> 'v) list" where
  "map_remove k xs = filter (\<lambda>p. fst p \<noteq> k) xs"

definition multimap_insert :: "'k \<Rightarrow> 'v \<Rightarrow> ('k \<times> 'v list) list \<Rightarrow> ('k \<times> 'v list) list" where
  "multimap_insert k v xs = map_insert k ((case map_of xs k of None \<Rightarrow> [] | Some vs \<Rightarrow> vs) @ [v]) xs"

lemma map_of_fold_map_insert:
  "map_of (fold (\<lambda>(k, v). map_insert k v) kvs xs) = map_of xs ++ map_of (rev kvs)"
proof (induction kvs arbitrary: xs)
  case (Cons p kvs)
  then show ?case by (cases p) (simp add: map_of_map_insert map_add_upd_left fun_eq_iff map_add_def split: option.splits)
qed simp

lemma map_of_map_collect: "map_of (map_collect kvs) = map_of (rev kvs)"
  by (simp add: map_collect_def map_of_fold_map_insert)

lemma distinct_map_collect [simp]: "distinct (map fst (map_collect kvs))"
  unfolding map_collect_def
  by (rule fold_invariant [where P = "\<lambda>xs. distinct (map fst xs)" and Q = "\<lambda>_. True"])
    (auto intro: distinct_map_insert simp del: map_map)

lemma map_of_map_remove: "map_of (map_remove k xs) = (map_of xs)(k := None)"
  by (induction xs) (auto simp: map_remove_def fun_eq_iff)

lemma distinct_map_remove: "distinct (map fst xs) \<Longrightarrow> distinct (map fst (map_remove k xs))"
  by (simp add: map_remove_def distinct_map_filter)

section \<open>Computations\<close>

text \<open>
  A fallible effectful Rust function is a function from the world before to its result
  (\<open>Inl\<close> an error, \<open>Inr\<close> a value) and the world after. \<open>and_then\<close> is the
  sequencing that the \<open>?\<close> operator gives: the first error ends the computation, and the
  effects made so far stay.
\<close>

type_synonym ('w, 'e, 'a) comp = "'w \<Rightarrow> ('e + 'a) \<times> 'w"

definition ret :: "'a \<Rightarrow> ('w, 'e, 'a) comp" where
  "ret x = (\<lambda>w. (Inr x, w))"

definition fail :: "'e \<Rightarrow> ('w, 'e, 'a) comp" where
  "fail e = (\<lambda>w. (Inl e, w))"

definition and_then :: "('w, 'e, 'a) comp \<Rightarrow> ('a \<Rightarrow> ('w, 'e, 'b) comp) \<Rightarrow> ('w, 'e, 'b) comp" where
  "and_then m k = (\<lambda>w. case m w of (Inl e, w') \<Rightarrow> (Inl e, w') | (Inr x, w') \<Rightarrow> k x w')"

definition map_err :: "('e \<Rightarrow> 'f) \<Rightarrow> ('w, 'e, 'a) comp \<Rightarrow> ('w, 'f, 'a) comp" where
  "map_err f m = (\<lambda>w. case m w of (Inl e, w') \<Rightarrow> (Inl (f e), w') | (Inr x, w') \<Rightarrow> (Inr x, w'))"

definition of_result :: "'e + 'a \<Rightarrow> ('w, 'e, 'a) comp" where
  "of_result r = (\<lambda>w. (r, w))"

primrec for_each :: "('a \<Rightarrow> ('w, 'e, unit) comp) \<Rightarrow> 'a list \<Rightarrow> ('w, 'e, unit) comp" where
  "for_each f [] = ret ()"
| "for_each f (x # xs) = and_then (f x) (\<lambda>_. for_each f xs)"

text \<open>The same sequencing for a pure fallible function.\<close>

definition bind_result :: "'e + 'a \<Rightarrow> ('a \<Rightarrow> 'e + 'b) \<Rightarrow> 'e + 'b" where
  "bind_result r k = (case r of Inl e \<Rightarrow> Inl e | Inr x \<Rightarrow> k x)"

lemma bind_result_simps [simp]:
  "bind_result (Inl e) k = Inl e" "bind_result (Inr x) k = k x"
  by (simp_all add: bind_result_def)

lemma bind_result_Inr_iff:
  "bind_result r k = Inr y \<longleftrightarrow> (\<exists>x. r = Inr x \<and> k x = Inr y)"
  by (cases r) auto

lemma ret_apply [comp_simps, simp]: "ret x w = (Inr x, w)"
  by (simp add: ret_def)

lemma fail_apply [comp_simps, simp]: "fail e w = (Inl e, w)"
  by (simp add: fail_def)

lemma of_result_apply [comp_simps, simp]: "of_result r w = (r, w)"
  by (simp add: of_result_def)

lemma and_then_apply [comp_simps]:
  "and_then m k w = (case m w of (Inl e, w') \<Rightarrow> (Inl e, w') | (Inr x, w') \<Rightarrow> k x w')"
  by (simp add: and_then_def)

lemma map_err_apply [comp_simps]:
  "map_err f m w = (case m w of (Inl e, w') \<Rightarrow> (Inl (f e), w') | (Inr x, w') \<Rightarrow> (Inr x, w'))"
  by (simp add: map_err_def)

lemma and_then_Pair [simp]:
  "and_then (Pair (Inr x)) k = k x" "and_then (Pair (Inl e)) k = Pair (Inl e)"
  by (rule ext, simp add: and_then_apply)+

lemma and_then_assoc: "and_then (and_then m k) l = and_then m (\<lambda>x. and_then (k x) l)"
  by (rule ext) (auto simp: and_then_apply split: prod.splits sum.splits)

lemma for_each_append:
  "for_each f (xs @ ys) = and_then (for_each f xs) (\<lambda>_. for_each f ys)"
  by (induction xs) (simp_all add: and_then_assoc)

end
