(* ===== verification/Fs_Types.thy ===== *)
theory Fs_Types
  imports Prelude
begin

text \<open>
  The data of the file system, as \<open>src/src/fs/inode.rs\<close>, \<open>meta.rs\<close>,
  \<open>hash_fs_interface.rs\<close>, \<open>reply.rs\<close> and \<open>utils/hash_algorithm.rs\<close> declare it.
  Newtype structs are single-constructor datatypes, structs are records whose fields carry a
  prefix for the struct, enums are datatypes. A \<open>SystemTime\<close> is an integer number of
  nanoseconds relative to the epoch; file and directory names are the bytes of the
  \<open>ByteString\<close>. Error messages are kept as the literal text of the format string.
\<close>

section \<open>Numbers and identifiers\<close>

datatype storage_ino = StorageIno (ino_raw: u64)

datatype parent_storage_ino = ParentStorageIno (parent_ino: storage_ino)

datatype block_index = BlockIndex (block_raw: u64)

text \<open>\<open>StorageIno\<close> and \<open>BlockIndex\<close> derive \<open>Ord\<close> from the number they wrap.\<close>

instantiation storage_ino :: linorder
begin

definition less_eq_storage_ino :: "storage_ino \<Rightarrow> storage_ino \<Rightarrow> bool" where
  "less_eq_storage_ino a b \<longleftrightarrow> ino_raw a \<le> ino_raw b"

definition less_storage_ino :: "storage_ino \<Rightarrow> storage_ino \<Rightarrow> bool" where
  "less_storage_ino a b \<longleftrightarrow> ino_raw a < ino_raw b"

instance
  by standard (auto simp: less_eq_storage_ino_def less_storage_ino_def storage_ino.expand)

end

instantiation parent_storage_ino :: linorder
begin

definition less_eq_parent_storage_ino :: "parent_storage_ino \<Rightarrow> parent_storage_ino \<Rightarrow> bool" where
  "less_eq_parent_storage_ino a b \<longleftrightarrow> parent_ino a \<le> parent_ino b"

definition less_parent_storage_ino :: "parent_storage_ino \<Rightarrow> parent_storage_ino \<Rightarrow> bool" where
  "less_parent_storage_ino a b \<longleftrightarrow> parent_ino a < parent_ino b"

instance
  by standard
    (auto simp: less_eq_parent_storage_ino_def less_parent_storage_ino_def
      parent_storage_ino.expand)

end

instantiation block_index :: linorder
begin

definition less_eq_block_index :: "block_index \<Rightarrow> block_index \<Rightarrow> bool" where
  "less_eq_block_index a b \<longleftrightarrow> block_raw a \<le> block_raw b"

definition less_block_index :: "block_index \<Rightarrow> block_index \<Rightarrow> bool" where
  "less_block_index a b \<longleftrightarrow> block_raw a < block_raw b"

instance
  by standard (auto simp: less_eq_block_index_def less_block_index_def block_index.expand)

end

lemma order_simps [simp]:
  "StorageIno a \<le> StorageIno b \<longleftrightarrow> a \<le> b" "StorageIno a < StorageIno b \<longleftrightarrow> a < b"
  "ParentStorageIno i \<le> ParentStorageIno j \<longleftrightarrow> i \<le> j"
  "ParentStorageIno i < ParentStorageIno j \<longleftrightarrow> i < j"
  "BlockIndex c \<le> BlockIndex d \<longleftrightarrow> c \<le> d" "BlockIndex c < BlockIndex d \<longleftrightarrow> c < d"
  by (simp_all add: less_eq_storage_ino_def less_storage_ino_def
      less_eq_parent_storage_ino_def less_parent_storage_ino_def
      less_eq_block_index_def less_block_index_def)

type_synonym system_time = int
type_synonym tifs_hash = bytes
type_synonym name = bytes

section \<open>Inodes\<close>

record ino_lock_state =
  ls_owner_set :: "u64 set"
  ls_lk_type :: int

datatype storage_dir_item_kind = File | Directory | Symlink

record directory_item =
  dirit_ino :: storage_ino
  dirit_name :: bytes
  dirit_typ :: storage_dir_item_kind

record storage_dir_item =
  sdi_ino :: storage_ino
  sdi_typ :: storage_dir_item_kind

datatype storage_file_permission = StorageFilePermission (perm_raw: u16)

record ino_storage_file_attr =
  attr_perm :: storage_file_permission
  attr_uid :: u32
  attr_gid :: u32
  attr_rdev :: u32
  attr_flags :: u32
  attr_last_change :: system_time

datatype ino_access_time = InoAccessTime (access_time: system_time)

datatype ino_modification_time = InoModificationTime (modification_time: system_time)

record ino_description =
  desc_ino :: storage_ino
  desc_typ :: storage_dir_item_kind
  desc_creation_time :: system_time

datatype ino_change_iteration_id = InoChangeIterationId uuid

datatype ino_full_hash = InoFullHash (full_hash: tifs_hash)

record ino_inline_data =
  inl_inlined :: bytes
  inl_last_change :: system_time

record ino_size =
  isz_size :: u64
  isz_blocks :: u64
  isz_last_change :: system_time

record block_address =
  ba_ino :: storage_ino
  ba_index :: block_index

section \<open>File system metadata\<close>

record stat_fs =
  stat_blocks :: u64
  stat_bfree :: u64
  stat_bavail :: u64
  stat_files :: u64
  stat_ffree :: u64
  stat_bsize :: u32
  stat_namelen :: u32
  stat_frsize :: u32

record meta_static =
  ms_block_size :: u64
  ms_hashed_blocks :: bool
  ms_hash_algorithm :: string

record meta_mutable =
  mm_inode_next :: u64
  mm_last_stat :: "stat_fs option"

section \<open>Results of the hash file system interface\<close>

datatype got_or_made_pure = ExistedAlreadyPure | NewlyCreatedPure

datatype 'r got_or_made = ExistedAlready 'r | NewlyCreated 'r

fun was_made :: "'r got_or_made \<Rightarrow> bool" where
  "was_made (NewlyCreated _) = True"
| "was_made _ = False"

definition existed_before :: "'r got_or_made \<Rightarrow> bool" where
  "existed_before g \<longleftrightarrow> \<not> was_made g"

fun got_or_made_value :: "'r got_or_made \<Rightarrow> 'r" where
  "got_or_made_value (ExistedAlready r) = r"
| "got_or_made_value (NewlyCreated r) = r"

fun unpack :: "'r got_or_made \<Rightarrow> got_or_made_pure \<times> 'r" where
  "unpack (ExistedAlready r) = (ExistedAlreadyPure, r)"
| "unpack (NewlyCreated r) = (NewlyCreatedPure, r)"

section \<open>Hash algorithms\<close>

datatype hash_algorithm = Blake3 | Sha256 | Sha512

fun algo_name :: "hash_algorithm \<Rightarrow> string" where
  "algo_name Blake3 = ''BLAKE3''"
| "algo_name Sha256 = ''SHA-256''"
| "algo_name Sha512 = ''SHA-512''"

fun algo_hash_len :: "hash_algorithm \<Rightarrow> nat" where
  "algo_hash_len Blake3 = 32"
| "algo_hash_len Sha256 = 32"
| "algo_hash_len Sha512 = 64"

text \<open>\<open>ALGO_NAME_MAP.get_by_left\<close>\<close>

definition algo_by_name :: "string \<Rightarrow> hash_algorithm option" where
  "algo_by_name n = map_of [(algo_name Blake3, Blake3), (algo_name Sha256, Sha256),
     (algo_name Sha512, Sha512)] n"

text \<open>
  The digest functions of the \<open>blake3\<close> and \<open>sha2\<close> crates are a parameter: one function
  per algorithm. What the code relies on is the digest length.
\<close>

type_synonym digests = "hash_algorithm \<Rightarrow> bytes \<Rightarrow> tifs_hash"

definition digest_lengths :: "digests \<Rightarrow> bool" where
  "digest_lengths H \<longleftrightarrow> (\<forall>a d. length (H a d) = algo_hash_len a)"

text \<open>\<open>HashAlgorithm::calculate_hash\<close>\<close>

definition calculate_hash_with :: "digests \<Rightarrow> hash_algorithm \<Rightarrow> bytes \<Rightarrow> tifs_hash" where
  "calculate_hash_with H algo input =
     (case algo of Blake3 \<Rightarrow> H Blake3 input | Sha256 \<Rightarrow> H Sha256 input | Sha512 \<Rightarrow> H Sha512 input)"

lemma calculate_hash_with_eq [simp]: "calculate_hash_with H algo d = H algo d"
  by (cases algo) (simp_all add: calculate_hash_with_def)

section \<open>Logical inode kinds and open modes\<close>

datatype ino_kind = Regular | Hash | Hashes

datatype open_mode = ReadOnly | WriteOnly | ReadWrite

definition allows_write :: "open_mode \<Rightarrow> bool" where
  "allows_write m \<longleftrightarrow> m \<noteq> ReadOnly"

end
