(* ===== verification/Fs_Error.thy ===== *)
theory Fs_Error
  imports Fs_Types
begin

text \<open>
  The error values of the program and the conversions between them: \<open>FsError\<close>
  (\<open>src/src/fs/error.rs\<close>) with its conversion to POSIX error numbers, \<open>HashFsError\<close>
  (\<open>hash_fs_interface.rs\<close>) with the conversions in both directions
  (\<open>hash_fs_tikv_implementation.rs\<close>), and \<open>TransactionError\<close>
  (\<open>flexible_transaction.rs\<close>), which decides whether a transaction is tried again.
\<close>

section \<open>The error types\<close>

datatype fs_error =
    Unimplemented
  | InvalidScopedKey bytes
  | Serialize string string string
  | NameTooLong bytes
  | FileNotFound bytes
  | FileExist bytes
  | InodeNotFound storage_ino
  | FhNotFound u64
  | InvalidOffset u64 int
  | UnknownWhence int
  | BlockNotFound storage_ino u64
  | DirNotEmpty bytes
  | InvalidStr
  | WrongFileType
  | UnknownFileType
  | KeyError string
  | RetryTimesExcess u64
  | StripPrefixError
  | UnknownError string
  | InvalidLock
  | BlockSizeConflict u64 u64
  | NoSpaceLeft u64
  | ChecksumMismatch tifs_hash tifs_hash
  | InoKindNotSupported ino_kind
  | ConfigParsingFailed string
  | KeyNotFound "string option"
  | TryLockFailed
  | WriteNotAllowed
  | CloseFailedDueToWrongInoOrUseId
  | GrpcMessageIncomplete

type_synonym 'a tifs_result = "fs_error + 'a"

datatype hash_fs_error =
    H_Unspecific string
  | H_RawGrpcStatus "string option"
  | H_FsNotInitialized
  | H_FsHasInvalidData "string option"
  | H_FsHasMissingData "string option"
  | H_FileNotFound
  | H_FileAlreadyExists
  | H_InodeHasNoInlineData
  | H_GrpcMessageIncomplete
  | H_RawTonicTransportError string

type_synonym 'a hash_fs_result = "hash_fs_error + 'a"

section \<open>Errors of the TiKV client\<close>

text \<open>
  The error type of the \<open>tikv_client\<close> crate is third-party; the program tells three
  cases apart (\<open>impl From<tikv_client::Error> for FsError\<close>).
\<close>

datatype tikv_error = TikvKeyError string | TikvMultipleKeyErrors string | TikvOther string

fun fs_error_of_tikv :: "tikv_error \<Rightarrow> fs_error" where
  "fs_error_of_tikv (TikvKeyError m) = KeyError m"
| "fs_error_of_tikv (TikvMultipleKeyErrors m) = KeyError m"
| "fs_error_of_tikv (TikvOther m) = UnknownError m"

text \<open>The errors that a failing call of the store can surface as.\<close>

definition store_error :: "fs_error \<Rightarrow> bool" where
  "store_error e \<longleftrightarrow> (\<exists>m. e = KeyError m \<or> e = UnknownError m)"

lemma store_error_of_tikv [simp]: "store_error (fs_error_of_tikv e)"
  by (cases e) (simp_all add: store_error_def)

section \<open>POSIX error numbers\<close>

text \<open>The constants of the \<open>libc\<close> crate on Linux.\<close>

abbreviation ENOENT :: int where "ENOENT \<equiv> 2"
abbreviation EBADF :: int where "EBADF \<equiv> 9"
abbreviation EAGAIN :: int where "EAGAIN \<equiv> 11"
abbreviation EFAULT :: int where "EFAULT \<equiv> 14"
abbreviation EEXIST :: int where "EEXIST \<equiv> 17"
abbreviation EINVAL :: int where "EINVAL \<equiv> 22"
abbreviation ENOSPC :: int where "ENOSPC \<equiv> 28"
abbreviation ERANGE :: int where "ERANGE \<equiv> 34"
abbreviation ENAMETOOLONG :: int where "ENAMETOOLONG \<equiv> 36"
abbreviation ENOSYS :: int where "ENOSYS \<equiv> 38"
abbreviation ENOTEMPTY :: int where "ENOTEMPTY \<equiv> 39"

fun errno_of :: "fs_error \<Rightarrow> int" where
  "errno_of Unimplemented = ENOSYS"
| "errno_of (NameTooLong _) = ENAMETOOLONG"
| "errno_of (FileNotFound _) = ENOENT"
| "errno_of (FileExist _) = EEXIST"
| "errno_of (InodeNotFound _) = EFAULT"
| "errno_of (KeyNotFound _) = EFAULT"
| "errno_of (FhNotFound _) = EBADF"
| "errno_of (InvalidOffset _ _) = EINVAL"
| "errno_of (UnknownWhence _) = EINVAL"
| "errno_of (BlockNotFound _ _) = EINVAL"
| "errno_of (DirNotEmpty _) = ENOTEMPTY"
| "errno_of UnknownFileType = EINVAL"
| "errno_of (KeyError _) = EAGAIN"
| "errno_of (RetryTimesExcess _) = EAGAIN"
| "errno_of InvalidStr = EINVAL"
| "errno_of (BlockSizeConflict _ _) = EINVAL"
| "errno_of (NoSpaceLeft _) = ENOSPC"
| "errno_of (ChecksumMismatch _ _) = ERANGE"
| "errno_of _ = EFAULT"

section \<open>Conversions between the two error types\<close>

fun fs_error_of_hash :: "hash_fs_error \<Rightarrow> fs_error" where
  "fs_error_of_hash (H_RawGrpcStatus _) = UnknownError ''Error: GRPC Status: {status:?}''"
| "fs_error_of_hash H_FsNotInitialized = ConfigParsingFailed ''Fs not initialized.''"
| "fs_error_of_hash (H_FsHasInvalidData _) = UnknownError ''msg: {msg:?}''"
| "fs_error_of_hash H_FileNotFound = FileNotFound (map (of_nat \<circ> of_char) ''undefined'')"
| "fs_error_of_hash (H_FsHasMissingData msg) = KeyNotFound msg"
| "fs_error_of_hash (H_Unspecific msg) = UnknownError msg"
| "fs_error_of_hash H_FileAlreadyExists = FileExist (map (of_nat \<circ> of_char) ''undefined'')"
| "fs_error_of_hash H_InodeHasNoInlineData = WrongFileType"
| "fs_error_of_hash H_GrpcMessageIncomplete = GrpcMessageIncomplete"
| "fs_error_of_hash (H_RawTonicTransportError _) = UnknownError ''RawTonicTransportError: {:?}''"

fun hash_error_of_fs :: "fs_error \<Rightarrow> hash_fs_error" where
  "hash_error_of_fs (InodeNotFound _) = H_FileNotFound"
| "hash_error_of_fs (FileNotFound _) = H_FileNotFound"
| "hash_error_of_fs (KeyNotFound _) = H_FsHasMissingData (Some ''key not found: {:?}'')"
| "hash_error_of_fs _ = H_Unspecific ''FsError: {other:?}''"

section \<open>Which errors are retried\<close>

datatype transaction_error = TemporaryIssue fs_error | PersistentIssue fs_error

fun transaction_error_of :: "fs_error \<Rightarrow> transaction_error" where
  "transaction_error_of (KeyError m) = TemporaryIssue (KeyError m)"
| "transaction_error_of TryLockFailed = TemporaryIssue TryLockFailed"
| "transaction_error_of (UnknownError m) = TemporaryIssue (UnknownError m)"
| "transaction_error_of e = PersistentIssue e"

lemma store_error_temporary: "store_error e \<Longrightarrow> transaction_error_of e = TemporaryIssue e"
  by (auto simp: store_error_def)

section \<open>Facts\<close>


end
