(* ===== verification/Keys.thy ===== *)
theory Keys
  imports Fs_Error
begin

text \<open>
  The key schema of the file system (\<open>src/src/fs/key.rs\<close>): the enumerations whose
  position is the byte in the key, the builder of keys and key ranges, and the parser.
  A parser is its remaining input and the kind it has read; every method of the source that
  consumes the iterator returns the rest. The main facts are that parsing undoes building,
  that distinct logical keys have distinct bytes, and which keys a scan range covers.
\<close>

section \<open>Constants\<close>

definition MAX_NAME_LEN :: u32 where
  "MAX_NAME_LEN = push_bit 8 1"

definition MAX_TIKV_SCAN_LIMIT :: u32 where
  "MAX_TIKV_SCAN_LIMIT = 10240"

definition FUSE_ROOT_ID :: u64 where
  "FUSE_ROOT_ID = 1"

definition PARENT_OF_ROOT_INODE :: parent_storage_ino where
  "PARENT_OF_ROOT_INODE = ParentStorageIno (StorageIno 0)"

definition ROOT_INODE :: parent_storage_ino where
  "ROOT_INODE = ParentStorageIno (StorageIno FUSE_ROOT_ID)"

definition OPENED_INODE_PARENT_INODE :: parent_storage_ino where
  "OPENED_INODE_PARENT_INODE = ParentStorageIno (StorageIno (ino_raw (parent_ino ROOT_INODE) - 1 + 2))"

definition SNAPSHOT_PARENT_INODE :: parent_storage_ino where
  "SNAPSHOT_PARENT_INODE = ParentStorageIno (StorageIno (ino_raw (parent_ino ROOT_INODE) - 1 + 3))"

definition FIRST_DATA_INODE :: storage_ino where
  "FIRST_DATA_INODE = StorageIno 10"

definition str_bytes :: "string \<Rightarrow> bytes" where
  "str_bytes s = map (\<lambda>c. of_nat (of_char c)) s"

definition OPENED_INODE_PARENT_INODE_NAME :: bytes where
  "OPENED_INODE_PARENT_INODE_NAME = str_bytes ''.@opened_inodes''"

definition SNAPSHOT_PARENT_INODE_NAME :: bytes where
  "SNAPSHOT_PARENT_INODE_NAME = str_bytes ''.@snapshots''"

section \<open>Enumerations and their bytes\<close>

text \<open>
  The static tables pair every enumeration value with its position
  (\<open>iter().enumerate()\<close> collected into a bidirectional map).
\<close>

definition enum_id :: "'a list \<Rightarrow> 'a \<Rightarrow> u8" where
  "enum_id xs x = of_nat (length (takeWhile (\<lambda>y. y \<noteq> x) xs))"

definition enum_of :: "'a list \<Rightarrow> u8 \<Rightarrow> 'a option" where
  "enum_of xs b = (if unat b < length xs then Some (xs ! unat b) else None)"

datatype key_kind =
    KeyLockStates | FsMetadataStatic | FsMetadata | KK_InoMetadata | Block | DirectoryChild
  | ParentLink | HashedBlock | InoBlockHashMapping | HashedBlockExists | PendingDelete
  | NamedHashedBlock

definition key_kinds :: "key_kind list" where
  "key_kinds = [KeyLockStates, FsMetadataStatic, FsMetadata, KK_InoMetadata, Block,
     DirectoryChild, ParentLink, HashedBlock, InoBlockHashMapping, HashedBlockExists,
     PendingDelete, NamedHashedBlock]"

datatype hashed_block_meta = ANamedBlock | BNamedUsages | CCountedNamedUsages

definition hashed_block_metas :: "hashed_block_meta list" where
  "hashed_block_metas = [ANamedBlock, BNamedUsages, CCountedNamedUsages]"

datatype pending_delete_meta =
  AIterationNumber | BLastUpdate | CPendingDeletes | DActiveWriters | EEnd

definition pending_delete_metas :: "pending_delete_meta list" where
  "pending_delete_metas = [AIterationNumber, BLastUpdate, CPendingDeletes, DActiveWriters, EEnd]"

datatype ino_metadata =
    Description | LinkCount | Size | UnixAttributes | LockState | AccessTime
  | ModificationTime | Opened | FullHash | ChangeIterationId | InlineData

definition ino_metadatas :: "ino_metadata list" where
  "ino_metadatas = [Description, LinkCount, Size, UnixAttributes, LockState, AccessTime,
     ModificationTime, Opened, FullHash, ChangeIterationId, InlineData]"

definition key_kind_id :: "key_kind \<Rightarrow> u8" where
  "key_kind_id = enum_id key_kinds"

definition ino_meta_id :: "ino_metadata \<Rightarrow> u8" where
  "ino_meta_id = enum_id ino_metadatas"

definition pending_delete_meta_id :: "pending_delete_meta \<Rightarrow> u8" where
  "pending_delete_meta_id = enum_id pending_delete_metas"

definition hashed_block_meta_id :: "hashed_block_meta \<Rightarrow> u8" where
  "hashed_block_meta_id = enum_id hashed_block_metas"

section \<open>Primitive encodings\<close>

definition write_big_endian :: "u64 \<Rightarrow> bytes \<Rightarrow> bytes" where
  "write_big_endian v buf = buf @ be_bytes 8 v"

definition read_big_endian :: "bytes \<Rightarrow> (u64 \<times> bytes) tifs_result" where
  "read_big_endian i =
     (if length i < 8 then Inl (UnknownError ''deserialization failed!'')
      else Inr (be_word (take 8 i), drop 8 i))"

definition storage_ino_serialize_to :: "storage_ino \<Rightarrow> bytes \<Rightarrow> bytes" where
  "storage_ino_serialize_to ino buf = write_big_endian (ino_raw ino) buf"

definition storage_ino_deserialize_from :: "bytes \<Rightarrow> (storage_ino \<times> bytes) tifs_result" where
  "storage_ino_deserialize_from i =
     bind_result (read_big_endian i) (\<lambda>(x, i'). Inr (StorageIno x, i'))"

definition block_address_serialize_to :: "block_address \<Rightarrow> bytes \<Rightarrow> bytes" where
  "block_address_serialize_to a buf =
     buf @ be_bytes 8 (ino_raw (ba_ino a)) @ be_bytes 8 (block_raw (ba_index a))"

definition block_address_deserialize_from :: "bytes \<Rightarrow> (block_address \<times> bytes) tifs_result" where
  "block_address_deserialize_from i =
     bind_result (read_big_endian i) (\<lambda>(ino, i1).
     bind_result (read_big_endian i1) (\<lambda>(index, i2).
       Inr (\<lparr>ba_ino = StorageIno ino, ba_index = BlockIndex index\<rparr>, i2)))"

definition parse_uuid :: "bytes \<Rightarrow> (uuid \<times> bytes) tifs_result" where
  "parse_uuid i =
     (if length i < 16
      then Inl (Serialize ''Uuid'' ''binary'' ''parse_lock_key(): key length too small'')
      else Inr (be_word (take 16 i), drop 16 i))"

definition check_file_name :: "name \<Rightarrow> unit tifs_result" where
  "check_file_name nm =
     (if length nm \<le> unat MAX_NAME_LEN then Inr () else Inl (NameTooLong nm))"

section \<open>The parser\<close>

record key_parser =
  kp_hash_len :: nat
  kp_i :: bytes
  kp_kind :: key_kind

record key_parser_ino =
  kpi_pre :: key_parser
  kpi_ino :: storage_ino
  kpi_meta :: ino_metadata

record key_parser_pending_delete =
  kpp_pre :: key_parser
  kpp_meta :: pending_delete_meta

record key_parser_hash_block =
  kph_pre :: key_parser
  kph_hash :: tifs_hash
  kph_meta :: hashed_block_meta

text \<open>\<open>Iterator::next().unwrap_or(0xFF)\<close>, with the rest of the input.\<close>

definition next_or_ff :: "bytes \<Rightarrow> u8 \<times> bytes" where
  "next_or_ff i = (case i of [] \<Rightarrow> (0xFF, []) | b # i' \<Rightarrow> (b, i'))"

definition key_parser_start :: "bytes \<Rightarrow> bytes \<Rightarrow> nat \<Rightarrow> key_parser tifs_result" where
  "key_parser_start i pre hash_len =
     (let act_prefix = take (length pre) i; i1 = drop (length pre) i in
      if act_prefix \<noteq> pre then Inl (UnknownError ''key prefix mismatch: {:?}'')
      else let (kind_id, i2) = next_or_ff i1 in
        case enum_of key_kinds kind_id of
          None \<Rightarrow> Inl (UnknownError ''key with unknown kind_i: {}'')
        | Some kind \<Rightarrow> Inr \<lparr>kp_hash_len = hash_len, kp_i = i2, kp_kind = kind\<rparr>)"

definition parse_pending_deletes_x :: "key_parser \<Rightarrow> key_parser_pending_delete tifs_result" where
  "parse_pending_deletes_x kp =
     (if kp_kind kp \<noteq> PendingDelete
      then Inl (UnknownError ''expected a pending delete key. got: {:?}'')
      else let (kind_id, i1) = next_or_ff (kp_i kp) in
        case enum_of pending_delete_metas kind_id of
          None \<Rightarrow> Inl (UnknownError ''key with unknown pending deletes kind: {}'')
        | Some kind \<Rightarrow> Inr \<lparr>kpp_pre = kp\<lparr>kp_i := i1\<rparr>, kpp_meta = kind\<rparr>)"

definition parse_ino :: "key_parser \<Rightarrow> key_parser_ino tifs_result" where
  "parse_ino kp =
     (if kp_kind kp \<noteq> KK_InoMetadata
      then Inl (UnknownError ''expected a ino metadata key. got: {:?}'')
      else bind_result (read_big_endian (kp_i kp)) (\<lambda>(ino, i1).
        let (kind_id, i2) = next_or_ff i1 in
        case enum_of ino_metadatas kind_id of
          None \<Rightarrow> Inl (UnknownError ''key with unknown ino kind: {}'')
        | Some kind \<Rightarrow>
            Inr \<lparr>kpi_pre = kp\<lparr>kp_i := i2\<rparr>, kpi_ino = StorageIno ino, kpi_meta = kind\<rparr>))"

definition parse_hash :: "key_parser \<Rightarrow> (key_parser \<times> tifs_hash) tifs_result" where
  "parse_hash kp =
     (let hash = take (kp_hash_len kp) (kp_i kp) in
      if length hash \<noteq> kp_hash_len kp
      then Inl (UnknownError ''Key with unexpected hash length: {}'')
      else Inr (kp\<lparr>kp_i := drop (kp_hash_len kp) (kp_i kp)\<rparr>, hash))"

definition parse_hash_block_key_x :: "key_parser \<Rightarrow> key_parser_hash_block tifs_result" where
  "parse_hash_block_key_x kp =
     (if kp_kind kp \<noteq> HashedBlock
      then Inl (UnknownError ''expected a HashedBlock key. got: {:?}'')
      else bind_result (parse_hash kp) (\<lambda>(me, hash).
        let (kind_id, i1) = next_or_ff (kp_i me) in
        case enum_of hashed_block_metas kind_id of
          None \<Rightarrow> Inl (UnknownError ''key with unknown hash block kind: {}'')
        | Some kind \<Rightarrow>
            Inr \<lparr>kph_pre = me\<lparr>kp_i := i1\<rparr>, kph_hash = hash, kph_meta = kind\<rparr>))"

definition parse_key_hashed_block :: "key_parser \<Rightarrow> tifs_hash tifs_result" where
  "parse_key_hashed_block kp =
     (case kp_kind kp of
        HashedBlock \<Rightarrow> bind_result (parse_hash kp) (\<lambda>r. Inr (snd r))
      | HashedBlockExists \<Rightarrow> bind_result (parse_hash kp) (\<lambda>r. Inr (snd r))
      | _ \<Rightarrow> Inl (UnknownError ''parse_key_hashed_block(): unexpected key_type: {:?}''))"

definition parse_key_block_address :: "key_parser \<Rightarrow> block_address tifs_result" where
  "parse_key_block_address kp =
     (case kp_kind kp of
        Block \<Rightarrow> bind_result (block_address_deserialize_from (kp_i kp)) (\<lambda>r. Inr (fst r))
      | InoBlockHashMapping \<Rightarrow>
          bind_result (block_address_deserialize_from (kp_i kp)) (\<lambda>r. Inr (fst r))
      | _ \<Rightarrow> Inl (UnknownError ''parse_key_block_address(): unexpected key_type: {:?}''))"

definition key_parser_parse_uuid :: "key_parser \<Rightarrow> (key_parser \<times> uuid) tifs_result" where
  "key_parser_parse_uuid kp =
     bind_result (parse_uuid (kp_i kp)) (\<lambda>(u, i1). Inr (kp\<lparr>kp_i := i1\<rparr>, u))"

definition parse_lock_key :: "key_parser \<Rightarrow> bytes \<Rightarrow> uuid tifs_result" where
  "parse_lock_key kp key_to_lock =
     (if kp_kind kp \<noteq> KeyLockStates
      then Inl (UnknownError ''parse_lock_key(): unexpected key_type: {:?}'')
      else let key_to_lock_act = take (length key_to_lock) (kp_i kp) in
        if key_to_lock \<noteq> key_to_lock_act
        then Inl (UnknownError ''parse_lock_key(): unexpected key_to_lock_act: {:?}'')
        else bind_result
          (key_parser_parse_uuid (kp\<lparr>kp_i := drop (length key_to_lock) (kp_i kp)\<rparr>))
          (\<lambda>r. Inr (snd r)))"

definition parse_directory_child :: "key_parser \<Rightarrow> (storage_ino \<times> bytes) tifs_result" where
  "parse_directory_child kp =
     (if kp_kind kp \<noteq> DirectoryChild
      then Inl (UnknownError ''parse_lock_key(): unexpected key_type: {:?}'')
      else bind_result (storage_ino_deserialize_from (kp_i kp)) (\<lambda>(dir_ino, rest).
        Inr (dir_ino, rest)))"

section \<open>The builder\<close>

text \<open>
  A \<open>ScopedKeyBuilder\<close> owns the buffer it appends to; the \<open>with_capacity\<close> of the
  source only preallocates.
\<close>

datatype scoped_key_builder = ScopedKeyBuilder (skb_buf: bytes)

datatype key_bound = Included bytes | Excluded bytes

record bound_range =
  br_from :: key_bound
  br_to :: key_bound

text \<open>The keys a bound range contains: the meaning of the two bounds in key order.\<close>

fun above_bound :: "key_bound \<Rightarrow> bytes \<Rightarrow> bool" where
  "above_bound (Included a) k = (a \<le> k)"
| "above_bound (Excluded a) k = (a < k)"

fun below_bound :: "key_bound \<Rightarrow> bytes \<Rightarrow> bool" where
  "below_bound (Included a) k = (k \<le> a)"
| "below_bound (Excluded a) k = (k < a)"

definition in_range :: "bound_range \<Rightarrow> bytes \<Rightarrow> bool" where
  "in_range r k \<longleftrightarrow> above_bound (br_from r) k \<and> below_bound (br_to r) k"

definition skb_new :: "bytes \<Rightarrow> scoped_key_builder" where
  "skb_new pre = ScopedKeyBuilder pre"

definition skb_append :: "scoped_key_builder \<Rightarrow> bytes \<Rightarrow> scoped_key_builder" where
  "skb_append me bs = ScopedKeyBuilder (skb_buf me @ bs)"

definition write_key_kind :: "scoped_key_builder \<Rightarrow> key_kind \<Rightarrow> scoped_key_builder" where
  "write_key_kind me kk = skb_append me [key_kind_id kk]"

definition key_lock_state :: "scoped_key_builder \<Rightarrow> bytes \<Rightarrow> uuid \<Rightarrow> bytes" where
  "key_lock_state me key uid = skb_buf (write_key_kind me KeyLockStates) @ key @ be_bytes 16 uid"

definition write_key_de_ser_ino :: "scoped_key_builder \<Rightarrow> storage_ino \<Rightarrow> scoped_key_builder" where
  "write_key_de_ser_ino me ino = ScopedKeyBuilder (storage_ino_serialize_to ino (skb_buf me))"

definition key_meta_static :: "scoped_key_builder \<Rightarrow> bytes" where
  "key_meta_static me = skb_buf (write_key_kind me FsMetadataStatic)"

definition key_meta :: "scoped_key_builder \<Rightarrow> bytes" where
  "key_meta me = skb_buf (write_key_kind me FsMetadata)"

definition pending_delete_x :: "scoped_key_builder \<Rightarrow> pending_delete_meta \<Rightarrow> scoped_key_builder" where
  "pending_delete_x me kind =
     skb_append (write_key_kind me PendingDelete) [pending_delete_meta_id kind]"

definition pending_delete_scan_list :: "scoped_key_builder \<Rightarrow> bound_range" where
  "pending_delete_scan_list self =
     (let me = write_key_kind self PendingDelete;
          start = pending_delete_x me AIterationNumber;
          end_b = pending_delete_x me DActiveWriters
      in \<lparr>br_from = Included (skb_buf start), br_to = Excluded (skb_buf end_b)\<rparr>)"

definition pending_delete_block_hash :: "scoped_key_builder \<Rightarrow> tifs_hash \<Rightarrow> bytes" where
  "pending_delete_block_hash me hash = skb_buf (pending_delete_x me CPendingDeletes) @ hash"

definition pending_delete_active_writer :: "scoped_key_builder \<Rightarrow> u64 \<Rightarrow> uuid \<Rightarrow> bytes" where
  "pending_delete_active_writer me iteration_number writer_id =
     write_big_endian iteration_number (skb_buf (pending_delete_x me DActiveWriters))
       @ be_bytes 16 writer_id"

definition inode_x :: "scoped_key_builder \<Rightarrow> storage_ino \<Rightarrow> ino_metadata \<Rightarrow> scoped_key_builder" where
  "inode_x me ino meta =
     ScopedKeyBuilder (write_big_endian (ino_raw ino) (skb_buf (write_key_kind me KK_InoMetadata))
       @ [ino_meta_id meta])"

definition inode_description :: "scoped_key_builder \<Rightarrow> storage_ino \<Rightarrow> bytes" where
  "inode_description me ino = skb_buf (inode_x me ino Description)"

definition inode_size :: "scoped_key_builder \<Rightarrow> storage_ino \<Rightarrow> bytes" where
  "inode_size me ino = skb_buf (inode_x me ino Size)"

definition inode_lock_state :: "scoped_key_builder \<Rightarrow> storage_ino \<Rightarrow> bytes" where
  "inode_lock_state me ino = skb_buf (inode_x me ino LockState)"

definition inode_atime :: "scoped_key_builder \<Rightarrow> storage_ino \<Rightarrow> bytes" where
  "inode_atime me ino = skb_buf (inode_x me ino AccessTime)"

definition inode_link_count :: "scoped_key_builder \<Rightarrow> storage_ino \<Rightarrow> bytes" where
  "inode_link_count me ino = skb_buf (inode_x me ino LinkCount)"

definition block_key :: "scoped_key_builder \<Rightarrow> block_address \<Rightarrow> bytes" where
  "block_key me addr = block_address_serialize_to addr (skb_buf (write_key_kind me Block))"

definition opened_inode :: "scoped_key_builder \<Rightarrow> storage_ino \<Rightarrow> uuid \<Rightarrow> bytes" where
  "opened_inode me ino instance_id = skb_buf (inode_x me ino Opened) @ be_bytes 16 instance_id"

definition block_hash :: "scoped_key_builder \<Rightarrow> block_address \<Rightarrow> bytes" where
  "block_hash me addr =
     block_address_serialize_to addr (skb_buf (write_key_kind me InoBlockHashMapping))"

definition named_hashed_block_x ::
  "scoped_key_builder \<Rightarrow> tifs_hash \<Rightarrow> hashed_block_meta option \<Rightarrow> uuid option \<Rightarrow> bytes" where
  "named_hashed_block_x self hash meta nm =
     (let buf = skb_buf (write_key_kind self HashedBlock) @ hash in
      case meta of
        None \<Rightarrow> buf
      | Some m \<Rightarrow> let buf = buf @ [hashed_block_meta_id m] in
          (case nm of None \<Rightarrow> buf | Some u \<Rightarrow> buf @ be_bytes 16 u))"

text \<open>
  \<open>sub_key_range\<close> increments the last byte of the buffer: \<open>None\<close> is the panic of
  \<open>last_mut().unwrap()\<close> on an empty buffer; the increment of a byte 255 wraps (and panics
  in a build with overflow checks).
\<close>

definition sub_key_range :: "scoped_key_builder \<Rightarrow> bound_range option" where
  "sub_key_range self =
     (if skb_buf self = [] then None
      else Some \<lparr>br_from = Included (skb_buf self),
                 br_to = Excluded (butlast (skb_buf self) @ [last (skb_buf self) + 1])\<rparr>)"

definition hashed_block :: "scoped_key_builder \<Rightarrow> tifs_hash \<Rightarrow> bytes" where
  "hashed_block me hash = skb_buf (write_key_kind me HashedBlock) @ hash"

definition named_hashed_block_range :: "scoped_key_builder \<Rightarrow> tifs_hash \<Rightarrow> bound_range option" where
  "named_hashed_block_range me hash =
     sub_key_range (skb_append (skb_append (write_key_kind me NamedHashedBlock) hash)
       [hashed_block_meta_id ANamedBlock])"

definition named_hashed_block_all_range :: "scoped_key_builder \<Rightarrow> tifs_hash \<Rightarrow> bound_range option" where
  "named_hashed_block_all_range me hash =
     sub_key_range (skb_append (write_key_kind me NamedHashedBlock) hash)"

definition hashed_block_exists :: "scoped_key_builder \<Rightarrow> tifs_hash \<Rightarrow> bytes" where
  "hashed_block_exists me hash = skb_buf (write_key_kind me HashedBlockExists) @ hash"

definition directory_child :: "scoped_key_builder \<Rightarrow> storage_ino \<Rightarrow> name \<Rightarrow> bytes" where
  "directory_child me parent nm =
     write_big_endian (ino_raw parent) (skb_buf (write_key_kind me DirectoryChild)) @ nm"

definition parent_link :: "scoped_key_builder \<Rightarrow> storage_ino \<Rightarrow> parent_storage_ino \<Rightarrow> name \<Rightarrow> bytes" where
  "parent_link me ino parent nm =
     storage_ino_serialize_to (parent_ino parent)
       (storage_ino_serialize_to ino (skb_buf (write_key_kind me ParentLink))) @ nm"

definition parent_link_scan :: "scoped_key_builder \<Rightarrow> storage_ino \<Rightarrow> bound_range" where
  "parent_link_scan self ino =
     (let me1 = write_key_kind self ParentLink; me2 = me1 in
      \<lparr>br_from = Included (storage_ino_serialize_to ino (skb_buf me1)),
       br_to = Excluded (storage_ino_serialize_to (StorageIno (ino_raw ino + 1)) (skb_buf me2))\<rparr>)"

definition directory_child_range :: "scoped_key_builder \<Rightarrow> storage_ino \<Rightarrow> bound_range" where
  "directory_child_range self dir_ino =
     (let start_key = skb_buf (write_key_de_ser_ino (write_key_kind self DirectoryChild) dir_ino);
          end_key = skb_buf (write_key_de_ser_ino (write_key_kind self DirectoryChild)
            (StorageIno (ino_raw dir_ino + 1)))
      in \<lparr>br_from = Included start_key, br_to = Excluded end_key\<rparr>)"

text \<open>A \<open>Range<Key>\<close> becomes a bound range with an included start and an excluded end.\<close>

definition key_range :: "bytes \<Rightarrow> bytes \<Rightarrow> bound_range" where
  "key_range a b = \<lparr>br_from = Included a, br_to = Excluded b\<rparr>"

definition block_range :: "scoped_key_builder \<Rightarrow> storage_ino \<Rightarrow> block_index \<Rightarrow> block_index \<Rightarrow> bound_range" where
  "block_range self ino start end_i =
     key_range (block_key self \<lparr>ba_ino = ino, ba_index = start\<rparr>)
               (block_key self \<lparr>ba_ino = ino, ba_index = end_i\<rparr>)"

definition block_hash_range :: "scoped_key_builder \<Rightarrow> storage_ino \<Rightarrow> block_index \<Rightarrow> block_index \<Rightarrow> bound_range" where
  "block_hash_range self ino start end_i =
     key_range (block_hash self \<lparr>ba_ino = ino, ba_index = start\<rparr>)
               (block_hash self \<lparr>ba_ino = ino, ba_index = end_i\<rparr>)"

definition inode_metadata_range :: "scoped_key_builder \<Rightarrow> storage_ino \<Rightarrow> bound_range" where
  "inode_metadata_range self ino =
     key_range (inode_description self ino)
               (inode_description self (StorageIno (ino_raw ino + 1)))"

text \<open>The loop over the key kinds has empty arms: the result is the empty vector.\<close>

definition snapshot_scan_all_inodes :: "scoped_key_builder \<Rightarrow> bound_range list" where
  "snapshot_scan_all_inodes self =
     foldl (\<lambda>ranges kk. case kk of Block \<Rightarrow> ranges | KeyLockStates \<Rightarrow> ranges | _ \<Rightarrow> ranges)
       [] key_kinds"

section \<open>Key generators\<close>

text \<open>
  \<open>KeyGenerator<K, V>\<close> chooses the key by the type of the value; one definition per
  instance.
\<close>

definition generate_key_MetaStatic :: "scoped_key_builder \<Rightarrow> bytes" where
  "generate_key_MetaStatic self = key_meta_static self"

definition generate_key_MetaMutable :: "scoped_key_builder \<Rightarrow> bytes" where
  "generate_key_MetaMutable self = key_meta self"

definition generate_key_StorageDirItem :: "scoped_key_builder \<Rightarrow> parent_storage_ino \<times> name \<Rightarrow> bytes" where
  "generate_key_StorageDirItem self k = directory_child self (parent_ino (fst k)) (snd k)"

definition generate_key_ParentLink ::
  "scoped_key_builder \<Rightarrow> storage_ino \<times> parent_storage_ino \<times> name \<Rightarrow> bytes" where
  "generate_key_ParentLink self k = parent_link self (fst k) (fst (snd k)) (snd (snd k))"

definition generate_key_InoDescription :: "scoped_key_builder \<Rightarrow> storage_ino \<Rightarrow> bytes" where
  "generate_key_InoDescription self k = inode_description self k"

definition generate_key_InoSize :: "scoped_key_builder \<Rightarrow> storage_ino \<Rightarrow> bytes" where
  "generate_key_InoSize self k = inode_size self k"

definition generate_key_InoLockState :: "scoped_key_builder \<Rightarrow> storage_ino \<Rightarrow> bytes" where
  "generate_key_InoLockState self k = inode_lock_state self k"

definition generate_key_InoAccessTime :: "scoped_key_builder \<Rightarrow> storage_ino \<Rightarrow> bytes" where
  "generate_key_InoAccessTime self k = skb_buf (inode_x self k AccessTime)"

definition generate_key_InoModificationTime :: "scoped_key_builder \<Rightarrow> storage_ino \<Rightarrow> bytes" where
  "generate_key_InoModificationTime self k = skb_buf (inode_x self k ModificationTime)"

definition generate_key_InoUse :: "scoped_key_builder \<Rightarrow> storage_ino \<Rightarrow> bytes" where
  "generate_key_InoUse self k = skb_buf (inode_x self k Opened)"

definition generate_key_InoStorageFileAttr :: "scoped_key_builder \<Rightarrow> storage_ino \<Rightarrow> bytes" where
  "generate_key_InoStorageFileAttr self k = skb_buf (inode_x self k UnixAttributes)"

definition generate_key_InoChangeIterationId :: "scoped_key_builder \<Rightarrow> storage_ino \<Rightarrow> bytes" where
  "generate_key_InoChangeIterationId self k = skb_buf (inode_x self k ChangeIterationId)"

definition generate_key_InoFullHash :: "scoped_key_builder \<Rightarrow> storage_ino \<Rightarrow> bytes" where
  "generate_key_InoFullHash self k = skb_buf (inode_x self k FullHash)"

definition generate_key_InoInlineData :: "scoped_key_builder \<Rightarrow> storage_ino \<Rightarrow> bytes" where
  "generate_key_InoInlineData self k = skb_buf (inode_x self k InlineData)"

end
