(* ===== verification/Key_Facts.thy ===== *)
theory Key_Facts
  imports Keys
begin

text \<open>
  Facts about the key schema of \<^verbatim>\<open>key.rs\<close>: the tables are inverse to each other, parsing
  undoes building, distinct logical keys have distinct bytes, and the scan ranges cover the
  keys they are meant to cover.
\<close>

section \<open>Tables\<close>

lemma takeWhile_neq_length: "x \<in> set xs \<Longrightarrow> length (takeWhile (\<lambda>y. y \<noteq> x) xs) < length xs"
  by (induction xs) auto

lemma nth_takeWhile_neq: "x \<in> set xs \<Longrightarrow> xs ! length (takeWhile (\<lambda>y. y \<noteq> x) xs) = x"
  by (induction xs) auto

lemma unat_enum_id:
  assumes "x \<in> set xs" and "length xs \<le> 256"
  shows "unat (enum_id xs x) = length (takeWhile (\<lambda>y. y \<noteq> x) xs)"
proof -
  have "length (takeWhile (\<lambda>y. y \<noteq> x) xs) < 256"
    using takeWhile_neq_length [OF assms(1)] assms(2) by simp
  then show ?thesis by (simp add: enum_id_def unat_of_nat)
qed

lemma enum_of_enum_id: "x \<in> set xs \<Longrightarrow> length xs \<le> 256 \<Longrightarrow> enum_of xs (enum_id xs x) = Some x"
  by (simp add: enum_of_def unat_enum_id takeWhile_neq_length nth_takeWhile_neq)

lemma key_kinds_all [simp]: "kk \<in> set key_kinds" and key_kinds_len [simp]: "length key_kinds \<le> 256"
  by (cases kk; simp add: key_kinds_def) (simp add: key_kinds_def)

lemma ino_metadatas_all [simp]: "m \<in> set ino_metadatas"
  and ino_metadatas_len [simp]: "length ino_metadatas \<le> 256"
  by (cases m; simp add: ino_metadatas_def) (simp add: ino_metadatas_def)

lemma pending_delete_metas_all [simp]: "m \<in> set pending_delete_metas"
  and pending_delete_metas_len [simp]: "length pending_delete_metas \<le> 256"
  by (cases m; simp add: pending_delete_metas_def) (simp add: pending_delete_metas_def)

lemma hashed_block_metas_all [simp]: "m \<in> set hashed_block_metas"
  and hashed_block_metas_len [simp]: "length hashed_block_metas \<le> 256"
  by (cases m; simp add: hashed_block_metas_def) (simp add: hashed_block_metas_def)

lemma key_kind_roundtrip [simp]: "enum_of key_kinds (key_kind_id kk) = Some kk"
  by (simp add: key_kind_id_def enum_of_enum_id)

lemma ino_meta_roundtrip [simp]: "enum_of ino_metadatas (ino_meta_id m) = Some m"
  by (simp add: ino_meta_id_def enum_of_enum_id)

lemma pending_delete_meta_roundtrip [simp]:
  "enum_of pending_delete_metas (pending_delete_meta_id m) = Some m"
  by (simp add: pending_delete_meta_id_def enum_of_enum_id)

lemma hashed_block_meta_roundtrip [simp]:
  "enum_of hashed_block_metas (hashed_block_meta_id m) = Some m"
  by (simp add: hashed_block_meta_id_def enum_of_enum_id)

lemma key_kind_id_inject [simp]: "key_kind_id a = key_kind_id b \<longleftrightarrow> a = b"
  by (metis key_kind_roundtrip option.inject)

lemma ino_meta_id_inject [simp]: "ino_meta_id a = ino_meta_id b \<longleftrightarrow> a = b"
  by (metis ino_meta_roundtrip option.inject)

lemma pending_delete_meta_id_inject [simp]:
  "pending_delete_meta_id a = pending_delete_meta_id b \<longleftrightarrow> a = b"
  by (metis pending_delete_meta_roundtrip option.inject)

lemma hashed_block_meta_id_inject [simp]:
  "hashed_block_meta_id a = hashed_block_meta_id b \<longleftrightarrow> a = b"
  by (metis hashed_block_meta_roundtrip option.inject)

lemma key_kind_ids:
  "key_kind_id PendingDelete = 10" "key_kind_id HashedBlock = 7" "key_kind_id NamedHashedBlock = 11"
  by (simp_all add: key_kind_id_def enum_id_def key_kinds_def)

lemma pending_delete_meta_ids:
  "pending_delete_meta_id AIterationNumber = 0" "pending_delete_meta_id CPendingDeletes = 2"
  "pending_delete_meta_id DActiveWriters = 3" "pending_delete_meta_id m < 5"
  by (simp_all add: pending_delete_meta_id_def enum_id_def pending_delete_metas_def)
    (cases m; simp)

section \<open>Keys as byte strings\<close>

lemmas key_defs =
  skb_new_def skb_append_def write_key_kind_def key_lock_state_def write_key_de_ser_ino_def
  key_meta_static_def key_meta_def pending_delete_x_def pending_delete_block_hash_def
  pending_delete_active_writer_def inode_x_def inode_description_def inode_size_def
  inode_lock_state_def inode_atime_def inode_link_count_def block_key_def opened_inode_def
  block_hash_def named_hashed_block_x_def hashed_block_def hashed_block_exists_def
  directory_child_def parent_link_def write_big_endian_def storage_ino_serialize_to_def
  block_address_serialize_to_def

lemmas generate_key_defs =
  generate_key_MetaStatic_def generate_key_MetaMutable_def generate_key_StorageDirItem_def
  generate_key_ParentLink_def generate_key_InoDescription_def generate_key_InoSize_def
  generate_key_InoLockState_def generate_key_InoAccessTime_def
  generate_key_InoModificationTime_def generate_key_InoUse_def
  generate_key_InoStorageFileAttr_def generate_key_InoChangeIterationId_def
  generate_key_InoFullHash_def generate_key_InoInlineData_def

lemma be8_append_eq [simp]:
  "be_bytes 8 v @ xs = be_bytes 8 w @ ys \<longleftrightarrow> v = w \<and> xs = ys" for v w :: u64
  by simp

lemma be8_append_eq_be8 [simp]:
  "be_bytes 8 v = be_bytes 8 w @ ys \<longleftrightarrow> v = w \<and> ys = []"
  "be_bytes 8 w @ ys = be_bytes 8 v \<longleftrightarrow> v = w \<and> ys = []" for v w :: u64
  by (metis append_Nil2 be8_append_eq)+

lemma append_be16_eq [simp]:
  "xs @ be_bytes 16 u = ys @ be_bytes 16 v \<longleftrightarrow> xs = ys \<and> u = v" for u v :: uuid
  by simp

lemma storage_ino_eq_iff [simp]: "ino_raw a = ino_raw b \<longleftrightarrow> a = b"
  by (metis storage_ino.expand)

lemma parent_ino_eq_iff [simp]: "parent_ino a = parent_ino b \<longleftrightarrow> a = b"
  by (metis parent_storage_ino.expand)

lemma block_raw_eq_iff [simp]: "block_raw a = block_raw b \<longleftrightarrow> a = b"
  by (metis block_index.expand)

lemma read_big_endian_be [bytes_simps, simp]: "read_big_endian (be_bytes 8 v @ rest) = Inr (v, rest)"
  by (simp add: read_big_endian_def)

lemma read_big_endian_be_only [bytes_simps, simp]: "read_big_endian (be_bytes 8 v) = Inr (v, [])"
  by (simp add: read_big_endian_def)

lemma next_or_ff_Cons [simp]: "next_or_ff (b # i) = (b, i)"
  by (simp add: next_or_ff_def)

lemma key_parser_start_build [simp]:
  "key_parser_start (pre @ key_kind_id kk # rest) pre n =
     Inr \<lparr>kp_hash_len = n, kp_i = rest, kp_kind = kk\<rparr>"
  by (simp add: key_parser_start_def)

lemmas parse_defs =
  parse_pending_deletes_x_def parse_ino_def parse_hash_def parse_hash_block_key_x_def
  parse_key_hashed_block_def parse_key_block_address_def key_parser_parse_uuid_def
  parse_lock_key_def parse_directory_child_def storage_ino_deserialize_from_def
  block_address_deserialize_from_def parse_uuid_def

section \<open>The logical keys\<close>

text \<open>
  The keys the builder can make, as data, and their bytes under a given prefix.
\<close>

datatype logical_key =
    LK_Lock bytes uuid
  | LK_MetaStatic
  | LK_Meta
  | LK_Inode storage_ino ino_metadata
  | LK_Opened storage_ino uuid
  | LK_Block block_address
  | LK_DirChild storage_ino name
  | LK_ParentLink storage_ino parent_storage_ino name
  | LK_HashedBlock tifs_hash
  | LK_HashedBlockMeta tifs_hash hashed_block_meta
  | LK_NamedHashedBlock tifs_hash hashed_block_meta uuid
  | LK_BlockHash block_address
  | LK_Exists tifs_hash
  | LK_PendingMeta pending_delete_meta
  | LK_PendingHash tifs_hash
  | LK_PendingWriter u64 uuid

fun encode_key :: "bytes \<Rightarrow> logical_key \<Rightarrow> bytes" where
  "encode_key p (LK_Lock k u) = key_lock_state (skb_new p) k u"
| "encode_key p LK_MetaStatic = key_meta_static (skb_new p)"
| "encode_key p LK_Meta = key_meta (skb_new p)"
| "encode_key p (LK_Inode i m) = skb_buf (inode_x (skb_new p) i m)"
| "encode_key p (LK_Opened i u) = opened_inode (skb_new p) i u"
| "encode_key p (LK_Block a) = block_key (skb_new p) a"
| "encode_key p (LK_DirChild i n) = directory_child (skb_new p) i n"
| "encode_key p (LK_ParentLink i j n) = parent_link (skb_new p) i j n"
| "encode_key p (LK_HashedBlock h) = hashed_block (skb_new p) h"
| "encode_key p (LK_HashedBlockMeta h m) = named_hashed_block_x (skb_new p) h (Some m) None"
| "encode_key p (LK_NamedHashedBlock h m u) = named_hashed_block_x (skb_new p) h (Some m) (Some u)"
| "encode_key p (LK_BlockHash a) = block_hash (skb_new p) a"
| "encode_key p (LK_Exists h) = hashed_block_exists (skb_new p) h"
| "encode_key p (LK_PendingMeta m) = skb_buf (pending_delete_x (skb_new p) m)"
| "encode_key p (LK_PendingHash h) = pending_delete_block_hash (skb_new p) h"
| "encode_key p (LK_PendingWriter n u) = pending_delete_active_writer (skb_new p) n u"

text \<open>Every hash in a key has the length of the configured algorithm.\<close>

fun key_hash_ok :: "nat \<Rightarrow> logical_key \<Rightarrow> bool" where
  "key_hash_ok n (LK_HashedBlock h) = (length h = n)"
| "key_hash_ok n (LK_HashedBlockMeta h m) = (length h = n)"
| "key_hash_ok n (LK_NamedHashedBlock h m u) = (length h = n)"
| "key_hash_ok n (LK_Exists h) = (length h = n)"
| "key_hash_ok n (LK_PendingHash h) = (length h = n)"
| "key_hash_ok n _ = True"

lemma be16_neq_Nil [simp]: "be_bytes 16 u \<noteq> []" "[] \<noteq> be_bytes 16 u"
  by (metis length_be_bytes list.size(3) zero_neq_numeral)+

lemma block_address_eqI: "ba_ino a = ba_ino b \<Longrightarrow> ba_index a = ba_index b \<Longrightarrow> a = b"
  for a b :: block_address
  by simp

lemma encode_key_inject:
  assumes "0 < n" "key_hash_ok n a" "key_hash_ok n b" "encode_key p a = encode_key p b"
  shows "a = b"
proof -
  have lens: "length (encode_key p a) = length (encode_key p b)"
    using assms(4) by simp
  show ?thesis
    using assms lens
    by (cases a; cases b)
      (auto simp: key_defs intro: block_address_eqI
        dest: arg_cong [where f = length])
qed

section \<open>Scan ranges\<close>

lemma in_range_key_range [simp]: "in_range (key_range a b) k \<longleftrightarrow> a \<le> k \<and> k < b"
  by (simp add: in_range_def key_range_def)

lemma same_kind:
  "p @ a # x \<le> p @ b # y \<Longrightarrow> p @ b # y < p @ a # z \<Longrightarrow> b = a" for a b :: u8
  by auto

lemma between_succ_u64: "w \<noteq> - 1 \<Longrightarrow> w \<le> v \<and> v < w + 1 \<longleftrightarrow> v = w" for v w :: u64
  using unat_succ_u64 [of w] by (auto simp: word_less_nat_alt word_le_nat_alt word_unat_eq_iff)

lemma be8_append_less_be8 [simp]: "be_bytes 8 v @ r < be_bytes 8 w \<longleftrightarrow> v < w" for v w :: u64
  using append_less_append [of "be_bytes 8 v" "be_bytes 8 w" r "[]"] by simp

lemma be8_le_be8_append [simp]: "be_bytes 8 w \<le> be_bytes 8 v @ r \<longleftrightarrow> w \<le> v" for v w :: u64
  using append_le_append [of "be_bytes 8 w" "be_bytes 8 v" "[]" r] by auto

lemma be8_append_less_append [simp]:
  "be_bytes 8 v @ r < be_bytes 8 w @ t \<longleftrightarrow> v < w \<or> v = w \<and> r < t" for v w :: u64
  by (simp add: append_less_append)

lemma be8_append_le_append [simp]:
  "be_bytes 8 v @ r \<le> be_bytes 8 w @ t \<longleftrightarrow> v < w \<or> v = w \<and> r \<le> t" for v w :: u64
  by (simp add: append_le_append)

lemma zero_head_le [simp]: "[0] \<le> m # r" for m :: u8
  by (cases "m = 0") (auto simp: word_gt_0)

lemma not_less_zero_head [simp]: "\<not> m # r < [0]" for m :: u8
  using zero_head_le [of m r] by (simp add: not_less)

lemma directory_child_range_iff:
  assumes "ino_raw ino \<noteq> - 1"
  shows "in_range (directory_child_range (skb_new p) ino) (encode_key p lk)
    \<longleftrightarrow> (\<exists>nm. lk = LK_DirChild ino nm)"
proof (cases lk)
  case (LK_DirChild i nm)
  with between_succ_u64 [OF assms, of "ino_raw i"] show ?thesis
    by (simp add: in_range_def directory_child_range_def key_defs)
qed (auto simp: in_range_def directory_child_range_def key_defs dest: same_kind)

lemma parent_link_scan_iff:
  assumes "ino_raw ino \<noteq> - 1"
  shows "in_range (parent_link_scan (skb_new p) ino) (encode_key p lk)
    \<longleftrightarrow> (\<exists>par nm. lk = LK_ParentLink ino par nm)"
proof (cases lk)
  case (LK_ParentLink i par nm)
  with between_succ_u64 [OF assms, of "ino_raw i"] show ?thesis
    by (simp add: in_range_def parent_link_scan_def key_defs)
qed (auto simp: in_range_def parent_link_scan_def key_defs dest: same_kind)

lemma block_hash_range_iff:
  "in_range (block_hash_range (skb_new p) ino s e) (encode_key p lk)
    \<longleftrightarrow> (\<exists>i. lk = LK_BlockHash \<lparr>ba_ino = ino, ba_index = i\<rparr> \<and> s \<le> i \<and> i < e)"
proof (cases lk)
  case (LK_BlockHash a)
  then show ?thesis
    by (cases s; cases e; cases "ba_index a")
      (auto simp: block_hash_range_def key_defs intro!: block_address_eqI)
qed (auto simp: block_hash_range_def key_defs dest: same_kind)

lemma inode_metadata_range_iff:
  assumes "ino_raw ino \<noteq> - 1"
  shows "in_range (inode_metadata_range (skb_new p) ino) (encode_key p lk)
    \<longleftrightarrow> (\<exists>m. lk = LK_Inode ino m) \<or> (\<exists>u. lk = LK_Opened ino u)"
proof -
  have zero [simp]: "ino_meta_id Description = 0"
    by (simp add: ino_meta_id_def enum_id_def ino_metadatas_def)
  have bounds: "(ino_raw ino < ino_raw i \<or> ino = i) \<and> ino_raw i < ino_raw ino + 1 \<longleftrightarrow> i = ino" for i
    using between_succ_u64 [OF assms, of "ino_raw i"] by (simp add: le_less)
  show ?thesis
  proof (cases lk)
    case (LK_Inode i m)
    with bounds [of i] show ?thesis by (simp add: inode_metadata_range_def key_defs word_gt_0)
  next
    case (LK_Opened i u)
    with bounds [of i] show ?thesis by (simp add: inode_metadata_range_def key_defs word_gt_0)
  qed (auto simp: inode_metadata_range_def key_defs dest: same_kind)
qed

section \<open>Properties of the key schema\<close>

text \<open>
  C10. Distinct logical keys never share a byte string: two keys that the builder makes under
  one prefix, with hashes of the configured (non-zero) length, have equal bytes only if they
  are the same key.
\<close>

theorem keys_never_collide:
  assumes "0 < n" and "key_hash_ok n a" and "key_hash_ok n b"
  shows "encode_key p a = encode_key p b \<longleftrightarrow> a = b"
  using encode_key_inject [OF assms] by blast

theorem keys_never_collide_witness:
  "encode_key [7] (LK_HashedBlock [1, 2]) \<noteq> encode_key [7] (LK_HashedBlockMeta [1, 2] CCountedNamedUsages)"
  using keys_never_collide [of 2 "LK_HashedBlock [1, 2]" "LK_HashedBlockMeta [1, 2] CCountedNamedUsages" "[7]"]
  by simp

text \<open>
  C27. Parsing undoes building. A parser started on the bytes of a key, with the prefix and hash
  length of the builder, returns exactly the components the key was made from: inode number
  and kind of metadata, block address, directory and child name, hash (also of a reference
  counter's key), kind of hash-block metadata, lock holder, kind of pending-delete entry.
\<close>

theorem parse_undoes_build:
  assumes "length h = n"
  shows "(bind_result (key_parser_start (encode_key p (LK_Inode i m)) p n) parse_ino
      = Inr \<lparr>kpi_pre = \<lparr>kp_hash_len = n, kp_i = [], kp_kind = KK_InoMetadata\<rparr>, kpi_ino = i, kpi_meta = m\<rparr>)
    \<and> (bind_result (key_parser_start (encode_key p (LK_Block a)) p n) parse_key_block_address = Inr a)
    \<and> (bind_result (key_parser_start (encode_key p (LK_BlockHash a)) p n) parse_key_block_address = Inr a)
    \<and> (bind_result (key_parser_start (encode_key p (LK_DirChild i nm)) p n) parse_directory_child = Inr (i, nm))
    \<and> (bind_result (key_parser_start (encode_key p (LK_HashedBlock h)) p n) parse_key_hashed_block = Inr h)
    \<and> (bind_result (key_parser_start (encode_key p (LK_Exists h)) p n) parse_key_hashed_block = Inr h)
    \<and> (bind_result (key_parser_start (encode_key p (LK_HashedBlockMeta h hm)) p n) parse_hash_block_key_x
      = Inr \<lparr>kph_pre = \<lparr>kp_hash_len = n, kp_i = [], kp_kind = HashedBlock\<rparr>, kph_hash = h, kph_meta = hm\<rparr>)
    \<and> (bind_result (key_parser_start (encode_key p (LK_Lock k u)) p n) (\<lambda>kp. parse_lock_key kp k) = Inr u)
    \<and> (bind_result (key_parser_start (encode_key p (LK_PendingMeta pm)) p n) parse_pending_deletes_x
      = Inr \<lparr>kpp_pre = \<lparr>kp_hash_len = n, kp_i = [], kp_kind = PendingDelete\<rparr>, kpp_meta = pm\<rparr>)"
  using assms by (simp add: key_defs parse_defs)

theorem parse_undoes_build_witness:
  "bind_result (key_parser_start (encode_key [7] (LK_HashedBlock [1, 2])) [7] 2) parse_key_hashed_block
     = Inr [1, 2]"
  using parse_undoes_build [of "[1, 2]" 2 "[7]"] by (simp del: encode_key.simps)

text \<open>
  C28. The scan ranges cover exactly what they are meant to: among all keys of the file system,
  the range for a directory contains its child entries only, the range for an inode's parent
  links contains those links only, the range for block hashes contains the addressed blocks of
  that inode only, and the metadata range contains the inode's metadata and use entries. The
  one inode number whose successor overflows is excluded.
\<close>

theorem scan_ranges_exact:
  assumes "ino_raw ino \<noteq> - 1"
  shows "(in_range (directory_child_range (skb_new p) ino) (encode_key p lk)
      \<longleftrightarrow> (\<exists>nm. lk = LK_DirChild ino nm))
    \<and> (in_range (parent_link_scan (skb_new p) ino) (encode_key p lk)
      \<longleftrightarrow> (\<exists>par nm. lk = LK_ParentLink ino par nm))
    \<and> (in_range (block_hash_range (skb_new p) ino s e) (encode_key p lk)
      \<longleftrightarrow> (\<exists>i. lk = LK_BlockHash \<lparr>ba_ino = ino, ba_index = i\<rparr> \<and> s \<le> i \<and> i < e))
    \<and> (in_range (inode_metadata_range (skb_new p) ino) (encode_key p lk)
      \<longleftrightarrow> (\<exists>m. lk = LK_Inode ino m) \<or> (\<exists>u. lk = LK_Opened ino u))"
  by (intro conjI directory_child_range_iff [OF assms] parent_link_scan_iff [OF assms]
      block_hash_range_iff inode_metadata_range_iff [OF assms])

theorem scan_ranges_exact_witness:
  "in_range (directory_child_range (skb_new [7]) (StorageIno 5)) (encode_key [7] (LK_DirChild (StorageIno 5) [65]))
   \<and> \<not> in_range (directory_child_range (skb_new [7]) (StorageIno 5)) (encode_key [7] (LK_DirChild (StorageIno 6) [65]))"
  using scan_ranges_exact [of "StorageIno 5" "[7]" "LK_DirChild (StorageIno 5) [65]"]
    scan_ranges_exact [of "StorageIno 5" "[7]" "LK_DirChild (StorageIno 6) [65]"]
  by (simp del: encode_key.simps)

text \<open>
  The scan range for pending deletes contains no key of the file system:
  \<open>pending_delete_scan_list\<close> writes the key kind and then calls \<open>pending_delete_x\<close>,
  which writes it again, so that neither the pending hashes nor the iteration number are found.
  The range for named hash blocks misses every key too: it is made with the kind
  \<open>NamedHashedBlock\<close>, while \<open>named_hashed_block_x\<close> writes the kind \<open>HashedBlock\<close>.
\<close>

lemma pending_delete_scan_finds_nothing:
  "\<not> in_range (pending_delete_scan_list (skb_new p)) (encode_key p lk)
   \<and> (\<exists>r. named_hashed_block_range (skb_new p) h = Some r \<and> \<not> in_range r (encode_key p lk))"
proof
  have "pending_delete_meta_id m \<noteq> key_kind_id PendingDelete" for m
    using pending_delete_meta_ids(4) [of m] by (auto simp: key_kind_ids word_less_nat_alt)
  then show "\<not> in_range (pending_delete_scan_list (skb_new p)) (encode_key p lk)"
    by (cases lk)
      (auto simp: in_range_def pending_delete_scan_list_def Let_def key_defs
        dest: same_kind)
  show "\<exists>r. named_hashed_block_range (skb_new p) h = Some r \<and> \<not> in_range r (encode_key p lk)"
    by (cases lk)
      (auto simp: in_range_def named_hashed_block_range_def sub_key_range_def key_defs
        butlast_append dest: same_kind)
qed

end
