(* ===== verification/Szymanski.thy ===== *)
theory Szymanski
  imports Key_Facts
begin

text \<open>
  The distributed critical section of \<open>szymanskis_critical_section.rs\<close>: Szymanski's
  algorithm on a table of lock states kept in the store. Reporting a state is one write or
  delete of the participant's key and looking at the others is one scan, each a transaction of
  its own, so that every store access is one atomic step; between two accesses of one
  participant the others may take any number of steps. A failing access ends \<open>enter\<close> or
  \<open>leave\<close> with an error and leaves the table as it is: the participant has stopped.
\<close>

section \<open>States and their bytes\<close>

datatype szymanskis_state = S0Noncritical | S1Intention | S2WaitingRoom | S3DoorIn | S4DoorOut

definition szymanskis_states :: "szymanskis_state list" where
  "szymanskis_states = [S0Noncritical, S1Intention, S2WaitingRoom, S3DoorIn, S4DoorOut]"

definition as_u8 :: "szymanskis_state \<Rightarrow> u8" where
  "as_u8 self = fold (\<lambda>(i, s) acc. if s = self then of_nat i else acc)
     (enumerate 0 szymanskis_states) 0"

definition from_u8 :: "u8 \<Rightarrow> szymanskis_state" where
  "from_u8 id_u8 = fold (\<lambda>(i, s) acc. if i = unat id_u8 then s else acc)
     (enumerate 0 szymanskis_states) S0Noncritical"

text \<open>The derived order of the enumeration is the order of its positions.\<close>

lemma as_u8_simps [simp]:
  "as_u8 S0Noncritical = 0" "as_u8 S1Intention = 1" "as_u8 S2WaitingRoom = 2"
  "as_u8 S3DoorIn = 3" "as_u8 S4DoorOut = 4"
  by (simp_all add: as_u8_def szymanskis_states_def enumerate_eq_zip)

lemma from_u8_as_u8 [simp]: "from_u8 (as_u8 s) = s"
  by (cases s) (simp_all add: from_u8_def szymanskis_states_def)

lemma as_u8_inject [simp]: "as_u8 a = as_u8 b \<longleftrightarrow> a = b"
  by (metis from_u8_as_u8)

instantiation szymanskis_state :: linorder
begin

definition less_eq_szymanskis_state :: "szymanskis_state \<Rightarrow> szymanskis_state \<Rightarrow> bool" where
  "less_eq_szymanskis_state a b \<longleftrightarrow> as_u8 a \<le> as_u8 b"

definition less_szymanskis_state :: "szymanskis_state \<Rightarrow> szymanskis_state \<Rightarrow> bool" where
  "less_szymanskis_state a b \<longleftrightarrow> as_u8 a < as_u8 b"

instance
  by standard (auto simp: less_eq_szymanskis_state_def less_szymanskis_state_def less_le)

end

section \<open>One participant\<close>

record szymanowski_critical_section =
  cs_key_to_lock :: bytes
  cs_my_id :: uuid
  cs_my_state :: szymanskis_state
  cs_key_for_state_report :: bytes
  cs_key_range :: bound_range
  cs_entered :: bool

definition critical_section_new :: "bytes \<Rightarrow> bytes \<Rightarrow> uuid \<Rightarrow> szymanowski_critical_section" where
  "critical_section_new key_prefix key_to_lock my_id =
     \<lparr>cs_key_to_lock = key_to_lock, cs_my_id = my_id, cs_my_state = S0Noncritical,
      cs_key_for_state_report = key_lock_state (skb_new key_prefix) key_to_lock my_id,
      cs_key_range =
        \<lparr>br_from = Included (key_lock_state (skb_new key_prefix) key_to_lock 0),
         br_to = Included (key_lock_state (skb_new key_prefix) key_to_lock (- 1))\<rparr>,
      cs_entered = False\<rparr>"

text \<open>
  What a participant sees of the others: the pairs of the scan, keys parsed, its own entry and
  unparsable ones left out (\<open>get_current_states_excluding_mine\<close>).
\<close>

definition get_current_states_excluding_mine ::
  "bytes \<Rightarrow> nat \<Rightarrow> szymanowski_critical_section \<Rightarrow> (bytes \<times> bytes) list
     \<Rightarrow> (uuid \<times> szymanskis_state) list" where
  "get_current_states_excluding_mine key_prefix hash_len self all_states_kv =
     List.map_filter (\<lambda>(k, v).
       case bind_result (key_parser_start k key_prefix hash_len)
              (\<lambda>kp. parse_lock_key kp (cs_key_to_lock self)) of
         Inl _ \<Rightarrow> None
       | Inr parsed_uuid \<Rightarrow>
           if parsed_uuid \<noteq> cs_my_id self
           then Some (parsed_uuid, from_u8 (case v of [] \<Rightarrow> 0 | b # _ \<Rightarrow> b)) else None)
       all_states_kv"

text \<open>The predicates that \<open>enter\<close> and \<open>leave\<close> poll for.\<close>

definition door_is_open :: "(uuid \<times> szymanskis_state) list \<Rightarrow> bool" where
  "door_is_open states =
     fold (\<lambda>(_, v) acc. acc \<and> S0Noncritical \<le> v \<and> v \<le> S2WaitingRoom) states True"

definition another_waiting :: "(uuid \<times> szymanskis_state) list \<Rightarrow> bool" where
  "another_waiting states = fold (\<lambda>(_, v) acc. acc \<or> v = S1Intention) states False"

definition someone_at_door_out :: "(uuid \<times> szymanskis_state) list \<Rightarrow> bool" where
  "someone_at_door_out states = fold (\<lambda>(_, v) acc. acc \<or> v = S4DoorOut) states False"

definition lower_ids_done :: "uuid \<Rightarrow> (uuid \<times> szymanskis_state) list \<Rightarrow> bool" where
  "lower_ids_done my_id states =
     fold (\<lambda>(id, v) acc. acc \<and> (id \<ge> my_id \<or> S0Noncritical \<le> v \<and> v \<le> S1Intention)) states True"

definition higher_ids_done :: "uuid \<Rightarrow> (uuid \<times> szymanskis_state) list \<Rightarrow> bool" where
  "higher_ids_done my_id states =
     fold (\<lambda>(id, v) acc. acc \<and> (id \<le> my_id \<or> v \<in> set [S0Noncritical, S1Intention, S4DoorOut]))
       states True"

section \<open>The table of lock states\<close>

text \<open>
  The entries of one lock in the store, by participant. A scan returns them in key order, at
  most \<open>MAX_TIKV_SCAN_LIMIT\<close> many.
\<close>

type_synonym lock_table = "uuid \<rightharpoonup> bytes"

definition scan_lock_table :: "bytes \<Rightarrow> bytes \<Rightarrow> lock_table \<Rightarrow> (bytes \<times> bytes) list" where
  "scan_lock_table key_prefix key_to_lock t =
     map (\<lambda>u. (key_lock_state (skb_new key_prefix) key_to_lock u, the (t u)))
       (take (unat MAX_TIKV_SCAN_LIMIT) (sorted_list_of_set (dom t)))"

definition change_own_state ::
  "szymanskis_state \<Rightarrow> szymanowski_critical_section \<Rightarrow> lock_table
     \<Rightarrow> szymanowski_critical_section \<times> lock_table" where
  "change_own_state new_state self t =
     (self\<lparr>cs_my_state := new_state\<rparr>,
      if new_state = S0Noncritical then t(cs_my_id self := None)
      else t(cs_my_id self \<mapsto> [as_u8 new_state]))"

section \<open>All participants together\<close>

text \<open>
  Where a participant is between two store accesses: \<open>PollDoor\<close>, \<open>Waiting\<close>, \<open>PollLower\<close>
  and \<open>PollHigher\<close> are the four polling loops, \<open>InDoor\<close> precedes the scan for others
  that wait, \<open>AtDoor\<close>, \<open>ToWaiting\<close>, \<open>ToDoorOut\<close> and \<open>ToIdle\<close> precede a report,
  \<open>Critical\<close> is the critical section.
\<close>

datatype cs_pc =
    Idle | PollDoor | AtDoor | InDoor | ToWaiting | Waiting | ToDoorOut | PollLower
  | Critical | PollHigher | ToIdle

record cs_world =
  w_table :: lock_table
  w_proc :: "uuid \<Rightarrow> szymanowski_critical_section"
  w_pc :: "uuid \<Rightarrow> cs_pc"
  w_failed :: "uuid set"

definition observe :: "bytes \<Rightarrow> nat \<Rightarrow> bytes \<Rightarrow> uuid \<Rightarrow> cs_world \<Rightarrow> (uuid \<times> szymanskis_state) list" where
  "observe key_prefix hash_len key_to_lock u w =
     get_current_states_excluding_mine key_prefix hash_len (w_proc w u)
       (scan_lock_table key_prefix key_to_lock (w_table w))"

definition goto :: "uuid \<Rightarrow> cs_pc \<Rightarrow> cs_world \<Rightarrow> cs_world" where
  "goto u p w = w\<lparr>w_pc := (w_pc w)(u := p)\<rparr>"

definition report_state :: "uuid \<Rightarrow> szymanskis_state \<Rightarrow> cs_pc \<Rightarrow> cs_world \<Rightarrow> cs_world" where
  "report_state u s p w =
     (let (me, t) = change_own_state s (w_proc w u) (w_table w) in
      w\<lparr>w_table := t, w_proc := (w_proc w)(u := me), w_pc := (w_pc w)(u := p)\<rparr>)"

definition set_entered :: "uuid \<Rightarrow> bool \<Rightarrow> cs_world \<Rightarrow> cs_world" where
  "set_entered u b w = w\<lparr>w_proc := (w_proc w)(u := (w_proc w u)\<lparr>cs_entered := b\<rparr>)\<rparr>"

text \<open>
  The steps of \<open>enter\<close> (up to \<open>Critical\<close>) and \<open>leave\<close>. Polling again leaves the world
  unchanged and is left out. \<open>fail\<close> is an error of the store: the participant stops.
\<close>

inductive cs_step :: "bytes \<Rightarrow> nat \<Rightarrow> bytes \<Rightarrow> uuid set \<Rightarrow> cs_world \<Rightarrow> cs_world \<Rightarrow> bool"
  for P :: bytes and n :: nat and K :: bytes and M :: "uuid set" where
  announce: "u \<in> M - w_failed w \<Longrightarrow> w_pc w u = Idle \<Longrightarrow>
    cs_step P n K M w (report_state u S1Intention PollDoor w)"
| pass_door: "u \<in> M - w_failed w \<Longrightarrow> w_pc w u = PollDoor \<Longrightarrow> door_is_open (observe P n K u w) \<Longrightarrow>
    cs_step P n K M w (goto u AtDoor w)"
| enter_door: "u \<in> M - w_failed w \<Longrightarrow> w_pc w u = AtDoor \<Longrightarrow>
    cs_step P n K M w (report_state u S3DoorIn InDoor w)"
| see_waiting: "u \<in> M - w_failed w \<Longrightarrow> w_pc w u = InDoor \<Longrightarrow> another_waiting (observe P n K u w) \<Longrightarrow>
    cs_step P n K M w (goto u ToWaiting w)"
| see_none: "u \<in> M - w_failed w \<Longrightarrow> w_pc w u = InDoor \<Longrightarrow> \<not> another_waiting (observe P n K u w) \<Longrightarrow>
    cs_step P n K M w (goto u ToDoorOut w)"
| go_waiting: "u \<in> M - w_failed w \<Longrightarrow> w_pc w u = ToWaiting \<Longrightarrow>
    cs_step P n K M w (report_state u S2WaitingRoom Waiting w)"
| stop_waiting: "u \<in> M - w_failed w \<Longrightarrow> w_pc w u = Waiting \<Longrightarrow> someone_at_door_out (observe P n K u w) \<Longrightarrow>
    cs_step P n K M w (goto u ToDoorOut w)"
| door_out: "u \<in> M - w_failed w \<Longrightarrow> w_pc w u = ToDoorOut \<Longrightarrow>
    cs_step P n K M w (report_state u S4DoorOut PollLower w)"
| enter_critical: "u \<in> M - w_failed w \<Longrightarrow> w_pc w u = PollLower \<Longrightarrow> lower_ids_done u (observe P n K u w) \<Longrightarrow>
    cs_step P n K M w (set_entered u True (goto u Critical w))"
| start_leave: "u \<in> M - w_failed w \<Longrightarrow> w_pc w u = Critical \<Longrightarrow>
    cs_step P n K M w (goto u PollHigher w)"
| stop_polling: "u \<in> M - w_failed w \<Longrightarrow> w_pc w u = PollHigher \<Longrightarrow> higher_ids_done u (observe P n K u w) \<Longrightarrow>
    cs_step P n K M w (goto u ToIdle w)"
| leave: "u \<in> M - w_failed w \<Longrightarrow> w_pc w u = ToIdle \<Longrightarrow>
    cs_step P n K M w (set_entered u False (report_state u S0Noncritical Idle w))"
| fail: "u \<in> M - w_failed w \<Longrightarrow> cs_step P n K M w (w\<lparr>w_failed := insert u (w_failed w)\<rparr>)"

definition cs_init :: "bytes \<Rightarrow> bytes \<Rightarrow> cs_world" where
  "cs_init P K = \<lparr>w_table = Map.empty, w_proc = critical_section_new P K,
     w_pc = (\<lambda>_. Idle), w_failed = {}\<rparr>"

definition cs_reachable :: "bytes \<Rightarrow> nat \<Rightarrow> bytes \<Rightarrow> uuid set \<Rightarrow> cs_world \<Rightarrow> bool" where
  "cs_reachable P n K M w \<longleftrightarrow> (cs_step P n K M)\<^sup>*\<^sup>* (cs_init P K) w"

section \<open>What a scan shows\<close>

lemma fold_all: "fold (\<lambda>(i, v) acc. acc \<and> P i v) xs b \<longleftrightarrow> b \<and> (\<forall>(i, v) \<in> set xs. P i v)"
  by (induction xs arbitrary: b) auto

lemma fold_any: "fold (\<lambda>(i, v) acc. acc \<or> P i v) xs b \<longleftrightarrow> b \<or> (\<exists>(i, v) \<in> set xs. P i v)"
  by (induction xs arbitrary: b) auto

lemma S0_le [simp]: "S0Noncritical \<le> v"
  by (cases v) (simp_all add: less_eq_szymanskis_state_def word_le_nat_alt)

lemma le_S1 [simp]: "v \<le> S1Intention \<longleftrightarrow> v = S0Noncritical \<or> v = S1Intention"
  by (cases v) (simp_all add: less_eq_szymanskis_state_def word_le_nat_alt)

lemma le_S2 [simp]: "v \<le> S2WaitingRoom \<longleftrightarrow> v \<noteq> S3DoorIn \<and> v \<noteq> S4DoorOut"
  by (cases v) (simp_all add: less_eq_szymanskis_state_def word_le_nat_alt)

lemma door_is_open_iff: "door_is_open xs \<longleftrightarrow> (\<forall>(i, v) \<in> set xs. v \<le> S2WaitingRoom)"
  unfolding door_is_open_def fold_all by simp

lemma another_waiting_iff: "another_waiting xs \<longleftrightarrow> (\<exists>(i, v) \<in> set xs. v = S1Intention)"
  unfolding another_waiting_def fold_any by simp

lemma someone_at_door_out_iff: "someone_at_door_out xs \<longleftrightarrow> (\<exists>(i, v) \<in> set xs. v = S4DoorOut)"
  unfolding someone_at_door_out_def fold_any by simp

lemma lower_ids_done_iff:
  "lower_ids_done u xs \<longleftrightarrow> (\<forall>(i, v) \<in> set xs. i < u \<longrightarrow> v = S0Noncritical \<or> v = S1Intention)"
  unfolding lower_ids_done_def fold_all by (force simp: not_le)

lemma higher_ids_done_iff:
  "higher_ids_done u xs \<longleftrightarrow>
     (\<forall>(i, v) \<in> set xs. u < i \<longrightarrow> v = S0Noncritical \<or> v = S1Intention \<or> v = S4DoorOut)"
  unfolding higher_ids_done_def fold_all by (force simp: not_le)

lemmas predicates_iff =
  door_is_open_iff another_waiting_iff someone_at_door_out_iff lower_ids_done_iff higher_ids_done_iff

text \<open>
  The table holds exactly the states the participants have reported, and the participants
  carry the key they were created for.
\<close>

definition table_ok :: "bytes \<Rightarrow> bytes \<Rightarrow> uuid set \<Rightarrow> cs_world \<Rightarrow> bool" where
  "table_ok P K M w \<longleftrightarrow>
     (\<forall>u. cs_my_id (w_proc w u) = u \<and> cs_key_to_lock (w_proc w u) = K
        \<and> w_table w u = (if cs_my_state (w_proc w u) = S0Noncritical then None
                         else Some [as_u8 (cs_my_state (w_proc w u))])
        \<and> (u \<notin> M \<longrightarrow> cs_my_state (w_proc w u) = S0Noncritical))"

lemma table_ok_init: "table_ok P K M (cs_init P K)"
  by (simp add: table_ok_def cs_init_def critical_section_new_def)

lemma table_ok_step: "cs_step P n K M w w' \<Longrightarrow> table_ok P K M w \<Longrightarrow> table_ok P K M w'"
  by (induction rule: cs_step.induct)
    (auto simp: table_ok_def goto_def report_state_def set_entered_def change_own_state_def)

lemma parse_lock_key_built:
  "bind_result (key_parser_start (key_lock_state (skb_new P) K u) P n) (\<lambda>kp. parse_lock_key kp K) = Inr u"
  by (simp add: key_defs parse_defs)

lemma set_map_filter_iff: "set (List.map_filter h xs) = {y. \<exists>x \<in> set xs. h x = Some y}"
  by (induction xs) (auto split: option.splits)

lemma set_observe:
  assumes "table_ok P K M w" and "finite M" and "card M \<le> unat MAX_TIKV_SCAN_LIMIT"
  shows "set (observe P n K u w) =
    {(i, cs_my_state (w_proc w i)) | i. i \<noteq> u \<and> cs_my_state (w_proc w i) \<noteq> S0Noncritical}"
proof -
  let ?t = "w_table w" and ?st = "\<lambda>i. cs_my_state (w_proc w i)"
  have dom: "dom ?t = {i. ?st i \<noteq> S0Noncritical}" "dom ?t \<subseteq> M"
    using assms(1) by (auto simp: table_ok_def dom_def split: if_splits)
  then have fin: "finite (dom ?t)" and card: "card (dom ?t) \<le> unat MAX_TIKV_SCAN_LIMIT"
    using assms(2,3) by (auto intro: finite_subset dest: card_mono [OF assms(2)])
  have all: "take (unat MAX_TIKV_SCAN_LIMIT) (sorted_list_of_set (dom ?t)) = sorted_list_of_set (dom ?t)"
    using card by simp
  have me: "cs_my_id (w_proc w u) = u" "cs_key_to_lock (w_proc w u) = K"
    using assms(1) by (auto simp: table_ok_def)
  have val: "the (?t i) = [as_u8 (?st i)]" if "i \<in> dom ?t" for i
    using assms(1) that dom(1) by (simp add: table_ok_def)
  let ?f = "\<lambda>(k, v). case bind_result (key_parser_start k P n) (\<lambda>kp. parse_lock_key kp K) of
         Inl _ \<Rightarrow> None
       | Inr pu \<Rightarrow> if pu \<noteq> u then Some (pu, from_u8 (case v of [] \<Rightarrow> 0 | b # _ \<Rightarrow> b)) else None"
  have f: "?f (key_lock_state (skb_new P) K i, the (?t i)) = (if i \<noteq> u then Some (i, ?st i) else None)"
    if "i \<in> dom ?t" for i
    using val [OF that] parse_lock_key_built [of P K i n] by simp
  have "set (observe P n K u w) = {y. \<exists>x \<in> set (scan_lock_table P K ?t). ?f x = Some y}"
    by (simp only: observe_def get_current_states_excluding_mine_def me set_map_filter_iff)
  also have "\<dots> = {y. \<exists>i \<in> dom ?t. ?f (key_lock_state (skb_new P) K i, the (?t i)) = Some y}"
    using fin by (simp add: scan_lock_table_def all)
  also have "\<dots> = {y. \<exists>i \<in> dom ?t. (if i \<noteq> u then Some (i, ?st i) else None) = Some y}"
    using f by (metis (no_types, lifting))
  also have "\<dots> = {(i, ?st i) | i. i \<noteq> u \<and> ?st i \<noteq> S0Noncritical}"
    using dom(1) by auto
  finally show ?thesis .
qed

section \<open>Mutual exclusion\<close>

text \<open>
  The proof works on the state each participant has reported (\<open>st\<close>) and on its position.
  \<open>abs_step\<close> is the algorithm on these two alone, as an abstract specification that the
  steps on the store refine.
\<close>

abbreviation st :: "cs_world \<Rightarrow> uuid \<Rightarrow> szymanskis_state" where
  "st w u \<equiv> cs_my_state (w_proc w u)"

inductive abs_step ::
  "(uuid \<Rightarrow> cs_pc) \<Rightarrow> (uuid \<Rightarrow> szymanskis_state) \<Rightarrow> (uuid \<Rightarrow> cs_pc) \<Rightarrow> (uuid \<Rightarrow> szymanskis_state) \<Rightarrow> bool" where
  "pc u = Idle \<Longrightarrow> abs_step pc s (pc(u := PollDoor)) (s(u := S1Intention))"
| "pc u = PollDoor \<Longrightarrow> (\<forall>i. i \<noteq> u \<longrightarrow> s i \<noteq> S3DoorIn \<and> s i \<noteq> S4DoorOut) \<Longrightarrow>
    abs_step pc s (pc(u := AtDoor)) s"
| "pc u = AtDoor \<Longrightarrow> abs_step pc s (pc(u := InDoor)) (s(u := S3DoorIn))"
| "pc u = InDoor \<Longrightarrow> abs_step pc s (pc(u := ToWaiting)) s"
| "pc u = InDoor \<Longrightarrow> (\<forall>i. i \<noteq> u \<longrightarrow> s i \<noteq> S1Intention) \<Longrightarrow> abs_step pc s (pc(u := ToDoorOut)) s"
| "pc u = ToWaiting \<Longrightarrow> abs_step pc s (pc(u := Waiting)) (s(u := S2WaitingRoom))"
| "pc u = Waiting \<Longrightarrow> s m = S4DoorOut \<Longrightarrow> abs_step pc s (pc(u := ToDoorOut)) s"
| "pc u = ToDoorOut \<Longrightarrow> abs_step pc s (pc(u := PollLower)) (s(u := S4DoorOut))"
| "pc u = PollLower \<Longrightarrow> (\<forall>i. i < u \<longrightarrow> s i = S0Noncritical \<or> s i = S1Intention) \<Longrightarrow>
    abs_step pc s (pc(u := Critical)) s"
| "pc u = Critical \<Longrightarrow> abs_step pc s (pc(u := PollHigher)) s"
| "pc u = PollHigher \<Longrightarrow>
    (\<forall>i. u < i \<longrightarrow> s i = S0Noncritical \<or> s i = S1Intention \<or> s i = S4DoorOut) \<Longrightarrow>
    abs_step pc s (pc(u := ToIdle)) s"
| "pc u = ToIdle \<Longrightarrow> abs_step pc s (pc(u := Idle)) (s(u := S0Noncritical))"

lemma observe_iffs:
  assumes "table_ok P K M w" and "finite M" and "card M \<le> unat MAX_TIKV_SCAN_LIMIT"
  shows "door_is_open (observe P n K u w) \<longleftrightarrow> (\<forall>i. i \<noteq> u \<longrightarrow> st w i \<noteq> S3DoorIn \<and> st w i \<noteq> S4DoorOut)"
    and "another_waiting (observe P n K u w) \<longleftrightarrow> (\<exists>i. i \<noteq> u \<and> st w i = S1Intention)"
    and "someone_at_door_out (observe P n K u w) \<longleftrightarrow> (\<exists>i. i \<noteq> u \<and> st w i = S4DoorOut)"
    and "lower_ids_done u (observe P n K u w) \<longleftrightarrow>
      (\<forall>i. i < u \<longrightarrow> st w i = S0Noncritical \<or> st w i = S1Intention)"
    and "higher_ids_done u (observe P n K u w) \<longleftrightarrow>
      (\<forall>i. u < i \<longrightarrow> st w i = S0Noncritical \<or> st w i = S1Intention \<or> st w i = S4DoorOut)"
  unfolding predicates_iff set_observe [OF assms] by force+

lemma state_after:
  "st (goto u p w) = st w" "w_pc (goto u p w) = (w_pc w)(u := p)"
  "st (report_state u s p w) = (st w)(u := s)" "w_pc (report_state u s p w) = (w_pc w)(u := p)"
  "st (set_entered u b w) = st w" "w_pc (set_entered u b w) = w_pc w"
  by (auto simp: goto_def report_state_def set_entered_def change_own_state_def)

lemma cs_step_refines:
  assumes "cs_step P n K M w w'" and "table_ok P K M w"
    and "finite M" and "card M \<le> unat MAX_TIKV_SCAN_LIMIT"
  shows "abs_step (w_pc w) (st w) (w_pc w') (st w') \<or> w_pc w' = w_pc w \<and> st w' = st w"
  using assms(1)
proof cases
  case (stop_waiting u)
  then show ?thesis
    using observe_iffs(3) [OF assms(2-4)] by (auto simp: state_after intro: abs_step.intros)
qed (auto simp: state_after observe_iffs [OF assms(2-4)] intro: abs_step.intros)

definition past_door :: "cs_pc \<Rightarrow> bool" where
  "past_door p \<longleftrightarrow> p \<in> {ToDoorOut, PollLower, Critical, PollHigher, ToIdle}"

definition door_out_pc :: "cs_pc \<Rightarrow> bool" where
  "door_out_pc p \<longleftrightarrow> p \<in> {PollLower, Critical, PollHigher, ToIdle}"

definition inside_pc :: "cs_pc \<Rightarrow> bool" where
  "inside_pc p \<longleftrightarrow> p \<in> {Critical, PollHigher, ToIdle}"

fun state_fits :: "cs_pc \<Rightarrow> szymanskis_state \<Rightarrow> bool" where
  "state_fits Idle s = (s = S0Noncritical)"
| "state_fits PollDoor s = (s = S1Intention)"
| "state_fits AtDoor s = (s = S1Intention)"
| "state_fits InDoor s = (s = S3DoorIn)"
| "state_fits ToWaiting s = (s = S3DoorIn)"
| "state_fits Waiting s = (s = S2WaitingRoom)"
| "state_fits ToDoorOut s = (s = S2WaitingRoom \<or> s = S3DoorIn)"
| "state_fits p s = (s = S4DoorOut)"

definition abs_inv :: "(uuid \<Rightarrow> cs_pc) \<Rightarrow> (uuid \<Rightarrow> szymanskis_state) \<Rightarrow> bool" where
  "abs_inv pc s \<longleftrightarrow>
     (\<forall>i. state_fits (pc i) (s i))
   \<and> (\<forall>k j. past_door (pc k) \<longrightarrow> pc j \<noteq> AtDoor)
   \<and> (\<forall>k j. inside_pc (pc k) \<longrightarrow> j < k \<longrightarrow> s j = S0Noncritical \<or> s j = S1Intention)
   \<and> (\<forall>k j. pc k = ToIdle \<longrightarrow> k < j \<longrightarrow> s j = S0Noncritical \<or> s j = S1Intention \<or> s j = S4DoorOut)
   \<and> (\<forall>k. pc k = ToDoorOut \<longrightarrow> s k = S2WaitingRoom \<longrightarrow> (\<exists>m. door_out_pc (pc m)))"

lemma pc_simps [simp]:
  "past_door Idle = False" "past_door PollDoor = False" "past_door AtDoor = False"
  "past_door InDoor = False" "past_door ToWaiting = False" "past_door Waiting = False"
  "past_door ToDoorOut" "past_door PollLower" "past_door Critical" "past_door PollHigher"
  "past_door ToIdle"
  "door_out_pc Idle = False" "door_out_pc PollDoor = False" "door_out_pc AtDoor = False"
  "door_out_pc InDoor = False" "door_out_pc ToWaiting = False" "door_out_pc Waiting = False"
  "door_out_pc ToDoorOut = False" "door_out_pc PollLower" "door_out_pc Critical"
  "door_out_pc PollHigher" "door_out_pc ToIdle"
  "inside_pc Idle = False" "inside_pc PollDoor = False" "inside_pc AtDoor = False"
  "inside_pc InDoor = False" "inside_pc ToWaiting = False" "inside_pc Waiting = False"
  "inside_pc ToDoorOut = False" "inside_pc PollLower = False" "inside_pc Critical"
  "inside_pc PollHigher" "inside_pc ToIdle"
  by (simp_all add: past_door_def door_out_pc_def inside_pc_def)

lemma abs_inv_fits: "abs_inv pc s \<Longrightarrow> state_fits (pc i) (s i)"
  and abs_inv_door: "abs_inv pc s \<Longrightarrow> past_door (pc k) \<Longrightarrow> pc j \<noteq> AtDoor"
  and abs_inv_lower: "abs_inv pc s \<Longrightarrow> inside_pc (pc k) \<Longrightarrow> j < k \<Longrightarrow> s j = S0Noncritical \<or> s j = S1Intention"
  and abs_inv_higher: "abs_inv pc s \<Longrightarrow> pc k = ToIdle \<Longrightarrow> k < j \<Longrightarrow>
    s j = S0Noncritical \<or> s j = S1Intention \<or> s j = S4DoorOut"
  and abs_inv_out: "abs_inv pc s \<Longrightarrow> pc k = ToDoorOut \<Longrightarrow> s k = S2WaitingRoom \<Longrightarrow> \<exists>m. door_out_pc (pc m)"
  unfolding abs_inv_def by blast+

lemma fits_door_out: "state_fits p s \<Longrightarrow> door_out_pc p \<longleftrightarrow> s = S4DoorOut"
  by (cases p) auto

lemma fits_past_door: "state_fits p S1Intention \<Longrightarrow> \<not> past_door p"
  by (cases p) auto

lemma fits_inside: "state_fits p s \<Longrightarrow> inside_pc p \<Longrightarrow> s = S4DoorOut"
  by (cases p) auto

lemma step_fits:
  assumes "abs_step pc s pc' s'" and "abs_inv pc s"
  shows "state_fits (pc' i) (s' i)"
  using assms(1) abs_inv_fits [OF assms(2), of i] by cases auto

lemma step_door:
  assumes step: "abs_step pc s pc' s'" and inv: "abs_inv pc s" and k: "past_door (pc' k)"
  shows "pc' j \<noteq> AtDoor"
  using step
proof cases
  case (2 u)
  have "\<not> past_door (pc i)" if "i \<noteq> u" for i
  proof
    assume past: "past_door (pc i)"
    have si: "s i \<noteq> S3DoorIn" "s i \<noteq> S4DoorOut" using 2 that by auto
    then have "pc i = ToDoorOut \<and> s i = S2WaitingRoom"
      using past abs_inv_fits [OF inv, of i] by (cases "pc i") auto
    then obtain m where m: "door_out_pc (pc m)" using abs_inv_out [OF inv, of i] by blast
    then have "s m = S4DoorOut" using fits_door_out abs_inv_fits [OF inv] by blast
    moreover have "m \<noteq> u" using m 2 by auto
    ultimately show False using 2 by blast
  qed
  then have "\<not> past_door (pc' k)" using 2 by auto
  with k show ?thesis by simp
next
  case (5 u)
  have "pc j \<noteq> AtDoor"
    using abs_inv_fits [OF inv, of j] 5 by (cases "j = u") auto
  then show ?thesis using 5 by auto
next
  case (7 u m)
  have "past_door (pc m)"
    using abs_inv_fits [OF inv, of m] 7 by (cases "pc m") auto
  then show ?thesis using abs_inv_door [OF inv] 7 by auto
qed (use k abs_inv_door [OF inv, of k j] in \<open>auto split: if_splits\<close>)

lemma step_lower:
  assumes step: "abs_step pc s pc' s'" and inv: "abs_inv pc s" and k: "inside_pc (pc' k)" and j: "j < k"
  shows "s' j = S0Noncritical \<or> s' j = S1Intention"
proof -
  have old: "s i = S0Noncritical \<or> s i = S1Intention" if "inside_pc (pc k)" "i < k" for i
    by (rule abs_inv_lower [OF inv that])
  have door: "pc i \<noteq> AtDoor" if "inside_pc (pc k)" for i
    using abs_inv_door [OF inv, of k i] that by (cases "pc k") auto
  have low: "pc j = Idle \<or> pc j = PollDoor" if "inside_pc (pc k)"
    using old [OF that j] door [OF that, of j] abs_inv_fits [OF inv, of j] by (cases "pc j") auto
  show ?thesis
    using step by cases (use k j old low in \<open>auto split: if_splits\<close>)
qed

lemma step_higher:
  assumes step: "abs_step pc s pc' s'" and inv: "abs_inv pc s" and k: "pc' k = ToIdle" and j: "k < j"
  shows "s' j = S0Noncritical \<or> s' j = S1Intention \<or> s' j = S4DoorOut"
proof -
  have old: "s i = S0Noncritical \<or> s i = S1Intention \<or> s i = S4DoorOut" if "pc k = ToIdle" "k < i" for i
    by (rule abs_inv_higher [OF inv that])
  have high: "pc j = Idle \<or> pc j = PollDoor \<or> door_out_pc (pc j)" if "pc k = ToIdle"
    using old [OF that j] abs_inv_door [OF inv, of k j] that abs_inv_fits [OF inv, of j]
    by (cases "pc j") auto
  show ?thesis
    using step by cases (use k j old high in \<open>auto split: if_splits\<close>)
qed

lemma door_out_kept:
  "door_out_pc (pc m) \<Longrightarrow> \<not> door_out_pc (pc u) \<Longrightarrow> \<exists>m. door_out_pc ((pc(u := p)) m)"
  for pc :: "uuid \<Rightarrow> cs_pc" and m u :: uuid
  by (rule exI [of _ m]) auto

lemma door_out_new: "door_out_pc p \<Longrightarrow> \<exists>m. door_out_pc ((pc(u := p)) m)"
  by (rule exI [of _ u]) simp

lemma step_out:
  assumes step: "abs_step pc s pc' s'" and inv: "abs_inv pc s"
    and k: "pc' k = ToDoorOut" and s: "s' k = S2WaitingRoom"
  shows "\<exists>m. door_out_pc (pc' m)"
proof -
  have other: "\<exists>m. door_out_pc (pc' m)"
    if upd: "pc' = pc(u := p)" "k \<noteq> u" "s' k = s k" "\<not> door_out_pc (pc u)" for u p
  proof -
    obtain m where "door_out_pc (pc m)" using abs_inv_out [OF inv, of k] k s upd by auto
    from door_out_kept [of pc m u p, OF this upd(4)] show ?thesis unfolding upd(1) .
  qed
  have new: "\<exists>m. door_out_pc (pc' m)" if "pc' = pc(u := p)" "door_out_pc p" for u p
    unfolding that(1) by (rule door_out_new [OF that(2)])
  show ?thesis
    using step
  proof cases
    case (7 u m)
    then have "door_out_pc (pc m)" "\<not> door_out_pc (pc u)"
      using fits_door_out [OF abs_inv_fits [OF inv, of m]] 7 by simp_all
    from door_out_kept [of pc m u ToDoorOut, OF this] show ?thesis unfolding 7(1) .
  next
    case (12 u)
    then have "k \<noteq> u" "s k = S2WaitingRoom" using k s by (auto split: if_splits)
    moreover have "inside_pc (pc u)" using 12 by simp
    ultimately have False
      using abs_inv_lower [OF inv, of u k] abs_inv_higher [OF inv, of u k] 12(3)
      by (cases k u rule: linorder_cases) simp_all
    then show ?thesis ..
  next
    case (5 u)
    then have "k \<noteq> u" using s abs_inv_fits [OF inv, of u] by auto
    with 5 show ?thesis by (intro other [of u]) auto
  next
    case (1 u) with k show ?thesis by (intro other [of u]) auto
  next
    case (2 u) with k show ?thesis by (intro other [of u]) auto
  next
    case (3 u) with k show ?thesis by (intro other [of u]) auto
  next
    case (4 u) with k show ?thesis by (intro other [of u]) auto
  next
    case (6 u) with k show ?thesis by (intro other [of u]) auto
  next
    case (8 u) then show ?thesis by (intro new [of u]) auto
  next
    case (9 u) then show ?thesis by (intro new [of u]) auto
  next
    case (10 u) then show ?thesis by (intro new [of u]) auto
  next
    case (11 u) then show ?thesis by (intro new [of u]) auto
  qed
qed

lemma abs_inv_step:
  assumes "abs_step pc s pc' s'" and "abs_inv pc s"
  shows "abs_inv pc' s'"
  unfolding abs_inv_def [of pc' s']
proof (intro conjI allI impI)
  show "state_fits (pc' i) (s' i)" for i by (rule step_fits [OF assms])
  show "pc' j \<noteq> AtDoor" if "past_door (pc' k)" for k j by (rule step_door [OF assms that])
  show "s' j = S0Noncritical \<or> s' j = S1Intention" if "inside_pc (pc' k)" "j < k" for k j
    by (rule step_lower [OF assms that])
  show "s' j = S0Noncritical \<or> s' j = S1Intention \<or> s' j = S4DoorOut" if "pc' k = ToIdle" "k < j" for k j
    by (rule step_higher [OF assms that])
  show "\<exists>m. door_out_pc (pc' m)" if "pc' k = ToDoorOut" "s' k = S2WaitingRoom" for k
    by (rule step_out [OF assms that])
qed

lemma abs_inv_init: "abs_inv (w_pc (cs_init P K)) (st (cs_init P K))"
  by (simp add: abs_inv_def cs_init_def critical_section_new_def)

definition entered_ok :: "cs_world \<Rightarrow> bool" where
  "entered_ok w \<longleftrightarrow> (\<forall>u. cs_entered (w_proc w u) = inside_pc (w_pc w u))"

lemma entered_ok_init: "entered_ok (cs_init P K)"
  by (simp add: entered_ok_def cs_init_def critical_section_new_def)

lemma entered_ok_step: "cs_step P n K M w w' \<Longrightarrow> entered_ok w \<Longrightarrow> entered_ok w'"
  by (induction rule: cs_step.induct)
    (auto simp: entered_ok_def goto_def report_state_def set_entered_def change_own_state_def)

lemma reachable_inv:
  assumes "cs_reachable P n K M w" and "finite M" and "card M \<le> unat MAX_TIKV_SCAN_LIMIT"
  shows "table_ok P K M w \<and> abs_inv (w_pc w) (st w) \<and> entered_ok w"
  using assms(1) unfolding cs_reachable_def
proof (induction rule: rtranclp_induct)
  case base
  then show ?case by (simp add: table_ok_init abs_inv_init entered_ok_init)
next
  case (step w w')
  then have "abs_inv (w_pc w') (st w')"
    using cs_step_refines [OF step.hyps(2) _ assms(2,3)] abs_inv_step by metis
  with step show ?case by (blast intro: table_ok_step entered_ok_step)
qed

lemma inside_unique:
  assumes "cs_reachable P n K M w" and "finite M" and "card M \<le> unat MAX_TIKV_SCAN_LIMIT"
    and pcs: "inside_pc (w_pc w i)" "inside_pc (w_pc w j)"
  shows "i = j"
proof (rule ccontr)
  assume "i \<noteq> j"
  have inv: "abs_inv (w_pc w) (st w)" using reachable_inv [OF assms(1-3)] by auto
  have states: "st w i = S4DoorOut" "st w j = S4DoorOut"
    using fits_inside abs_inv_fits [OF inv] pcs by blast+
  consider "i < j" | "j < i" using \<open>i \<noteq> j\<close> by force
  then show False
    using abs_inv_lower [OF inv pcs(2), of i] abs_inv_lower [OF inv pcs(1), of j] states
    by cases auto
qed

text \<open>
  C7. Mutual exclusion: however the steps of at most \<open>MAX_TIKV_SCAN_LIMIT\<close> participants
  interleave, and whichever of them fail on the way, at most one participant has entered the
  critical section of a key at any time.
\<close>

theorem critical_section_mutual_exclusion:
  assumes "cs_reachable P n K M w" and "finite M" and "card M \<le> unat MAX_TIKV_SCAN_LIMIT"
    and "cs_entered (w_proc w i)" and "cs_entered (w_proc w j)"
  shows "i = j"
  using inside_unique [OF assms(1-3), of i j] reachable_inv [OF assms(1-3)] assms(4,5) by (simp add: entered_ok_def)


text \<open>A participant alone: the run of \<open>enter\<close> and \<open>leave\<close>.\<close>

definition solo_world :: "bytes \<Rightarrow> bytes \<Rightarrow> uuid \<Rightarrow> szymanskis_state \<Rightarrow> cs_pc \<Rightarrow> bool \<Rightarrow> cs_world" where
  "solo_world P K u s p e =
     \<lparr>w_table = (if s = S0Noncritical then Map.empty else [u \<mapsto> [as_u8 s]]),
      w_proc = (critical_section_new P K)
        (u := (critical_section_new P K u)\<lparr>cs_my_state := s, cs_entered := e\<rparr>),
      w_pc = (\<lambda>_. Idle)(u := p), w_failed = {}\<rparr>"

lemma solo_init: "cs_init P K = solo_world P K u S0Noncritical Idle False"
  by (simp add: cs_init_def solo_world_def critical_section_new_def fun_eq_iff)

lemma solo_moves:
  "goto u q (solo_world P K u s p e) = solo_world P K u s q e"
  "report_state u t q (solo_world P K u s p e) = solo_world P K u t q e"
  "set_entered u d (solo_world P K u s p e) = solo_world P K u s p d"
  "w_pc (solo_world P K u s p e) u = p" "w_failed (solo_world P K u s p e) = {}"
  by (simp_all add: solo_world_def goto_def report_state_def set_entered_def change_own_state_def
      critical_section_new_def fun_eq_iff)

lemma solo_observe:
  assumes "u \<in> M" "finite M" "card M \<le> unat MAX_TIKV_SCAN_LIMIT"
  shows "observe P n K u (solo_world P K u s p e) = []"
proof -
  have "table_ok P K M (solo_world P K u s p e)"
    using assms(1) by (simp add: table_ok_def solo_world_def critical_section_new_def)
  from set_observe [OF this assms(2,3), of n u]
  have "set (observe P n K u (solo_world P K u s p e)) = {}"
    by (auto simp: solo_world_def critical_section_new_def)
  then show ?thesis by simp
qed

lemma solo_steps:
  assumes "u \<in> M" and "finite M" and "card M \<le> unat MAX_TIKV_SCAN_LIMIT"
  shows "cs_step P n K M (solo_world P K u S0Noncritical Idle False) (solo_world P K u S1Intention PollDoor False)"
    and "cs_step P n K M (solo_world P K u S1Intention PollDoor False) (solo_world P K u S1Intention AtDoor False)"
    and "cs_step P n K M (solo_world P K u S1Intention AtDoor False) (solo_world P K u S3DoorIn InDoor False)"
    and "cs_step P n K M (solo_world P K u S3DoorIn InDoor False) (solo_world P K u S3DoorIn ToDoorOut False)"
    and "cs_step P n K M (solo_world P K u S3DoorIn ToDoorOut False) (solo_world P K u S4DoorOut PollLower False)"
    and "cs_step P n K M (solo_world P K u S4DoorOut PollLower False) (solo_world P K u S4DoorOut Critical True)"
    and "cs_step P n K M (solo_world P K u S4DoorOut Critical True) (solo_world P K u S4DoorOut PollHigher True)"
    and "cs_step P n K M (solo_world P K u S4DoorOut PollHigher True) (solo_world P K u S4DoorOut ToIdle True)"
    and "cs_step P n K M (solo_world P K u S4DoorOut ToIdle True) (solo_world P K u S0Noncritical Idle False)"
proof -
  let ?w = "solo_world P K u"
  note rule = solo_moves solo_observe [OF assms] predicates_iff assms(1)
  show "cs_step P n K M (?w S0Noncritical Idle False) (?w S1Intention PollDoor False)"
    using cs_step.announce [of u M "?w S0Noncritical Idle False" P n K] by (simp add: rule)
  show "cs_step P n K M (?w S1Intention PollDoor False) (?w S1Intention AtDoor False)"
    using cs_step.pass_door [of u M "?w S1Intention PollDoor False" P n K] by (simp add: rule)
  show "cs_step P n K M (?w S1Intention AtDoor False) (?w S3DoorIn InDoor False)"
    using cs_step.enter_door [of u M "?w S1Intention AtDoor False" P n K] by (simp add: rule)
  show "cs_step P n K M (?w S3DoorIn InDoor False) (?w S3DoorIn ToDoorOut False)"
    using cs_step.see_none [of u M "?w S3DoorIn InDoor False" P n K] by (simp add: rule)
  show "cs_step P n K M (?w S3DoorIn ToDoorOut False) (?w S4DoorOut PollLower False)"
    using cs_step.door_out [of u M "?w S3DoorIn ToDoorOut False" P n K] by (simp add: rule)
  show "cs_step P n K M (?w S4DoorOut PollLower False) (?w S4DoorOut Critical True)"
    using cs_step.enter_critical [of u M "?w S4DoorOut PollLower False" P n K] by (simp add: rule)
  show "cs_step P n K M (?w S4DoorOut Critical True) (?w S4DoorOut PollHigher True)"
    using cs_step.start_leave [of u M "?w S4DoorOut Critical True" P n K] by (simp add: rule)
  show "cs_step P n K M (?w S4DoorOut PollHigher True) (?w S4DoorOut ToIdle True)"
    using cs_step.stop_polling [of u M "?w S4DoorOut PollHigher True" P n K] by (simp add: rule)
  show "cs_step P n K M (?w S4DoorOut ToIdle True) (?w S0Noncritical Idle False)"
    using cs_step.leave [of u M "?w S4DoorOut ToIdle True" P n K] by (simp add: rule)
qed

lemma solo_runs:
  assumes "u \<in> M" and "finite M" and "card M \<le> unat MAX_TIKV_SCAN_LIMIT"
  shows solo_in_door: "(cs_step P n K M)\<^sup>*\<^sup>* (cs_init P K) (solo_world P K u S3DoorIn InDoor False)"
    and solo_enters: "(cs_step P n K M)\<^sup>*\<^sup>* (cs_init P K) (solo_world P K u S4DoorOut Critical True)"
    and solo_leaves: "(cs_step P n K M)\<^sup>*\<^sup>* (solo_world P K u S4DoorOut Critical True) (cs_init P K)"
proof -
  let ?w = "solo_world P K u"
  note s = solo_steps [OF assms]
  note into = converse_rtranclp_into_rtranclp
  let ?step = "cs_step P n K M"
  have in_door: "?step\<^sup>*\<^sup>* (?w S0Noncritical Idle False) (?w S3DoorIn InDoor False)"
    by (rule into [OF s(1) into [OF s(2) r_into_rtranclp [of ?step, OF s(3)]]])
  have critical: "?step\<^sup>*\<^sup>* (?w S3DoorIn InDoor False) (?w S4DoorOut Critical True)"
    by (rule into [OF s(4) into [OF s(5) r_into_rtranclp [of ?step, OF s(6)]]])
  have idle: "?step\<^sup>*\<^sup>* (?w S4DoorOut Critical True) (?w S0Noncritical Idle False)"
    by (rule into [OF s(7) into [OF s(8) r_into_rtranclp [of ?step, OF s(9)]]])
  show "?step\<^sup>*\<^sup>* (cs_init P K) (?w S3DoorIn InDoor False)"
    using in_door unfolding solo_init [of P K u] .
  show "?step\<^sup>*\<^sup>* (cs_init P K) (?w S4DoorOut Critical True)"
    using rtranclp_trans [OF in_door critical] unfolding solo_init [of P K u] .
  show "?step\<^sup>*\<^sup>* (?w S4DoorOut Critical True) (cs_init P K)"
    using idle unfolding solo_init [of P K u] .
qed

text \<open>
  C35. Uncontended entry and exit: a participant that is alone enters the critical section and
  leaves it again, and after leaving the lock table is empty as before.
\<close>

theorem critical_section_solo_run:
  assumes "u \<in> M" and "finite M" and "card M \<le> unat MAX_TIKV_SCAN_LIMIT"
  shows "\<exists>w. (cs_step P n K M)\<^sup>*\<^sup>* (cs_init P K) w \<and> cs_entered (w_proc w u)
    \<and> (cs_step P n K M)\<^sup>*\<^sup>* w (cs_init P K)"
  using solo_enters [OF assms] solo_leaves [OF assms]
  by (intro exI [of _ "solo_world P K u S4DoorOut Critical True"]) (simp add: solo_world_def)

theorem critical_section_solo_run_witness:
  "\<exists>w. (cs_step [7] 32 [1] {1, 2})\<^sup>*\<^sup>* (cs_init [7] [1]) w \<and> cs_entered (w_proc w 1)
    \<and> (cs_step [7] 32 [1] {1, 2})\<^sup>*\<^sup>* w (cs_init [7] [1])"
  by (rule critical_section_solo_run) (simp_all add: MAX_TIKV_SCAN_LIMIT_def)

theorem critical_section_mutual_exclusion_witness:
  "\<exists>w. cs_reachable [7] 32 [1] {1, 2} w \<and> cs_entered (w_proc w 1)
    \<and> (\<forall>j. cs_entered (w_proc w j) \<longrightarrow> j = 1)"
proof -
  let ?w = "solo_world [7] [1] 1 S4DoorOut Critical True" and ?M = "{1, 2} :: uuid set"
  have small: "finite ?M" "card ?M \<le> unat MAX_TIKV_SCAN_LIMIT"
    by (simp_all add: MAX_TIKV_SCAN_LIMIT_def)
  have reach: "cs_reachable [7] 32 [1] ?M ?w"
    unfolding cs_reachable_def by (rule solo_enters [OF _ small]) simp
  have "cs_entered (w_proc ?w 1)" by (simp add: solo_world_def)
  with critical_section_mutual_exclusion [OF reach small] reach show ?thesis by blast
qed

section \<open>A participant that fails\<close>

lemma failed_stays:
  "cs_step P n K M w w' \<Longrightarrow> u \<in> w_failed w \<Longrightarrow> u \<in> w_failed w' \<and> st w' u = st w u"
  by (induction rule: cs_step.induct)
    (auto simp: goto_def report_state_def set_entered_def change_own_state_def)

lemma door_stays_closed:
  assumes "cs_step P n K M w w'" and "table_ok P K M w"
    and "finite M" and "card M \<le> unat MAX_TIKV_SCAN_LIMIT"
    and "st w u = S3DoorIn \<or> st w u = S4DoorOut" and "j \<noteq> u" and "w_pc w j = Idle \<or> w_pc w j = PollDoor"
  shows "w_pc w' j = Idle \<or> w_pc w' j = PollDoor"
  using assms(1)
proof cases
  case (pass_door v)
  then show ?thesis using observe_iffs(1) [OF assms(2-4)] assms(5-7) by (auto simp: state_after)
qed (use assms(7) in \<open>auto simp: state_after\<close>)



end
