(* ===== verification/Key_Lock.thy ===== *)
theory Key_Lock
  imports Szymanski
begin

text \<open>
  \<open>CriticalSectionKeyLock\<close> of \<open>szymanskis_critical_section.rs\<close>: a lock object that enters the
  critical section when it is constructed, and leaves it when it is unlocked or, in a spawned
  task, when it is dropped. An object is the participant with its fresh identifier; its phase says
  which call is running. The field \<open>critical_section\<close> is \<open>Some\<close> exactly in the phase \<open>Held\<close>; so a
  drop after an unlock does nothing.
\<close>

datatype key_lock_phase = Unborn | Constructing | Held | Leaving | Finished

record key_lock_world =
  kl_cs :: cs_world
  kl_phase :: "uuid \<Rightarrow> key_lock_phase"

definition to_phase :: "uuid \<Rightarrow> key_lock_phase \<Rightarrow> key_lock_world \<Rightarrow> key_lock_world" where
  "to_phase u p w = w\<lparr>kl_phase := (kl_phase w)(u := p)\<rparr>"

text \<open>A step of \<open>enter\<close> or \<open>leave\<close> that participant \<open>u\<close> makes.\<close>

definition own_step :: "bytes \<Rightarrow> nat \<Rightarrow> bytes \<Rightarrow> uuid set \<Rightarrow> uuid \<Rightarrow> cs_world \<Rightarrow> cs_world \<Rightarrow> bool" where
  "own_step P n K M u w w' \<longleftrightarrow> cs_step P n K M w w'
     \<and> (\<forall>v. v \<noteq> u \<longrightarrow> w_pc w' v = w_pc w v \<and> w_proc w' v = w_proc w v \<and> (v \<in> w_failed w' \<longleftrightarrow> v \<in> w_failed w))"

inductive key_lock_step :: "bytes \<Rightarrow> nat \<Rightarrow> bytes \<Rightarrow> uuid set \<Rightarrow> key_lock_world \<Rightarrow> key_lock_world \<Rightarrow> bool"
  for P :: bytes and n :: nat and K :: bytes and M :: "uuid set" where
  new_lock: "u \<in> M \<Longrightarrow> kl_phase w u = Unborn \<Longrightarrow> key_lock_step P n K M w (to_phase u Constructing w)"
| entering: "kl_phase w u = Constructing \<Longrightarrow> w_pc (kl_cs w) u \<noteq> Critical \<Longrightarrow> own_step P n K M u (kl_cs w) c \<Longrightarrow>
    key_lock_step P n K M w (w\<lparr>kl_cs := c\<rparr>)"
| constructed: "kl_phase w u = Constructing \<Longrightarrow> w_pc (kl_cs w) u = Critical \<Longrightarrow> key_lock_step P n K M w (to_phase u Held w)"
| not_constructed: "kl_phase w u = Constructing \<Longrightarrow> u \<in> w_failed (kl_cs w) \<Longrightarrow> key_lock_step P n K M w (to_phase u Finished w)"
| unlock: "kl_phase w u = Held \<Longrightarrow> key_lock_step P n K M w (to_phase u Leaving w)"
| leaving: "kl_phase w u = Leaving \<Longrightarrow> w_pc (kl_cs w) u \<noteq> Idle \<Longrightarrow> own_step P n K M u (kl_cs w) c \<Longrightarrow>
    key_lock_step P n K M w (w\<lparr>kl_cs := c\<rparr>)"
| left: "kl_phase w u = Leaving \<Longrightarrow> w_pc (kl_cs w) u = Idle \<or> u \<in> w_failed (kl_cs w) \<Longrightarrow>
    key_lock_step P n K M w (to_phase u Finished w)"

definition key_lock_init :: "bytes \<Rightarrow> bytes \<Rightarrow> key_lock_world" where
  "key_lock_init P K = \<lparr>kl_cs = cs_init P K, kl_phase = (\<lambda>_. Unborn)\<rparr>"

section \<open>A held lock is held by one\<close>

lemma to_phase_simps [simp]:
  "kl_cs (to_phase u p w) = kl_cs w" "kl_phase (to_phase u p w) = (kl_phase w)(u := p)"
  by (simp_all add: to_phase_def)

text \<open>The participants take steps of the protocol, and while a lock is held its participant takes none.\<close>

lemma key_lock_inv:
  assumes "(key_lock_step P n K M)\<^sup>*\<^sup>* (key_lock_init P K) w"
  shows "cs_reachable P n K M (kl_cs w) \<and> (\<forall>u. kl_phase w u = Held \<longrightarrow> w_pc (kl_cs w) u = Critical)"
  using assms
proof (induction rule: rtranclp_induct)
  case base
  then show ?case by (simp add: key_lock_init_def cs_reachable_def)
next
  case (step w w')
  have more: "cs_reachable P n K M c" if "own_step P n K M u (kl_cs w) c" for u c
    using that step.IH by (auto simp: own_step_def cs_reachable_def intro: rtranclp.rtrancl_into_rtrancl)
  show ?case using step.hyps(2)
  proof cases
    case (entering u c)
    then show ?thesis using step.IH more by (auto simp: own_step_def) (metis key_lock_phase.distinct(9))
  next
    case (leaving u c)
    then show ?thesis using step.IH more by (auto simp: own_step_def) (metis key_lock_phase.distinct)
  qed (use step.IH in \<open>auto split: if_splits\<close>)
qed

text \<open>
  C19. However the constructions, unlocks and drops of the locks of one key interleave, and whichever
  accesses to the store fail, at most one lock object is held at any time.
\<close>

theorem key_lock_excludes:
  assumes "(key_lock_step P n K M)\<^sup>*\<^sup>* (key_lock_init P K) w" and "finite M" and "card M \<le> unat MAX_TIKV_SCAN_LIMIT"
    and "kl_phase w u = Held" and "kl_phase w v = Held"
  shows "u = v"
  using key_lock_inv [OF assms(1)] assms(4,5) by (auto intro: inside_unique [OF _ assms(2,3)] simp: inside_pc_def)

text \<open>A lock that is alone is constructed.\<close>

lemma solo_own_step:
  "cs_step P n K M (solo_world P K u s p e) (solo_world P K u s' p' e') \<Longrightarrow>
    own_step P n K M u (solo_world P K u s p e) (solo_world P K u s' p' e')"
  by (simp add: own_step_def solo_world_def)

lemma solo_lock_held:
  assumes M: "u \<in> M" "finite M" "card M \<le> unat MAX_TIKV_SCAN_LIMIT"
  shows "(key_lock_step P n K M)\<^sup>*\<^sup>* (key_lock_init P K)
    \<lparr>kl_cs = solo_world P K u S4DoorOut Critical True, kl_phase = (\<lambda>_. Unborn)(u := Held)\<rparr>"
proof -
  let ?step = "key_lock_step P n K M"
  let ?w = "\<lambda>s p e ph. \<lparr>kl_cs = solo_world P K u s p e, kl_phase = (\<lambda>_. Unborn)(u := ph)\<rparr>"
  have enter: "?step\<^sup>*\<^sup>* (?w s p e Constructing) (?w s' p' e' Constructing)"
    if "cs_step P n K M (solo_world P K u s p e) (solo_world P K u s' p' e')" "p \<noteq> Critical" for s p e s' p' e'
    using key_lock_step.entering [of "?w s p e Constructing" u P n K M "solo_world P K u s' p' e'"] solo_own_step [OF that(1)] that(2)
    by (simp add: solo_moves r_into_rtranclp)
  note s = solo_steps [OF M, THEN enter]
  have "?step\<^sup>*\<^sup>* (key_lock_init P K) (?w S0Noncritical Idle False Constructing)"
    using key_lock_step.new_lock [of u M "key_lock_init P K" P n K] M(1)
    by (simp add: key_lock_init_def to_phase_def solo_init [of P K u] r_into_rtranclp)
  also have "?step\<^sup>*\<^sup>* (?w S0Noncritical Idle False Constructing) (?w S1Intention PollDoor False Constructing)" by (rule s(1)) simp
  also have "?step\<^sup>*\<^sup>* (?w S1Intention PollDoor False Constructing) (?w S1Intention AtDoor False Constructing)" by (rule s(2)) simp
  also have "?step\<^sup>*\<^sup>* (?w S1Intention AtDoor False Constructing) (?w S3DoorIn InDoor False Constructing)" by (rule s(3)) simp
  also have "?step\<^sup>*\<^sup>* (?w S3DoorIn InDoor False Constructing) (?w S3DoorIn ToDoorOut False Constructing)" by (rule s(4)) simp
  also have "?step\<^sup>*\<^sup>* (?w S3DoorIn ToDoorOut False Constructing) (?w S4DoorOut PollLower False Constructing)" by (rule s(5)) simp
  also have "?step\<^sup>*\<^sup>* (?w S4DoorOut PollLower False Constructing) (?w S4DoorOut Critical True Constructing)" by (rule s(6)) simp
  also have "?step\<^sup>*\<^sup>* (?w S4DoorOut Critical True Constructing) (?w S4DoorOut Critical True Held)"
    using key_lock_step.constructed [of "?w S4DoorOut Critical True Constructing" u P n K M] by (simp add: to_phase_def solo_moves r_into_rtranclp)
  finally show ?thesis .
qed

theorem key_lock_excludes_witness:
  "\<exists>w. (key_lock_step [7] 32 [1] {1, 2})\<^sup>*\<^sup>* (key_lock_init [7] [1]) w \<and> kl_phase w 1 = Held
     \<and> (\<forall>v. kl_phase w v = Held \<longrightarrow> v = 1)"
proof -
  have small: "finite {1, 2 :: uuid}" "card {1, 2 :: uuid} \<le> unat MAX_TIKV_SCAN_LIMIT" by (simp_all add: MAX_TIKV_SCAN_LIMIT_def)
  obtain w where w: "(key_lock_step [7] 32 [1] {1, 2})\<^sup>*\<^sup>* (key_lock_init [7] [1]) w" "kl_phase w 1 = Held"
    using solo_lock_held [of 1 "{1, 2}", OF _ small] by (metis fun_upd_same insertI1 key_lock_world.select_convs(2))
  then show ?thesis using key_lock_excludes [OF w(1) small _ w(2)] by blast
qed

end
