(* ===== verification/Lazy_Lock_Map.thy ===== *)
theory Lazy_Lock_Map
  imports Prelude
begin

text \<open>
  The map of lazily made locks (\<open>utils/lazy_lock_map.rs\<close>), by which operations on one inode exclude
  each other within one process. The map holds weak references: a lock exists as long as somebody
  holds a strong reference to it, and a weak reference to a lock that exists no more gives nothing.
  A lock is a number, \<open>lm_refs\<close> counts its strong references, and new locks get new numbers.
\<close>

section \<open>The operations\<close>

record 'k lazy_lock_map =
  lm_map :: "('k \<times> nat) list"
  lm_refs :: "nat \<Rightarrow> nat"
  lm_next :: nat

definition lazy_lock_map_new :: "'k lazy_lock_map" where
  "lazy_lock_map_new = \<lparr>lm_map = [], lm_refs = (\<lambda>_. 0), lm_next = 0\<rparr>"

definition upgrade :: "'k lazy_lock_map \<Rightarrow> nat \<Rightarrow> nat option" where
  "upgrade L l = (if 0 < lm_refs L l then Some l else None)"

definition get_lock :: "'k \<Rightarrow> 'k lazy_lock_map \<Rightarrow> nat \<times> 'k lazy_lock_map" where
  "get_lock key L = (case Option.bind (map_of (lm_map L) key) (upgrade L) of
     Some lock \<Rightarrow> (lock, L\<lparr>lm_refs := (lm_refs L)(lock := lm_refs L lock + 1)\<rparr>)
   | None \<Rightarrow> let lock = lm_next L in
       (lock, \<lparr>lm_map = map_insert key lock (lm_map L), lm_refs = (lm_refs L)(lock := 1), lm_next = lock + 1\<rparr>))"

text \<open>Dropping a strong reference, which the guards of \<open>lock_write\<close> and \<open>lock_read\<close> hold.\<close>

definition drop_lock :: "nat \<Rightarrow> 'k lazy_lock_map \<Rightarrow> 'k lazy_lock_map" where
  "drop_lock l L = L\<lparr>lm_refs := (lm_refs L)(l := lm_refs L l - 1)\<rparr>"

definition lm_cleanup :: "'k lazy_lock_map \<Rightarrow> 'k lazy_lock_map" where
  "lm_cleanup L = L\<lparr>lm_map := filter (\<lambda>(k, l). upgrade L l \<noteq> None) (lm_map L)\<rparr>"

section \<open>One lock for a key\<close>

text \<open>
  The users of the map: \<open>lu_held\<close> lists the references they hold, each with the key it was asked for.
\<close>

record 'k lock_users =
  lu_locks :: "'k lazy_lock_map"
  lu_held :: "(nat \<times> 'k) list"

inductive lock_users_step :: "'k lock_users \<Rightarrow> 'k lock_users \<Rightarrow> bool" where
  asked: "get_lock k (lu_locks u) = (l, L) \<Longrightarrow> lock_users_step u \<lparr>lu_locks = L, lu_held = (l, k) # lu_held u\<rparr>"
| dropped: "(l, k) \<in> set (lu_held u) \<Longrightarrow>
    lock_users_step u \<lparr>lu_locks = drop_lock l (lu_locks u), lu_held = remove1 (l, k) (lu_held u)\<rparr>"
| cleaned: "lock_users_step u (u\<lparr>lu_locks := lm_cleanup (lu_locks u)\<rparr>)"

definition lock_users_new :: "'k lock_users" where
  "lock_users_new = \<lparr>lu_locks = lazy_lock_map_new, lu_held = []\<rparr>"

text \<open>References are counted right, the map leads from a key to the lock held for it, and numbers are new.\<close>

definition locks_ok :: "'k lock_users \<Rightarrow> bool" where
  "locks_ok u \<longleftrightarrow> (\<forall>l. lm_refs (lu_locks u) l = count_list (map fst (lu_held u)) l)
     \<and> (\<forall>l k. (l, k) \<in> set (lu_held u) \<longrightarrow> map_of (lm_map (lu_locks u)) k = Some l)
     \<and> (\<forall>k l. map_of (lm_map (lu_locks u)) k = Some l \<longrightarrow> l < lm_next (lu_locks u))
     \<and> (\<forall>k k' l. map_of (lm_map (lu_locks u)) k = Some l \<longrightarrow> map_of (lm_map (lu_locks u)) k' = Some l \<longrightarrow> k = k')
     \<and> distinct (map fst (lm_map (lu_locks u)))"

lemma count_list_pos: "(l, k) \<in> set xs \<Longrightarrow> 0 < count_list (map fst xs) l"
  by (induction xs) auto

lemma held_counted: "locks_ok u \<Longrightarrow> (l, k) \<in> set (lu_held u) \<Longrightarrow> 0 < lm_refs (lu_locks u) l"
  using count_list_pos [of l k "lu_held u"] by (simp add: locks_ok_def)

lemma new_number:
  assumes "locks_ok u"
  shows "count_list (map fst (lu_held u)) (lm_next (lu_locks u)) = 0"
proof -
  have "(lm_next (lu_locks u), k) \<notin> set (lu_held u)" for k
    using assms unfolding locks_ok_def by (metis less_irrefl)
  then show ?thesis by (auto simp: count_list_0_iff)
qed

lemma map_of_filter_distinct:
  "distinct (map fst xs) \<Longrightarrow> map_of (filter (\<lambda>(k, v). Q v) xs) k = (case map_of xs k of Some v \<Rightarrow> if Q v then Some v else None | None \<Rightarrow> None)"
proof (induction xs)
  case (Cons x xs)
  have "map_of (filter (\<lambda>(k, v). Q v) xs) (fst x) = None" using Cons.prems by (auto simp: map_of_eq_None_iff)
  then show ?case using Cons by (auto split: prod.splits)
qed simp

lemma count_list_remove1:
  "(l, k) \<in> set xs \<Longrightarrow> count_list (map fst (remove1 (l, k) xs)) l' = count_list (map fst xs) l' - (if l' = l then 1 else 0)"
proof (induction xs)
  case (Cons x xs)
  show ?case
  proof (cases "x = (l, k)")
    case False
    then have "(l, k) \<in> set xs" using Cons.prems by auto
    moreover from this have "0 < count_list (map fst xs) l" by (rule count_list_pos)
    ultimately show ?thesis using Cons.IH False by (cases x) auto
  qed auto
qed simp

lemma locks_ok_asked:
  assumes ok: "locks_ok u" and got: "get_lock k (lu_locks u) = (l, L)"
  shows "locks_ok \<lparr>lu_locks = L, lu_held = (l, k) # lu_held u\<rparr>"
proof (cases "Option.bind (map_of (lm_map (lu_locks u)) k) (upgrade (lu_locks u))")
  case (Some l')
  then have "map_of (lm_map (lu_locks u)) k = Some l'" by (auto simp: upgrade_def bind_eq_Some_conv split: if_splits)
  then show ?thesis using ok got Some by (auto simp: get_lock_def locks_ok_def)
next
  case None
  have free: "(l', k) \<notin> set (lu_held u)" for l'
    using held_counted [OF ok, of l' k] ok None by (auto simp: locks_ok_def upgrade_def)
  have "l = lm_next (lu_locks u)" and L: "lm_map L = map_insert k l (lm_map (lu_locks u))" "lm_refs L = (lm_refs (lu_locks u))(l := 1)"
      "lm_next L = l + 1"
    using got None by (auto simp: get_lock_def Let_def)
  moreover have "map_of (lm_map (lu_locks u)) k' \<noteq> Some (lm_next (lu_locks u))" for k'
    using ok unfolding locks_ok_def by (metis less_irrefl)
  ultimately show ?thesis using ok free new_number [OF ok]
    by (auto simp: locks_ok_def map_of_map_insert distinct_map_insert less_Suc_eq)
qed

lemma cleanup_facts:
  assumes "locks_ok u"
  shows "lm_refs (lm_cleanup (lu_locks u)) = lm_refs (lu_locks u)" "lm_next (lm_cleanup (lu_locks u)) = lm_next (lu_locks u)"
    "distinct (map fst (lm_map (lm_cleanup (lu_locks u))))"
    "map_of (lm_map (lm_cleanup (lu_locks u))) k = (case map_of (lm_map (lu_locks u)) k of
       Some l \<Rightarrow> if 0 < lm_refs (lu_locks u) l then Some l else None | None \<Rightarrow> None)"
proof -
  have keys: "distinct (map fst (lm_map (lu_locks u)))" using assms by (simp add: locks_ok_def)
  show "distinct (map fst (lm_map (lm_cleanup (lu_locks u))))" using keys by (simp add: lm_cleanup_def distinct_map_filter)
  show "map_of (lm_map (lm_cleanup (lu_locks u))) k = (case map_of (lm_map (lu_locks u)) k of
       Some l \<Rightarrow> if 0 < lm_refs (lu_locks u) l then Some l else None | None \<Rightarrow> None)"
    using map_of_filter_distinct [OF keys, of "\<lambda>l. upgrade (lu_locks u) l \<noteq> None" k]
    by (simp add: lm_cleanup_def upgrade_def split: option.split)
qed (simp_all add: lm_cleanup_def)

lemma locks_ok_cleaned:
  assumes ok: "locks_ok u"
  shows "locks_ok (u\<lparr>lu_locks := lm_cleanup (lu_locks u)\<rparr>)"
proof -
  let ?m = "map_of (lm_map (lm_cleanup (lu_locks u)))"
  have old: "map_of (lm_map (lu_locks u)) k = Some l" if "?m k = Some l" for k l
    using that by (auto simp: cleanup_facts(4) [OF ok] split: option.splits if_splits)
  have "?m k = Some l" if "(l, k) \<in> set (lu_held u)" for l k
    using held_counted [OF ok that] ok that by (simp add: cleanup_facts(4) [OF ok] locks_ok_def)
  moreover have "l < lm_next (lu_locks u)" if "?m k = Some l" for k l using old [OF that] ok unfolding locks_ok_def by blast
  moreover have "k = k'" if "?m k = Some l" "?m k' = Some l" for k k' l
    using old [OF that(1)] old [OF that(2)] ok unfolding locks_ok_def by blast
  moreover have "lm_refs (lu_locks u) l = count_list (map fst (lu_held u)) l" for l using ok by (simp add: locks_ok_def)
  ultimately show ?thesis using cleanup_facts(1-3) [OF ok] by (simp add: locks_ok_def)
qed

lemma locks_ok_dropped:
  assumes ok: "locks_ok u" and held: "(l, k) \<in> set (lu_held u)"
  shows "locks_ok \<lparr>lu_locks = drop_lock l (lu_locks u), lu_held = remove1 (l, k) (lu_held u)\<rparr>"
proof -
  have "lm_refs (drop_lock l (lu_locks u)) l' = count_list (map fst (remove1 (l, k) (lu_held u))) l'" for l'
    using ok by (simp add: drop_lock_def count_list_remove1 [OF held] locks_ok_def)
  moreover have "map_of (lm_map (lu_locks u)) k' = Some l'" if "(l', k') \<in> set (remove1 (l, k) (lu_held u))" for l' k'
    using notin_set_remove1 [of _ "lu_held u"] that ok unfolding locks_ok_def by blast
  moreover have "lm_map (drop_lock l (lu_locks u)) = lm_map (lu_locks u)" "lm_next (drop_lock l (lu_locks u)) = lm_next (lu_locks u)"
    by (simp_all add: drop_lock_def)
  ultimately show ?thesis using ok unfolding locks_ok_def lock_users.simps by metis
qed

lemma locks_ok_step:
  assumes "lock_users_step u u'" "locks_ok u"
  shows "locks_ok u'"
  using assms(1)
proof cases
  case (asked k l L)
  show ?thesis unfolding asked(1) by (rule locks_ok_asked [OF assms(2) asked(2)])
next
  case (dropped l k)
  show ?thesis unfolding dropped(1) by (rule locks_ok_dropped [OF assms(2) dropped(2)])
next
  case cleaned
  show ?thesis unfolding cleaned by (rule locks_ok_cleaned [OF assms(2)])
qed

text \<open>
  C29. However asking for locks, dropping them and cleaning up interleave, two references that are held at
  the same time are to the same lock exactly if they were asked for with the same key.
\<close>

theorem one_lock_per_key:
  assumes "lock_users_step\<^sup>*\<^sup>* lock_users_new u" and "(l, k) \<in> set (lu_held u)" and "(l', k') \<in> set (lu_held u)"
  shows "l = l' \<longleftrightarrow> k = k'"
proof -
  have "locks_ok u" using assms(1)
  proof (induction rule: rtranclp_induct)
    case base
    then show ?case by (simp add: locks_ok_def lock_users_new_def lazy_lock_map_new_def)
  qed (rule locks_ok_step)
  then show ?thesis using assms(2,3) unfolding locks_ok_def by (metis option.inject)
qed

text \<open>Two references for the key 5 and one for the key 6.\<close>

theorem one_lock_per_key_witness:
  "\<exists>u. lock_users_step\<^sup>*\<^sup>* lock_users_new u \<and> lu_held u = [(1, 6), (0, 5), (0, 5 :: nat)]
     \<and> ((1 :: nat) = 0 \<longleftrightarrow> (6 :: nat) = 5) \<and> ((0 :: nat) = 0 \<longleftrightarrow> (5 :: nat) = 5)"
proof -
  let ?L = "\<lambda>m r i. \<lparr>lm_map = m, lm_refs = (\<lambda>_. 0)(0 := r, 1 := i), lm_next = 1 + i\<rparr> :: nat lazy_lock_map"
  let ?u1 = "\<lparr>lu_locks = ?L [(5, 0)] 1 0, lu_held = [(0, 5)]\<rparr>" and ?u2 = "\<lparr>lu_locks = ?L [(5, 0)] 2 0, lu_held = [(0, 5), (0, 5)]\<rparr>"
  let ?u3 = "\<lparr>lu_locks = ?L [(5, 0), (6, 1)] 2 1, lu_held = [(1, 6), (0, 5), (0, 5)]\<rparr>"
  have "lock_users_step lock_users_new ?u1"
    using lock_users_step.asked [of 5 lock_users_new 0 "?L [(5, 0)] 1 0"]
    by (simp add: lock_users_new_def lazy_lock_map_new_def get_lock_def fun_eq_iff)
  moreover have "lock_users_step ?u1 ?u2"
    using lock_users_step.asked [of 5 ?u1 0 "?L [(5, 0)] 2 0"] by (simp add: get_lock_def upgrade_def fun_eq_iff)
  moreover have "lock_users_step ?u2 ?u3"
    using lock_users_step.asked [of 6 ?u2 1 "?L [(5, 0), (6, 1)] 2 1"] by (simp add: get_lock_def upgrade_def fun_eq_iff)
  ultimately have reach: "lock_users_step\<^sup>*\<^sup>* lock_users_new ?u3"
    by (meson converse_rtranclp_into_rtranclp rtranclp.rtrancl_refl)
  then show ?thesis
    using one_lock_per_key [OF reach, of 1 6 0 5] one_lock_per_key [OF reach, of 0 5 0 5] by (intro exI [of _ ?u3]) simp
qed

end
