(* ===== verification/Fs_Config.thy ===== *)
theory Fs_Config
  imports Key_Facts
begin

text \<open>
  Mount options and the configuration derived from them (\<open>fs_config.rs\<close>). A Rust string is
  the list of its bytes as characters. \<open>parse_size\<close> is a function of the crate of that name
  and an argument of the model; parsing a decimal integer is the standard library's.
\<close>

section \<open>Mount options\<close>

datatype mount_option =
    MO_Unknown string
  | MO_Dev | MO_NoDev | MO_Suid | MO_NoSuid | MO_RO | MO_RW | MO_Exec | MO_NoExec | MO_DirSync
  | MO_Atime | MO_NoAtime
  | MO_DirectIO
  | MO_BlkSize string | MO_MaxSize string | MO_Tls string | MO_Name string
  | MO_InodeCacheSize string
  | MO_HashedBlocks
  | MO_HashedBlocksCacheSize string
  | MO_NoMtime | MO_ValidateWrites | MO_ValidateReadHashes | MO_PureRaw | MO_NoExistenceCheck
  | MO_ParallelJobs string | MO_ParallelJobsDelete string | MO_MaxChunkSize string
  | MO_WriteInProgressLimit string | MO_ReadAheadSize string
  | MO_ReadAheadInProgressLimit string | MO_HashAlgorithm string | MO_InlineDataLimit string
  | MO_SmallTxns
  | MO_WriteAccumulatorFlushThreshold string

datatype fuse_mount_option =
    FMO_Dev | FMO_NoDev | FMO_Suid | FMO_NoSuid | FMO_RO | FMO_RW | FMO_Exec | FMO_NoExec
  | FMO_DirSync | FMO_Atime | FMO_NoAtime
  | FMO_FSName string | FMO_AllowOther | FMO_DefaultPermissions | FMO_AutoUnmount

text \<open>The options without an argument and those with one, by name.\<close>

definition flag_options :: "(string \<times> mount_option) list" where
  "flag_options = [(''dev'', MO_Dev), (''nodev'', MO_NoDev), (''suid'', MO_Suid),
     (''nosuid'', MO_NoSuid), (''ro'', MO_RO), (''rw'', MO_RW), (''exec'', MO_Exec),
     (''noexec'', MO_NoExec), (''dirsync'', MO_DirSync), (''atime'', MO_Atime),
     (''noatime'', MO_NoAtime), (''direct_io'', MO_DirectIO), (''hashedblocks'', MO_HashedBlocks),
     (''nomtime'', MO_NoMtime), (''validatewrites'', MO_ValidateWrites),
     (''validatereadhashes'', MO_ValidateReadHashes), (''pureraw'', MO_PureRaw),
     (''noexistencecheck'', MO_NoExistenceCheck), (''smalltxns'', MO_SmallTxns)]"

definition value_options :: "(string \<times> (string \<Rightarrow> mount_option)) list" where
  "value_options = [(''blksize'', MO_BlkSize), (''maxsize'', MO_MaxSize), (''tls'', MO_Tls),
     (''name'', MO_Name), (''inodecachesize'', MO_InodeCacheSize),
     (''hashedblockscachesize'', MO_HashedBlocksCacheSize), (''paralleljobs'', MO_ParallelJobs),
     (''paralleljobsdelete'', MO_ParallelJobsDelete), (''maxchunksize'', MO_MaxChunkSize),
     (''writeinprogresslimit'', MO_WriteInProgressLimit), (''readaheadsize'', MO_ReadAheadSize),
     (''readaheadinprogresslimit'', MO_ReadAheadInProgressLimit),
     (''hashalgorithm'', MO_HashAlgorithm), (''inlinedatalimit'', MO_InlineDataLimit),
     (''writeaccumulatorflushthreshold'', MO_WriteAccumulatorFlushThreshold)]"

text \<open>\<open>splitn(2, c)\<close>: the part before the first \<open>c\<close>, and the part after it if there is one.\<close>

definition split_first :: "char \<Rightarrow> string \<Rightarrow> string \<times> string option" where
  "split_first c s =
     (let a = takeWhile (\<lambda>x. x \<noteq> c) s in
      (a, if length a < length s then Some (drop (length a + 1) s) else None))"

text \<open>\<open>FromStr\<close>: \<open>None\<close> is the error, which every caller maps to \<open>Unknown\<close>.\<close>

definition mount_option_from_str :: "string \<Rightarrow> mount_option option" where
  "mount_option_from_str fullopt =
     (let (optname, optval) = split_first (CHR ''='') fullopt;
          optval_present = (optval \<noteq> None);
          val = (case optval of None \<Rightarrow> [] | Some v \<Rightarrow> v);
          (parsed, optval_used) =
            (case map_of flag_options optname of
               Some opt \<Rightarrow> (opt, False)
             | None \<Rightarrow> (case map_of value_options optname of
                 Some mk \<Rightarrow> (mk val, True)
               | None \<Rightarrow> (MO_Unknown fullopt, False)))
      in if \<not> optval_used \<and> optval_present then None
         else if optval_used \<and> \<not> optval_present then None
         else Some parsed)"

definition mount_option_from :: "string \<Rightarrow> mount_option" where
  "mount_option_from v =
     (case mount_option_from_str v of Some opt \<Rightarrow> opt | None \<Rightarrow> MO_Unknown v)"

text \<open>\<open>split(',')\<close>\<close>

fun split_on :: "char \<Rightarrow> string \<Rightarrow> string list" where
  "split_on c [] = [[]]"
| "split_on c (x # xs) =
     (if x = c then [] # split_on c xs
      else case split_on c xs of [] \<Rightarrow> [[x]] | y # ys \<Rightarrow> (x # y) # ys)"

definition mount_options_to_vec :: "string list \<Rightarrow> mount_option list" where
  "mount_options_to_vec opts = concat (map (\<lambda>v. map mount_option_from (split_on (CHR '','') v)) opts)"

fun to_builtin :: "mount_option \<Rightarrow> fuse_mount_option option" where
  "to_builtin MO_Dev = Some FMO_Dev"
| "to_builtin MO_NoDev = Some FMO_NoDev"
| "to_builtin MO_Suid = Some FMO_Suid"
| "to_builtin MO_NoSuid = Some FMO_NoSuid"
| "to_builtin MO_RO = Some FMO_RO"
| "to_builtin MO_RW = Some FMO_RW"
| "to_builtin MO_Exec = Some FMO_Exec"
| "to_builtin MO_NoExec = Some FMO_NoExec"
| "to_builtin MO_DirSync = Some FMO_DirSync"
| "to_builtin MO_Atime = Some FMO_Atime"
| "to_builtin MO_NoAtime = Some FMO_NoAtime"
| "to_builtin _ = None"

definition collect_builtin :: "mount_option list \<Rightarrow> fuse_mount_option list" where
  "collect_builtin opts = List.map_filter to_builtin opts"

fun string_of_mount_option :: "mount_option \<Rightarrow> string" where
  "string_of_mount_option (MO_Unknown v) = v"
| "string_of_mount_option MO_Dev = ''dev''"
| "string_of_mount_option MO_NoDev = ''nodev''"
| "string_of_mount_option MO_Suid = ''suid''"
| "string_of_mount_option MO_NoSuid = ''nosuid''"
| "string_of_mount_option MO_RO = ''ro''"
| "string_of_mount_option MO_RW = ''rw''"
| "string_of_mount_option MO_Exec = ''exec''"
| "string_of_mount_option MO_NoExec = ''noexec''"
| "string_of_mount_option MO_DirSync = ''dirsync''"
| "string_of_mount_option MO_Atime = ''atime''"
| "string_of_mount_option MO_NoAtime = ''noatime''"
| "string_of_mount_option MO_DirectIO = ''direct_io''"
| "string_of_mount_option (MO_BlkSize v) = ''blksize='' @ v"
| "string_of_mount_option (MO_MaxSize v) = ''maxsize='' @ v"
| "string_of_mount_option (MO_Tls v) = ''tls='' @ v"
| "string_of_mount_option (MO_Name v) = ''name='' @ v"
| "string_of_mount_option (MO_InodeCacheSize v) = ''inodecachesize='' @ v"
| "string_of_mount_option MO_HashedBlocks = ''hashedblocks''"
| "string_of_mount_option (MO_HashedBlocksCacheSize v) = ''hashedblockscachesize='' @ v"
| "string_of_mount_option MO_NoMtime = ''nomtime''"
| "string_of_mount_option MO_ValidateWrites = ''validatewrites''"
| "string_of_mount_option MO_ValidateReadHashes = ''validatereadhashes''"
| "string_of_mount_option MO_PureRaw = ''pureraw''"
| "string_of_mount_option MO_NoExistenceCheck = ''noexistencecheck''"
| "string_of_mount_option (MO_ParallelJobs v) = ''paralleljobs='' @ v"
| "string_of_mount_option (MO_ParallelJobsDelete v) = ''paralleljobsdelete='' @ v"
| "string_of_mount_option (MO_MaxChunkSize v) = ''maxchunksize='' @ v"
| "string_of_mount_option (MO_WriteInProgressLimit v) = ''writeinprogresslimit='' @ v"
| "string_of_mount_option (MO_ReadAheadSize v) = ''readaheadsize='' @ v"
| "string_of_mount_option (MO_ReadAheadInProgressLimit v) = ''readaheadinprogresslimit='' @ v"
| "string_of_mount_option (MO_HashAlgorithm v) = ''hashalgorithm='' @ v"
| "string_of_mount_option (MO_InlineDataLimit v) = ''inlinedatalimit='' @ v"
| "string_of_mount_option MO_SmallTxns = ''smalltxns''"
| "string_of_mount_option (MO_WriteAccumulatorFlushThreshold v) = ''writeaccumulatorflushthreshold='' @ v"

section \<open>Integers in options\<close>

text \<open>
  \<open>str::parse\<close> for \<open>u64\<close> and \<open>usize\<close>: an optional plus sign, then at least one decimal
  digit, and the value has to fit.
\<close>

definition digit_value :: "char \<Rightarrow> nat option" where
  "digit_value c = (let n = of_char c in if 48 \<le> n \<and> n \<le> 57 then Some (n - 48) else None)"

fun parse_digits :: "nat \<Rightarrow> string \<Rightarrow> nat option" where
  "parse_digits acc [] = Some acc"
| "parse_digits acc (c # cs) =
     (case digit_value c of None \<Rightarrow> None | Some d \<Rightarrow> parse_digits (10 * acc + d) cs)"

definition parse_u64 :: "string \<Rightarrow> u64 option" where
  "parse_u64 s =
     (let ds = (case s of c # cs \<Rightarrow> if c = CHR ''+'' then cs else s | [] \<Rightarrow> []) in
      if ds = [] then None
      else case parse_digits 0 ds of
        None \<Rightarrow> None
      | Some v \<Rightarrow> if v < 2 ^ 64 then Some (of_nat v) else None)"

section \<open>The configuration\<close>

record tifs_config =
  cfg_key_prefix :: bytes
  cfg_block_size :: u64
  cfg_inline_data_limit :: u64
  cfg_enable_atime :: bool
  cfg_enable_mtime :: bool
  cfg_direct_io :: bool
  cfg_inode_cache_size :: u64
  cfg_hashed_blocks :: bool
  cfg_hash_algorithm :: hash_algorithm
  cfg_hash_len :: nat
  cfg_hashed_blocks_cache_size :: u64
  cfg_max_size :: "u64 option"
  cfg_validate_writes :: bool
  cfg_validate_read_hashes :: bool
  cfg_pure_raw :: bool
  cfg_existence_check :: bool
  cfg_parallel_jobs :: u64
  cfg_parallel_jobs_delete :: u64
  cfg_max_chunk_size :: u64
  cfg_write_in_progress_limit :: u64
  cfg_write_accumulator_flush_threshold :: u64
  cfg_read_ahead_size :: u64
  cfg_read_ahead_in_progress_limit :: u64
  cfg_small_transactions :: bool
  cfg_chunked_block_upload :: bool

definition DEFAULT_BLOCK_SIZE :: u64 where
  "DEFAULT_BLOCK_SIZE = push_bit 16 1"

text \<open>The local variables of the loop over the options.\<close>

record config_vars =
  cv_name :: string
  cv_max_size :: "u64 option"
  cv_block_size :: u64
  cv_hash_algo :: hash_algorithm
  cv_inline_data_limit :: u64
  cv_small_transactions :: bool
  cv_parallel_jobs :: u64
  cv_parallel_jobs_delete :: u64
  cv_write_accumulator_flush_threshold :: u64

definition config_defaults :: config_vars where
  "config_defaults =
     \<lparr>cv_name = [], cv_max_size = None, cv_block_size = DEFAULT_BLOCK_SIZE,
      cv_hash_algo = Blake3, cv_inline_data_limit = DEFAULT_BLOCK_SIZE div push_bit 4 1,
      cv_small_transactions = False, cv_parallel_jobs = 0, cv_parallel_jobs_delete = 0,
      cv_write_accumulator_flush_threshold = push_bit 20 2\<rparr>"

type_synonym size_parser = "string \<Rightarrow> u64 option"

definition config_or_fail :: "string \<Rightarrow> 'a option \<Rightarrow> 'a tifs_result" where
  "config_or_fail msg x = (case x of None \<Rightarrow> Inl (ConfigParsingFailed msg) | Some v \<Rightarrow> Inr v)"

fun config_option :: "size_parser \<Rightarrow> mount_option \<Rightarrow> config_vars \<Rightarrow> config_vars tifs_result" where
  "config_option parse_size (MO_Name n) cv = Inr (cv\<lparr>cv_name := n\<rparr>)"
| "config_option parse_size (MO_BlkSize v) cv =
     bind_result (config_or_fail ''failed to parse blksize({}): {}'' (parse_size v))
       (\<lambda>x. Inr (cv\<lparr>cv_block_size := x\<rparr>))"
| "config_option parse_size (MO_MaxSize v) cv =
     bind_result (config_or_fail ''failed to parse maxsize({}): {}'' (parse_size v))
       (\<lambda>x. Inr (cv\<lparr>cv_max_size := Some x\<rparr>))"
| "config_option parse_size (MO_HashAlgorithm v) cv =
     bind_result (config_or_fail ''hash algo name unsupported: {}'' (algo_by_name v))
       (\<lambda>x. Inr (cv\<lparr>cv_hash_algo := x\<rparr>))"
| "config_option parse_size (MO_InlineDataLimit v) cv =
     bind_result (config_or_fail ''failed to parse InlineDataLimit({}): {}'' (parse_size v))
       (\<lambda>x. Inr (cv\<lparr>cv_inline_data_limit := x\<rparr>))"
| "config_option parse_size MO_SmallTxns cv = Inr (cv\<lparr>cv_small_transactions := True\<rparr>)"
| "config_option parse_size (MO_ParallelJobs v) cv =
     bind_result (config_or_fail ''fail to parse ParallelJobs({}): {}'' (parse_u64 v))
       (\<lambda>x. Inr (cv\<lparr>cv_parallel_jobs := x\<rparr>))"
| "config_option parse_size (MO_ParallelJobsDelete v) cv =
     bind_result (config_or_fail ''fail to parse ParallelJobsDelete({}): {}'' (parse_u64 v))
       (\<lambda>x. Inr (cv\<lparr>cv_parallel_jobs_delete := x\<rparr>))"
| "config_option parse_size (MO_WriteAccumulatorFlushThreshold v) cv =
     bind_result (config_or_fail ''fail to parse WriteAccumulatorFlushThreshold({}): {}'' (parse_u64 v))
       (\<lambda>x. Inr (cv\<lparr>cv_write_accumulator_flush_threshold := x\<rparr>))"
| "config_option parse_size _ cv = Inr cv"

fun config_loop :: "size_parser \<Rightarrow> mount_option list \<Rightarrow> config_vars \<Rightarrow> config_vars tifs_result" where
  "config_loop parse_size [] cv = Inr cv"
| "config_loop parse_size (opt # opts) cv =
     bind_result (config_option parse_size opt cv) (config_loop parse_size opts)"

text \<open>\<open>Iterator::find_map\<close> followed by \<open>unwrap_or\<close>\<close>

fun find_map_or :: "('a \<Rightarrow> 'b option) \<Rightarrow> 'b \<Rightarrow> 'a list \<Rightarrow> 'b" where
  "find_map_or f d [] = d"
| "find_map_or f d (x # xs) = (case f x of Some y \<Rightarrow> y | None \<Rightarrow> find_map_or f d xs)"

definition from_options :: "size_parser \<Rightarrow> mount_option list \<Rightarrow> tifs_config tifs_result" where
  "from_options parse_size options =
     bind_result (config_loop parse_size options config_defaults) (\<lambda>cv. Inr
       \<lparr>cfg_key_prefix = str_bytes (cv_name cv),
        cfg_block_size = cv_block_size cv,
        cfg_inline_data_limit = cv_inline_data_limit cv,
        cfg_enable_atime = find_map_or (\<lambda>opt. case opt of MO_NoAtime \<Rightarrow> Some False
          | MO_Atime \<Rightarrow> Some True | _ \<Rightarrow> None) True options,
        cfg_enable_mtime = find_map_or (\<lambda>opt. case opt of MO_NoMtime \<Rightarrow> Some False | _ \<Rightarrow> None) True options,
        cfg_direct_io = list_ex (\<lambda>opt. opt = MO_DirectIO) options,
        cfg_inode_cache_size = find_map_or (\<lambda>opt. case opt of MO_InodeCacheSize v \<Rightarrow> parse_size v
          | _ \<Rightarrow> None) (push_bit 20 10) options,
        cfg_hashed_blocks = find_map_or (\<lambda>opt. if opt = MO_HashedBlocks then Some True else None) False options,
        cfg_hash_algorithm = cv_hash_algo cv,
        cfg_hash_len = algo_hash_len (cv_hash_algo cv),
        cfg_hashed_blocks_cache_size = find_map_or (\<lambda>opt. case opt of MO_HashedBlocksCacheSize v \<Rightarrow> parse_size v
          | _ \<Rightarrow> None) (push_bit 20 200) options,
        cfg_max_size = cv_max_size cv,
        cfg_validate_writes = find_map_or (\<lambda>opt. if opt = MO_ValidateWrites then Some True else None) False options,
        cfg_validate_read_hashes = find_map_or (\<lambda>opt. if opt = MO_ValidateReadHashes then Some True else None) False options,
        cfg_pure_raw = find_map_or (\<lambda>opt. if opt = MO_PureRaw then Some True else None) False options,
        cfg_existence_check = find_map_or (\<lambda>opt. if opt = MO_NoExistenceCheck then Some False else None) True options,
        cfg_parallel_jobs = cv_parallel_jobs cv,
        cfg_parallel_jobs_delete = cv_parallel_jobs_delete cv,
        cfg_max_chunk_size = find_map_or (\<lambda>opt. case opt of MO_MaxChunkSize v \<Rightarrow> parse_u64 v
          | _ \<Rightarrow> None) (- 1) options,
        cfg_write_in_progress_limit = find_map_or (\<lambda>opt. case opt of MO_WriteInProgressLimit v \<Rightarrow> parse_u64 v
          | _ \<Rightarrow> None) 0 options,
        cfg_write_accumulator_flush_threshold = cv_write_accumulator_flush_threshold cv,
        cfg_read_ahead_size = find_map_or (\<lambda>opt. case opt of MO_ReadAheadSize v \<Rightarrow> parse_size v
          | _ \<Rightarrow> None) 0 options,
        cfg_read_ahead_in_progress_limit = find_map_or (\<lambda>opt. case opt of MO_ReadAheadInProgressLimit v \<Rightarrow> parse_u64 v
          | _ \<Rightarrow> None) 10 options,
        cfg_small_transactions = cv_small_transactions cv,
        cfg_chunked_block_upload = True\<rparr>)"

definition calculate_hash :: "digests \<Rightarrow> tifs_config \<Rightarrow> bytes \<Rightarrow> tifs_hash" where
  "calculate_hash H cfg input = calculate_hash_with H (cfg_hash_algorithm cfg) input"

definition key_builder :: "tifs_config \<Rightarrow> scoped_key_builder" where
  "key_builder cfg = skb_new (cfg_key_prefix cfg)"

definition cfg_key_parser :: "tifs_config \<Rightarrow> bytes \<Rightarrow> key_parser tifs_result" where
  "cfg_key_parser cfg i = key_parser_start i (cfg_key_prefix cfg) (cfg_hash_len cfg)"

definition key_parser_b :: "tifs_config \<Rightarrow> bytes \<Rightarrow> key_parser tifs_result" where
  "key_parser_b cfg key = cfg_key_parser cfg key"

section \<open>Facts on options\<close>

definition known_option :: "mount_option \<Rightarrow> bool" where
  "known_option opt \<longleftrightarrow> (\<forall>v. opt \<noteq> MO_Unknown v)"

lemma mount_option_from_string: "known_option opt \<Longrightarrow> mount_option_from (string_of_mount_option opt) = opt"
  by (cases opt)
    (simp_all add: known_option_def mount_option_from_def mount_option_from_str_def split_first_def
      flag_options_def value_options_def Let_def)

definition join_options :: "string list \<Rightarrow> string" where
  "join_options ss = concat (case ss of [] \<Rightarrow> [] | x # xs \<Rightarrow> x # map (\<lambda>y. CHR '','' # y) xs)"

lemma split_on_no_sep: "c \<notin> set s \<Longrightarrow> split_on c s = [s]"
  by (induction s) auto

lemma split_on_append: "c \<notin> set s \<Longrightarrow> split_on c (s @ c # r) = s # split_on c r"
  by (induction s) auto

lemma split_on_join:
  "ss \<noteq> [] \<Longrightarrow> \<forall>s \<in> set ss. CHR '','' \<notin> set s \<Longrightarrow> split_on (CHR '','') (join_options ss) = ss"
proof (induction ss)
  case Nil
  then show ?case by simp
next
  case (Cons s ss)
  show ?case
  proof (cases ss)
    case Nil
    then show ?thesis using Cons by (simp add: join_options_def split_on_no_sep)
  next
    case (Cons t ts)
    have "join_options (s # ss) = s @ CHR '','' # join_options ss"
      by (simp add: join_options_def Cons)
    then show ?thesis using Cons.IH Cons.prems \<open>ss = t # ts\<close> by (simp add: split_on_append)
  qed
qed

lemma find_map_or_append: "find_map_or f d (xs @ ys) = find_map_or f (find_map_or f d ys) xs"
  by (induction xs) (auto split: option.splits)

text \<open>The option that decides a setting of the loop: the last one of its kind.\<close>

definition last_setting :: "(mount_option \<Rightarrow> 'b option) \<Rightarrow> 'b \<Rightarrow> mount_option list \<Rightarrow> 'b" where
  "last_setting f d opts = find_map_or f d (rev opts)"

lemma last_setting_simps [simp]:
  "last_setting f d [] = d"
  "last_setting f d (opt # opts) = last_setting f (case f opt of Some y \<Rightarrow> y | None \<Rightarrow> d) opts"
  by (simp_all add: last_setting_def find_map_or_append split: option.splits)

definition blksize_option :: "size_parser \<Rightarrow> mount_option \<Rightarrow> u64 option" where
  "blksize_option ps opt = (case opt of MO_BlkSize v \<Rightarrow> ps v | _ \<Rightarrow> None)"

definition name_option :: "mount_option \<Rightarrow> string option" where
  "name_option opt = (case opt of MO_Name v \<Rightarrow> Some v | _ \<Rightarrow> None)"

definition algo_option :: "mount_option \<Rightarrow> hash_algorithm option" where
  "algo_option opt = (case opt of MO_HashAlgorithm v \<Rightarrow> algo_by_name v | _ \<Rightarrow> None)"

definition inline_option :: "size_parser \<Rightarrow> mount_option \<Rightarrow> u64 option" where
  "inline_option ps opt = (case opt of MO_InlineDataLimit v \<Rightarrow> ps v | _ \<Rightarrow> None)"

lemma config_or_fail_Inr: "config_or_fail m x = Inr y \<longleftrightarrow> x = Some y"
  by (auto simp: config_or_fail_def split: option.splits)

lemma config_option_settings:
  assumes "config_option ps opt cv = Inr cv'"
  shows "cv_block_size cv' = (case blksize_option ps opt of Some y \<Rightarrow> y | None \<Rightarrow> cv_block_size cv)"
    and "cv_name cv' = (case name_option opt of Some y \<Rightarrow> y | None \<Rightarrow> cv_name cv)"
    and "cv_hash_algo cv' = (case algo_option opt of Some y \<Rightarrow> y | None \<Rightarrow> cv_hash_algo cv)"
    and "cv_inline_data_limit cv' = (case inline_option ps opt of Some y \<Rightarrow> y | None \<Rightarrow> cv_inline_data_limit cv)"
  using assms
  by (cases opt; auto simp: blksize_option_def name_option_def algo_option_def inline_option_def
      bind_result_Inr_iff config_or_fail_Inr)+

lemma config_loop_settings:
  "config_loop ps opts cv = Inr cv' \<Longrightarrow>
     cv_block_size cv' = last_setting (blksize_option ps) (cv_block_size cv) opts
   \<and> cv_name cv' = last_setting name_option (cv_name cv) opts
   \<and> cv_hash_algo cv' = last_setting algo_option (cv_hash_algo cv) opts
   \<and> cv_inline_data_limit cv' = last_setting (inline_option ps) (cv_inline_data_limit cv) opts"
proof (induction opts arbitrary: cv)
  case Nil
  then show ?case by simp
next
  case (Cons opt opts)
  then obtain cv1 where "config_option ps opt cv = Inr cv1" "config_loop ps opts cv1 = Inr cv'"
    by (auto simp: bind_result_Inr_iff)
  with Cons.IH config_option_settings show ?case by simp
qed

text \<open>
  Printing mount options and parsing them again gives the same options: every known option
  survives alone, and a comma-separated list of them survives when no argument contains a
  comma.
\<close>

lemma mount_options_roundtrip:
  assumes "opts \<noteq> []" and "\<forall>opt \<in> set opts. known_option opt"
    and "\<forall>opt \<in> set opts. CHR '','' \<notin> set (string_of_mount_option opt)"
  shows "mount_options_to_vec [join_options (map string_of_mount_option opts)] = opts"
  using assms split_on_join [of "map string_of_mount_option opts"]
  by (simp add: mount_options_to_vec_def mount_option_from_string map_idI)



end
