(* ===== verification/Tikv.thy ===== *)
theory Tikv
  imports Fs_Config
begin

text \<open>
  The key-value store as the program sees it. The TiKV client crate is third-party code: its
  transaction operations are the fields of a record that every operation of the model takes as
  an argument, and the locale \<open>tikv_store\<close> states what the program relies on. The locale also
  carries the calculus in which the transactions of the file system are verified: \<open>wp\<close> for
  the body of one transaction over the key-value map it sees, and \<open>dwp\<close> for sequences of
  whole transactions over the committed map. An in-memory store with injected faults is the
  instance that shows the laws consistent and on which examples are evaluated.
\<close>

section \<open>Keys, values and mutations\<close>

type_synonym kv = "bytes \<rightharpoonup> bytes"

datatype mutation = MutPut bytes bytes | MutDelete bytes

fun apply_mutation :: "mutation \<Rightarrow> kv \<Rightarrow> kv" where
  "apply_mutation (MutPut k v) m = m(k \<mapsto> v)"
| "apply_mutation (MutDelete k) m = m(k := None)"

definition apply_mutations :: "mutation list \<Rightarrow> kv \<Rightarrow> kv" where
  "apply_mutations ms m = fold apply_mutation ms m"

lemma apply_mutations_simps [simp]:
  "apply_mutations [] m = m"
  "apply_mutations (x # xs) m = apply_mutations xs (apply_mutation x m)"
  "apply_mutations (xs @ ys) m = apply_mutations ys (apply_mutations xs m)"
  by (simp_all add: apply_mutations_def)

text \<open>The pairs of a scan: the keys in the range, in key order, at most \<open>limit\<close> of them.\<close>

definition scan_keys_of :: "kv \<Rightarrow> bound_range \<Rightarrow> u32 \<Rightarrow> bytes list" where
  "scan_keys_of m r limit = take (unat limit) (sorted_list_of_set {k \<in> dom m. in_range r k})"

definition scan_of :: "kv \<Rightarrow> bound_range \<Rightarrow> u32 \<Rightarrow> (bytes \<times> bytes) list" where
  "scan_of m r limit = map (\<lambda>k. (k, the (m k))) (scan_keys_of m r limit)"

text \<open>The answer to a batch read: every requested key that exists, once, in some order.\<close>

definition batch_answer :: "kv \<Rightarrow> bytes list \<Rightarrow> (bytes \<times> bytes) list \<Rightarrow> bool" where
  "batch_answer m ks kvs \<longleftrightarrow>
     distinct (map fst kvs) \<and> set kvs = {(k, v). k \<in> set ks \<and> m k = Some v}"

lemma batch_answer_map_of:
  "batch_answer m ks kvs \<Longrightarrow> map_of kvs k = (if k \<in> set ks then m k else None)"
proof -
  assume a: "batch_answer m ks kvs"
  then have iff: "map_of kvs k = Some v \<longleftrightarrow> k \<in> set ks \<and> m k = Some v" for v
    by (simp add: batch_answer_def)
  show ?thesis
  proof (cases "map_of kvs k")
    case None
    then have "m k = None" if "k \<in> set ks" using iff that by (cases "m k") auto
    with None show ?thesis by simp
  next
    case (Some v)
    with iff [of v] show ?thesis by simp
  qed
qed

section \<open>The client\<close>

record 'w tikv =
  tk_begin :: "('w, tikv_error, unit) comp"
  tk_get :: "bytes \<Rightarrow> ('w, tikv_error, bytes option) comp"
  tk_batch_get :: "bytes list \<Rightarrow> ('w, tikv_error, (bytes \<times> bytes) list) comp"
  tk_batch_get_for_update :: "bytes list \<Rightarrow> ('w, tikv_error, (bytes \<times> bytes) list) comp"
  tk_put :: "bytes \<Rightarrow> bytes \<Rightarrow> ('w, tikv_error, unit) comp"
  tk_delete :: "bytes \<Rightarrow> ('w, tikv_error, unit) comp"
  tk_batch_mutate :: "mutation list \<Rightarrow> ('w, tikv_error, unit) comp"
  tk_scan :: "bound_range \<Rightarrow> u32 \<Rightarrow> ('w, tikv_error, (bytes \<times> bytes) list) comp"
  tk_scan_keys :: "bound_range \<Rightarrow> u32 \<Rightarrow> ('w, tikv_error, bytes list) comp"
  tk_commit :: "('w, tikv_error, unit) comp"
  tk_rollback :: "('w, tikv_error, unit) comp"

text \<open>\<open>?\<close> on a client call in a function that returns \<open>FsError\<close>.\<close>

abbreviation lift_tikv :: "('w, tikv_error, 'a) comp \<Rightarrow> ('w, fs_error, 'a) comp" where
  "lift_tikv \<equiv> map_err fs_error_of_tikv"

text \<open>
  The laws: \<open>db\<close> is the committed content, \<open>view\<close> what the open transaction sees. Only a
  successful commit changes the committed content, and then to what the transaction saw; a
  transaction starts from the committed content; reads answer from the view; writes update it.
  The laws describe a store that no one else writes to during the operation. An operation that
  fails may leave the view in any state: the transaction is rolled back.
\<close>

definition call_ok ::
  "('w \<Rightarrow> bool) \<Rightarrow> ('w \<Rightarrow> kv) \<Rightarrow> ('w \<Rightarrow> kv) \<Rightarrow> ('w, 'e, 'a) comp \<Rightarrow> (kv \<Rightarrow> 'a \<Rightarrow> kv \<Rightarrow> bool) \<Rightarrow> bool" where
  "call_ok ok db view m post \<longleftrightarrow>
     (\<forall>w r w'. ok w \<longrightarrow> m w = (r, w') \<longrightarrow>
        ok w' \<and> db w' = db w \<and> (\<forall>x. r = Inr x \<longrightarrow> post (view w) x (view w')))"

locale tikv_store =
  fixes T :: "'w tikv" and ok :: "'w \<Rightarrow> bool" and db :: "'w \<Rightarrow> kv" and view :: "'w \<Rightarrow> kv"
  assumes finite_view: "ok w \<Longrightarrow> finite (dom (view w))"
    and begin_law: "ok w \<Longrightarrow> tk_begin T w = (r, w') \<Longrightarrow>
      ok w' \<and> db w' = db w \<and> (r = Inr () \<longrightarrow> view w' = db w)"
    and get_law: "call_ok ok db view (tk_get T k) (\<lambda>m x m'. x = m k \<and> m' = m)"
    and batch_get_law: "call_ok ok db view (tk_batch_get T ks) (\<lambda>m x m'. batch_answer m ks x \<and> m' = m)"
    and batch_get_for_update_law:
      "call_ok ok db view (tk_batch_get_for_update T ks) (\<lambda>m x m'. batch_answer m ks x \<and> m' = m)"
    and put_law: "call_ok ok db view (tk_put T k v) (\<lambda>m x m'. m' = m(k \<mapsto> v))"
    and delete_law: "call_ok ok db view (tk_delete T k) (\<lambda>m x m'. m' = m(k := None))"
    and batch_mutate_law: "call_ok ok db view (tk_batch_mutate T ms) (\<lambda>m x m'. m' = apply_mutations ms m)"
    and scan_law: "call_ok ok db view (tk_scan T rng n) (\<lambda>m x m'. x = scan_of m rng n \<and> m' = m)"
    and scan_keys_law:
      "call_ok ok db view (tk_scan_keys T rng n) (\<lambda>m x m'. x = scan_keys_of m rng n \<and> m' = m)"
    and commit_law: "ok w \<Longrightarrow> tk_commit T w = (r, w') \<Longrightarrow>
      ok w' \<and> db w' = (case r of Inr _ \<Rightarrow> view w | Inl _ \<Rightarrow> db w)"
    and rollback_law: "ok w \<Longrightarrow> tk_rollback T w = (r, w') \<Longrightarrow> ok w' \<and> db w' = db w"

lemma and_then_cases:
  assumes "and_then m k w = (r, w')"
  obtains e where "m w = (Inl e, w')" "r = Inl e"
  | x w1 where "m w = (Inr x, w1)" "k x w1 = (r, w')"
  using assms by (cases "m w"; cases "fst (m w)") (auto simp: and_then_apply)

lemma map_err_cases:
  assumes "map_err f m w = (r, w')"
  obtains e where "m w = (Inl e, w')" "r = Inl (f e)"
  | x where "m w = (Inr x, w')" "r = Inr x"
  using assms by (cases "m w"; cases "fst (m w)") (auto simp: map_err_apply)

section \<open>Bodies of transactions\<close>

context tikv_store
begin

text \<open>
  \<open>wp m Q E v\<close>: started in a transaction that sees \<open>v\<close>, \<open>m\<close> either succeeds with a result
  and a view in \<open>Q\<close>, or fails with an error of the store or one in \<open>E\<close>; the committed
  content stays.
\<close>

definition wp :: "('w, fs_error, 'a) comp \<Rightarrow> ('a \<Rightarrow> kv \<Rightarrow> bool) \<Rightarrow> (fs_error \<Rightarrow> bool) \<Rightarrow> kv \<Rightarrow> bool" where
  "wp m Q E v \<longleftrightarrow> (\<forall>w r w'. ok w \<longrightarrow> view w = v \<longrightarrow> m w = (r, w') \<longrightarrow>
      ok w' \<and> db w' = db w \<and> (case r of Inr x \<Rightarrow> Q x (view w') | Inl e \<Rightarrow> store_error e \<or> E e))"

lemma wpI:
  assumes "\<And>w r w'. ok w \<Longrightarrow> view w = v \<Longrightarrow> m w = (r, w') \<Longrightarrow>
      ok w' \<and> db w' = db w \<and> (case r of Inr x \<Rightarrow> Q x (view w') | Inl e \<Rightarrow> store_error e \<or> E e)"
  shows "wp m Q E v"
  using assms unfolding wp_def by blast

lemma wpD:
  assumes "wp m Q E (view w)" and "ok w" and "m w = (r, w')"
  shows "ok w' \<and> db w' = db w \<and> (case r of Inr x \<Rightarrow> Q x (view w') | Inl e \<Rightarrow> store_error e \<or> E e)"
  using assms unfolding wp_def by blast

lemma wp_ret: "Q x v \<Longrightarrow> wp (ret x) Q E v"
  by (rule wpI) auto

lemma wp_fail: "E e \<Longrightarrow> wp (fail e) Q E v"
  by (rule wpI) auto

lemma wp_of_result: "(case r of Inr x \<Rightarrow> Q x v | Inl e \<Rightarrow> E e) \<Longrightarrow> wp (of_result r) Q E v"
  by (rule wpI) (auto split: sum.splits)

lemma wp_and_then:
  assumes "wp m (\<lambda>x. wp (k x) Q E) E v"
  shows "wp (and_then m k) Q E v"
proof (rule wpI)
  fix w r w' assume w: "ok w" "view w = v" and run: "and_then m k w = (r, w')"
  from run show "ok w' \<and> db w' = db w \<and> (case r of Inr x \<Rightarrow> Q x (view w') | Inl e \<Rightarrow> store_error e \<or> E e)"
  proof (cases rule: and_then_cases)
    case (1 e)
    with wpD [of m "\<lambda>x. wp (k x) Q E" E w "Inl e" w'] assms w show ?thesis by simp
  next
    case (2 x w1)
    have "ok w1 \<and> db w1 = db w \<and> wp (k x) Q E (view w1)"
      using wpD [of m "\<lambda>x. wp (k x) Q E" E w "Inr x" w1] assms w 2(1) by simp
    with wpD [of "k x" Q E w1 r w'] 2(2) show ?thesis by simp
  qed
qed

lemma wp_weaken:
  assumes "wp m Q E v" and "\<And>x v'. Q x v' \<Longrightarrow> Q' x v'" and "\<And>e. E e \<Longrightarrow> E' e"
  shows "wp m Q' E' v"
proof (rule wpI)
  fix w r w' assume "ok w" "view w = v" "m w = (r, w')"
  with wpD [of m Q E w r w'] assms(1) assms(2,3)
  show "ok w' \<and> db w' = db w \<and> (case r of Inr x \<Rightarrow> Q' x (view w') | Inl e \<Rightarrow> store_error e \<or> E' e)"
    by (cases r) auto
qed

lemma wp_call:
  assumes "call_ok ok db view m post" and "\<And>x v'. post v x v' \<Longrightarrow> Q x v'"
  shows "wp (lift_tikv m) Q E v"
proof (rule wpI)
  fix w r w' assume w: "ok w" "view w = v" and run: "lift_tikv m w = (r, w')"
  from run show "ok w' \<and> db w' = db w \<and> (case r of Inr x \<Rightarrow> Q x (view w') | Inl e \<Rightarrow> store_error e \<or> E e)"
    by (cases rule: map_err_cases) (use w assms in \<open>auto simp: call_ok_def\<close>)
qed

lemma wp_get: "Q (v k) v \<Longrightarrow> wp (lift_tikv (tk_get T k)) Q E v"
  by (rule wp_call [OF get_law]) simp

lemma wp_batch_get: "(\<And>x. batch_answer v ks x \<Longrightarrow> Q x v) \<Longrightarrow> wp (lift_tikv (tk_batch_get T ks)) Q E v"
  by (rule wp_call [OF batch_get_law]) simp

lemma wp_batch_get_for_update:
  "(\<And>x. batch_answer v ks x \<Longrightarrow> Q x v) \<Longrightarrow> wp (lift_tikv (tk_batch_get_for_update T ks)) Q E v"
  by (rule wp_call [OF batch_get_for_update_law]) simp

lemma wp_put: "Q () (v(k \<mapsto> x)) \<Longrightarrow> wp (lift_tikv (tk_put T k x)) Q E v"
  by (rule wp_call [OF put_law]) simp

lemma wp_delete: "Q () (v(k := None)) \<Longrightarrow> wp (lift_tikv (tk_delete T k)) Q E v"
  by (rule wp_call [OF delete_law]) simp

lemma wp_batch_mutate: "Q () (apply_mutations ms v) \<Longrightarrow> wp (lift_tikv (tk_batch_mutate T ms)) Q E v"
  by (rule wp_call [OF batch_mutate_law]) simp

lemma wp_scan: "Q (scan_of v r n) v \<Longrightarrow> wp (lift_tikv (tk_scan T r n)) Q E v"
  by (rule wp_call [OF scan_law]) simp

lemma wp_scan_keys: "Q (scan_keys_of v r n) v \<Longrightarrow> wp (lift_tikv (tk_scan_keys T r n)) Q E v"
  by (rule wp_call [OF scan_keys_law]) simp

lemma wp_finite:
  assumes "finite (dom v) \<Longrightarrow> wp m Q E v"
  shows "wp m Q E v"
  using assms finite_view unfolding wp_def by blast

lemmas wp_intros =
  wp_ret wp_fail wp_of_result wp_and_then wp_get wp_batch_get wp_batch_get_for_update wp_put
  wp_delete wp_batch_mutate wp_scan wp_scan_keys

section \<open>Sequences of transactions\<close>

text \<open>
  \<open>dwp m Q E d\<close>: started with committed content \<open>d\<close>, \<open>m\<close> either succeeds with a result and
  a content in \<open>Q\<close>, or fails with an error and a content in \<open>E\<close>.
\<close>

definition dwp :: "('w, 'e, 'a) comp \<Rightarrow> ('a \<Rightarrow> kv \<Rightarrow> bool) \<Rightarrow> ('e \<Rightarrow> kv \<Rightarrow> bool) \<Rightarrow> kv \<Rightarrow> bool" where
  "dwp m Q E d \<longleftrightarrow> (\<forall>w r w'. ok w \<longrightarrow> db w = d \<longrightarrow> m w = (r, w') \<longrightarrow>
      ok w' \<and> (case r of Inr x \<Rightarrow> Q x (db w') | Inl e \<Rightarrow> E e (db w')))"

lemma dwpI:
  assumes "\<And>w r w'. ok w \<Longrightarrow> db w = d \<Longrightarrow> m w = (r, w') \<Longrightarrow>
      ok w' \<and> (case r of Inr x \<Rightarrow> Q x (db w') | Inl e \<Rightarrow> E e (db w'))"
  shows "dwp m Q E d"
  using assms unfolding dwp_def by blast

lemma dwpD:
  assumes "dwp m Q E (db w)" and "ok w" and "m w = (r, w')"
  shows "ok w' \<and> (case r of Inr x \<Rightarrow> Q x (db w') | Inl e \<Rightarrow> E e (db w'))"
  using assms unfolding dwp_def by blast

lemma dwp_ret: "Q x d \<Longrightarrow> dwp (ret x) Q E d"
  by (rule dwpI) auto

lemma dwp_fail: "E e d \<Longrightarrow> dwp (fail e) Q E d"
  by (rule dwpI) auto

lemma dwp_of_result: "(case r of Inr x \<Rightarrow> Q x d | Inl e \<Rightarrow> E e d) \<Longrightarrow> dwp (of_result r) Q E d"
  by (rule dwpI) (auto split: sum.splits)

lemma dwp_and_then:
  assumes "dwp m (\<lambda>x. dwp (k x) Q E) E d"
  shows "dwp (and_then m k) Q E d"
proof (rule dwpI)
  fix w r w' assume w: "ok w" "db w = d" and run: "and_then m k w = (r, w')"
  from run show "ok w' \<and> (case r of Inr x \<Rightarrow> Q x (db w') | Inl e \<Rightarrow> E e (db w'))"
  proof (cases rule: and_then_cases)
    case (1 e)
    with dwpD [of m "\<lambda>x. dwp (k x) Q E" E w "Inl e" w'] assms w show ?thesis by simp
  next
    case (2 x w1)
    have "ok w1 \<and> dwp (k x) Q E (db w1)"
      using dwpD [of m "\<lambda>x. dwp (k x) Q E" E w "Inr x" w1] assms w 2(1) by simp
    with dwpD [of "k x" Q E w1 r w'] 2(2) show ?thesis by simp
  qed
qed

lemma dwp_weaken:
  assumes "dwp m Q E d" and "\<And>x d'. Q x d' \<Longrightarrow> Q' x d'" and "\<And>e d'. E e d' \<Longrightarrow> E' e d'"
  shows "dwp m Q' E' d"
proof (rule dwpI)
  fix w r w' assume "ok w" "db w = d" "m w = (r, w')"
  with dwpD [of m Q E w r w'] assms(1) assms(2,3)
  show "ok w' \<and> (case r of Inr x \<Rightarrow> Q' x (db w') | Inl e \<Rightarrow> E' e (db w'))"
    by (cases r) auto
qed

lemma dwp_map_err:
  assumes "dwp m Q (\<lambda>e. E (f e)) d"
  shows "dwp (map_err f m) Q E d"
proof (rule dwpI)
  fix w r w' assume w: "ok w" "db w = d" and run: "map_err f m w = (r, w')"
  from run show "ok w' \<and> (case r of Inr x \<Rightarrow> Q x (db w') | Inl e \<Rightarrow> E e (db w'))"
    by (cases rule: map_err_cases) (use dwpD [of m Q "\<lambda>e. E (f e)" w] assms w in fastforce)+
qed

lemmas dwp_intros = dwp_ret dwp_fail dwp_of_result dwp_and_then dwp_map_err

end

section \<open>An in-memory store\<close>

text \<open>
  A store that keeps the committed pairs and the pairs of the open transaction in key order,
  and fails each call for which the fault plan holds an error.
\<close>

record mem_store =
  mem_db :: "(bytes \<times> bytes) list"
  mem_view :: "(bytes \<times> bytes) list"
  mem_faults :: "tikv_error option list"

fun kv_insert :: "bytes \<Rightarrow> bytes \<Rightarrow> (bytes \<times> bytes) list \<Rightarrow> (bytes \<times> bytes) list" where
  "kv_insert k v [] = [(k, v)]"
| "kv_insert k v ((k', v') # xs) =
     (if k < k' then (k, v) # (k', v') # xs
      else if k = k' then (k, v) # xs else (k', v') # kv_insert k v xs)"

definition kv_remove :: "bytes \<Rightarrow> (bytes \<times> bytes) list \<Rightarrow> (bytes \<times> bytes) list" where
  "kv_remove k xs = filter (\<lambda>p. fst p \<noteq> k) xs"

fun mem_mutate :: "mutation \<Rightarrow> (bytes \<times> bytes) list \<Rightarrow> (bytes \<times> bytes) list" where
  "mem_mutate (MutPut k v) xs = kv_insert k v xs"
| "mem_mutate (MutDelete k) xs = kv_remove k xs"

definition mem_call :: "(mem_store \<Rightarrow> 'a \<times> mem_store) \<Rightarrow> (mem_store, tikv_error, 'a) comp" where
  "mem_call f s =
     (case mem_faults s of
        Some e # fs \<Rightarrow> (Inl e, s\<lparr>mem_faults := fs\<rparr>)
      | None # fs \<Rightarrow> (case f (s\<lparr>mem_faults := fs\<rparr>) of (x, s') \<Rightarrow> (Inr x, s'))
      | [] \<Rightarrow> (case f s of (x, s') \<Rightarrow> (Inr x, s')))"

definition mem_pairs :: "bytes list \<Rightarrow> mem_store \<Rightarrow> (bytes \<times> bytes) list" where
  "mem_pairs ks s = filter (\<lambda>p. fst p \<in> set ks) (mem_view s)"

definition mem_scan :: "bound_range \<Rightarrow> u32 \<Rightarrow> mem_store \<Rightarrow> (bytes \<times> bytes) list" where
  "mem_scan r limit s = take (unat limit) (filter (\<lambda>p. in_range r (fst p)) (mem_view s))"

definition mem_tikv :: "mem_store tikv" where
  "mem_tikv =
     \<lparr>tk_begin = mem_call (\<lambda>s. ((), s\<lparr>mem_view := mem_db s\<rparr>)),
      tk_get = (\<lambda>k. mem_call (\<lambda>s. (map_of (mem_view s) k, s))),
      tk_batch_get = (\<lambda>ks. mem_call (\<lambda>s. (mem_pairs ks s, s))),
      tk_batch_get_for_update = (\<lambda>ks. mem_call (\<lambda>s. (mem_pairs ks s, s))),
      tk_put = (\<lambda>k v. mem_call (\<lambda>s. ((), s\<lparr>mem_view := kv_insert k v (mem_view s)\<rparr>))),
      tk_delete = (\<lambda>k. mem_call (\<lambda>s. ((), s\<lparr>mem_view := kv_remove k (mem_view s)\<rparr>))),
      tk_batch_mutate = (\<lambda>ms. mem_call (\<lambda>s. ((), s\<lparr>mem_view := fold mem_mutate ms (mem_view s)\<rparr>))),
      tk_scan = (\<lambda>r n. mem_call (\<lambda>s. (mem_scan r n s, s))),
      tk_scan_keys = (\<lambda>r n. mem_call (\<lambda>s. (map fst (mem_scan r n s), s))),
      tk_commit = mem_call (\<lambda>s. ((), s\<lparr>mem_db := mem_view s\<rparr>)),
      tk_rollback = mem_call (\<lambda>s. ((), s))\<rparr>"

definition kv_sorted :: "(bytes \<times> bytes) list \<Rightarrow> bool" where
  "kv_sorted xs \<longleftrightarrow> sorted_wrt (<) (map fst xs)"

definition mem_ok :: "mem_store \<Rightarrow> bool" where
  "mem_ok s \<longleftrightarrow> kv_sorted (mem_db s) \<and> kv_sorted (mem_view s)"

abbreviation mem_content :: "mem_store \<Rightarrow> kv" where
  "mem_content s \<equiv> map_of (mem_db s)"

lemma set_kv_insert: "fst ` set (kv_insert k v xs) = insert k (fst ` set xs)"
  by (induction k v xs rule: kv_insert.induct) auto

lemma kv_sorted_insert: "kv_sorted xs \<Longrightarrow> kv_sorted (kv_insert k v xs)"
proof (induction k v xs rule: kv_insert.induct)
  case (1 k v)
  then show ?case by (simp add: kv_sorted_def)
next
  case (2 k v k' v' xs)
  have keys: "set (map fst (kv_insert k v xs)) = insert k (set (map fst xs))"
    using set_kv_insert [of k v xs] by simp
  show ?case using 2 keys by (auto simp: kv_sorted_def)
qed

lemma map_of_kv_insert: "kv_sorted xs \<Longrightarrow> map_of (kv_insert k v xs) = (map_of xs)(k \<mapsto> v)"
  by (induction k v xs rule: kv_insert.induct) (auto simp: kv_sorted_def fun_upd_twist)

lemma kv_sorted_filter: "kv_sorted xs \<Longrightarrow> kv_sorted (filter P xs)"
  unfolding kv_sorted_def by (induction xs) auto

lemma map_of_kv_remove: "map_of (kv_remove k xs) = (map_of xs)(k := None)"
  by (induction xs) (auto simp: kv_remove_def)

lemma kv_sorted_mutate: "kv_sorted xs \<Longrightarrow> kv_sorted (mem_mutate m xs)"
  by (cases m) (simp_all add: kv_sorted_insert kv_remove_def kv_sorted_filter)

lemma map_of_mem_mutate: "kv_sorted xs \<Longrightarrow> map_of (mem_mutate m xs) = apply_mutation m (map_of xs)"
  by (cases m) (simp_all add: map_of_kv_insert map_of_kv_remove)

lemma mem_mutates:
  "kv_sorted xs \<Longrightarrow> kv_sorted (fold mem_mutate ms xs)
     \<and> map_of (fold mem_mutate ms xs) = apply_mutations ms (map_of xs)"
  by (induction ms arbitrary: xs) (simp_all add: kv_sorted_mutate map_of_mem_mutate)

lemma kv_sorted_distinct: "kv_sorted xs \<Longrightarrow> distinct (map fst xs)"
  by (simp add: kv_sorted_def strict_sorted_iff)

lemma scan_keys_of_sorted:
  assumes "kv_sorted xs"
  shows "scan_keys_of (map_of xs) r n = take (unat n) (map fst (filter (\<lambda>p. in_range r (fst p)) xs))"
proof -
  let ?ks = "map fst (filter (\<lambda>p. in_range r (fst p)) xs)"
  have "kv_sorted (filter (\<lambda>p. in_range r (fst p)) xs)" using assms by (rule kv_sorted_filter)
  then have "sorted ?ks" "distinct ?ks" by (simp_all add: kv_sorted_def strict_sorted_iff)
  then have "sorted_list_of_set (set ?ks) = ?ks" by (rule sorted_list_of_set.idem_if_sorted_distinct)
  moreover have "{k \<in> dom (map_of xs). in_range r k} = set ?ks" by (auto simp: dom_map_of_conv_image_fst)
  ultimately show ?thesis by (simp add: scan_keys_of_def)
qed

lemma scan_of_sorted:
  assumes "kv_sorted xs"
  shows "scan_of (map_of xs) r n = take (unat n) (filter (\<lambda>p. in_range r (fst p)) xs)"
proof -
  let ?ps = "take (unat n) (filter (\<lambda>p. in_range r (fst p)) xs)"
  have "the (map_of xs (fst p)) = snd p" if "p \<in> set ?ps" for p
  proof -
    have "p \<in> set xs" using in_set_takeD [OF that] by simp
    then show ?thesis
      using map_of_is_SomeI [OF kv_sorted_distinct [OF assms], of "fst p" "snd p"] by simp
  qed
  then have "map (\<lambda>p. (fst p, the (map_of xs (fst p)))) ?ps = ?ps"
    by (simp add: map_idI)
  then show ?thesis
    by (simp add: scan_of_def scan_keys_of_sorted [OF assms] take_map comp_def)
qed

lemma batch_answer_sorted:
  assumes "kv_sorted xs"
  shows "batch_answer (map_of xs) ks (filter (\<lambda>p. fst p \<in> set ks) xs)"
  using kv_sorted_distinct [OF kv_sorted_filter [OF assms]] kv_sorted_distinct [OF assms]
  by (auto simp: batch_answer_def)

definition mem_run_ok :: "(mem_store \<Rightarrow> 'a \<times> mem_store) \<Rightarrow> (kv \<Rightarrow> 'a \<Rightarrow> kv \<Rightarrow> bool) \<Rightarrow> bool" where
  "mem_run_ok f post \<longleftrightarrow> (\<forall>s x s'. mem_ok s \<longrightarrow> f s = (x, s') \<longrightarrow>
     mem_ok s' \<and> mem_db s' = mem_db s \<and> post (map_of (mem_view s)) x (map_of (mem_view s')))"

lemma mem_call_cases:
  assumes "mem_call f s = (r, s')"
  obtains e fs where "r = Inl e" "s' = s\<lparr>mem_faults := fs\<rparr>"
  | fs x where "f (s\<lparr>mem_faults := fs\<rparr>) = (x, s')" "r = Inr x"
proof (cases "mem_faults s")
  case Nil
  then have same: "s\<lparr>mem_faults := []\<rparr> = s" by simp
  from Nil show thesis
    using assms that(2) [of "[]", unfolded same] by (auto simp: mem_call_def split: prod.splits)
next
  case (Cons f1 fs)
  then show thesis
    using assms that by (cases f1) (auto simp: mem_call_def split: prod.splits)
qed

lemma mem_ok_faults [simp]: "mem_ok (s\<lparr>mem_faults := fs\<rparr>) = mem_ok s"
  by (simp add: mem_ok_def)

lemma mem_call_ok:
  assumes "mem_run_ok f post"
  shows "call_ok mem_ok mem_content (\<lambda>s. map_of (mem_view s)) (mem_call f) post"
  unfolding call_ok_def
proof (intro allI impI)
  fix s r s' assume s: "mem_ok s" and run: "mem_call f s = (r, s')"
  from run show "mem_ok s' \<and> mem_content s' = mem_content s
      \<and> (\<forall>x. r = Inr x \<longrightarrow> post (map_of (mem_view s)) x (map_of (mem_view s')))"
  proof (cases rule: mem_call_cases)
    case (1 e fs)
    with s show ?thesis by simp
  next
    case (2 fs x)
    with assms s have "mem_ok s' \<and> mem_db s' = mem_db (s\<lparr>mem_faults := fs\<rparr>)
        \<and> post (map_of (mem_view (s\<lparr>mem_faults := fs\<rparr>))) x (map_of (mem_view s'))"
      unfolding mem_run_ok_def by (metis mem_ok_faults)
    with 2 show ?thesis by simp
  qed
qed

lemmas mem_store_facts =
  kv_sorted_insert kv_sorted_filter mem_mutates map_of_kv_insert map_of_kv_remove
  scan_of_sorted scan_keys_of_sorted batch_answer_sorted

interpretation mem: tikv_store mem_tikv mem_ok mem_content "\<lambda>s. map_of (mem_view s)"
proof
  show "finite (dom (map_of (mem_view w)))" for w :: mem_store by (rule finite_dom_map_of)
  show "mem_ok w' \<and> mem_content w' = mem_content w \<and> (r = Inr () \<longrightarrow> map_of (mem_view w') = mem_content w)"
    if "mem_ok w" "tk_begin mem_tikv w = (r, w')" for w r w'
    using that(2) unfolding mem_tikv_def tikv.simps
    by (cases rule: mem_call_cases) (use that(1) in \<open>auto simp: mem_ok_def\<close>)
  show "mem_ok w' \<and> mem_content w' = (case r of Inr _ \<Rightarrow> map_of (mem_view w) | Inl _ \<Rightarrow> mem_content w)"
    if "mem_ok w" "tk_commit mem_tikv w = (r, w')" for w r w'
    using that(2) unfolding mem_tikv_def tikv.simps
    by (cases rule: mem_call_cases) (use that(1) in \<open>auto simp: mem_ok_def\<close>)
  show "mem_ok w' \<and> mem_content w' = mem_content w"
    if "mem_ok w" "tk_rollback mem_tikv w = (r, w')" for w r w'
    using that(2) unfolding mem_tikv_def tikv.simps
    by (cases rule: mem_call_cases) (use that(1) in \<open>auto simp: mem_ok_def\<close>)
qed (unfold mem_tikv_def tikv.simps, (rule mem_call_ok, auto simp: mem_run_ok_def mem_ok_def
      kv_remove_def [abs_def] mem_pairs_def mem_scan_def mem_store_facts
      map_of_kv_remove [unfolded kv_remove_def] take_map)+)

end
