(* ===== verification/Flexible_Transaction.thy ===== *)
theory Flexible_Transaction
  imports Tikv
begin

text \<open>
  Transactions that are tried again (\<open>flexible_transaction.rs\<close> and the first part of
  \<open>mini_transaction.rs\<close>), typed access to stored values (\<open>TxnFetch\<close>, \<open>TxnPut\<close>,
  \<open>TxnDelete\<close> and their mutable variants), and the serialization of values. The back-off of the client crate
  enters as the number of delays it still grants: \<open>decorrelated_jitter_backoff(10, 1000, 200)\<close>
  grants 200. The loops end because every further round uses one up.
\<close>

section \<open>Serialization\<close>

text \<open>
  The serde encodings are third-party: a codec is the name, the encoder and the decoder of a
  type, and \<open>json\<close> has one for every stored type.
\<close>

record 'a codec =
  cd_name :: string
  cd_enc :: "'a \<Rightarrow> string + bytes"
  cd_dec :: "bytes \<Rightarrow> string + 'a"

record json =
  js_meta_static :: "meta_static codec"
  js_meta_mutable :: "meta_mutable codec"
  js_dir_item :: "storage_dir_item codec"
  js_unit :: "unit codec"
  js_description :: "ino_description codec"
  js_size :: "ino_size codec"
  js_attr :: "ino_storage_file_attr codec"
  js_atime :: "ino_access_time codec"
  js_mtime :: "ino_modification_time codec"
  js_change_id :: "ino_change_iteration_id codec"
  js_full_hash :: "ino_full_hash codec"
  js_inline :: "ino_inline_data codec"

definition codec_ok :: "'a codec \<Rightarrow> bool" where
  "codec_ok c \<longleftrightarrow> (\<forall>x. \<exists>b. cd_enc c x = Inr b \<and> cd_dec c b = Inr x)"

text \<open>What the program relies on: values that were written can be read back.\<close>

definition json_ok :: "json \<Rightarrow> bool" where
  "json_ok J \<longleftrightarrow> codec_ok (js_meta_static J) \<and> codec_ok (js_meta_mutable J) \<and> codec_ok (js_dir_item J)
     \<and> codec_ok (js_unit J) \<and> codec_ok (js_description J) \<and> codec_ok (js_size J)
     \<and> codec_ok (js_attr J) \<and> codec_ok (js_atime J) \<and> codec_ok (js_mtime J)
     \<and> codec_ok (js_change_id J) \<and> codec_ok (js_full_hash J) \<and> codec_ok (js_inline J)"

definition deserialize_json :: "'a codec \<Rightarrow> bytes \<Rightarrow> 'a tifs_result" where
  "deserialize_json c bs =
     (case cd_dec c bs of Inl msg \<Rightarrow> Inl (Serialize (cd_name c) ''JSON'' msg) | Inr x \<Rightarrow> Inr x)"

definition serialize_json :: "'a codec \<Rightarrow> 'a \<Rightarrow> bytes tifs_result" where
  "serialize_json c v =
     (case cd_enc c v of Inl msg \<Rightarrow> Inl (Serialize (cd_name c) ''JSON'' msg) | Inr b \<Rightarrow> Inr b)"

text \<open>The bytes of a value whose encoding succeeds.\<close>

definition enc :: "'a codec \<Rightarrow> 'a \<Rightarrow> bytes" where
  "enc c x = (case cd_enc c x of Inr b \<Rightarrow> b | Inl _ \<Rightarrow> [])"

lemma codec_ok_simps [simp]:
  assumes "codec_ok c"
  shows "cd_enc c x = Inr (enc c x)" and "cd_dec c (enc c x) = Inr x"
    and "serialize_json c x = Inr (enc c x)" and "deserialize_json c (enc c x) = Inr x"
proof -
  obtain b where "cd_enc c x = Inr b" "cd_dec c b = Inr x" using assms by (auto simp: codec_ok_def)
  then show "cd_enc c x = Inr (enc c x)" "cd_dec c (enc c x) = Inr x"
    "serialize_json c x = Inr (enc c x)" "deserialize_json c (enc c x) = Inr x"
    by (simp_all add: enc_def serialize_json_def deserialize_json_def)
qed

lemma enc_inject [simp]: "codec_ok c \<Longrightarrow> enc c x = enc c y \<longleftrightarrow> x = y"
  by (metis codec_ok_simps(2) sum.inject(2))

section \<open>Retrying\<close>

definition SPIN_ATTEMPTS :: nat where
  "SPIN_ATTEMPTS = 200"

definition next_delay_duration :: "nat \<Rightarrow> nat option" where
  "next_delay_duration b = (case b of 0 \<Rightarrow> None | Suc b' \<Rightarrow> Some b')"

lemma next_delay_less: "next_delay_duration b = Some b' \<Longrightarrow> b' < b"
  by (cases b) (auto simp: next_delay_duration_def)

text \<open>
  The end of one round: the result if the loop ends (\<open>None\<close>: another round), and the
  remaining delays.
\<close>

type_synonym ('w, 'r) round_end = "'r tifs_result option \<times> nat \<times> 'w"

definition end_iter_b :: "'w tikv \<Rightarrow> transaction_error + 'r \<Rightarrow> nat \<Rightarrow> 'w \<Rightarrow> ('w, 'r) round_end" where
  "end_iter_b T result b w =
     (case result of
        Inr val \<Rightarrow>
          (case tk_commit T w of
             (Inr _, w') \<Rightarrow> (Some (Inr val), b, w')
           | (Inl error, w') \<Rightarrow>
               (case next_delay_duration b of
                  Some b' \<Rightarrow> (None, b', w')
                | None \<Rightarrow> (Some (Inl (fs_error_of_tikv error)), b, w')))
      | Inl result_err \<Rightarrow>
          (let w' = snd (tk_rollback T w) in
           case result_err of
             PersistentIssue err \<Rightarrow> (Some (Inl err), b, w')
           | TemporaryIssue err \<Rightarrow>
               (case next_delay_duration b of
                  Some b' \<Rightarrow> (None, b', w')
                | None \<Rightarrow> (Some (Inl err), b, w'))))"

lemma end_iter_b_less: "end_iter_b T r b w = (None, b', w') \<Longrightarrow> b' < b"
  by (auto simp: end_iter_b_def Let_def
      dest: next_delay_less split: sum.splits prod.splits option.splits transaction_error.splits)

text \<open>\<open>map_err(|e| e.into())\<close> on the result of a client call.\<close>

definition tikv_result :: "tikv_error + 'r \<Rightarrow> transaction_error + 'r" where
  "tikv_result r = (case r of Inl e \<Rightarrow> Inl (transaction_error_of (fs_error_of_tikv e)) | Inr x \<Rightarrow> Inr x)"

function spin_loop :: "'w tikv \<Rightarrow> ('w, tikv_error, 'r) comp \<Rightarrow> nat \<Rightarrow> ('w, fs_error, 'r) comp" where
  "spin_loop T op b w =
     (case tk_begin T w of
        (Inl e, w1) \<Rightarrow> (Inl (fs_error_of_tikv e), w1)
      | (Inr _, w1) \<Rightarrow>
          (case op w1 of (r, w2) \<Rightarrow>
             (case end_iter_b T (tikv_result r) b w2 of
                (Some res, b', w3) \<Rightarrow> (res, w3)
              | (None, b', w3) \<Rightarrow> spin_loop T op b' w3)))"
  by pat_completeness auto

termination spin_loop
  by (relation "measure (\<lambda>(T, op, b, w). b)") (auto dest: end_iter_b_less [OF sym])

section \<open>Mini transactions\<close>

primrec mini_start :: "'w tikv \<Rightarrow> nat \<Rightarrow> 'w \<Rightarrow> (fs_error + nat) \<times> 'w" where
  "mini_start T 0 w =
     (case tk_begin T w of
        (Inr _, w') \<Rightarrow> (Inr 0, w')
      | (Inl e, w') \<Rightarrow> (Inl (fs_error_of_tikv e), w'))"
| "mini_start T (Suc b) w =
     (case tk_begin T w of
        (Inr _, w') \<Rightarrow> (Inr (Suc b), w')
      | (Inl e, w') \<Rightarrow> mini_start T b w')"

lemma mini_start_le: "mini_start T b w = (Inr b', w') \<Longrightarrow> b' \<le> b"
  by (induction b arbitrary: w) (fastforce split: prod.splits sum.splits)+

definition mini_finish :: "'w tikv \<Rightarrow> 'r tifs_result \<Rightarrow> nat \<Rightarrow> 'w \<Rightarrow> ('w, 'r) round_end" where
  "mini_finish T result b w =
     (case result of
        Inr val \<Rightarrow>
          (case tk_commit T w of
             (Inr _, w') \<Rightarrow> (Some (Inr val), b, w')
           | (Inl error, w') \<Rightarrow>
               (case next_delay_duration b of
                  Some b' \<Rightarrow> (None, b', w')
                | None \<Rightarrow> (Some (Inl (fs_error_of_tikv error)), b, w')))
      | Inl result_err \<Rightarrow>
          (let w' = snd (tk_rollback T w) in
           case transaction_error_of result_err of
             PersistentIssue err \<Rightarrow> (Some (Inl err), b, w')
           | TemporaryIssue err \<Rightarrow>
               (case next_delay_duration b of
                  Some b' \<Rightarrow> (None, b', w')
                | None \<Rightarrow> (Some (Inl err), b, w'))))"

lemma mini_finish_less: "mini_finish T r b w = (None, b', w') \<Longrightarrow> b' < b"
  by (auto simp: mini_finish_def Let_def
      dest: next_delay_less split: sum.splits prod.splits option.splits transaction_error.splits)

text \<open>
  The loop every caller of a mini transaction writes: start, run the body, finish, and start
  over unless \<open>finish\<close> has a result.
\<close>

function run_mini_loop :: "'w tikv \<Rightarrow> ('w, fs_error, 'r) comp \<Rightarrow> nat \<Rightarrow> ('w, fs_error, 'r) comp" where
  "run_mini_loop T body b w =
     (case mini_start T b w of
        (Inl e, w1) \<Rightarrow> (Inl e, w1)
      | (Inr b1, w1) \<Rightarrow>
          (case body w1 of (r, w2) \<Rightarrow>
             (case mini_finish T r b1 w2 of
                (Some res, b2, w3) \<Rightarrow> (res, w3)
              | (None, b2, w3) \<Rightarrow> run_mini_loop T body b2 w3)))"
  by pat_completeness auto

termination run_mini_loop
  by (relation "measure (\<lambda>(T, body, b, w). b)") (auto dest!: mini_finish_less [OF sym] mini_start_le [OF sym])

definition run_mini :: "'w tikv \<Rightarrow> ('w, fs_error, 'r) comp \<Rightarrow> ('w, fs_error, 'r) comp" where
  "run_mini T body = run_mini_loop T body SPIN_ATTEMPTS"

declare spin_loop.simps [simp del] and run_mini_loop.simps [simp del]

section \<open>The two kinds of transactions\<close>

record 'w raw_client =
  rc_get :: "bytes \<Rightarrow> ('w, tikv_error, bytes option) comp"
  rc_batch_get :: "bytes list \<Rightarrow> ('w, tikv_error, (bytes \<times> bytes) list) comp"
  rc_put :: "bytes \<Rightarrow> bytes \<Rightarrow> ('w, tikv_error, unit) comp"
  rc_batch_put :: "(bytes \<times> bytes) list \<Rightarrow> ('w, tikv_error, unit) comp"
  rc_delete :: "bytes \<Rightarrow> ('w, tikv_error, unit) comp"
  rc_batch_delete :: "bytes list \<Rightarrow> ('w, tikv_error, unit) comp"
  rc_scan :: "bound_range \<Rightarrow> u32 \<Rightarrow> ('w, tikv_error, (bytes \<times> bytes) list) comp"
  rc_scan_keys :: "bound_range \<Rightarrow> u32 \<Rightarrow> ('w, tikv_error, bytes list) comp"

datatype 'w flexible_transaction_kind =
    UseExistingTxn "'w tikv"
  | UseRawClient "'w raw_client"
  | SpawnMiniTransactions "'w tikv"

definition spin_default :: "'w tikv \<Rightarrow> ('w, tikv_error, 'r) comp \<Rightarrow> ('w, fs_error, 'r) comp" where
  "spin_default T op = spin_loop T op SPIN_ATTEMPTS"

definition flex_get :: "'w flexible_transaction_kind \<Rightarrow> bytes \<Rightarrow> ('w, fs_error, bytes option) comp" where
  "flex_get kind key =
     (case kind of
        UseExistingTxn T \<Rightarrow> lift_tikv (tk_get T key)
      | SpawnMiniTransactions T \<Rightarrow> spin_default T (tk_get T key)
      | UseRawClient R \<Rightarrow> lift_tikv (rc_get R key))"

definition flex_batch_get ::
  "'w flexible_transaction_kind \<Rightarrow> bytes list \<Rightarrow> ('w, fs_error, (bytes \<times> bytes) list) comp" where
  "flex_batch_get kind keys =
     (case kind of
        UseExistingTxn T \<Rightarrow> lift_tikv (tk_batch_get T keys)
      | SpawnMiniTransactions T \<Rightarrow> spin_default T (tk_batch_get T keys)
      | UseRawClient R \<Rightarrow> lift_tikv (rc_batch_get R keys))"

definition flex_put :: "'w flexible_transaction_kind \<Rightarrow> bytes \<Rightarrow> bytes \<Rightarrow> ('w, fs_error, unit) comp" where
  "flex_put kind key val =
     (case kind of
        UseExistingTxn T \<Rightarrow> lift_tikv (tk_put T key val)
      | SpawnMiniTransactions T \<Rightarrow> spin_default T (tk_put T key val)
      | UseRawClient R \<Rightarrow> lift_tikv (rc_put R key val))"

definition flex_batch_put ::
  "'w flexible_transaction_kind \<Rightarrow> (bytes \<times> bytes) list \<Rightarrow> ('w, fs_error, unit) comp" where
  "flex_batch_put kind pairs =
     (let mutations = map (\<lambda>(k, v). MutPut k v) pairs in
      case kind of
        UseExistingTxn T \<Rightarrow> lift_tikv (tk_batch_mutate T mutations)
      | SpawnMiniTransactions T \<Rightarrow> spin_default T (tk_batch_mutate T mutations)
      | UseRawClient R \<Rightarrow> lift_tikv (rc_batch_put R pairs))"

definition flex_delete :: "'w flexible_transaction_kind \<Rightarrow> bytes \<Rightarrow> ('w, fs_error, unit) comp" where
  "flex_delete kind key =
     (case kind of
        UseExistingTxn T \<Rightarrow> lift_tikv (tk_delete T key)
      | SpawnMiniTransactions T \<Rightarrow> spin_default T (tk_delete T key)
      | UseRawClient R \<Rightarrow> lift_tikv (rc_delete R key))"

definition flex_batch_mutate ::
  "'w flexible_transaction_kind \<Rightarrow> mutation list \<Rightarrow> ('w, fs_error, unit) comp" where
  "flex_batch_mutate kind mutations =
     (case kind of
        UseExistingTxn T \<Rightarrow> lift_tikv (tk_batch_mutate T mutations)
      | SpawnMiniTransactions T \<Rightarrow> spin_default T (tk_batch_mutate T mutations)
      | UseRawClient R \<Rightarrow>
          (let deletes = List.map_filter (\<lambda>m. case m of MutDelete k \<Rightarrow> Some k | _ \<Rightarrow> None) mutations;
               put_pairs = List.map_filter (\<lambda>m. case m of MutPut k v \<Rightarrow> Some (k, v) | _ \<Rightarrow> None) mutations
           in and_then (if length put_pairs > 0 then lift_tikv (rc_batch_put R put_pairs) else ret ())
                (\<lambda>_. if length deletes > 0 then lift_tikv (rc_batch_delete R deletes) else ret ())))"

definition flex_scan ::
  "'w flexible_transaction_kind \<Rightarrow> bound_range \<Rightarrow> u32 \<Rightarrow> ('w, fs_error, (bytes \<times> bytes) list) comp" where
  "flex_scan kind rng limit =
     (case kind of
        UseExistingTxn T \<Rightarrow> lift_tikv (tk_scan T rng limit)
      | SpawnMiniTransactions T \<Rightarrow> spin_default T (tk_scan T rng limit)
      | UseRawClient R \<Rightarrow> lift_tikv (rc_scan R rng limit))"

definition flex_scan_keys ::
  "'w flexible_transaction_kind \<Rightarrow> bound_range \<Rightarrow> u32 \<Rightarrow> ('w, fs_error, bytes list) comp" where
  "flex_scan_keys kind rng limit =
     (case kind of
        UseExistingTxn T \<Rightarrow> lift_tikv (tk_scan_keys T rng limit)
      | SpawnMiniTransactions T \<Rightarrow> spin_default T (tk_scan_keys T rng limit)
      | UseRawClient R \<Rightarrow> lift_tikv (rc_scan_keys R rng limit))"

definition flex_commit :: "'w flexible_transaction_kind \<Rightarrow> ('w, tikv_error, unit) comp" where
  "flex_commit kind = (case kind of UseExistingTxn T \<Rightarrow> tk_commit T | _ \<Rightarrow> ret ())"

definition flex_rollback :: "'w flexible_transaction_kind \<Rightarrow> ('w, tikv_error, unit) comp" where
  "flex_rollback kind = (case kind of UseExistingTxn T \<Rightarrow> tk_rollback T | _ \<Rightarrow> ret ())"

definition finish_txn :: "'w tikv \<Rightarrow> tikv_error + 'r \<Rightarrow> ('w, fs_error, 'r) comp" where
  "finish_txn T result =
     and_then (lift_tikv (case result of Inr _ \<Rightarrow> tk_commit T | Inl _ \<Rightarrow> tk_rollback T))
       (\<lambda>_. of_result (case result of Inr x \<Rightarrow> Inr x | Inl e \<Rightarrow> Inl (fs_error_of_tikv e)))"

section \<open>Typed access\<close>

definition KEY_NOT_FOUND_MSG :: string where
  "KEY_NOT_FOUND_MSG = ''kv-type: {}->{}, key: {:?}''"

definition flex_fetch ::
  "'w flexible_transaction_kind \<Rightarrow> bytes \<Rightarrow> 'a codec \<Rightarrow> ('w, fs_error, 'a) comp" where
  "flex_fetch kind key_raw c =
     and_then (flex_get kind key_raw) (\<lambda>result.
       case result of
         None \<Rightarrow> fail (KeyNotFound (Some KEY_NOT_FOUND_MSG))
       | Some data \<Rightarrow>
           (case deserialize_json c data of
              Inl err \<Rightarrow> fail (UnknownError ''deserialize failed: {err}'')
            | Inr v \<Rightarrow> ret v))"

definition flex_put_json ::
  "'w flexible_transaction_kind \<Rightarrow> bytes \<Rightarrow> 'a codec \<Rightarrow> 'a \<Rightarrow> ('w, fs_error, unit) comp" where
  "flex_put_json kind key c v =
     (case serialize_json c v of
        Inl err \<Rightarrow> fail (UnknownError ''serialization failed: {err}'')
      | Inr data \<Rightarrow> flex_put kind key data)"

definition fetch_try :: "'w tikv \<Rightarrow> bytes \<Rightarrow> 'a codec \<Rightarrow> ('w, fs_error, 'a option) comp" where
  "fetch_try T key_raw c =
     and_then (lift_tikv (tk_get T key_raw)) (\<lambda>result.
       case result of
         None \<Rightarrow> ret None
       | Some data \<Rightarrow>
           (case deserialize_json c data of
              Inl err \<Rightarrow> fail (Serialize (cd_name c) ''JSON'' ''deserialize failed: {err}'')
            | Inr v \<Rightarrow> ret (Some v)))"

definition fetch :: "'w tikv \<Rightarrow> bytes \<Rightarrow> 'a codec \<Rightarrow> ('w, fs_error, 'a) comp" where
  "fetch T key_raw c =
     and_then (fetch_try T key_raw c) (\<lambda>opt.
       case opt of
         Some data \<Rightarrow> ret data
       | None \<Rightarrow> fail (KeyNotFound (Some KEY_NOT_FOUND_MSG)))"

definition put_json :: "'w tikv \<Rightarrow> bytes \<Rightarrow> 'a codec \<Rightarrow> 'a \<Rightarrow> ('w, fs_error, unit) comp" where
  "put_json T key_raw c v =
     (case serialize_json c v of
        Inl err \<Rightarrow> fail (Serialize (cd_name c) ''JSON'' ''serialization failed: {err}'')
      | Inr data \<Rightarrow> lift_tikv (tk_put T key_raw data))"

definition delete_key :: "'w tikv \<Rightarrow> bytes \<Rightarrow> ('w, fs_error, unit) comp" where
  "delete_key T key_raw = lift_tikv (tk_delete T key_raw)"

section \<open>What transactions do\<close>

lemma tikv_result_simps [simp]:
  "tikv_result (Inr x) = Inr x"
  "tikv_result (Inl e) = Inl (TemporaryIssue (fs_error_of_tikv e))"
  by (simp_all add: tikv_result_def store_error_temporary)

context tikv_store
begin

lemma begin_cases:
  assumes "ok w" and "tk_begin T w = (r, w')"
  obtains "r = Inr ()" "ok w'" "db w' = db w" "view w' = db w"
  | e where "r = Inl e" "ok w'" "db w' = db w"
  using begin_law [OF assms] by (cases r) auto

lemma rollback_facts: "ok w \<Longrightarrow> ok (snd (tk_rollback T w)) \<and> db (snd (tk_rollback T w)) = db w"
  using rollback_law [of w "fst (tk_rollback T w)" "snd (tk_rollback T w)"] by simp

lemma mini_start_spec:
  "ok w \<Longrightarrow> mini_start T b w = (r, w') \<Longrightarrow>
   ok w' \<and> db w' = db w \<and> (case r of Inr b' \<Rightarrow> view w' = db w | Inl e \<Rightarrow> store_error e)"
proof (induction b arbitrary: w)
  case 0
  obtain r1 w1 where b: "tk_begin T w = (r1, w1)" by (cases "tk_begin T w")
  with 0 show ?case by (cases rule: begin_cases [OF 0(1) b]) auto
next
  case (Suc b)
  obtain r1 w1 where b: "tk_begin T w = (r1, w1)" by (cases "tk_begin T w")
  show ?case
  proof (cases rule: begin_cases [OF Suc.prems(1) b])
    case 1
    with Suc.prems b show ?thesis by auto
  next
    case (2 e)
    with Suc.prems b Suc.IH [of w1] show ?thesis by (cases r) simp_all
  qed
qed

lemma mini_finish_spec:
  assumes "ok w" and "mini_finish T r b w = (res, b', w')"
  shows "ok w' \<and> (case res of
      Some (Inr x) \<Rightarrow> r = Inr x \<and> db w' = view w
    | Some (Inl e) \<Rightarrow> db w' = db w \<and> (store_error e \<or> r = Inl e)
    | None \<Rightarrow> db w' = db w)"
proof (cases r)
  case (Inl e)
  have te: "transaction_error_of e = TemporaryIssue e \<or> transaction_error_of e = PersistentIssue e"
    by (cases e) simp_all
  show ?thesis
    using assms Inl te rollback_facts [OF assms(1)]
    by (auto simp: mini_finish_def Let_def split: option.splits)
next
  case (Inr x)
  obtain c w1 where c: "tk_commit T w = (c, w1)" by (cases "tk_commit T w")
  show ?thesis
    using assms(2) Inr c commit_law [OF assms(1) c]
    by (auto simp: mini_finish_def split: sum.splits option.splits)
qed

text \<open>
  A mini transaction on content \<open>d\<close>: what its body does on the view \<open>d\<close> becomes the
  committed content; if it fails, nothing changes, and the error is one of the store or one
  the body can raise on \<open>d\<close>.
\<close>

lemma run_mini_loop_dwp:
  assumes "wp body Q E d"
  shows "dwp (run_mini_loop T body b) Q (\<lambda>e d'. d' = d \<and> (store_error e \<or> E e)) d"
proof (induction b rule: less_induct)
  case (less b)
  show ?case
  proof (rule dwpI)
    fix w r w' assume w: "ok w" "db w = d" and run: "run_mini_loop T body b w = (r, w')"
    let ?goal = "ok w' \<and> (case r of Inr x \<Rightarrow> Q x (db w') | Inl e \<Rightarrow> db w' = d \<and> (store_error e \<or> E e))"
    obtain r0 w1 where s: "mini_start T b w = (r0, w1)" by (cases "mini_start T b w")
    note start = mini_start_spec [OF w(1) s]
    show ?goal
    proof (cases r0)
      case (Inl e)
      with s run start w show ?thesis by (auto simp: run_mini_loop.simps)
    next
      case (Inr b1)
      obtain r1 w2 where bd: "body w1 = (r1, w2)" by (cases "body w1")
      obtain res b2 w3 where f: "mini_finish T r1 b1 w2 = (res, b2, w3)" by (cases "mini_finish T r1 b1 w2")
      have body: "ok w2 \<and> db w2 = d \<and> (case r1 of Inr x \<Rightarrow> Q x (view w2) | Inl e \<Rightarrow> store_error e \<or> E e)"
        using wpD [of body Q E w1 r1 w2] assms start Inr w bd by simp
      then have "ok w2" by blast
      note fin = mini_finish_spec [OF this f]
      show ?thesis
      proof (cases res)
        case None
        then have "b2 < b" using mini_finish_less [of T r1 b1 w2 b2 w3] f mini_start_le [of T b w b1 w1] s Inr
          by simp
        moreover have "run_mini_loop T body b2 w3 = (r, w')"
          using run s Inr bd f None by (simp add: run_mini_loop.simps [of T body b])
        moreover have "ok w3" "db w3 = d" using fin body None by simp_all
        ultimately show ?thesis
          using less.IH [of b2] dwpD [of "run_mini_loop T body b2" Q "\<lambda>e d'. d' = d \<and> (store_error e \<or> E e)" w3 r w']
          by simp
      next
        case (Some r2)
        then have "r = r2" "w' = w3"
          using run s Inr bd f by (simp_all add: run_mini_loop.simps [of T body b])
        with fin body Some show ?thesis by (cases r2; cases r1) auto
      qed
    qed
  qed
qed

lemma run_mini_dwp:
  "wp body Q E d \<Longrightarrow> dwp (run_mini T body) Q (\<lambda>e d'. d' = d \<and> (store_error e \<or> E e)) d"
  unfolding run_mini_def by (rule run_mini_loop_dwp)

lemma end_iter_b_spec:
  assumes "ok w" and "end_iter_b T r b w = (res, b', w')"
  shows "ok w' \<and> (case res of
      Some (Inr x) \<Rightarrow> r = Inr x \<and> db w' = view w
    | Some (Inl e) \<Rightarrow> db w' = db w \<and> (store_error e \<or> r = Inl (TemporaryIssue e) \<or> r = Inl (PersistentIssue e))
    | None \<Rightarrow> db w' = db w)"
proof (cases r)
  case (Inl te)
  show ?thesis
    using assms Inl rollback_facts [OF assms(1)]
    by (cases te) (auto simp: end_iter_b_def Let_def split: option.splits)
next
  case (Inr x)
  obtain c w1 where c: "tk_commit T w = (c, w1)" by (cases "tk_commit T w")
  show ?thesis
    using assms(2) Inr c commit_law [OF assms(1) c]
    by (auto simp: end_iter_b_def split: sum.splits option.splits)
qed

lemma spin_loop_dwp:
  assumes law: "call_ok ok db view op post" and post: "\<And>x v'. post d x v' \<Longrightarrow> Q x v'"
  shows "dwp (spin_loop T op b) Q (\<lambda>e d'. d' = d \<and> store_error e) d"
proof (induction b rule: less_induct)
  case (less b)
  show ?case
  proof (rule dwpI)
    fix w r w' assume w: "ok w" "db w = d" and run: "spin_loop T op b w = (r, w')"
    let ?goal = "ok w' \<and> (case r of Inr x \<Rightarrow> Q x (db w') | Inl e \<Rightarrow> db w' = d \<and> store_error e)"
    obtain r0 w1 where s: "tk_begin T w = (r0, w1)" by (cases "tk_begin T w")
    show ?goal
    proof (cases rule: begin_cases [OF w(1) s])
      case (2 e)
      with s run w show ?thesis by (auto simp: spin_loop.simps)
    next
      case 1
      obtain r1 w2 where bd: "op w1 = (r1, w2)" by (cases "op w1")
      obtain res b2 w3 where f: "end_iter_b T (tikv_result r1) b w2 = (res, b2, w3)"
        by (cases "end_iter_b T (tikv_result r1) b w2")
      have body: "ok w2 \<and> db w2 = d \<and> (\<forall>x. r1 = Inr x \<longrightarrow> Q x (view w2))"
        using law post 1 w bd by (auto simp: call_ok_def)
      then have "ok w2" by blast
      note fin = end_iter_b_spec [OF this f]
      show ?thesis
      proof (cases res)
        case None
        then have "b2 < b" using end_iter_b_less [of T "tikv_result r1" b w2 b2 w3] f by simp
        moreover have "spin_loop T op b2 w3 = (r, w')"
          using run s 1 bd f None by (simp add: spin_loop.simps [of T op b])
        moreover have "ok w3" "db w3 = d" using fin body None by simp_all
        ultimately show ?thesis
          using less.IH [of b2] dwpD [of "spin_loop T op b2" Q "\<lambda>e d'. d' = d \<and> store_error e" w3 r w'] by simp
      next
        case (Some r2)
        then have "r = r2" "w' = w3"
          using run s 1 bd f by (simp_all add: spin_loop.simps [of T op b])
        with fin body Some show ?thesis by (cases r2; cases r1) auto
      qed
    qed
  qed
qed

lemma spin_default_dwp:
  assumes "call_ok ok db view op post" and "\<And>x v'. post d x v' \<Longrightarrow> Q x v'"
    and "\<And>e. store_error e \<Longrightarrow> E e d"
  shows "dwp (spin_default T op) Q E d"
  unfolding spin_default_def
  by (rule dwp_weaken [OF spin_loop_dwp [OF assms(1)]]) (use assms(2,3) in auto)

lemma flex_get_dwp:
  "Q (d k) d \<Longrightarrow> (\<And>e. store_error e \<Longrightarrow> E e d) \<Longrightarrow> dwp (flex_get (SpawnMiniTransactions T) k) Q E d"
  unfolding flex_get_def by (simp, rule spin_default_dwp [OF get_law]) auto

lemma flex_batch_get_dwp:
  "(\<And>x. batch_answer d ks x \<Longrightarrow> Q x d) \<Longrightarrow> (\<And>e. store_error e \<Longrightarrow> E e d) \<Longrightarrow>
   dwp (flex_batch_get (SpawnMiniTransactions T) ks) Q E d"
  unfolding flex_batch_get_def by (simp, rule spin_default_dwp [OF batch_get_law]) auto

lemma flex_put_dwp:
  "Q () (d(k \<mapsto> v)) \<Longrightarrow> (\<And>e. store_error e \<Longrightarrow> E e d) \<Longrightarrow>
   dwp (flex_put (SpawnMiniTransactions T) k v) Q E d"
  unfolding flex_put_def by (simp, rule spin_default_dwp [OF put_law]) auto

lemma flex_delete_dwp:
  "Q () (d(k := None)) \<Longrightarrow> (\<And>e. store_error e \<Longrightarrow> E e d) \<Longrightarrow>
   dwp (flex_delete (SpawnMiniTransactions T) k) Q E d"
  unfolding flex_delete_def by (simp, rule spin_default_dwp [OF delete_law]) auto

lemma flex_batch_mutate_dwp:
  "Q () (apply_mutations ms d) \<Longrightarrow> (\<And>e. store_error e \<Longrightarrow> E e d) \<Longrightarrow>
   dwp (flex_batch_mutate (SpawnMiniTransactions T) ms) Q E d"
  unfolding flex_batch_mutate_def by (simp, rule spin_default_dwp [OF batch_mutate_law]) auto

lemma flex_fetch_dwp:
  assumes "\<And>e. store_error e \<Longrightarrow> E e d"
    and "d k = None \<Longrightarrow> E (KeyNotFound (Some KEY_NOT_FOUND_MSG)) d"
    and "\<And>data. d k = Some data \<Longrightarrow> (case deserialize_json c data of Inr x \<Rightarrow> Q x d | Inl _ \<Rightarrow> True)"
  shows "dwp (flex_fetch (SpawnMiniTransactions T) k c) Q E d"
  unfolding flex_fetch_def
proof (rule dwp_and_then, rule flex_get_dwp)
  show "dwp (case d k of None \<Rightarrow> fail (KeyNotFound (Some KEY_NOT_FOUND_MSG))
      | Some data \<Rightarrow> (case deserialize_json c data of
          Inl err \<Rightarrow> fail (UnknownError ''deserialize failed: {err}'') | Inr v \<Rightarrow> ret v)) Q E d"
    using assms(2,3) assms(1) [of "UnknownError ''deserialize failed: {err}''"]
    by (cases "d k") (auto simp: store_error_def intro!: dwp_fail dwp_ret split: sum.splits)
qed (rule assms(1))

lemma flex_put_json_dwp:
  assumes "codec_ok c" and "Q () (d(k \<mapsto> enc c v))" and "\<And>e. store_error e \<Longrightarrow> E e d"
  shows "dwp (flex_put_json (SpawnMiniTransactions T) k c v) Q E d"
  using assms by (simp add: flex_put_json_def flex_put_dwp)

lemma fetch_try_wp:
  assumes "v k = None \<Longrightarrow> Q None v"
    and "\<And>data. v k = Some data \<Longrightarrow> (case deserialize_json c data of Inr x \<Rightarrow> Q (Some x) v
      | Inl _ \<Rightarrow> E (Serialize (cd_name c) ''JSON'' ''deserialize failed: {err}''))"
  shows "wp (fetch_try T k c) Q E v"
  unfolding fetch_try_def
proof (rule wp_and_then, rule wp_get)
  show "wp (case v k of None \<Rightarrow> ret None | Some data \<Rightarrow> (case deserialize_json c data of
      Inl err \<Rightarrow> fail (Serialize (cd_name c) ''JSON'' ''deserialize failed: {err}'')
    | Inr x \<Rightarrow> ret (Some x))) Q E v"
    using assms by (cases "v k") (auto intro!: wp_fail wp_ret split: sum.splits)
qed

lemma fetch_wp:
  assumes "v k = None \<Longrightarrow> E (KeyNotFound (Some KEY_NOT_FOUND_MSG))"
    and "\<And>data. v k = Some data \<Longrightarrow> (case deserialize_json c data of Inr x \<Rightarrow> Q x v
      | Inl _ \<Rightarrow> E (Serialize (cd_name c) ''JSON'' ''deserialize failed: {err}''))"
  shows "wp (fetch T k c) Q E v"
  unfolding fetch_def
proof (rule wp_and_then, rule fetch_try_wp)
  show "wp (case None of Some data \<Rightarrow> ret data | None \<Rightarrow> fail (KeyNotFound (Some KEY_NOT_FOUND_MSG))) Q E v"
    if "v k = None" using that assms(1) by (auto intro: wp_fail)
  show "case deserialize_json c data of
      Inr x \<Rightarrow> wp (case Some x of Some data \<Rightarrow> ret data | None \<Rightarrow> fail (KeyNotFound (Some KEY_NOT_FOUND_MSG))) Q E v
    | Inl _ \<Rightarrow> E (Serialize (cd_name c) ''JSON'' ''deserialize failed: {err}'')"
    if "v k = Some data" for data using assms(2) [OF that] by (auto intro: wp_ret split: sum.splits)
qed

lemma put_json_wp: "codec_ok c \<Longrightarrow> Q () (v(k \<mapsto> enc c x)) \<Longrightarrow> wp (put_json T k c x) Q E v"
  by (simp add: put_json_def wp_put)

lemma delete_key_wp: "Q () (v(k := None)) \<Longrightarrow> wp (delete_key T k) Q E v"
  by (simp add: delete_key_def wp_delete)

end



end
