(* ===== verification/Client_Mux.thy ===== *)
theory Client_Mux
  imports Flexible_Transaction
begin

text \<open>
  The multiplexer of TiKV clients (\<open>transaction_client_mux.rs\<close>): sixteen clients that are handed
  out in turn; a client on which no transaction can be begun is taken out of its slot and made
  anew by the task that took it out. Making a client and beginning a transaction belong to the
  client crate and are parameters. First the operations as one task runs them alone, then the
  steps of many tasks, interleaved.
\<close>

section \<open>The operations\<close>

record 'c transaction_client_mux =
  mx_idx :: u64
  mx_clients :: "'c option list"
  mx_sent :: nat

definition MUX_SIZE :: nat where "MUX_SIZE = 16"

fun make_clients :: "(nat \<Rightarrow> 'e + 'c) \<Rightarrow> nat \<Rightarrow> nat \<Rightarrow> 'e + 'c option list" where
  "make_clients mk i 0 = Inr []"
| "make_clients mk i (Suc n) = bind_result (mk i) (\<lambda>c. bind_result (make_clients mk (i + 1) n) (\<lambda>cs. Inr (Some c # cs)))"

definition mux_new :: "(nat \<Rightarrow> 'e + 'c) \<Rightarrow> 'e + 'c transaction_client_mux" where
  "mux_new mk = bind_result (make_clients mk 0 MUX_SIZE) (\<lambda>clients.
     Inr \<lparr>mx_idx = 0, mx_clients = clients, mx_sent = 0\<rparr>)"

text \<open>One round of the loop of \<open>give_one\<close>: the next slot in turn, with its client if it has one.\<close>

definition next_slot :: "'c transaction_client_mux \<Rightarrow> nat \<times> 'c option \<times> 'c transaction_client_mux" where
  "next_slot M = (let slot = unat (mx_idx M) mod length (mx_clients M) in
     (slot, mx_clients M ! slot, M\<lparr>mx_idx := mx_idx M + 1\<rparr>))"

datatype 'c picked = Picked 'c nat | Waits

text \<open>After more rounds than there are slots the task waits for a new client.\<close>

function give_one_loop :: "nat \<Rightarrow> 'c transaction_client_mux \<Rightarrow> 'c picked \<times> 'c transaction_client_mux" where
  "give_one_loop i M = (case next_slot M of (slot, client, M') \<Rightarrow>
     (case client of
        Some c \<Rightarrow> (Picked c slot, M')
      | None \<Rightarrow> if length (mx_clients M) < i + 1 then (Waits, M') else give_one_loop (i + 1) M'))"
  by pat_completeness auto
termination
  by (relation "measure (\<lambda>(i, M). Suc (length (mx_clients M)) - i)") (auto simp: next_slot_def Let_def)

declare give_one_loop.simps [simp del]

definition give_one :: "'c transaction_client_mux \<Rightarrow> 'c picked \<times> 'c transaction_client_mux" where
  "give_one M = give_one_loop 0 M"

text \<open>\<open>replace_one_due_to_error\<close>: taking the client out, making a new one, putting it in.\<close>

definition take_out :: "nat \<Rightarrow> 'c transaction_client_mux \<Rightarrow> bool \<times> 'c transaction_client_mux" where
  "take_out slot M = (if length (mx_clients M) \<le> slot then (False, M)
     else (mx_clients M ! slot \<noteq> None, M\<lparr>mx_clients := (mx_clients M)[slot := None]\<rparr>))"

definition put_in :: "nat \<Rightarrow> 'c \<Rightarrow> 'c transaction_client_mux \<Rightarrow> 'c transaction_client_mux" where
  "put_in slot c M = M\<lparr>mx_clients := (mx_clients M)[slot := Some c], mx_sent := mx_sent M + 1\<rparr>"

definition REPLACE_DELAYS :: nat where "REPLACE_DELAYS = 200"

function make_until :: "(nat \<Rightarrow> 'e + 'c) \<Rightarrow> nat \<Rightarrow> nat \<Rightarrow> 'e + 'c" where
  "make_until mk i backoff = (case mk i of
     Inr c \<Rightarrow> Inr c
   | Inl e \<Rightarrow> (case next_delay_duration backoff of Some backoff' \<Rightarrow> make_until mk (i + 1) backoff' | None \<Rightarrow> Inl e))"
  by pat_completeness auto
termination
  by (relation "measure (\<lambda>(mk, i, b). b)") (auto dest: next_delay_less)

declare make_until.simps [simp del]

definition replace_one_due_to_error ::
  "(nat \<Rightarrow> 'e + 'c) \<Rightarrow> nat \<Rightarrow> ('c transaction_client_mux, 'e, unit) comp" where
  "replace_one_due_to_error mk slot M = (case take_out slot M of
     (we_were_first, M') \<Rightarrow> if we_were_first
       then (case make_until mk 0 REPLACE_DELAYS of Inl e \<Rightarrow> (Inl e, M') | Inr c \<Rightarrow> (Inr (), put_in slot c M'))
       else (Inr (), M'))"

text \<open>
  \<open>give_one_transaction\<close>: round \<open>r\<close> begins with the outcome \<open>mv_begin r\<close> on its client, and makes
  new clients with the outcomes \<open>mv_make r\<close>. It goes on until a transaction begins; \<open>None\<close> is a call
  that waits or has used up its fuel.
\<close>

record ('c, 'e, 't) mux_env =
  mv_begin :: "nat \<Rightarrow> 'c \<Rightarrow> 'e + 't"
  mv_make :: "nat \<Rightarrow> nat \<Rightarrow> 'e + 'c"

fun give_one_transaction ::
  "('c, 'e, 't) mux_env \<Rightarrow> nat \<Rightarrow> nat \<Rightarrow> 'c transaction_client_mux \<Rightarrow> (('e + 't) \<times> 'c transaction_client_mux) option" where
  "give_one_transaction E r 0 M = None"
| "give_one_transaction E r (Suc fuel) M = (case give_one M of
     (Waits, _) \<Rightarrow> None
   | (Picked client slot, M') \<Rightarrow> (case mv_begin E r client of
       Inr t \<Rightarrow> Some (Inr t, M')
     | Inl _ \<Rightarrow> (case replace_one_due_to_error (mv_make E r) slot M' of
         (Inl e, M'') \<Rightarrow> Some (Inl e, M'')
       | (Inr _, M'') \<Rightarrow> give_one_transaction E (r + 1) fuel M'')))"

section \<open>Many tasks\<close>

text \<open>
  A task is outside, uses the client of a slot to begin a transaction, or makes the new client of
  a slot. A lock is held for one step: choosing the next slot, taking a client out, putting one in.
  \<open>mw_lost\<close> records the slots whose client could not be made.
\<close>

datatype mux_pc = Outside | Using nat | Making nat

record 'c mux_world =
  mw_mux :: "'c transaction_client_mux"
  mw_pc :: "nat \<Rightarrow> mux_pc"
  mw_lost :: "nat set"

definition task_to :: "nat \<Rightarrow> mux_pc \<Rightarrow> 'c transaction_client_mux \<Rightarrow> 'c mux_world \<Rightarrow> 'c mux_world" where
  "task_to t p M w = w\<lparr>mw_mux := M, mw_pc := (mw_pc w)(t := p)\<rparr>"

inductive mux_step :: "'c mux_world \<Rightarrow> 'c mux_world \<Rightarrow> bool" where
  pick: "mw_pc w t = Outside \<Longrightarrow> next_slot (mw_mux w) = (slot, Some c, M) \<Longrightarrow> mux_step w (task_to t (Using slot) M w)"
| skip: "mw_pc w t = Outside \<Longrightarrow> next_slot (mw_mux w) = (slot, None, M) \<Longrightarrow> mux_step w (task_to t Outside M w)"
| begun: "mw_pc w t = Using slot \<Longrightarrow> mux_step w (task_to t Outside (mw_mux w) w)"
| took: "mw_pc w t = Using slot \<Longrightarrow> take_out slot (mw_mux w) = (True, M) \<Longrightarrow> mux_step w (task_to t (Making slot) M w)"
| taken: "mw_pc w t = Using slot \<Longrightarrow> take_out slot (mw_mux w) = (False, M) \<Longrightarrow> mux_step w (task_to t Outside M w)"
| made: "mw_pc w t = Making slot \<Longrightarrow> mux_step w (task_to t Outside (put_in slot c (mw_mux w)) w)"
| gave_up: "mw_pc w t = Making slot \<Longrightarrow>
    mux_step w ((task_to t Outside (mw_mux w) w)\<lparr>mw_lost := insert slot (mw_lost w)\<rparr>)"

definition mux_start :: "'c transaction_client_mux \<Rightarrow> 'c mux_world" where
  "mux_start M = \<lparr>mw_mux = M, mw_pc = (\<lambda>_. Outside), mw_lost = {}\<rparr>"

section \<open>Handing out in turn\<close>

definition all_live :: "'c transaction_client_mux \<Rightarrow> bool" where
  "all_live M \<longleftrightarrow> mx_clients M \<noteq> [] \<and> None \<notin> set (mx_clients M)"

lemma all_live_nth: "all_live M \<Longrightarrow> \<exists>c. mx_clients M ! (k mod length (mx_clients M)) = Some c"
  by (metis all_live_def length_greater_0_conv mod_less_divisor nth_mem option.exhaust)

lemma give_one_live:
  assumes "all_live M"
  obtains c where "give_one M = (Picked c (unat (mx_idx M) mod length (mx_clients M)), M\<lparr>mx_idx := mx_idx M + 1\<rparr>)"
    and "mx_clients M ! (unat (mx_idx M) mod length (mx_clients M)) = Some c"
  using all_live_nth [OF assms, of "unat (mx_idx M)"]
  by (auto simp: give_one_def give_one_loop.simps [of 0] next_slot_def Let_def)

lemma make_until_succeeds:
  assumes "mk k = Inr c" "i \<le> k" "k \<le> i + b"
  shows "\<exists>c'. make_until mk i b = Inr c'"
  using assms
proof (induction mk i b rule: make_until.induct)
  case (1 mk i b)
  show ?case
  proof (cases "mk i")
    case (Inl e)
    then have "i \<noteq> k" using 1(2) by auto
    then obtain b' where b: "b = Suc b'" using 1(3,4) by (cases b) auto
    then show ?thesis using 1(1) [OF Inl, of b'] 1(2-4) \<open>i \<noteq> k\<close> Inl
      by (simp add: make_until.simps [of mk i] next_delay_duration_def)
  qed (simp add: make_until.simps [of mk i])
qed

lemma replace_keeps_live:
  assumes "all_live M" "slot < length (mx_clients M)" "mk k = Inr c" "k \<le> REPLACE_DELAYS"
  obtains M' where "replace_one_due_to_error mk slot M = (Inr (), M')" "all_live M'" "length (mx_clients M') = length (mx_clients M)"
proof -
  obtain c' where made: "make_until mk 0 REPLACE_DELAYS = Inr c'" using make_until_succeeds [of mk k c 0] assms(3,4) by auto
  have "mx_clients M ! slot \<noteq> None" using assms(1,2) by (metis all_live_def nth_mem)
  then have "replace_one_due_to_error mk slot M = (Inr (), put_in slot c' (M\<lparr>mx_clients := (mx_clients M)[slot := None]\<rparr>))"
    using assms(2) made by (simp add: replace_one_due_to_error_def take_out_def)
  moreover have "all_live (put_in slot c' (M\<lparr>mx_clients := (mx_clients M)[slot := None]\<rparr>))"
    using assms(1) set_update_subset_insert [of "mx_clients M" slot "Some c'"] by (auto simp: all_live_def put_in_def)
  ultimately show ?thesis by (rule that) (simp add: put_in_def)
qed

lemma give_one_transaction_from:
  assumes "\<And>j. r \<le> j \<Longrightarrow> j < n \<Longrightarrow> \<exists>k\<le>REPLACE_DELAYS. \<exists>c. mv_make E j k = Inr c"
    and "\<And>c. \<exists>t. mv_begin E n c = Inr t" and "r \<le> n" and "n - r < fuel" and "all_live M"
  shows "\<exists>t M'. give_one_transaction E r fuel M = Some (Inr t, M') \<and> all_live M' \<and> length (mx_clients M') = length (mx_clients M)"
  using assms
proof (induction E r fuel M rule: give_one_transaction.induct)
  case (2 E r fuel M)
  obtain c where c: "give_one M = (Picked c (unat (mx_idx M) mod length (mx_clients M)), M\<lparr>mx_idx := mx_idx M + 1\<rparr>)"
    using give_one_live [OF "2.prems"(5)] by blast
  let ?M = "M\<lparr>mx_idx := mx_idx M + 1\<rparr>" and ?slot = "unat (mx_idx M) mod length (mx_clients M)"
  have live: "all_live ?M" and slot: "?slot < length (mx_clients ?M)" using "2.prems"(5) by (simp_all add: all_live_def)
  show ?case
  proof (cases "mv_begin E r c")
    case (Inl e)
    then have "r < n" using "2.prems"(2,3) by (metis Inl_Inr_False le_neq_implies_less)
    then obtain k d where "k \<le> REPLACE_DELAYS" "mv_make E r k = Inr d" using "2.prems"(1) [of r] by auto
    from replace_keeps_live [of ?M ?slot "mv_make E r" k d, OF live slot this(2,1)] obtain M' where
      M': "replace_one_due_to_error (mv_make E r) ?slot ?M = (Inr (), M')" "all_live M'" "length (mx_clients M') = length (mx_clients ?M)" .
    have "\<exists>t M''. give_one_transaction E (r + 1) fuel M' = Some (Inr t, M'') \<and> all_live M''
        \<and> length (mx_clients M'') = length (mx_clients M')"
      using \<open>r < n\<close> "2.prems"(1,2,4) M'(2) by (intro "2.IH" [OF c [symmetric] refl Inl M'(1) [symmetric] refl]) auto
    then show ?thesis using c Inl M' by simp
  qed (use c live in simp)
qed simp

text \<open>
  C30. A transaction is obtained: while all slots have a client, if beginning succeeds in round \<open>n\<close>
  and in every earlier round a new client can be made within 201 attempts, the call returns a
  transaction after at most \<open>n + 1\<close> rounds, and all slots have a client again.
\<close>

theorem transaction_obtained:
  assumes "all_live M" and "\<And>j. j < n \<Longrightarrow> \<exists>k\<le>REPLACE_DELAYS. \<exists>c. mv_make E j k = Inr c"
    and "\<And>c. \<exists>t. mv_begin E n c = Inr t"
  shows "\<exists>t M'. give_one_transaction E 0 (n + 1) M = Some (Inr t, M') \<and> all_live M'
    \<and> length (mx_clients M') = length (mx_clients M)"
  using give_one_transaction_from [of 0 n E "n + 1" M] assms by auto

section \<open>One task makes a client\<close>

text \<open>
  A slot is empty exactly while one task makes its client or after making it has failed for good.
\<close>

definition makers :: "'c mux_world \<Rightarrow> nat \<Rightarrow> nat set" where
  "makers w slot = {t. mw_pc w t = Making slot}"

definition slots_ok :: "'c mux_world \<Rightarrow> bool" where
  "slots_ok w \<longleftrightarrow> (\<forall>t slot. mw_pc w t = Making slot \<or> mw_pc w t = Using slot \<longrightarrow> slot < length (mx_clients (mw_mux w)))
     \<and> (\<forall>slot. makers w slot = {} \<or> (\<exists>t. makers w slot = {t})) \<and> (\<forall>slot \<in> mw_lost w. makers w slot = {})
     \<and> (\<forall>slot < length (mx_clients (mw_mux w)). mx_clients (mw_mux w) ! slot = None \<longleftrightarrow> slot \<in> mw_lost w \<or> makers w slot \<noteq> {})"

lemma slots_ok_start: "all_live M \<Longrightarrow> slots_ok (mux_start M)"
  by (auto simp: slots_ok_def mux_start_def all_live_def makers_def in_set_conv_nth)

lemma next_slot_cases:
  "next_slot M = (slot, c, M') \<Longrightarrow> mx_clients M \<noteq> [] \<Longrightarrow> slot < length (mx_clients M) \<and> c = mx_clients M ! slot \<and> mx_clients M' = mx_clients M"
  by (auto simp: next_slot_def Let_def)

lemma makers_same:
  assumes "\<And>s. mw_pc w t \<noteq> Making s" "\<And>s. p \<noteq> Making s"
  shows "makers (task_to t p M w) = makers w"
  using assms by (auto simp: makers_def task_to_def fun_eq_iff)

lemma makers_took:
  assumes "mw_pc w t = Using s" "makers w s = {}"
  shows "makers (task_to t (Making s) M w) = (makers w)(s := {t})"
  using assms by (auto simp: makers_def task_to_def fun_eq_iff)

lemma makers_done:
  assumes "slots_ok w" "mw_pc w t = Making s"
  shows "makers w s = {t}" "makers (task_to t Outside M w) = (makers w)(s := {})"
proof -
  have "t \<in> makers w s" using assms(2) by (simp add: makers_def)
  then show only: "makers w s = {t}" using assms(1) by (auto simp: slots_ok_def)
  have "makers (task_to t Outside M w) s' = makers w s' - {t}" for s'
    by (auto simp: makers_def task_to_def)
  moreover have "t \<notin> makers w s'" if "s' \<noteq> s" for s' using assms(2) that by (simp add: makers_def)
  ultimately show "makers (task_to t Outside M w) = (makers w)(s := {})" using only by (auto simp: fun_eq_iff)
qed

lemma makers_lost [simp]: "makers (w\<lparr>mw_lost := L\<rparr>) = makers w"
  by (simp add: makers_def fun_eq_iff)

lemma task_to_simps [simp]:
  "mw_pc (task_to t p M w) = (mw_pc w)(t := p)" "mw_mux (task_to t p M w) = M" "mw_lost (task_to t p M w) = mw_lost w"
  by (simp_all add: task_to_def)

lemma slots_ok_step:
  assumes "mux_step w w'" "slots_ok w" "mx_clients (mw_mux w) \<noteq> []"
  shows "slots_ok w' \<and> length (mx_clients (mw_mux w')) = length (mx_clients (mw_mux w))"
  using assms(1)
proof cases
  case (pick t slot c M)
  then have "makers w' = makers w" by (simp add: makers_same)
  then show ?thesis using pick(1,2) assms(2) next_slot_cases [OF pick(3) assms(3)] by (auto simp: slots_ok_def)
next
  case (skip t slot M)
  then have "makers w' = makers w" by (simp add: makers_same)
  then show ?thesis using skip(1,2) assms(2) next_slot_cases [OF skip(3) assms(3)] by (auto simp: slots_ok_def)
next
  case (begun t slot)
  then have "makers w' = makers w" by (simp add: makers_same)
  then show ?thesis using begun assms(2) by (auto simp: slots_ok_def)
next
  case (took t slot M)
  then have "slot < length (mx_clients (mw_mux w))" "mx_clients (mw_mux w) ! slot \<noteq> None"
      "M = (mw_mux w)\<lparr>mx_clients := (mx_clients (mw_mux w))[slot := None]\<rparr>"
    by (auto simp: take_out_def split: if_splits)
  moreover from this have "makers w slot = {}" "slot \<notin> mw_lost w" using assms(2) by (auto simp: slots_ok_def)
  moreover from this have "makers w' = (makers w)(slot := {t})" using took by (simp add: makers_took)
  ultimately show ?thesis using took(1,2) assms(2) by (auto simp: slots_ok_def nth_list_update)
next
  case (taken t slot M)
  then have "makers w' = makers w" by (simp add: makers_same)
  moreover have "mx_clients M = mx_clients (mw_mux w)"
    using taken(3) by (auto simp: take_out_def list_update_same_conv split: if_splits)
  ultimately show ?thesis using taken(1,2) assms(2) by (auto simp: slots_ok_def)
next
  case (made t slot c)
  from made have "makers w' = (makers w)(slot := {})" using makers_done(2) [OF assms(2)] by simp
  moreover have "slot \<notin> mw_lost w" using assms(2) makers_done(1) [OF assms(2) made(2)] by (auto simp: slots_ok_def)
  ultimately show ?thesis using made assms(2) by (auto simp: slots_ok_def put_in_def nth_list_update)
next
  case (gave_up t slot)
  then have "makers w' = (makers w)(slot := {})" using makers_done(2) [OF assms(2)] by simp
  then show ?thesis using gave_up assms(2) makers_done(1) [OF assms(2) gave_up(2)] by (auto simp: slots_ok_def)
qed

lemma reachable_slots_ok:
  assumes "mux_step\<^sup>*\<^sup>* (mux_start M) w" "all_live M"
  shows "slots_ok w \<and> length (mx_clients (mw_mux w)) = length (mx_clients M)"
  using assms
proof (induction rule: rtranclp_induct)
  case base
  then show ?case using slots_ok_start by (simp add: mux_start_def)
next
  case (step w w')
  then have "mx_clients (mw_mux w) \<noteq> []" by (auto simp: all_live_def)
  with step show ?case using slots_ok_step by metis
qed

text \<open>
  C18. However the tasks interleave, no two tasks make the client of one slot, and a slot is empty only
  while a task makes its client, or after it gave up; the number of slots never changes.
\<close>

theorem one_task_makes_a_client:
  assumes "all_live M" and "mux_step\<^sup>*\<^sup>* (mux_start M) w"
  shows "(mw_pc w t = Making slot \<and> mw_pc w t' = Making slot \<longrightarrow> t = t')
    \<and> (slot < length (mx_clients M) \<longrightarrow>
        (mx_clients (mw_mux w) ! slot = None \<longleftrightarrow> slot \<in> mw_lost w \<or> (\<exists>t. mw_pc w t = Making slot)))
    \<and> length (mx_clients (mw_mux w)) = length (mx_clients M)"
proof -
  have ok: "slots_ok w" and len: "length (mx_clients (mw_mux w)) = length (mx_clients M)"
    using reachable_slots_ok [OF assms(2,1)] by auto
  moreover have "t = t'" if "mw_pc w t = Making slot" "mw_pc w t' = Making slot"
    using makers_done(1) [OF ok that(1)] makers_done(1) [OF ok that(2)] by simp
  ultimately show ?thesis by (auto simp: slots_ok_def makers_def)
qed

section \<open>Instances\<close>

text \<open>Two clients; beginning fails once, and the second attempt to make a new client succeeds.\<close>

definition sample_mux :: "nat transaction_client_mux" where
  "sample_mux = \<lparr>mx_idx = 0, mx_clients = [Some 1, Some 2], mx_sent = 0\<rparr>"

definition sample_mux_env :: "(nat, string, nat) mux_env" where
  "sample_mux_env = \<lparr>mv_begin = (\<lambda>r c. if r = 0 then Inl ''down'' else Inr c), mv_make = (\<lambda>r k. if k = 0 then Inl ''down'' else Inr 3)\<rparr>"

theorem transaction_obtained_witness:
  "\<exists>t M'. give_one_transaction sample_mux_env 0 2 sample_mux = Some (Inr t, M') \<and> all_live M' \<and> length (mx_clients M') = 2"
proof -
  have "\<exists>k\<le>REPLACE_DELAYS. \<exists>c. mv_make sample_mux_env j k = Inr c" for j
    by (intro exI [of _ 1]) (simp add: sample_mux_env_def REPLACE_DELAYS_def)
  moreover have "all_live sample_mux" "\<exists>t. mv_begin sample_mux_env 1 c = Inr t" for c
    by (simp_all add: all_live_def sample_mux_def sample_mux_env_def)
  moreover have "length (mx_clients sample_mux) = 2" "(1 :: nat) + 1 = 2" by (simp_all add: sample_mux_def)
  ultimately show ?thesis using transaction_obtained [of sample_mux 1 sample_mux_env] by metis
qed

theorem one_task_makes_a_client_witness:
  "\<exists>w. mux_step\<^sup>*\<^sup>* (mux_start sample_mux) w \<and> mw_pc w 0 = Making 0 \<and> mx_clients (mw_mux w) ! 0 = None
     \<and> (\<forall>t'. mw_pc w t' = Making 0 \<longrightarrow> t' = 0)"
proof -
  let ?w0 = "mux_start sample_mux" and ?M1 = "sample_mux\<lparr>mx_idx := 1\<rparr>"
  let ?w1 = "task_to 0 (Using 0) ?M1 ?w0" and ?M2 = "?M1\<lparr>mx_clients := [None, Some 2]\<rparr>"
  let ?w2 = "task_to 0 (Making 0) ?M2 ?w1"
  have "mux_step ?w0 ?w1" by (rule mux_step.pick [of _ _ _ 1]) (simp_all add: mux_start_def next_slot_def sample_mux_def)
  moreover have "mux_step ?w1 ?w2" by (rule mux_step.took) (simp_all add: take_out_def sample_mux_def)
  ultimately have reach: "mux_step\<^sup>*\<^sup>* ?w0 ?w2" by (simp add: converse_rtranclp_into_rtranclp)
  have live: "all_live sample_mux" by (simp add: all_live_def sample_mux_def)
  have pc: "mw_pc ?w2 0 = Making 0" by simp
  have "t' = 0" if "mw_pc ?w2 t' = Making 0" for t'
    using one_task_makes_a_client [OF live reach, of t' 0 0] that pc by blast
  moreover have "mx_clients (mw_mux ?w2) ! 0 = None" by simp
  ultimately show ?thesis using reach pc by blast
qed

text \<open>When all clients have been given up, a task that asks for one waits.\<close>

lemma no_client_waits_from:
  "mx_clients M \<noteq> [] \<Longrightarrow> \<forall>c \<in> set (mx_clients M). c = None \<Longrightarrow> fst (give_one_loop i M) = Waits"
proof (induction i M rule: give_one_loop.induct)
  case (1 i M)
  have "mx_clients M ! (unat (mx_idx M) mod length (mx_clients M)) = None" using 1(2,3) by simp
  then have step: "next_slot M = (unat (mx_idx M) mod length (mx_clients M), None, M\<lparr>mx_idx := mx_idx M + 1\<rparr>)"
    by (simp add: next_slot_def Let_def)
  show ?case using 1(1) [OF step [symmetric] refl refl] 1(2,3)
    by (simp add: give_one_loop.simps [of i M] step)
qed

lemma no_client_waits: "mx_clients M \<noteq> [] \<Longrightarrow> \<forall>c \<in> set (mx_clients M). c = None \<Longrightarrow> fst (give_one M) = Waits"
  by (simp add: give_one_def no_client_waits_from)

end
