(* ===== verification/Inode_Ops.thy ===== *)
theory Inode_Ops
  imports Key_Facts
begin

text \<open>
  Operations on the data of a single inode: size and block count (\<open>InoSize\<close>), inline data,
  file modes (\<open>mode.rs\<close>), the numbering of logical inodes (\<open>reply.rs\<close>) and the names
  of the automatically listed hash files (\<open>tikv_fs.rs\<close>). The clock is an argument, the
  value \<open>SystemTime::now()\<close> returns. Arithmetic on \<open>u64\<close> wraps, as in a release build.
\<close>

section \<open>Sizes\<close>

definition ino_size_new :: "system_time \<Rightarrow> ino_size" where
  "ino_size_new now = \<lparr>isz_size = 0, isz_blocks = 0, isz_last_change = now\<rparr>"

definition update_blocks :: "u64 \<Rightarrow> ino_size \<Rightarrow> ino_size" where
  "update_blocks block_size s = s\<lparr>isz_blocks := div_ceil (isz_size s) block_size\<rparr>"

definition set_size :: "system_time \<Rightarrow> u64 \<Rightarrow> u64 \<Rightarrow> ino_size \<Rightarrow> ino_size" where
  "set_size now sz block_size s =
     (if isz_size s \<noteq> sz
      then (update_blocks block_size (s\<lparr>isz_size := sz\<rparr>))\<lparr>isz_last_change := now\<rparr>
      else s)"

definition block_write_size_update ::
  "system_time \<Rightarrow> block_address \<Rightarrow> u64 \<Rightarrow> u64 \<Rightarrow> ino_size \<Rightarrow> bool \<times> ino_size" where
  "block_write_size_update now addr fs_block_size new_blocks_actual_size s =
     (let target_size = block_raw (ba_index addr) * fs_block_size + new_blocks_actual_size in
      if target_size \<le> isz_size s then (False, s)
      else (True, (set_size now target_size fs_block_size s)\<lparr>isz_last_change := now\<rparr>))"

text \<open>The block count belongs to the size.\<close>

definition ino_size_wf :: "u64 \<Rightarrow> ino_size \<Rightarrow> bool" where
  "ino_size_wf block_size s \<longleftrightarrow> isz_blocks s = div_ceil (isz_size s) block_size"

section \<open>Inline data\<close>

text \<open>
  \<open>Vec::resize\<close> with zero bytes and \<open>copy_from_slice\<close> into a range that lies within the
  vector.
\<close>

definition resize_zero :: "nat \<Rightarrow> bytes \<Rightarrow> bytes" where
  "resize_zero n v = take n v @ replicate (n - length v) 0"

definition copy_into :: "nat \<Rightarrow> bytes \<Rightarrow> bytes \<Rightarrow> bytes" where
  "copy_into pos d v = take pos v @ d @ drop (pos + length d) v"

definition write_into_inline_data ::
  "system_time \<Rightarrow> u64 \<Rightarrow> bytes \<Rightarrow> ino_inline_data \<Rightarrow> ino_inline_data" where
  "write_into_inline_data now start data d =
     (let sz = length data; start = unat start;
          v = (if start + sz > length (inl_inlined d)
               then resize_zero (start + sz) (inl_inlined d) else inl_inlined d)
      in d\<lparr>inl_inlined := copy_into start data v, inl_last_change := now\<rparr>)"

definition read_from_inline_data :: "u64 \<Rightarrow> u64 \<Rightarrow> ino_inline_data \<Rightarrow> bytes" where
  "read_from_inline_data start sz d =
     (let start = unat start; sz = unat sz in
      if length (inl_inlined d) > start
      then let to_copy = min sz (length (inl_inlined d) - start)
           in take to_copy (drop start (inl_inlined d))
      else [])"

section \<open>File modes\<close>

text \<open>The constants of the \<open>libc\<close> crate on Linux, and the file types of \<open>fuser\<close>.\<close>

abbreviation S_ISUID :: u32 where "S_ISUID \<equiv> 0x800"
abbreviation S_ISGID :: u32 where "S_ISGID \<equiv> 0x400"
abbreviation S_IFMT :: u32 where "S_IFMT \<equiv> 0xF000"
abbreviation S_IFREG :: u32 where "S_IFREG \<equiv> 0x8000"
abbreviation S_IFLNK :: u32 where "S_IFLNK \<equiv> 0xA000"
abbreviation S_IFDIR :: u32 where "S_IFDIR \<equiv> 0x4000"
abbreviation S_IFIFO :: u32 where "S_IFIFO \<equiv> 0x1000"
abbreviation S_IFBLK :: u32 where "S_IFBLK \<equiv> 0x6000"
abbreviation S_IFCHR :: u32 where "S_IFCHR \<equiv> 0x2000"
abbreviation S_IFSOCK :: u32 where "S_IFSOCK \<equiv> 0xC000"

datatype file_type =
  FT_RegularFile | FT_Symlink | FT_Directory | FT_NamedPipe | FT_BlockDevice | FT_CharDevice | FT_Socket

definition as_file_perm :: "u32 \<Rightarrow> u16" where
  "as_file_perm mode = ucast (mode AND NOT (S_ISUID OR S_ISGID))"

text \<open>\<open>None\<close> is the panic of \<open>unimplemented!\<close>.\<close>

definition as_file_kind :: "u32 \<Rightarrow> file_type option" where
  "as_file_kind mode =
     (let m = mode AND S_IFMT in
      if m = S_IFREG then Some FT_RegularFile
      else if m = S_IFLNK then Some FT_Symlink
      else if m = S_IFDIR then Some FT_Directory
      else if m = S_IFIFO then Some FT_NamedPipe
      else if m = S_IFBLK then Some FT_BlockDevice
      else if m = S_IFCHR then Some FT_CharDevice
      else if m = S_IFSOCK then Some FT_Socket
      else None)"

fun file_type_bits :: "file_type \<Rightarrow> u32" where
  "file_type_bits FT_RegularFile = S_IFREG"
| "file_type_bits FT_Symlink = S_IFLNK"
| "file_type_bits FT_Directory = S_IFDIR"
| "file_type_bits FT_NamedPipe = S_IFIFO"
| "file_type_bits FT_BlockDevice = S_IFBLK"
| "file_type_bits FT_CharDevice = S_IFCHR"
| "file_type_bits FT_Socket = S_IFSOCK"

definition make_mode :: "file_type \<Rightarrow> u16 \<Rightarrow> u32" where
  "make_mode tpy perm = file_type_bits tpy OR ucast perm"

fun map_storage_dir_item_kind_to_file_type :: "storage_dir_item_kind \<Rightarrow> file_type" where
  "map_storage_dir_item_kind_to_file_type Directory = FT_Directory"
| "map_storage_dir_item_kind_to_file_type File = FT_RegularFile"
| "map_storage_dir_item_kind_to_file_type Symlink = FT_Symlink"

fun map_file_type_to_storage_dir_item_kind :: "file_type \<Rightarrow> storage_dir_item_kind tifs_result" where
  "map_file_type_to_storage_dir_item_kind FT_Directory = Inr Directory"
| "map_file_type_to_storage_dir_item_kind FT_RegularFile = Inr File"
| "map_file_type_to_storage_dir_item_kind FT_Symlink = Inr Symlink"
| "map_file_type_to_storage_dir_item_kind _ = Inl WrongFileType"

section \<open>Logical inode numbers\<close>

record logical_ino =
  li_storage_ino :: storage_ino
  li_kind :: ino_kind

definition LOGICAL_INO_FACTOR :: u64 where
  "LOGICAL_INO_FACTOR = 8"

fun kind_id :: "ino_kind \<Rightarrow> u64" where
  "kind_id Regular = 0"
| "kind_id Hash = 1"
| "kind_id Hashes = 2"

definition logical_ino_from_raw :: "u64 \<Rightarrow> logical_ino" where
  "logical_ino_from_raw ino =
     (let r = ino - ino_raw (parent_ino ROOT_INODE);
          kind_id = r mod LOGICAL_INO_FACTOR;
          base_ino = 1 + r div LOGICAL_INO_FACTOR;
          kind = (if kind_id = 0 then Regular else if kind_id = 1 then Hash
                  else if kind_id = 2 then Hashes else Regular)
      in \<lparr>li_storage_ino = StorageIno base_ino, li_kind = kind\<rparr>)"

definition logical_ino_to_raw :: "logical_ino \<Rightarrow> u64" where
  "logical_ino_to_raw l =
     ino_raw (parent_ino ROOT_INODE)
       + (ino_raw (li_storage_ino l) - 1) * LOGICAL_INO_FACTOR + kind_id (li_kind l)"

definition is_regular :: "logical_ino \<Rightarrow> bool" where
  "is_regular l \<longleftrightarrow> li_kind l = Regular"

section \<open>Names of hash files\<close>

abbreviation dot :: u8 where "dot \<equiv> 0x2E"

definition hash_suffix :: bytes where
  "hash_suffix = str_bytes ''.@hash''"

definition hashes_suffix :: bytes where
  "hashes_suffix = str_bytes ''.@hashes''"

text \<open>
  \<open>name[a..b]\<close> of a string slice: \<open>None\<close> is the panic when \<open>a > b\<close> or \<open>b\<close> is out
  of range.
\<close>

definition str_slice :: "bytes \<Rightarrow> nat \<Rightarrow> nat \<Rightarrow> bytes option" where
  "str_slice s a b = (if a \<le> b \<and> b \<le> length s then Some (take (b - a) (drop a s)) else None)"

definition parse_filename :: "name \<Rightarrow> (name \<times> ino_kind) option" where
  "parse_filename nm =
     (if length nm > 1 \<and> nm ! 0 = dot
      then if suffix hash_suffix nm
           then map_option (\<lambda>s. (s, Hash)) (str_slice nm 1 (length nm - length hash_suffix))
           else if suffix hashes_suffix nm
           then map_option (\<lambda>s. (s, Hashes)) (str_slice nm 1 (length nm - length hashes_suffix))
           else Some (nm, Regular)
      else Some (nm, Regular))"

text \<open>The names \<open>read_dir1\<close> lists beside a file.\<close>

definition full_hash_entry_name :: "name \<Rightarrow> name" where
  "full_hash_entry_name nm = dot # nm @ hash_suffix"

definition block_hashes_entry_name :: "name \<Rightarrow> name" where
  "block_hashes_entry_name nm = dot # nm @ hashes_suffix"

section \<open>Facts on sizes\<close>

lemma ino_size_new_simps [simp]:
  "ino_size_wf bs (ino_size_new now)" "isz_size (ino_size_new now) = 0"
  by (simp_all add: ino_size_wf_def ino_size_new_def div_ceil_def)

lemma div_add_small: "k < b \<Longrightarrow> (n * b + k) div b = n" for k b n :: nat
  by simp

lemma unat_div_ceil:
  assumes "b \<noteq> 0"
  shows "unat (div_ceil a b) = (unat a + unat b - 1) div unat b"
proof -
  let ?a = "unat a" and ?b = "unat b"
  have pos: "0 < ?b" using assms by (simp add: unat_gt_0)
  have bound: "?a < 2 ^ 64" using unsigned_less [of a, where 'a = nat] by simp
  have mod_iff: "a mod b = 0 \<longleftrightarrow> ?a mod ?b = 0"
    by (metis unat_0 unat_eq_zero unat_mod)
  have split_a: "?a = ?b * (?a div ?b) + ?a mod ?b" by simp
  show ?thesis
  proof (cases "a mod b = 0")
    case True
    then have "?a + ?b - 1 = (?b - 1) + ?b * (?a div ?b)"
      using split_a mod_iff pos by simp
    then have "(?a + ?b - 1) div ?b = ?a div ?b"
      using pos by (metis One_nat_def Suc_pred div_less div_mult_self2 gr_implies_not0 add_0_right
          lessI)
    with True show ?thesis by (simp add: div_ceil_def unat_div)
  next
    case False
    then have r: "0 < ?a mod ?b" using mod_iff by simp
    then have "?a + ?b - 1 = (?a mod ?b - 1) + ?b * (?a div ?b + 1)"
      using split_a pos r unfolding distrib_left mult_1_right by linarith
    moreover have "?a mod ?b - 1 < ?b" using pos by (simp add: less_imp_diff_less)
    ultimately have q: "(?a + ?b - 1) div ?b = ?a div ?b + 1"
      using pos by (metis div_less div_mult_self2 gr_implies_not0 add_0_right)
    have "?b \<noteq> 1" using r by auto
    then have "?a div ?b < 2 ^ 64 - 1"
    proof -
      have "?a div ?b \<le> ?a div 2" using pos \<open>?b \<noteq> 1\<close> by (intro div_le_mono2) auto
      then show ?thesis using bound by simp
    qed
    then have "unat (a div b) < 2 ^ 64 - 1" by (simp add: unat_div)
    then have "a div b \<noteq> - 1" by (auto simp: unsigned_minus_1_eq_mask mask_eq_exp_minus_1)
    then have "unat (a div b + 1) = ?a div ?b + 1" by (simp add: unat_succ_u64 unat_div)
    with False q show ?thesis by (simp add: div_ceil_def)
  qed
qed

lemma div_ceil_covers: "b \<noteq> 0 \<Longrightarrow> unat a \<le> unat (div_ceil a b) * unat b"
  and div_ceil_least: "b \<noteq> 0 \<Longrightarrow> unat a \<le> n * unat b \<Longrightarrow> unat (div_ceil a b) \<le> n"
proof -
  assume "b \<noteq> 0"
  then have pos: "0 < unat b" by (simp add: unat_gt_0)
  show "unat a \<le> unat (div_ceil a b) * unat b"
    using pos dividend_less_div_times [OF pos, of "unat a + unat b - 1"]
    by (simp add: unat_div_ceil [OF \<open>b \<noteq> 0\<close>])
  assume "unat a \<le> n * unat b"
  then have "(unat a + unat b - 1) div unat b \<le> (n * unat b + (unat b - 1)) div unat b"
    using pos by (intro div_le_mono) simp
  also have "\<dots> = n" using pos by (intro div_add_small) simp
  finally show "unat (div_ceil a b) \<le> n" by (simp add: unat_div_ceil [OF \<open>b \<noteq> 0\<close>])
qed

lemma set_size_wf: "ino_size_wf bs s \<Longrightarrow> ino_size_wf bs (set_size now n bs s)"
  by (simp add: ino_size_wf_def set_size_def update_blocks_def)

lemma set_size_size [simp]: "isz_size (set_size now n bs s) = n"
  by (simp add: set_size_def update_blocks_def)

text \<open>
  C25. Writing a block keeps size and block count of an inode consistent: when the end of the
  written block does not exceed the address space, the size becomes the maximum of the old
  size and the end of the block, the block count stays the least number of blocks that covers
  the size, and the result tells whether anything changed.
\<close>

theorem block_write_size_update_correct:
  assumes "ino_size_wf bs s" and "bs \<noteq> 0"
    and "unat (block_raw (ba_index addr)) * unat bs + unat n < 2 ^ 64"
  shows "(let target = unat (block_raw (ba_index addr)) * unat bs + unat n;
      (changed, s') = block_write_size_update now addr bs n s
    in unat (isz_size s') = max (unat (isz_size s)) target
      \<and> ino_size_wf bs s'
      \<and> (changed \<longleftrightarrow> unat (isz_size s) < target)
      \<and> (unat (isz_size s') \<le> m * unat bs \<longleftrightarrow> unat (isz_blocks s') \<le> m))"
proof -
  let ?t = "block_raw (ba_index addr) * bs + n"
  let ?s = "snd (block_write_size_update now addr bs n s)"
  have t: "unat ?t = unat (block_raw (ba_index addr)) * unat bs + unat n"
    using assms(3) by (simp add: unat_word_ariths)
  have wf: "ino_size_wf bs ?s"
    using assms(1) set_size_wf [OF assms(1), of now ?t]
    by (simp add: block_write_size_update_def Let_def ino_size_wf_def)
  have "unat (isz_size ?s) \<le> m * unat bs \<longleftrightarrow> unat (isz_blocks ?s) \<le> m"
    using wf div_ceil_covers [OF assms(2), of "isz_size ?s"] div_ceil_least [OF assms(2)]
    by (auto simp: ino_size_wf_def intro: order_trans mult_right_mono)
  then show ?thesis
    using t wf by (auto simp: block_write_size_update_def Let_def word_le_nat_alt)
qed

theorem block_write_size_update_correct_witness:
  "(let (changed, s') = block_write_size_update 7
      \<lparr>ba_ino = StorageIno 10, ba_index = BlockIndex 2\<rparr> 4096 1 (ino_size_new 0)
    in unat (isz_size s') = 8193 \<and> ino_size_wf 4096 s' \<and> changed \<and> unat (isz_blocks s') \<le> 3)"
  using block_write_size_update_correct [of 4096 "ino_size_new 0"
      "\<lparr>ba_ino = StorageIno 10, ba_index = BlockIndex 2\<rparr>" 1 7 3]
  by (auto simp: split_beta Let_def)

section \<open>Facts on inline data\<close>

lemma length_resize_zero [simp]: "length (resize_zero n v) = n"
  by (simp add: resize_zero_def)

lemma nth_resize_zero: "i < n \<Longrightarrow> resize_zero n v ! i = (if i < length v then v ! i else 0)"
  by (auto simp: resize_zero_def nth_append)

lemma length_copy_into [simp]: "p + length d \<le> length v \<Longrightarrow> length (copy_into p d v) = length v"
  by (simp add: copy_into_def)

lemma nth_copy_into:
  "p + length d \<le> length v \<Longrightarrow> i < length v \<Longrightarrow>
   copy_into p d v ! i = (if p \<le> i \<and> i < p + length d then d ! (i - p) else v ! i)"
  by (auto simp: copy_into_def nth_append not_less)



section \<open>Facts on modes, inode numbers and names\<close>

text \<open>
  The mode that a file type and permission bits are packed into gives the same type back,
  as long as the permissions use none of the type bits, and the low twelve bits are the
  permissions.
\<close>

lemma file_kind_of_make_mode:
  assumes "perm AND 0xF000 = 0"
  shows "as_file_kind (make_mode t perm) = Some t \<and> ucast (make_mode t perm AND 0xFFF) = perm"
proof -
  have "(ucast perm :: u32) AND 0xF000 = ucast (perm AND 0xF000)" by (simp add: unsigned_and_eq)
  then have u: "(ucast perm :: u32) AND 0xF000 = 0" using assms by simp
  have "(0xFFF OR 0xF000 :: u16) = - 1" by (simp add: word_unat_eq_iff unsigned_minus_1_eq_mask mask_eq_exp_minus_1)
  then have "perm = perm AND (0xFFF OR 0xF000)" by (simp only: bit.conj_one_right)
  also have "\<dots> = perm AND 0xFFF" using assms by (simp only: bit.conj_disj_distrib) simp
  finally have perm: "perm AND 0xFFF = perm" by simp
  have id: "(ucast (ucast perm :: u32) :: u16) = perm"
    by (rule bit_word_eqI) (simp add: bit_simps)
  have "(ucast ((ucast perm :: u32) AND 0xFFF) :: u16) = perm AND 0xFFF"
    by (simp add: unsigned_and_eq id)
  with u perm show ?thesis
    by (cases t) (simp_all add: as_file_kind_def make_mode_def bit.conj_disj_distrib2 Let_def)
qed


lemma file_kind_of_make_mode_witness:
  "as_file_kind (make_mode FT_Directory 0x1ED) = Some FT_Directory"
  using file_kind_of_make_mode [of "0x1ED" FT_Directory] by simp

text \<open>
  The numbering of logical inodes is a bijection: for every storage inode below 2^61
  other than 0, the raw number of its regular, hash or block-hash view decodes to the same
  view, so the raw numbers of two views of small inodes differ.
\<close>

lemma logical_ino_roundtrip:
  assumes "li_storage_ino l \<noteq> StorageIno 0" and "ino_raw (li_storage_ino l) \<le> 2 ^ 61"
  shows "logical_ino_from_raw (logical_ino_to_raw l) = l"
proof -
  let ?s = "ino_raw (li_storage_ino l) - 1" and ?k = "kind_id (li_kind l)"
  have nz: "ino_raw (li_storage_ino l) \<noteq> 0"
    using assms(1) by (metis storage_ino.collapse)
  have us: "unat ?s < 2 ^ 61"
    using assms(2) nz by (simp add: unat_minus_one word_le_nat_alt unat_gt_0)
  have uk: "unat ?k < 8" by (cases "li_kind l") simp_all
  let ?r = "?s * 8 + ?k"
  have sum: "unat (s * 8 + k) = unat s * 8 + unat k" if "unat s < 2 ^ 61" "unat k < 8"
    for s k :: u64 using that by (simp add: unat_word_ariths)
  have ur: "unat ?r = unat ?s * 8 + unat ?k" by (rule sum [OF us uk])
  have "?r mod 8 = ?k" "?r div 8 = ?s"
    using ur uk by (simp_all add: word_unat_eq_iff unat_mod unat_div)
  moreover have "logical_ino_to_raw l - ino_raw (parent_ino ROOT_INODE) = ?r"
    by (simp add: logical_ino_to_raw_def LOGICAL_INO_FACTOR_def)
  ultimately show ?thesis
    by (cases l; cases "li_kind l")
      (simp_all add: logical_ino_from_raw_def LOGICAL_INO_FACTOR_def Let_def)
qed

text \<open>
  The names that a directory listing offers for the hash files of an entry are parsed
  back to that entry and the right kind, for every non-empty name; names that do not start
  with a dot or carry none of the suffixes stand for themselves.
\<close>

lemma parse_filename_listed:
  assumes "nm \<noteq> []"
  shows "parse_filename (full_hash_entry_name nm) = Some (nm, Hash)
    \<and> parse_filename (block_hashes_entry_name nm) = Some (nm, Hashes)
    \<and> (hd nm \<noteq> dot \<or> \<not> suffix hash_suffix nm \<and> \<not> suffix hashes_suffix nm
        \<longrightarrow> parse_filename nm = Some (nm, Regular))"
proof -
  have no_suffix: "\<not> suffix hash_suffix (xs @ hashes_suffix)" for xs
    by (auto simp: suffix_def hash_suffix_def hashes_suffix_def str_bytes_def append_eq_append_conv2
        append_eq_Cons_conv)
  have hash: "suffix hash_suffix (full_hash_entry_name nm)"
    by (auto simp: suffix_def full_hash_entry_name_def intro: exI [of _ "dot # nm"])
  have hashes: "suffix hashes_suffix (block_hashes_entry_name nm)"
      "\<not> suffix hash_suffix (block_hashes_entry_name nm)"
    using no_suffix [of "dot # nm"]
    by (auto simp: suffix_def block_hashes_entry_name_def intro: exI [of _ "dot # nm"])
  show ?thesis
    using assms hash hashes
    by (auto simp: parse_filename_def full_hash_entry_name_def block_hashes_entry_name_def
        str_slice_def hd_conv_nth)
qed

text \<open>
  The bare suffixes are not handled: looking up the name \<^verbatim>\<open>.@hash\<close> or \<^verbatim>\<open>.@hashes\<close>
  makes the slice run from 1 to 0, which panics (\<open>None\<close>).
\<close>

lemma parse_filename_bare_suffix_panics:
  "parse_filename (str_bytes ''.@hash'') = None \<and> parse_filename (str_bytes ''.@hashes'') = None"
  by (simp add: parse_filename_def hash_suffix_def hashes_suffix_def str_bytes_def str_slice_def
      suffix_def)

end
