(* ===== verification/Environment.thy ===== *)
theory Environment
  imports Flexible_Transaction Inode_Ops
begin

text \<open>
  The third-party functions the file system calls beside the store, as one record, with what
  the program relies on, and one executable instance of them: values are written as
  self-delimiting sequences of bytes instead of JSON. The instance shows that the assumptions
  can hold together, and the examples of the development are evaluated on it.
\<close>

section \<open>The environment\<close>

text \<open>
  JSON codecs (\<open>serde_json\<close>), the big-endian bytes of big integers (\<open>num_bigint\<close>), the text
  of an identifier (\<open>uuid\<close>), the digests (\<open>blake3\<close>, \<open>sha2\<close>) and the union of ranges
  (\<open>range_collections\<close>).
\<close>

record ext =
  ext_json :: json
  ext_big_enc :: "nat \<Rightarrow> bytes"
  ext_big_dec :: "bytes \<Rightarrow> nat"
  ext_uuid_str :: "uuid \<Rightarrow> bytes"
  ext_digests :: digests
  ext_range_union :: "(u64 \<times> u64) list \<Rightarrow> (u64 \<times> u64) list"

definition in_ranges :: "(u64 \<times> u64) list \<Rightarrow> u64 \<Rightarrow> bool" where
  "in_ranges rs x \<longleftrightarrow> (\<exists>(a, b) \<in> set rs. a \<le> x \<and> x < b)"

definition ext_ok :: "ext \<Rightarrow> bool" where
  "ext_ok X \<longleftrightarrow> json_ok (ext_json X) \<and> (\<forall>n. ext_big_dec X (ext_big_enc X n) = n)
     \<and> inj (ext_uuid_str X) \<and> digest_lengths (ext_digests X)
     \<and> (\<forall>rs x. in_ranges (ext_range_union X rs) x = in_ranges rs x)"

lemma ext_ok_codecs [simp]:
  assumes "ext_ok X"
  shows "codec_ok (js_meta_static (ext_json X))" "codec_ok (js_meta_mutable (ext_json X))"
    "codec_ok (js_dir_item (ext_json X))" "codec_ok (js_unit (ext_json X))"
    "codec_ok (js_description (ext_json X))" "codec_ok (js_size (ext_json X))"
    "codec_ok (js_attr (ext_json X))" "codec_ok (js_atime (ext_json X))"
    "codec_ok (js_mtime (ext_json X))" "codec_ok (js_change_id (ext_json X))"
    "codec_ok (js_full_hash (ext_json X))" "codec_ok (js_inline (ext_json X))"
  using assms by (simp_all add: ext_ok_def json_ok_def)

lemma ext_ok_facts:
  assumes "ext_ok X"
  shows "ext_big_dec X (ext_big_enc X n) = n" and "inj (ext_uuid_str X)"
    and "digest_lengths (ext_digests X)" and "in_ranges (ext_range_union X rs) x = in_ranges rs x"
  using assms by (simp_all add: ext_ok_def)

section \<open>Self-delimiting encodings\<close>

record 'a pickler =
  pk_enc :: "'a \<Rightarrow> bytes"
  pk_dec :: "bytes \<Rightarrow> ('a \<times> bytes) option"

definition pickler_ok :: "'a pickler \<Rightarrow> bool" where
  "pickler_ok p \<longleftrightarrow> (\<forall>x r. pk_dec p (pk_enc p x @ r) = Some (x, r))"

fun enc_nat :: "nat \<Rightarrow> bytes" where
  "enc_nat n = (if n < 128 then [of_nat n] else of_nat (128 + n mod 128) # enc_nat (n div 128))"

fun dec_nat :: "bytes \<Rightarrow> (nat \<times> bytes) option" where
  "dec_nat [] = None"
| "dec_nat (b # bs) =
     (if b < 128 then Some (unat b, bs)
      else case dec_nat bs of None \<Rightarrow> None | Some (n, r) \<Rightarrow> Some (unat b - 128 + 128 * n, r))"

declare enc_nat.simps [simp del]

lemma unat_small_byte: "n < 256 \<Longrightarrow> unat (of_nat n :: u8) = n"
  by (simp add: unat_of_nat)

lemma dec_enc_nat: "dec_nat (enc_nat n @ r) = Some (n, r)"
proof (induction n rule: enc_nat.induct)
  case (1 n)
  show ?case
  proof (cases "n < 128")
    case True
    then have "unat (of_nat n :: u8) = n" by (simp add: unat_small_byte)
    with True show ?thesis by (simp add: enc_nat.simps [of n] word_less_nat_alt)
  next
    case False
    have u: "unat (of_nat (128 + n mod 128) :: u8) = 128 + n mod 128" by (rule unat_small_byte) simp
    then have "\<not> (of_nat (128 + n mod 128) :: u8) < 128" by (simp add: word_less_nat_alt del: of_nat_add)
    moreover have "n mod 128 + 128 * (n div 128) = n" by simp
    ultimately show ?thesis using False 1 u by (simp add: enc_nat.simps [of n] del: of_nat_add)
  qed
qed

definition pk_nat :: "nat pickler" where
  "pk_nat = \<lparr>pk_enc = enc_nat, pk_dec = dec_nat\<rparr>"

definition pk_map :: "('a \<Rightarrow> 'b) \<Rightarrow> ('b \<Rightarrow> 'a) \<Rightarrow> 'b pickler \<Rightarrow> 'a pickler" where
  "pk_map f g p = \<lparr>pk_enc = \<lambda>x. pk_enc p (f x),
     pk_dec = \<lambda>bs. map_option (\<lambda>(y, r). (g y, r)) (pk_dec p bs)\<rparr>"

definition pk_pair :: "'a pickler \<Rightarrow> 'b pickler \<Rightarrow> ('a \<times> 'b) pickler" where
  "pk_pair p q = \<lparr>pk_enc = \<lambda>(x, y). pk_enc p x @ pk_enc q y,
     pk_dec = \<lambda>bs. case pk_dec p bs of
         None \<Rightarrow> None
       | Some (x, r) \<Rightarrow> map_option (\<lambda>(y, r'). ((x, y), r')) (pk_dec q r)\<rparr>"

definition pk_bytes :: "bytes pickler" where
  "pk_bytes = \<lparr>pk_enc = \<lambda>bs. enc_nat (length bs) @ bs,
     pk_dec = \<lambda>bs. map_option (\<lambda>(n, r). (take n r, drop n r)) (dec_nat bs)\<rparr>"

definition pk_option :: "'a \<Rightarrow> 'a pickler \<Rightarrow> 'a option pickler" where
  "pk_option d p = pk_map (\<lambda>x. case x of None \<Rightarrow> (0, d) | Some y \<Rightarrow> (1, y))
     (\<lambda>(n, y). if n = 0 then None else Some y) (pk_pair pk_nat p)"

lemma pickler_ok_map: "pickler_ok p \<Longrightarrow> (\<And>x. g (f x) = x) \<Longrightarrow> pickler_ok (pk_map f g p)"
  by (simp add: pickler_ok_def pk_map_def)

lemma pickler_ok_basic [simp]: "pickler_ok pk_nat" "pickler_ok pk_bytes"
  by (simp_all add: pickler_ok_def pk_nat_def pk_bytes_def dec_enc_nat)

lemma pickler_ok_pair [simp]: "pickler_ok p \<Longrightarrow> pickler_ok q \<Longrightarrow> pickler_ok (pk_pair p q)"
  by (simp add: pickler_ok_def pk_pair_def split: prod.splits)

lemma pickler_ok_option [simp]: "pickler_ok p \<Longrightarrow> pickler_ok (pk_option d p)"
  unfolding pk_option_def by (rule pickler_ok_map) (auto split: option.splits)

definition codec_of :: "string \<Rightarrow> 'a pickler \<Rightarrow> 'a codec" where
  "codec_of nm p = \<lparr>cd_name = nm, cd_enc = \<lambda>x. Inr (pk_enc p x),
     cd_dec = \<lambda>bs. case pk_dec p bs of Some (x, []) \<Rightarrow> Inr x | _ \<Rightarrow> Inl ''invalid data''\<rparr>"

lemma codec_of_ok [simp]: "pickler_ok p \<Longrightarrow> codec_ok (codec_of nm p)"
proof -
  assume "pickler_ok p"
  then have "pk_dec p (pk_enc p x) = Some (x, [])" for x
    unfolding pickler_ok_def by (metis append_Nil2)
  then show ?thesis by (simp add: codec_ok_def codec_of_def)
qed

section \<open>The stored types\<close>

definition pk_word :: "'a::len word pickler" where
  "pk_word = pk_map unat of_nat pk_nat"

definition pk_int :: "int pickler" where
  "pk_int = pk_map (\<lambda>i. (if i < 0 then 1 else 0, nat \<bar>i\<bar>)) (\<lambda>(s, n). if s = 0 then int n else - int n)
     (pk_pair pk_nat pk_nat)"

definition pk_bool :: "bool pickler" where
  "pk_bool = pk_map (\<lambda>b. if b then 1 else 0) (\<lambda>n. n \<noteq> 0) pk_nat"

definition pk_string :: "string pickler" where
  "pk_string = pk_map (map (\<lambda>c. of_nat (of_char c))) (map (\<lambda>b. char_of (unat b))) pk_bytes"

definition pk_ino :: "storage_ino pickler" where
  "pk_ino = pk_map ino_raw StorageIno pk_word"

definition pk_kind :: "storage_dir_item_kind pickler" where
  "pk_kind = pk_map (\<lambda>k. case k of File \<Rightarrow> 0 | Directory \<Rightarrow> 1 | Symlink \<Rightarrow> 2)
     (\<lambda>n. if n = 0 then File else if n = 1 then Directory else Symlink) pk_nat"

lemma map_char_roundtrip: "map (\<lambda>b. char_of (unat b)) (map (\<lambda>c. of_nat (of_char c) :: u8) s) = s"
proof (induction s)
  case (Cons c s)
  have "unat (of_nat (of_char c) :: u8) = of_char c" by (rule unat_small_byte) simp
  with Cons show ?case by simp
qed simp

lemma pickler_ok_types [simp]:
  "pickler_ok (pk_word :: 'a::len word pickler)" "pickler_ok pk_int" "pickler_ok pk_bool" "pickler_ok pk_string"
  "pickler_ok pk_ino" "pickler_ok pk_kind"
proof -
  show w: "pickler_ok (pk_word :: 'b::len word pickler)" unfolding pk_word_def by (rule pickler_ok_map) simp_all
  show "pickler_ok pk_int" unfolding pk_int_def by (rule pickler_ok_map) simp_all
  show "pickler_ok pk_bool" unfolding pk_bool_def by (rule pickler_ok_map) simp_all
  show "pickler_ok pk_string"
    unfolding pk_string_def by (rule pickler_ok_map) (simp, rule map_char_roundtrip)
  show "pickler_ok pk_ino" unfolding pk_ino_def by (rule pickler_ok_map) (simp_all add: w)
  show "pickler_ok pk_kind"
    unfolding pk_kind_def by (rule pickler_ok_map) (simp_all split: storage_dir_item_kind.splits)
qed

definition pk_stat_fs :: "stat_fs pickler" where
  "pk_stat_fs = pk_map
     (\<lambda>s. (stat_blocks s, stat_bfree s, stat_bavail s, stat_files s, stat_ffree s, stat_bsize s, stat_namelen s, stat_frsize s))
     (\<lambda>(b, bf, ba, f, ff, bs, n, fr). \<lparr>stat_blocks = b, stat_bfree = bf, stat_bavail = ba, stat_files = f,
        stat_ffree = ff, stat_bsize = bs, stat_namelen = n, stat_frsize = fr\<rparr>)
     (pk_pair pk_word (pk_pair pk_word (pk_pair pk_word (pk_pair pk_word (pk_pair pk_word
       (pk_pair pk_word (pk_pair pk_word pk_word)))))))"

definition sample_stat :: stat_fs where
  "sample_stat = \<lparr>stat_blocks = 0, stat_bfree = 0, stat_bavail = 0, stat_files = 0, stat_ffree = 0,
     stat_bsize = 0, stat_namelen = 0, stat_frsize = 0\<rparr>"

definition sample_json :: json where
  "sample_json = \<lparr>
     js_meta_static = codec_of ''MetaStatic'' (pk_map
       (\<lambda>m. (ms_block_size m, ms_hashed_blocks m, ms_hash_algorithm m))
       (\<lambda>(b, h, a). \<lparr>ms_block_size = b, ms_hashed_blocks = h, ms_hash_algorithm = a\<rparr>)
       (pk_pair pk_word (pk_pair pk_bool pk_string))),
     js_meta_mutable = codec_of ''MetaMutable'' (pk_map (\<lambda>m. (mm_inode_next m, mm_last_stat m))
       (\<lambda>(i, l). \<lparr>mm_inode_next = i, mm_last_stat = l\<rparr>) (pk_pair pk_word (pk_option sample_stat pk_stat_fs))),
     js_dir_item = codec_of ''StorageDirItem'' (pk_map (\<lambda>d. (sdi_ino d, sdi_typ d))
       (\<lambda>(i, t). \<lparr>sdi_ino = i, sdi_typ = t\<rparr>) (pk_pair pk_ino pk_kind)),
     js_unit = codec_of ''()'' (pk_map (\<lambda>_. 0) (\<lambda>_. ()) pk_nat),
     js_description = codec_of ''InoDescription'' (pk_map
       (\<lambda>d. (desc_ino d, desc_typ d, desc_creation_time d))
       (\<lambda>(i, t, c). \<lparr>desc_ino = i, desc_typ = t, desc_creation_time = c\<rparr>) (pk_pair pk_ino (pk_pair pk_kind pk_int))),
     js_size = codec_of ''InoSize'' (pk_map (\<lambda>s. (isz_size s, isz_blocks s, isz_last_change s))
       (\<lambda>(s, b, t). \<lparr>isz_size = s, isz_blocks = b, isz_last_change = t\<rparr>) (pk_pair pk_word (pk_pair pk_word pk_int))),
     js_attr = codec_of ''InoStorageFileAttr'' (pk_map
       (\<lambda>a. (perm_raw (attr_perm a), attr_uid a, attr_gid a, attr_rdev a, attr_flags a, attr_last_change a))
       (\<lambda>(p, u, g, r, f, t). \<lparr>attr_perm = StorageFilePermission p, attr_uid = u, attr_gid = g, attr_rdev = r,
          attr_flags = f, attr_last_change = t\<rparr>)
       (pk_pair pk_word (pk_pair pk_word (pk_pair pk_word (pk_pair pk_word (pk_pair pk_word pk_int)))))),
     js_atime = codec_of ''InoAccessTime'' (pk_map access_time InoAccessTime pk_int),
     js_mtime = codec_of ''InoModificationTime'' (pk_map modification_time InoModificationTime pk_int),
     js_change_id = codec_of ''InoChangeIterationId''
       (pk_map (\<lambda>c. case c of InoChangeIterationId u \<Rightarrow> u) InoChangeIterationId pk_word),
     js_full_hash = codec_of ''InoFullHash'' (pk_map full_hash InoFullHash pk_bytes),
     js_inline = codec_of ''InoInlineData'' (pk_map (\<lambda>d. (inl_inlined d, inl_last_change d))
       (\<lambda>(i, t). \<lparr>inl_inlined = i, inl_last_change = t\<rparr>) (pk_pair pk_bytes pk_int))\<rparr>"

lemma sample_json_ok: "json_ok sample_json"
  unfolding json_ok_def sample_json_def pk_stat_fs_def
  by (simp, intro conjI codec_of_ok pickler_ok_map pickler_ok_pair pickler_ok_option pickler_ok_types pickler_ok_basic)
    (simp_all split: ino_change_iteration_id.splits)

text \<open>A digest that pads and cuts, big-endian numbers with a length, ranges as they are.\<close>

definition sample_digest :: digests where
  "sample_digest a d = take (algo_hash_len a) (d @ replicate (algo_hash_len a) 0)"

definition sample_ext :: ext where
  "sample_ext = \<lparr>ext_json = sample_json, ext_big_enc = enc_nat,
     ext_big_dec = \<lambda>bs. case dec_nat bs of None \<Rightarrow> 0 | Some (n, _) \<Rightarrow> n,
     ext_uuid_str = be_bytes 16, ext_digests = sample_digest, ext_range_union = \<lambda>rs. rs\<rparr>"

lemma sample_ext_ok: "ext_ok sample_ext"
proof -
  have "inj (be_bytes 16 :: uuid \<Rightarrow> bytes)" by (metis be_word_be_bytes_uuid injI)
  moreover have "(case dec_nat (enc_nat n) of None \<Rightarrow> 0 | Some (m, _) \<Rightarrow> m) = n" for n
    using dec_enc_nat [of n "[]"] by simp
  moreover have "digest_lengths sample_digest" by (auto simp: digest_lengths_def sample_digest_def)
  ultimately show ?thesis by (simp add: ext_ok_def sample_ext_def sample_json_ok)
qed

end
