(* ===== verification/Mini_Transaction.thy ===== *)
theory Mini_Transaction
  imports Environment
begin

text \<open>
  The operations of the file system on one transaction: \<open>TransactionWithFsConfig\<close> of
  \<open>mini_transaction.rs\<close>. Each is a computation over the world of the store; the clock is an
  argument \<open>now\<close>, where \<open>now i\<close> is the value of the operation's \<open>i\<close>-th call of
  \<open>SystemTime::now()\<close>. A \<open>HashMap\<close> that is only looked up is a map, one that is iterated is
  the list of its entries in iteration order. File names are valid UTF-8, so that the lossy
  conversion of a scanned name leaves it unchanged.
\<close>

section \<open>The environment\<close>

record 'w txn_with_config =
  tx_fs_config :: tifs_config
  tx_mini :: "'w tikv"
  tx_ext :: ext

abbreviation tx_kb :: "'w txn_with_config \<Rightarrow> scoped_key_builder" where
  "tx_kb X \<equiv> key_builder (tx_fs_config X)"

abbreviation tx_js :: "'w txn_with_config \<Rightarrow> json" where
  "tx_js X \<equiv> ext_json (tx_ext X)"

section \<open>Metadata\<close>

definition meta_static_mutable_init :: "'w txn_with_config \<Rightarrow> ('w, fs_error, unit) comp" where
  "meta_static_mutable_init X =
     (let cfg = tx_fs_config X;
          meta_static = \<lparr>ms_block_size = cfg_block_size cfg, ms_hashed_blocks = cfg_hashed_blocks cfg,
            ms_hash_algorithm = algo_name (cfg_hash_algorithm cfg)\<rparr>;
          initial_mutable_meta = \<lparr>mm_inode_next = ino_raw FIRST_DATA_INODE, mm_last_stat = None\<rparr>
      in and_then (put_json (tx_mini X) (generate_key_MetaStatic (tx_kb X)) (js_meta_static (tx_js X)) meta_static)
           (\<lambda>_. put_json (tx_mini X) (generate_key_MetaMutable (tx_kb X)) (js_meta_mutable (tx_js X))
              initial_mutable_meta))"

definition meta_mutable_reserve_new_inos :: "'w txn_with_config \<Rightarrow> u64 \<Rightarrow> ('w, fs_error, storage_ino) comp" where
  "meta_mutable_reserve_new_inos X cnt =
     and_then (fetch_try (tx_mini X) (generate_key_MetaMutable (tx_kb X)) (js_meta_mutable (tx_js X))) (\<lambda>read_meta.
       case read_meta of
         None \<Rightarrow> and_then (meta_static_mutable_init X) (\<lambda>_. ret (parent_ino ROOT_INODE))
       | Some dyn_meta \<Rightarrow>
           (let ino = mm_inode_next dyn_meta;
                dyn_meta = dyn_meta\<lparr>mm_inode_next := ino + cnt\<rparr>
            in and_then (put_json (tx_mini X) (generate_key_MetaMutable (tx_kb X)) (js_meta_mutable (tx_js X)) dyn_meta)
                 (\<lambda>_. ret (StorageIno ino))))"

definition meta_mutable_reserve_new_ino :: "'w txn_with_config \<Rightarrow> ('w, fs_error, storage_ino) comp" where
  "meta_mutable_reserve_new_ino X = meta_mutable_reserve_new_inos X 1"

section \<open>Directories\<close>

definition directory_get_child ::
  "'w txn_with_config \<Rightarrow> parent_storage_ino \<Rightarrow> name \<Rightarrow> ('w, fs_error, storage_dir_item option) comp" where
  "directory_get_child X parent nm =
     fetch_try (tx_mini X) (generate_key_StorageDirItem (tx_kb X) (parent, nm)) (js_dir_item (tx_js X))"

fun collect_dir_items ::
  "tifs_config \<Rightarrow> storage_dir_item codec \<Rightarrow> (bytes \<times> bytes) list \<Rightarrow> directory_item list tifs_result" where
  "collect_dir_items cfg c [] = Inr []"
| "collect_dir_items cfg c ((k, v) # data) =
     bind_result (key_parser_b cfg k) (\<lambda>kp.
     bind_result (parse_directory_child kp) (\<lambda>(p_ino, nm).
     bind_result (deserialize_json c v) (\<lambda>item.
     bind_result (collect_dir_items cfg c data) (\<lambda>rest.
       Inr (\<lparr>dirit_ino = sdi_ino item, dirit_name = nm, dirit_typ = sdi_typ item\<rparr> # rest)))))"

definition directory_scan_for_children ::
  "'w txn_with_config \<Rightarrow> storage_ino \<Rightarrow> u32 \<Rightarrow> ('w, fs_error, directory_item list) comp" where
  "directory_scan_for_children X dir_ino limit =
     and_then (lift_tikv (tk_scan (tx_mini X) (directory_child_range (tx_kb X) dir_ino) limit)) (\<lambda>data.
       of_result (collect_dir_items (tx_fs_config X) (js_dir_item (tx_js X)) data))"

definition directory_add_child_link_unchecked ::
  "'w txn_with_config \<Rightarrow> parent_storage_ino \<Rightarrow> name \<Rightarrow> storage_dir_item \<Rightarrow> ('w, fs_error, unit) comp" where
  "directory_add_child_link_unchecked X parent nm item =
     and_then (put_json (tx_mini X) (generate_key_ParentLink (tx_kb X) (sdi_ino item, parent, nm)) (js_unit (tx_js X)) ())
       (\<lambda>_. put_json (tx_mini X) (generate_key_StorageDirItem (tx_kb X) (parent, nm)) (js_dir_item (tx_js X)) item)"

definition directory_add_child_checked_existing_inode ::
  "'w txn_with_config \<Rightarrow> parent_storage_ino \<Rightarrow> name \<Rightarrow> storage_ino
     \<Rightarrow> ('w, fs_error, storage_dir_item got_or_made) comp" where
  "directory_add_child_checked_existing_inode X parent nm ino =
     and_then (directory_get_child X parent nm) (\<lambda>existing.
       case existing of
         Some e \<Rightarrow> ret (ExistedAlready e)
       | None \<Rightarrow>
           and_then (fetch (tx_mini X) (generate_key_InoDescription (tx_kb X) ino) (js_description (tx_js X))) (\<lambda>ino_desc.
             let item = \<lparr>sdi_ino = ino, sdi_typ = desc_typ ino_desc\<rparr> in
             and_then (directory_add_child_link_unchecked X parent nm item)
               (\<lambda>_. ret (NewlyCreated item))))"

definition directory_add_child_checked_new_inode ::
  "'w txn_with_config \<Rightarrow> (nat \<Rightarrow> system_time) \<Rightarrow> parent_storage_ino \<Rightarrow> name \<Rightarrow> storage_dir_item_kind
     \<Rightarrow> storage_file_permission \<Rightarrow> u32 \<Rightarrow> u32 \<Rightarrow> u32 \<Rightarrow> bytes option \<Rightarrow> storage_ino
     \<Rightarrow> ('w, fs_error, storage_dir_item got_or_made) comp" where
  "directory_add_child_checked_new_inode X now parent nm typ perm gid uid rdev inline_data new_ino =
     and_then (directory_get_child X parent nm) (\<lambda>existing.
       case existing of
         Some e \<Rightarrow> ret (ExistedAlready e)
       | None \<Rightarrow>
           (let ino_desc = \<lparr>desc_ino = new_ino, desc_typ = typ, desc_creation_time = now 0\<rparr>;
                ino_size = ino_size_new (now 1);
                ino_attr = \<lparr>attr_perm = perm, attr_uid = uid, attr_gid = gid, attr_rdev = rdev,
                  attr_flags = 0, attr_last_change = now 2\<rparr>;
                item = \<lparr>sdi_ino = new_ino, sdi_typ = typ\<rparr>;
                T = tx_mini X; kb = tx_kb X; js = tx_js X
            in and_then (put_json T (generate_key_InoDescription kb new_ino) (js_description js) ino_desc) (\<lambda>_.
               and_then (put_json T (generate_key_InoStorageFileAttr kb new_ino) (js_attr js) ino_attr) (\<lambda>_.
               and_then (put_json T (generate_key_InoSize kb new_ino) (js_size js) ino_size) (\<lambda>_.
               and_then (put_json T (generate_key_StorageDirItem kb (parent, nm)) (js_dir_item js) item) (\<lambda>_.
               and_then (put_json T (generate_key_ParentLink kb (new_ino, parent, nm)) (js_unit js) ()) (\<lambda>_.
               and_then (case inline_data of
                   None \<Rightarrow> ret ()
                 | Some data \<Rightarrow> put_json T (generate_key_InoInlineData kb new_ino) (js_inline js)
                     \<lparr>inl_inlined = data, inl_last_change = now 3\<rparr>) (\<lambda>_.
               ret (NewlyCreated item)))))))))"

definition directory_remove_child_links_unchecked ::
  "'w txn_with_config \<Rightarrow> parent_storage_ino \<Rightarrow> name \<Rightarrow> storage_ino \<Rightarrow> ('w, fs_error, unit) comp" where
  "directory_remove_child_links_unchecked X parent nm child_ino =
     lift_tikv (tk_batch_mutate (tx_mini X)
       [MutDelete (generate_key_StorageDirItem (tx_kb X) (parent, nm)),
        MutDelete (generate_key_ParentLink (tx_kb X) (child_ino, parent, nm))])"

definition directory_remove_child ::
  "'w txn_with_config \<Rightarrow> parent_storage_ino \<Rightarrow> name \<Rightarrow> storage_dir_item_kind set
     \<Rightarrow> ('w, fs_error, storage_dir_item) comp" where
  "directory_remove_child X parent nm allowed_types =
     and_then (directory_get_child X parent nm) (\<lambda>child.
       case child of
         None \<Rightarrow> fail (FileNotFound nm)
       | Some child_item \<Rightarrow>
           if sdi_typ child_item \<notin> allowed_types then fail WrongFileType
           else and_then (directory_remove_child_links_unchecked X parent nm (sdi_ino child_item))
             (\<lambda>_. ret child_item))"

definition directory_remove_child_empty_directory ::
  "'w txn_with_config \<Rightarrow> parent_storage_ino \<Rightarrow> name \<Rightarrow> ('w, fs_error, storage_dir_item) comp" where
  "directory_remove_child_empty_directory X parent nm =
     and_then (directory_get_child X parent nm) (\<lambda>child.
       case child of
         None \<Rightarrow> fail (FileNotFound nm)
       | Some child_item \<Rightarrow>
           if sdi_typ child_item \<noteq> Directory then fail WrongFileType
           else and_then (directory_scan_for_children X (sdi_ino child_item) 1) (\<lambda>children.
             if length children > 0 then fail (DirNotEmpty nm)
             else and_then (directory_remove_child_links_unchecked X parent nm (sdi_ino child_item))
               (\<lambda>_. ret child_item)))"

definition directory_rename_child ::
  "'w txn_with_config \<Rightarrow> parent_storage_ino \<Rightarrow> name \<Rightarrow> parent_storage_ino \<Rightarrow> name \<Rightarrow> ('w, fs_error, unit) comp" where
  "directory_rename_child X parent nm new_parent new_name =
     and_then (directory_get_child X parent nm) (\<lambda>child.
       case child of
         None \<Rightarrow> fail (FileNotFound nm)
       | Some dir_item \<Rightarrow>
           and_then (directory_add_child_checked_existing_inode X new_parent new_name (sdi_ino dir_item)) (\<lambda>_.
           and_then (directory_remove_child X parent nm {sdi_typ dir_item}) (\<lambda>_. ret ())))"

section \<open>Inodes\<close>

datatype deletion_check_result = StillUsed | DeletedInoDesc

definition inode_check_for_delete_and_delete_atomically_description ::
  "'w txn_with_config \<Rightarrow> storage_ino \<Rightarrow> ('w, fs_error, deletion_check_result) comp" where
  "inode_check_for_delete_and_delete_atomically_description X ino =
     and_then (lift_tikv (tk_scan_keys (tx_mini X) (parent_link_scan (tx_kb X) ino) MAX_TIKV_SCAN_LIMIT)) (\<lambda>usages.
       if length usages = 0
       then and_then (delete_key (tx_mini X) (generate_key_InoDescription (tx_kb X) ino)) (\<lambda>_. ret DeletedInoDesc)
       else ret StillUsed)"

definition inode_open :: "'w txn_with_config \<Rightarrow> storage_ino \<Rightarrow> uuid \<Rightarrow> ('w, fs_error, unit) comp" where
  "inode_open X ino use_id =
     and_then (fetch (tx_mini X) (generate_key_InoDescription (tx_kb X) ino) (js_description (tx_js X))) (\<lambda>ino_desc.
     and_then (directory_add_child_checked_existing_inode X OPENED_INODE_PARENT_INODE
         (ext_uuid_str (tx_ext X) use_id) (desc_ino ino_desc)) (\<lambda>result.
       if existed_before result then fail (FileExist (ext_uuid_str (tx_ext X) use_id)) else ret ()))"

definition inode_close :: "'w txn_with_config \<Rightarrow> storage_ino \<Rightarrow> uuid \<Rightarrow> ('w, fs_error, unit) comp" where
  "inode_close X ino use_id =
     and_then (directory_remove_child X OPENED_INODE_PARENT_INODE (ext_uuid_str (tx_ext X) use_id)
         {Directory, File, Symlink}) (\<lambda>result.
       if sdi_ino result \<noteq> ino then fail CloseFailedDueToWrongInoOrUseId else ret ())"

definition checked_write_of_file_hash ::
  "'w txn_with_config \<Rightarrow> storage_ino \<Rightarrow> ino_change_iteration_id \<Rightarrow> tifs_hash \<Rightarrow> ('w, fs_error, bool) comp" where
  "checked_write_of_file_hash X ino change_iteration new_full_hash =
     and_then (fetch (tx_mini X) (generate_key_InoChangeIterationId (tx_kb X) ino) (js_change_id (tx_js X))) (\<lambda>ino_change_id.
       if ino_change_id = change_iteration
       then and_then (put_json (tx_mini X) (generate_key_InoFullHash (tx_kb X) ino) (js_full_hash (tx_js X))
              (InoFullHash new_full_hash)) (\<lambda>_. ret True)
       else ret False)"

text \<open>\<open>offset\<close> and \<open>length\<close> are \<open>i64\<close>: their sum is reinterpreted as \<open>u64\<close>.\<close>

definition inode_allocate_size ::
  "'w txn_with_config \<Rightarrow> (nat \<Rightarrow> system_time) \<Rightarrow> storage_ino \<Rightarrow> 64 word \<Rightarrow> 64 word \<Rightarrow> ('w, fs_error, unit) comp" where
  "inode_allocate_size X now ino offset len =
     and_then (fetch (tx_mini X) (generate_key_InoSize (tx_kb X) ino) (js_size (tx_js X))) (\<lambda>sz.
       let target_size = offset + len in
       if target_size \<le> isz_size sz then ret ()
       else put_json (tx_mini X) (generate_key_InoSize (tx_kb X) ino) (js_size (tx_js X))
         ((set_size (now 0) target_size (cfg_block_size (tx_fs_config X)) sz)\<lparr>isz_last_change := now 1\<rparr>))"

section \<open>Hashed blocks\<close>

definition counter_key :: "tifs_config \<Rightarrow> tifs_hash \<Rightarrow> bytes" where
  "counter_key cfg h = named_hashed_block_x (key_builder cfg) h (Some CCountedNamedUsages) None"

text \<open>\<open>filter_map\<close> over counter pairs, collected into a map: unparsable keys are dropped.\<close>

definition parse_counters :: "tifs_config \<Rightarrow> ext \<Rightarrow> (bytes \<times> bytes) list \<Rightarrow> (tifs_hash \<times> nat) list" where
  "parse_counters cfg X kvs =
     List.map_filter (\<lambda>(k, v).
       case bind_result (key_parser_b cfg k) parse_hash of
         Inl _ \<Rightarrow> None
       | Inr (_, hash) \<Rightarrow> Some (hash, ext_big_dec X v)) kvs"

definition counter_or_zero :: "(tifs_hash \<rightharpoonup> nat) \<Rightarrow> tifs_hash \<Rightarrow> nat" where
  "counter_or_zero m h = (case m h of None \<Rightarrow> 0 | Some n \<Rightarrow> n)"

definition hb_increment_blocks_reference_count ::
  "'w txn_with_config \<Rightarrow> (tifs_hash \<times> u64) list \<Rightarrow> ('w, fs_error, (tifs_hash \<times> nat) list) comp" where
  "hb_increment_blocks_reference_count X blocks =
     (let cfg = tx_fs_config X; keys = map (\<lambda>(h, c). counter_key cfg h) blocks in
      and_then (lift_tikv (tk_batch_get_for_update (tx_mini X) keys)) (\<lambda>kvs.
        let prev_counter_values = map_collect (parse_counters cfg (tx_ext X) kvs);
            new_counter_values = map (\<lambda>(h, c).
              MutPut (counter_key cfg h)
                (ext_big_enc (tx_ext X) (unat c + counter_or_zero (map_of prev_counter_values) h))) blocks
        in and_then (lift_tikv (tk_batch_mutate (tx_mini X) new_counter_values))
             (\<lambda>_. ret prev_counter_values)))"

text \<open>Counting the replaced hashes.\<close>

fun count_decrements ::
  "nat \<Rightarrow> (bytes \<times> bytes) list \<Rightarrow> (tifs_hash \<times> u64) list \<Rightarrow> (tifs_hash \<times> u64) list tifs_result" where
  "count_decrements hash_len [] decrements = Inr decrements"
| "count_decrements hash_len ((_, hash) # prev) decrements =
     (if length hash \<noteq> hash_len then Inl (Serialize ''hash'' ''BIN'' ''hash length mismatch.'')
      else let dec = (case map_of decrements hash of Some n \<Rightarrow> n | None \<Rightarrow> 0) + 1
           in count_decrements hash_len prev (map_insert hash dec decrements))"

definition hb_replace_block_hash_for_address_no_size_update ::
  "'w txn_with_config \<Rightarrow> (block_address \<times> tifs_hash option) list \<Rightarrow> ('w, fs_error, (tifs_hash \<times> u64) list) comp" where
  "hb_replace_block_hash_for_address_no_size_update X addresses =
     (if length addresses = 0 then ret []
      else
        let kb = tx_kb X;
            mutations = map (\<lambda>(addr, new_hash).
              case new_hash of
                Some hash \<Rightarrow> MutPut (block_hash kb addr) hash
              | None \<Rightarrow> MutDelete (block_hash kb addr)) addresses;
            keys = map (\<lambda>(addr, _). block_hash kb addr) addresses
        in and_then (lift_tikv (tk_batch_get (tx_mini X) keys)) (\<lambda>prev_block_hash.
           and_then (lift_tikv (tk_batch_mutate (tx_mini X) mutations)) (\<lambda>_.
             of_result (count_decrements (cfg_hash_len (tx_fs_config X)) prev_block_hash []))))"

definition hb_replace_block_hash_for_address_only_size_update ::
  "'w txn_with_config \<Rightarrow> system_time \<Rightarrow> block_address \<Rightarrow> u64 \<Rightarrow> ('w, fs_error, unit) comp" where
  "hb_replace_block_hash_for_address_only_size_update X now addr new_blocks_actual_size =
     and_then (fetch (tx_mini X) (generate_key_InoSize (tx_kb X) (ba_ino addr)) (js_size (tx_js X))) (\<lambda>sz.
       let (was_changed, sz') = block_write_size_update now addr (cfg_block_size (tx_fs_config X)) new_blocks_actual_size sz
       in if was_changed
          then put_json (tx_mini X) (generate_key_InoSize (tx_kb X) (ba_ino addr)) (js_size (tx_js X)) sz'
          else ret ())"

definition hb_replace_block_hash_for_address_only_size_update_b ::
  "'w txn_with_config \<Rightarrow> system_time \<Rightarrow> storage_ino \<Rightarrow> u64 \<Rightarrow> ('w, fs_error, unit) comp" where
  "hb_replace_block_hash_for_address_only_size_update_b X now ino new_target_size =
     and_then (fetch (tx_mini X) (generate_key_InoSize (tx_kb X) ino) (js_size (tx_js X))) (\<lambda>sz.
       if new_target_size > isz_size sz
       then put_json (tx_mini X) (generate_key_InoSize (tx_kb X) ino) (js_size (tx_js X))
         (set_size now new_target_size (cfg_block_size (tx_fs_config X)) sz)
       else ret ())"

definition decrement_mutations ::
  "tifs_config \<Rightarrow> ext \<Rightarrow> (tifs_hash \<rightharpoonup> nat) \<Rightarrow> tifs_hash \<times> u64 \<Rightarrow> mutation list" where
  "decrement_mutations cfg X prev_counter_values entry =
     (let (h, dec) = entry;
          prev_counter_value = counter_or_zero prev_counter_values h;
          actual_dec = (if prev_counter_value < unat dec then prev_counter_value else unat dec);
          new_counter_value = prev_counter_value - actual_dec
      in if new_counter_value = 0
         then [MutDelete (counter_key cfg h), MutDelete (hashed_block (key_builder cfg) h)]
         else [MutPut (counter_key cfg h) (ext_big_enc X new_counter_value)])"

definition hb_decrement_blocks_reference_count_and_delete_if_zero_reached ::
  "'w txn_with_config \<Rightarrow> (tifs_hash \<times> u64) list \<Rightarrow> ('w, fs_error, unit) comp" where
  "hb_decrement_blocks_reference_count_and_delete_if_zero_reached X decrements =
     (let cfg = tx_fs_config X; block_ref_cnt_keys = map (\<lambda>(h, dec). counter_key cfg h) decrements in
      and_then (lift_tikv (tk_batch_get (tx_mini X) block_ref_cnt_keys)) (\<lambda>kvs.
        let prev_counter_values = map_of (rev (parse_counters cfg (tx_ext X) kvs));
            mutations = concat (map (decrement_mutations cfg (tx_ext X) prev_counter_values) decrements)
        in lift_tikv (tk_batch_mutate (tx_mini X) mutations)))"

text \<open>
  Scanning block hashes. The result is a \<open>BTreeMap\<close>: a map. \<open>block_range.count()\<close> is the
  number of indices in the range, cut to 32 bits.
\<close>

fun collect_block_hashes ::
  "tifs_config \<Rightarrow> storage_ino \<Rightarrow> (bytes \<times> bytes) list \<Rightarrow> (block_index \<rightharpoonup> tifs_hash)
     \<Rightarrow> (block_index \<rightharpoonup> tifs_hash) tifs_result" where
  "collect_block_hashes cfg ino [] result = Inr result"
| "collect_block_hashes cfg ino ((k, hash) # pairs) result =
     bind_result (key_parser_b cfg k) (\<lambda>kp.
     bind_result (parse_key_block_address kp) (\<lambda>key.
       if length hash \<noteq> cfg_hash_len cfg then collect_block_hashes cfg ino pairs result
       else if ba_ino key \<noteq> ino then collect_block_hashes cfg ino pairs result
       else collect_block_hashes cfg ino pairs (result(ba_index key \<mapsto> hash))))"

definition hb_get_block_hash_list_by_block_range ::
  "'w txn_with_config \<Rightarrow> storage_ino \<Rightarrow> block_index \<Rightarrow> block_index
     \<Rightarrow> ('w, fs_error, block_index \<rightharpoonup> tifs_hash) comp" where
  "hb_get_block_hash_list_by_block_range X ino start end_i =
     and_then (lift_tikv (tk_scan (tx_mini X) (block_hash_range (tx_kb X) ino start end_i)
         (of_nat (unat (block_raw end_i) - unat (block_raw start))))) (\<lambda>pairs.
       of_result (collect_block_hashes (tx_fs_config X) ino pairs Map.empty))"

text \<open>
  The loop over chunks of at most \<open>MAX_TIKV_SCAN_LIMIT\<close> blocks. The addition to the chunk
  start wraps; the loop ends because every chunk makes progress, unless it wraps: \<open>fuel\<close>
  bounds the rounds, and running out of it is the value \<open>None\<close>.
\<close>

fun hash_list_chunks ::
  "'w txn_with_config \<Rightarrow> storage_ino \<Rightarrow> nat \<Rightarrow> block_index \<Rightarrow> block_index \<Rightarrow> (block_index \<rightharpoonup> tifs_hash)
     \<Rightarrow> ('w, fs_error, (block_index \<rightharpoonup> tifs_hash) option) comp" where
  "hash_list_chunks X ino 0 i end_i result = (if i < end_i then ret None else ret (Some result))"
| "hash_list_chunks X ino (Suc fuel) i end_i result =
     (if i < end_i
      then let chunk_end = min (BlockIndex (block_raw i + ucast MAX_TIKV_SCAN_LIMIT)) end_i in
        and_then (hb_get_block_hash_list_by_block_range X ino i chunk_end) (\<lambda>chunk.
          hash_list_chunks X ino fuel chunk_end end_i (result ++ chunk))
      else ret (Some result))"

definition chunk_fuel :: "block_index \<Rightarrow> block_index \<Rightarrow> nat" where
  "chunk_fuel start end_i = unat (block_raw end_i) - unat (block_raw start)"

definition hb_get_block_hash_list_by_block_range_chunked ::
  "'w txn_with_config \<Rightarrow> storage_ino \<Rightarrow> block_index \<Rightarrow> block_index
     \<Rightarrow> ('w, fs_error, (block_index \<rightharpoonup> tifs_hash) option) comp" where
  "hb_get_block_hash_list_by_block_range_chunked X ino start end_i =
     hash_list_chunks X ino (chunk_fuel start end_i) start end_i Map.empty"

end
