(* ===== verification/Fs_View.thy ===== *)
theory Fs_View
  imports Mini_Transaction
begin

text \<open>
  The content of the store as the file system means it: the bytes of every key of the schema
  are those of a logical key, the records behind them are decoded, and the directory tree, the
  block maps and the reference counters are functions of the content. The locale \<open>fs_store\<close>
  is the contract between the file system and its surroundings: a store, the third-party
  functions and a configuration that fit together.
\<close>

section \<open>Keys\<close>

definition cfg_ok :: "tifs_config \<Rightarrow> bool" where
  "cfg_ok cfg \<longleftrightarrow> cfg_hash_len cfg = algo_hash_len (cfg_hash_algorithm cfg) \<and> cfg_block_size cfg \<noteq> 0"

definition fs_key :: "tifs_config \<Rightarrow> logical_key \<Rightarrow> bytes" where
  "fs_key cfg lk = encode_key (cfg_key_prefix cfg) lk"

abbreviation key_ok :: "tifs_config \<Rightarrow> logical_key \<Rightarrow> bool" where
  "key_ok cfg lk \<equiv> key_hash_ok (cfg_hash_len cfg) lk"

lemma cfg_ok_hash_len [simp]: "cfg_ok cfg \<Longrightarrow> 0 < cfg_hash_len cfg"
  by (cases "cfg_hash_algorithm cfg") (simp_all add: cfg_ok_def)

lemma fs_key_inject [simp]:
  "cfg_ok cfg \<Longrightarrow> key_ok cfg a \<Longrightarrow> key_ok cfg b \<Longrightarrow> fs_key cfg a = fs_key cfg b \<longleftrightarrow> a = b"
  using encode_key_inject [of "cfg_hash_len cfg" a b "cfg_key_prefix cfg"] by (auto simp: fs_key_def)

named_theorems to_fs_key \<open>the keys the operations use, as logical keys\<close>

lemma generated_keys [to_fs_key]:
  "generate_key_MetaStatic (key_builder cfg) = fs_key cfg LK_MetaStatic"
  "generate_key_MetaMutable (key_builder cfg) = fs_key cfg LK_Meta"
  "generate_key_StorageDirItem (key_builder cfg) (p, n) = fs_key cfg (LK_DirChild (parent_ino p) n)"
  "generate_key_ParentLink (key_builder cfg) (i, p, n) = fs_key cfg (LK_ParentLink i p n)"
  "generate_key_InoDescription (key_builder cfg) i = fs_key cfg (LK_Inode i Description)"
  "generate_key_InoSize (key_builder cfg) i = fs_key cfg (LK_Inode i Size)"
  "generate_key_InoAccessTime (key_builder cfg) i = fs_key cfg (LK_Inode i AccessTime)"
  "generate_key_InoModificationTime (key_builder cfg) i = fs_key cfg (LK_Inode i ModificationTime)"
  "generate_key_InoStorageFileAttr (key_builder cfg) i = fs_key cfg (LK_Inode i UnixAttributes)"
  "generate_key_InoChangeIterationId (key_builder cfg) i = fs_key cfg (LK_Inode i ChangeIterationId)"
  "generate_key_InoFullHash (key_builder cfg) i = fs_key cfg (LK_Inode i FullHash)"
  "generate_key_InoInlineData (key_builder cfg) i = fs_key cfg (LK_Inode i InlineData)"
  by (simp_all add: generate_key_defs fs_key_def key_builder_def inode_description_def inode_size_def)

lemma built_keys [to_fs_key]:
  "block_hash (key_builder cfg) a = fs_key cfg (LK_BlockHash a)"
  "hashed_block (key_builder cfg) h = fs_key cfg (LK_HashedBlock h)"
  "counter_key cfg h = fs_key cfg (LK_HashedBlockMeta h CCountedNamedUsages)"
  "skb_buf (inode_x (key_builder cfg) i m) = fs_key cfg (LK_Inode i m)"
  "key_meta_static (key_builder cfg) = fs_key cfg LK_MetaStatic"
  by (simp_all add: fs_key_def key_builder_def counter_key_def)

lemma parse_block_hash_key:
  "bind_result (key_parser_b cfg (fs_key cfg (LK_BlockHash a))) parse_key_block_address = Inr a"
  by (cases "ba_ino a"; cases "ba_index a")
    (simp add: key_parser_b_def cfg_key_parser_def fs_key_def key_defs parse_defs)

lemma parse_counter_key:
  "length h = cfg_hash_len cfg \<Longrightarrow>
   \<exists>k. bind_result (key_parser_b cfg (fs_key cfg (LK_HashedBlockMeta h m))) parse_hash = Inr (k, h)"
  by (simp add: key_parser_b_def cfg_key_parser_def fs_key_def key_defs parse_defs)

lemma parse_dir_child_key:
  "bind_result (key_parser_b cfg (fs_key cfg (LK_DirChild i n))) parse_directory_child = Inr (i, n)"
  by (cases i) (simp add: key_parser_b_def cfg_key_parser_def fs_key_def key_defs parse_defs)

lemma parse_hashed_block_key:
  "length h = cfg_hash_len cfg \<Longrightarrow>
   bind_result (key_parser_b cfg (fs_key cfg (LK_HashedBlock h))) parse_key_hashed_block = Inr h"
  by (simp add: key_parser_b_def cfg_key_parser_def fs_key_def key_defs parse_defs)

section \<open>Decoded content\<close>

definition stored :: "'a codec \<Rightarrow> bytes \<Rightarrow> kv \<Rightarrow> 'a option" where
  "stored c k d = (case d k of None \<Rightarrow> None | Some b \<Rightarrow> (case cd_dec c b of Inr x \<Rightarrow> Some x | Inl _ \<Rightarrow> None))"

lemma stored_upd [simp]:
  "k \<noteq> k' \<Longrightarrow> stored c k (d(k' := y)) = stored c k d"
  "codec_ok c \<Longrightarrow> stored c k (d(k \<mapsto> enc c x)) = Some x"
  "stored c k (d(k := None)) = None"
  by (simp_all add: stored_def)

lemma stored_cong: "d k = d' k \<Longrightarrow> stored c k d = stored c k d'"
  by (simp add: stored_def)

definition decode_error :: "fs_error \<Rightarrow> bool" where
  "decode_error e \<longleftrightarrow> (\<exists>t m. e = Serialize t ''JSON'' m)"

lemma decode_error_Serialize [simp]: "decode_error (Serialize t ''JSON'' m)"
  by (simp add: decode_error_def)

context tikv_store
begin

lemma fetch_try_stored:
  assumes "Q (stored c k v) v" and "\<And>e. decode_error e \<Longrightarrow> E e"
  shows "wp (fetch_try T k c) Q E v"
  by (rule fetch_try_wp) (use assms in \<open>auto simp: stored_def deserialize_json_def split: sum.splits\<close>)

lemma fetch_stored:
  assumes "\<And>x. stored c k v = Some x \<Longrightarrow> Q x v" and "\<And>e. decode_error e \<Longrightarrow> E e"
    and "v k = None \<Longrightarrow> E (KeyNotFound (Some KEY_NOT_FOUND_MSG))"
  shows "wp (fetch T k c) Q E v"
  by (rule fetch_wp) (use assms in \<open>auto simp: stored_def deserialize_json_def split: sum.splits\<close>)

end

section \<open>Directories, inodes and blocks\<close>

definition child_of :: "'w txn_with_config \<Rightarrow> kv \<Rightarrow> parent_storage_ino \<Rightarrow> name \<Rightarrow> storage_dir_item option" where
  "child_of X d par nm = stored (js_dir_item (tx_js X)) (fs_key (tx_fs_config X) (LK_DirChild (parent_ino par) nm)) d"

definition parent_linked :: "'w txn_with_config \<Rightarrow> kv \<Rightarrow> storage_ino \<Rightarrow> parent_storage_ino \<Rightarrow> name \<Rightarrow> bool" where
  "parent_linked X d ino par nm \<longleftrightarrow> d (fs_key (tx_fs_config X) (LK_ParentLink ino par nm)) \<noteq> None"

definition description_of :: "'w txn_with_config \<Rightarrow> kv \<Rightarrow> storage_ino \<Rightarrow> ino_description option" where
  "description_of X d ino = stored (js_description (tx_js X)) (fs_key (tx_fs_config X) (LK_Inode ino Description)) d"

definition size_of_ino :: "'w txn_with_config \<Rightarrow> kv \<Rightarrow> storage_ino \<Rightarrow> ino_size option" where
  "size_of_ino X d ino = stored (js_size (tx_js X)) (fs_key (tx_fs_config X) (LK_Inode ino Size)) d"

definition block_hash_at :: "'w txn_with_config \<Rightarrow> kv \<Rightarrow> block_address \<Rightarrow> tifs_hash option" where
  "block_hash_at X d a = d (fs_key (tx_fs_config X) (LK_BlockHash a))"

definition block_data_of :: "'w txn_with_config \<Rightarrow> kv \<Rightarrow> tifs_hash \<Rightarrow> bytes option" where
  "block_data_of X d h = d (fs_key (tx_fs_config X) (LK_HashedBlock h))"

definition ref_count :: "'w txn_with_config \<Rightarrow> kv \<Rightarrow> tifs_hash \<Rightarrow> nat" where
  "ref_count X d h = (case d (fs_key (tx_fs_config X) (LK_HashedBlockMeta h CCountedNamedUsages)) of
     None \<Rightarrow> 0 | Some v \<Rightarrow> ext_big_dec (tx_ext X) v)"

lemmas view_defs =
  child_of_def parent_linked_def description_of_def size_of_ino_def block_hash_at_def block_data_of_def ref_count_def

text \<open>A content that only the file system with this configuration has written to.\<close>

definition store_ok :: "'w txn_with_config \<Rightarrow> kv \<Rightarrow> bool" where
  "store_ok X d \<longleftrightarrow> finite (dom d)
     \<and> (\<forall>k \<in> dom d. \<exists>lk. key_ok (tx_fs_config X) lk \<and> k = fs_key (tx_fs_config X) lk)
     \<and> (\<forall>a h. block_hash_at X d a = Some h \<longrightarrow> length h = cfg_hash_len (tx_fs_config X))"

section \<open>The contract\<close>

locale fs_store = tikv_store T ok db view
  for T :: "'w tikv" and ok :: "'w \<Rightarrow> bool" and db :: "'w \<Rightarrow> kv" and view :: "'w \<Rightarrow> kv" +
  fixes X :: "'w txn_with_config"
  assumes txn: "tx_mini X = T"
    and ext: "ext_ok (tx_ext X)"
    and cfg: "cfg_ok (tx_fs_config X)"
begin

abbreviation K :: "logical_key \<Rightarrow> bytes" where
  "K \<equiv> fs_key (tx_fs_config X)"

lemma K_eq [simp]: "key_ok (tx_fs_config X) a \<Longrightarrow> key_ok (tx_fs_config X) b \<Longrightarrow> K a = K b \<longleftrightarrow> a = b"
  using cfg by simp

lemma codecs [simp]:
  "codec_ok (js_meta_static (tx_js X))" "codec_ok (js_meta_mutable (tx_js X))"
  "codec_ok (js_dir_item (tx_js X))" "codec_ok (js_unit (tx_js X))" "codec_ok (js_description (tx_js X))"
  "codec_ok (js_size (tx_js X))" "codec_ok (js_attr (tx_js X))" "codec_ok (js_atime (tx_js X))"
  "codec_ok (js_mtime (tx_js X))" "codec_ok (js_change_id (tx_js X))" "codec_ok (js_full_hash (tx_js X))"
  "codec_ok (js_inline (tx_js X))"
  using ext by simp_all

lemma big_roundtrip [simp]: "ext_big_dec (tx_ext X) (ext_big_enc (tx_ext X) n) = n"
  using ext by (simp add: ext_ok_facts)

text \<open>The outcome of a mini transaction whose body is specified.\<close>

lemma run_mini_outcome:
  assumes "wp body Q E (db w)" and "ok w" and "run_mini (tx_mini X) body w = (r, w')"
  shows "ok w' \<and> (case r of Inr x \<Rightarrow> Q x (db w') | Inl e \<Rightarrow> db w' = db w \<and> (store_error e \<or> E e))"
  using dwpD [OF run_mini_dwp [OF assms(1)] assms(2)] assms(3) txn by simp

end

section \<open>The in-memory file system\<close>

text \<open>Small blocks, no prefix options, the in-memory store.\<close>

definition sample_config :: tifs_config where
  "sample_config = (case from_options (\<lambda>_. Some 4) [MO_Name ''fs'', MO_BlkSize ''4'', MO_HashedBlocks] of Inr c \<Rightarrow> c)"

definition sample_txn :: "mem_store txn_with_config" where
  "sample_txn = \<lparr>tx_fs_config = sample_config, tx_mini = mem_tikv, tx_ext = sample_ext\<rparr>"

lemma sample_cfg_ok: "cfg_ok sample_config"
  by (simp add: cfg_ok_def sample_config_def from_options_def config_defaults_def config_or_fail_def bind_result_def)

text \<open>The store that holds the given pairs and fails as planned.\<close>

definition mem_with :: "(bytes \<times> bytes) list \<Rightarrow> tikv_error option list \<Rightarrow> mem_store" where
  "mem_with ps faults = \<lparr>mem_db = fold (\<lambda>(k, v). kv_insert k v) ps [], mem_view = [], mem_faults = faults\<rparr>"

lemma kv_insert_all:
  "kv_sorted xs \<Longrightarrow> kv_sorted (fold (\<lambda>(k, v). kv_insert k v) ps xs)
     \<and> map_of (fold (\<lambda>(k, v). kv_insert k v) ps xs) = fold (\<lambda>(k, v) m. m(k \<mapsto> v)) ps (map_of xs)"
  by (induction ps arbitrary: xs) (auto simp: kv_sorted_insert map_of_kv_insert)

lemma mem_with_ok [simp]: "mem_ok (mem_with ps faults)"
  using kv_insert_all [of "[]" ps] by (simp add: mem_ok_def mem_with_def kv_sorted_def)

lemma mem_with_content: "mem_content (mem_with ps faults) = fold (\<lambda>(k, v) m. m(k \<mapsto> v)) ps Map.empty"
  using kv_insert_all [of "[]" ps] by (simp add: mem_with_def kv_sorted_def)

lemma mem_with_Nil [simp]: "mem_content (mem_with [] f) = Map.empty"
  by (simp add: mem_with_content)

interpretation memfs: fs_store mem_tikv mem_ok mem_content "\<lambda>s. map_of (mem_view s)" sample_txn
  by unfold_locales (simp_all add: sample_txn_def sample_ext_ok sample_cfg_ok)

end
