(* ===== verification/Directory_Facts.thy ===== *)
theory Directory_Facts
  imports Fs_View
begin

text \<open>
  What the directory operations of a transaction do to the directory tree: the contents after
  every operation, the consistency of child entries and parent links under all sequences of
  operations, rename, the removal of directories and the deletion of unused inodes.
\<close>

section \<open>Effects on the content\<close>

definition link_entry :: "'w txn_with_config \<Rightarrow> parent_storage_ino \<Rightarrow> name \<Rightarrow> storage_dir_item \<Rightarrow> kv \<Rightarrow> kv" where
  "link_entry X par nm item d = d
     (fs_key (tx_fs_config X) (LK_ParentLink (sdi_ino item) par nm) \<mapsto> enc (js_unit (tx_js X)) (),
      fs_key (tx_fs_config X) (LK_DirChild (parent_ino par) nm) \<mapsto> enc (js_dir_item (tx_js X)) item)"

definition unlink_entry :: "'w txn_with_config \<Rightarrow> parent_storage_ino \<Rightarrow> name \<Rightarrow> storage_ino \<Rightarrow> kv \<Rightarrow> kv" where
  "unlink_entry X par nm ino d = d
     (fs_key (tx_fs_config X) (LK_DirChild (parent_ino par) nm) := None,
      fs_key (tx_fs_config X) (LK_ParentLink ino par nm) := None)"

definition new_inode_records ::
  "'w txn_with_config \<Rightarrow> (nat \<Rightarrow> system_time) \<Rightarrow> storage_dir_item_kind \<Rightarrow> storage_file_permission \<Rightarrow> u32 \<Rightarrow> u32
     \<Rightarrow> u32 \<Rightarrow> storage_ino \<Rightarrow> kv \<Rightarrow> kv" where
  "new_inode_records X now typ perm gid uid rdev ino d = d
     (fs_key (tx_fs_config X) (LK_Inode ino Description) \<mapsto> enc (js_description (tx_js X))
        \<lparr>desc_ino = ino, desc_typ = typ, desc_creation_time = now 0\<rparr>,
      fs_key (tx_fs_config X) (LK_Inode ino UnixAttributes) \<mapsto> enc (js_attr (tx_js X))
        \<lparr>attr_perm = perm, attr_uid = uid, attr_gid = gid, attr_rdev = rdev, attr_flags = 0, attr_last_change = now 2\<rparr>,
      fs_key (tx_fs_config X) (LK_Inode ino Size) \<mapsto> enc (js_size (tx_js X)) (ino_size_new (now 1)))"

definition inline_record :: "'w txn_with_config \<Rightarrow> (nat \<Rightarrow> system_time) \<Rightarrow> bytes option \<Rightarrow> storage_ino \<Rightarrow> kv \<Rightarrow> kv" where
  "inline_record X now inline_data ino d = (case inline_data of
     None \<Rightarrow> d
   | Some data \<Rightarrow> d(fs_key (tx_fs_config X) (LK_Inode ino InlineData) \<mapsto> enc (js_inline (tx_js X))
       \<lparr>inl_inlined = data, inl_last_change = now 3\<rparr>))"

text \<open>Only keys of other kinds differ.\<close>

definition dirs_same :: "'w txn_with_config \<Rightarrow> kv \<Rightarrow> kv \<Rightarrow> bool" where
  "dirs_same X d d' \<longleftrightarrow>
     (\<forall>par nm. d' (fs_key (tx_fs_config X) (LK_DirChild par nm)) = d (fs_key (tx_fs_config X) (LK_DirChild par nm)))
     \<and> (\<forall>i par nm. d' (fs_key (tx_fs_config X) (LK_ParentLink i par nm)) = d (fs_key (tx_fs_config X) (LK_ParentLink i par nm)))"

text \<open>Every child entry has its parent link and every parent link its child entry.\<close>

definition links_ok :: "'w txn_with_config \<Rightarrow> kv \<Rightarrow> bool" where
  "links_ok X d \<longleftrightarrow> (\<forall>ino par nm. parent_linked X d ino par nm
     \<longleftrightarrow> (\<exists>it. child_of X d par nm = Some it \<and> sdi_ino it = ino))"

lemma dirs_same_links: "dirs_same X d d' \<Longrightarrow> links_ok X d \<Longrightarrow> links_ok X d'"
proof -
  assume same: "dirs_same X d d'"
  then have "child_of X d' par nm = child_of X d par nm" for par nm
    by (simp add: child_of_def dirs_same_def stored_def)
  moreover have "parent_linked X d' ino par nm = parent_linked X d ino par nm" for ino par nm
    using same by (simp add: parent_linked_def dirs_same_def)
  ultimately show "links_ok X d \<Longrightarrow> links_ok X d'" by (simp add: links_ok_def)
qed

lemma scan_keys_of_Nil:
  "finite (dom v) \<Longrightarrow> 0 < unat n \<Longrightarrow> scan_keys_of v r n = [] \<longleftrightarrow> (\<forall>k \<in> dom v. \<not> in_range r k)"
  by (auto simp: scan_keys_of_def)

lemma scan_of_Nil:
  "finite (dom v) \<Longrightarrow> 0 < unat n \<Longrightarrow> scan_of v r n = [] \<longleftrightarrow> (\<forall>k \<in> dom v. \<not> in_range r k)"
  by (simp add: scan_of_def scan_keys_of_Nil)

lemma collect_dir_items_length:
  "collect_dir_items cfg c kvs = Inr items \<Longrightarrow> length items = length kvs"
  by (induction cfg c kvs arbitrary: items rule: collect_dir_items.induct)
    (auto simp: bind_result_def split: sum.splits)

context fs_store
begin

lemma child_of_link:
  "child_of X (link_entry X par nm it d) par' nm' =
     (if par' = par \<and> nm' = nm then Some it else child_of X d par' nm')"
  by (auto simp: child_of_def link_entry_def)

lemma parent_linked_link:
  "parent_linked X (link_entry X par nm it d) i par' nm' \<longleftrightarrow>
     i = sdi_ino it \<and> par' = par \<and> nm' = nm \<or> parent_linked X d i par' nm'"
  by (auto simp: parent_linked_def link_entry_def)

lemma child_of_unlink:
  "child_of X (unlink_entry X par nm ino d) par' nm' =
     (if par' = par \<and> nm' = nm then None else child_of X d par' nm')"
  by (auto simp: child_of_def unlink_entry_def)

lemma parent_linked_unlink:
  "parent_linked X (unlink_entry X par nm ino d) i par' nm' \<longleftrightarrow>
     parent_linked X d i par' nm' \<and> \<not> (i = ino \<and> par' = par \<and> nm' = nm)"
  by (auto simp: parent_linked_def unlink_entry_def)

lemma description_of_entries [simp]:
  "description_of X (link_entry X par nm it d) i = description_of X d i"
  "description_of X (unlink_entry X par nm ino d) i = description_of X d i"
  by (simp_all add: description_of_def link_entry_def unlink_entry_def)

lemma links_ok_link: "links_ok X d \<Longrightarrow> child_of X d par nm = None \<Longrightarrow> links_ok X (link_entry X par nm it d)"
  by (auto simp: links_ok_def child_of_link parent_linked_link split: if_splits)

lemma links_ok_unlink:
  "links_ok X d \<Longrightarrow> child_of X d par nm = Some it \<Longrightarrow> links_ok X (unlink_entry X par nm (sdi_ino it) d)"
  by (auto simp: links_ok_def child_of_unlink parent_linked_unlink split: if_splits)

section \<open>The operations\<close>

lemma get_child_wp:
  assumes "Q (child_of X v par nm) v" and "\<And>e. decode_error e \<Longrightarrow> E e"
  shows "wp (directory_get_child X par nm) Q E v"
  unfolding directory_get_child_def txn to_fs_key
  by (rule fetch_try_stored) (use assms in \<open>simp_all add: child_of_def\<close>)

lemma add_link_wp:
  assumes "Q () (link_entry X par nm it v)"
  shows "wp (directory_add_child_link_unchecked X par nm it) Q E v"
  unfolding directory_add_child_link_unchecked_def txn to_fs_key
  by (rule wp_and_then, rule put_json_wp, simp, rule put_json_wp) (use assms in \<open>simp_all add: link_entry_def\<close>)

lemma remove_links_wp:
  assumes "Q () (unlink_entry X par nm ino v)"
  shows "wp (directory_remove_child_links_unchecked X par nm ino) Q E v"
  unfolding directory_remove_child_links_unchecked_def txn to_fs_key
  by (rule wp_batch_mutate) (use assms in \<open>simp add: unlink_entry_def\<close>)

text \<open>Errors an operation reports for the content it found.\<close>

definition entry_error :: "kv \<Rightarrow> parent_storage_ino \<Rightarrow> name \<Rightarrow> storage_dir_item_kind set \<Rightarrow> fs_error \<Rightarrow> bool" where
  "entry_error v par nm allowed e \<longleftrightarrow> decode_error e
     \<or> e = FileNotFound nm \<and> child_of X v par nm = None
     \<or> e = WrongFileType \<and> (\<exists>it. child_of X v par nm = Some it \<and> sdi_typ it \<notin> allowed)"

lemma remove_child_wp:
  "wp (directory_remove_child X par nm allowed)
     (\<lambda>it v'. child_of X v par nm = Some it \<and> sdi_typ it \<in> allowed \<and> v' = unlink_entry X par nm (sdi_ino it) v)
     (entry_error v par nm allowed) v"
  unfolding directory_remove_child_def
proof (rule wp_and_then, rule get_child_wp)
  show "wp (case child_of X v par nm of None \<Rightarrow> fail (FileNotFound nm)
      | Some it \<Rightarrow> if sdi_typ it \<notin> allowed then fail WrongFileType
          else and_then (directory_remove_child_links_unchecked X par nm (sdi_ino it)) (\<lambda>_. ret it))
     (\<lambda>it v'. child_of X v par nm = Some it \<and> sdi_typ it \<in> allowed \<and> v' = unlink_entry X par nm (sdi_ino it) v)
     (entry_error v par nm allowed) v"
    by (cases "child_of X v par nm")
      (auto simp: entry_error_def intro!: wp_fail wp_and_then remove_links_wp wp_ret)
qed (simp add: entry_error_def)

lemma add_existing_wp:
  "wp (directory_add_child_checked_existing_inode X par nm ino)
     (\<lambda>r v'. case child_of X v par nm of
        Some e \<Rightarrow> r = ExistedAlready e \<and> v' = v
      | None \<Rightarrow> \<exists>desc. description_of X v ino = Some desc
          \<and> r = NewlyCreated \<lparr>sdi_ino = ino, sdi_typ = desc_typ desc\<rparr>
          \<and> v' = link_entry X par nm \<lparr>sdi_ino = ino, sdi_typ = desc_typ desc\<rparr> v)
     (\<lambda>e. decode_error e \<or> e = KeyNotFound (Some KEY_NOT_FOUND_MSG) \<and> child_of X v par nm = None
        \<and> description_of X v ino = None) v"
  (is "wp _ ?Q ?E v")
  unfolding directory_add_child_checked_existing_inode_def
proof (rule wp_and_then, rule get_child_wp)
  show "wp (case child_of X v par nm of Some e \<Rightarrow> ret (ExistedAlready e)
      | None \<Rightarrow> and_then (fetch (tx_mini X) (generate_key_InoDescription (tx_kb X) ino) (js_description (tx_js X)))
          (\<lambda>ino_desc. let item = \<lparr>sdi_ino = ino, sdi_typ = desc_typ ino_desc\<rparr>
             in and_then (directory_add_child_link_unchecked X par nm item) (\<lambda>_. ret (NewlyCreated item))))
     ?Q ?E v"
  proof (cases "child_of X v par nm")
    case None
    then show ?thesis
      unfolding txn to_fs_key Let_def
      by (auto simp: description_of_def stored_def split: option.splits sum.splits
          intro!: wp_and_then fetch_stored add_link_wp wp_ret)
  qed (auto intro: wp_ret)
qed simp

lemma dirs_same_records: "dirs_same X d (new_inode_records X now typ perm gid uid rdev ino d)"
  by (simp add: dirs_same_def new_inode_records_def)

lemma dirs_same_inline: "dirs_same X d (inline_record X now inl ino d)"
  by (cases inl) (simp_all add: dirs_same_def inline_record_def)

lemma add_new_inode_wp:
  "wp (directory_add_child_checked_new_inode X now par nm typ perm gid uid rdev inl ino)
     (\<lambda>r v'. case child_of X v par nm of
        Some e \<Rightarrow> r = ExistedAlready e \<and> v' = v
      | None \<Rightarrow> r = NewlyCreated \<lparr>sdi_ino = ino, sdi_typ = typ\<rparr>
          \<and> v' = inline_record X now inl ino (link_entry X par nm \<lparr>sdi_ino = ino, sdi_typ = typ\<rparr>
              (new_inode_records X now typ perm gid uid rdev ino v)))
     decode_error v"
  (is "wp _ ?Q _ v")
  unfolding directory_add_child_checked_new_inode_def
proof (rule wp_and_then, rule get_child_wp)
  let ?item = "\<lparr>sdi_ino = ino, sdi_typ = typ\<rparr>"
  let ?made = "new_inode_records X now typ perm gid uid rdev ino v"
  have twist: "?made(K (LK_DirChild (parent_ino par) nm) \<mapsto> enc (js_dir_item (tx_js X)) ?item,
      K (LK_ParentLink ino par nm) \<mapsto> enc (js_unit (tx_js X)) ()) = link_entry X par nm ?item ?made"
    by (simp add: link_entry_def fun_upd_twist)
  show "wp (case child_of X v par nm of Some e \<Rightarrow> ret (ExistedAlready e) | None \<Rightarrow>
      let ino_desc = \<lparr>desc_ino = ino, desc_typ = typ, desc_creation_time = now 0\<rparr>; ino_size = ino_size_new (now 1);
          ino_attr = \<lparr>attr_perm = perm, attr_uid = uid, attr_gid = gid, attr_rdev = rdev, attr_flags = 0,
            attr_last_change = now 2\<rparr>;
          item = ?item; T = tx_mini X; kb = tx_kb X; js = tx_js X
      in and_then (put_json T (generate_key_InoDescription kb ino) (js_description js) ino_desc) (\<lambda>_.
         and_then (put_json T (generate_key_InoStorageFileAttr kb ino) (js_attr js) ino_attr) (\<lambda>_.
         and_then (put_json T (generate_key_InoSize kb ino) (js_size js) ino_size) (\<lambda>_.
         and_then (put_json T (generate_key_StorageDirItem kb (par, nm)) (js_dir_item js) item) (\<lambda>_.
         and_then (put_json T (generate_key_ParentLink kb (ino, par, nm)) (js_unit js) ()) (\<lambda>_.
         and_then (case inl of None \<Rightarrow> ret () | Some data \<Rightarrow> put_json T (generate_key_InoInlineData kb ino) (js_inline js)
             \<lparr>inl_inlined = data, inl_last_change = now 3\<rparr>) (\<lambda>_. ret (NewlyCreated item)))))))) ?Q decode_error v"
  proof (cases "child_of X v par nm")
    case None
    then show ?thesis
      using twist unfolding Let_def txn to_fs_key
      by (cases inl) (auto simp: new_inode_records_def inline_record_def intro!: wp_and_then put_json_wp wp_ret)
  qed (auto intro: wp_ret)
qed simp

lemma rename_wp:
  "wp (directory_rename_child X par nm npar nnm)
     (\<lambda>_ v'. \<exists>it. child_of X v par nm = Some it \<and>
        (case child_of X v npar nnm of
           Some _ \<Rightarrow> v' = unlink_entry X par nm (sdi_ino it) v
         | None \<Rightarrow> \<exists>desc. description_of X v (sdi_ino it) = Some desc \<and>
             v' = unlink_entry X par nm (sdi_ino it)
               (link_entry X npar nnm \<lparr>sdi_ino = sdi_ino it, sdi_typ = desc_typ desc\<rparr> v)))
     (\<lambda>e. decode_error e \<or> e = FileNotFound nm \<and> child_of X v par nm = None
        \<or> e = KeyNotFound (Some KEY_NOT_FOUND_MSG)) v"
  (is "wp _ ?Q ?E v")
  unfolding directory_rename_child_def
proof (rule wp_and_then, rule get_child_wp)
  show "wp (case child_of X v par nm of None \<Rightarrow> fail (FileNotFound nm) | Some it \<Rightarrow>
      and_then (directory_add_child_checked_existing_inode X npar nnm (sdi_ino it)) (\<lambda>_.
      and_then (directory_remove_child X par nm {sdi_typ it}) (\<lambda>_. ret ()))) ?Q ?E v"
  proof (cases "child_of X v par nm")
    case (Some it)
    let ?k = "\<lambda>_. and_then (directory_remove_child X par nm {sdi_typ it}) (\<lambda>_. ret ())"
    have rest: "wp (?k r) ?Q ?E v'"
      if "v' = v \<and> child_of X v npar nnm \<noteq> None \<or> child_of X v npar nnm = None \<and>
        (\<exists>desc. description_of X v (sdi_ino it) = Some desc \<and>
          v' = link_entry X npar nnm \<lparr>sdi_ino = sdi_ino it, sdi_typ = desc_typ desc\<rparr> v)" for r :: "storage_dir_item got_or_made" and v'
    proof -
      from that Some have c: "child_of X v' par nm = Some it"
        by (auto simp: child_of_link)
      show ?thesis
        by (rule wp_and_then, rule wp_weaken, rule remove_child_wp)
          (use that Some c in \<open>auto simp: entry_error_def intro!: wp_ret split: option.splits\<close>)
    qed
    have "wp (and_then (directory_add_child_checked_existing_inode X npar nnm (sdi_ino it)) ?k) ?Q ?E v"
    proof (rule wp_and_then, rule wp_weaken, rule add_existing_wp)
      fix r v'
      assume "case child_of X v npar nnm of
          Some e \<Rightarrow> r = ExistedAlready e \<and> v' = v
        | None \<Rightarrow> \<exists>desc. description_of X v (sdi_ino it) = Some desc
            \<and> r = NewlyCreated \<lparr>sdi_ino = sdi_ino it, sdi_typ = desc_typ desc\<rparr>
            \<and> v' = link_entry X npar nnm \<lparr>sdi_ino = sdi_ino it, sdi_typ = desc_typ desc\<rparr> v"
      then show "wp (?k r) ?Q ?E v'" by (intro rest) (auto split: option.splits)
    qed auto
    then show ?thesis unfolding Some option.case .
  qed (auto intro: wp_fail)
qed simp

text \<open>The directory entries and the links of an inode, as the scans see them.\<close>

lemma no_children_iff:
  assumes "store_ok X v" and "ino_raw ino \<noteq> - 1"
  shows "(\<forall>k \<in> dom v. \<not> in_range (directory_child_range (tx_kb X) ino) k)
    \<longleftrightarrow> (\<forall>nm. v (K (LK_DirChild ino nm)) = None)"
proof -
  have "in_range (directory_child_range (tx_kb X) ino) (K lk) \<longleftrightarrow> (\<exists>nm. lk = LK_DirChild ino nm)" for lk
    using directory_child_range_iff [OF assms(2)] by (simp add: fs_key_def key_builder_def)
  with assms(1) show ?thesis unfolding store_ok_def by (metis domD domI domIff)
qed

lemma no_parents_iff:
  assumes "store_ok X v" and "ino_raw ino \<noteq> - 1"
  shows "(\<forall>k \<in> dom v. \<not> in_range (parent_link_scan (tx_kb X) ino) k)
    \<longleftrightarrow> (\<forall>par nm. \<not> parent_linked X v ino par nm)"
proof -
  have "in_range (parent_link_scan (tx_kb X) ino) (K lk) \<longleftrightarrow> (\<exists>par nm. lk = LK_ParentLink ino par nm)" for lk
    using parent_link_scan_iff [OF assms(2)] by (simp add: fs_key_def key_builder_def)
  with assms(1) show ?thesis unfolding store_ok_def parent_linked_def by (metis domD domI domIff)
qed

lemma remove_empty_dir_scan_wp:
  "wp (directory_remove_child_empty_directory X par nm)
     (\<lambda>it v'. child_of X v par nm = Some it \<and> sdi_typ it = Directory
        \<and> scan_of v (directory_child_range (tx_kb X) (sdi_ino it)) 1 = [] \<and> v' = unlink_entry X par nm (sdi_ino it) v)
     (\<lambda>e. decode_error e \<or> e = FileNotFound nm \<and> child_of X v par nm = None
        \<or> (\<exists>it. child_of X v par nm = Some it \<and>
             (e = WrongFileType \<and> sdi_typ it \<noteq> Directory
              \<or> scan_of v (directory_child_range (tx_kb X) (sdi_ino it)) 1 \<noteq> [] \<and> sdi_typ it = Directory))) v"
  (is "wp _ ?Q ?E v")
  unfolding directory_remove_child_empty_directory_def
proof (rule wp_and_then, rule get_child_wp)
  show "wp (case child_of X v par nm of None \<Rightarrow> fail (FileNotFound nm) | Some it \<Rightarrow>
      if sdi_typ it \<noteq> Directory then fail WrongFileType
      else and_then (directory_scan_for_children X (sdi_ino it) 1) (\<lambda>children.
        if length children > 0 then fail (DirNotEmpty nm)
        else and_then (directory_remove_child_links_unchecked X par nm (sdi_ino it)) (\<lambda>_. ret it))) ?Q ?E v"
  proof (cases "child_of X v par nm")
    case (Some it)
    let ?scan = "scan_of v (directory_child_range (tx_kb X) (sdi_ino it)) 1"
    show ?thesis
    proof (cases "sdi_typ it = Directory")
      case True
      let ?rest = "\<lambda>children. if length children > 0 then fail (DirNotEmpty nm)
        else and_then (directory_remove_child_links_unchecked X par nm (sdi_ino it)) (\<lambda>_. ret it)"
      have items: "case collect_dir_items (tx_fs_config X) (js_dir_item (tx_js X)) ?scan of
          Inr items \<Rightarrow> wp (?rest items) ?Q ?E v | Inl e \<Rightarrow> ?E e"
      proof (cases "collect_dir_items (tx_fs_config X) (js_dir_item (tx_js X)) ?scan")
        case (Inl e)
        then have "?scan \<noteq> []" by auto
        with Inl Some True show ?thesis by auto
      next
        case (Inr items)
        then have "items = [] \<longleftrightarrow> ?scan = []" using collect_dir_items_length by fastforce
        with Inr Some True show ?thesis
          by (auto intro!: wp_fail wp_and_then remove_links_wp wp_ret)
      qed
      have "wp (and_then (directory_scan_for_children X (sdi_ino it) 1) ?rest) ?Q ?E v"
        unfolding directory_scan_for_children_def txn
        by (rule wp_and_then, rule wp_and_then, rule wp_scan, rule wp_of_result) (rule items)
      with Some True show ?thesis by simp
    qed (use Some in \<open>auto intro: wp_fail\<close>)
  qed (auto intro: wp_fail)
qed simp

lemma empty_scan_iff:
  assumes "store_ok X v" and "ino_raw ino \<noteq> - 1"
  shows "scan_of v (directory_child_range (tx_kb X) ino) 1 = [] \<longleftrightarrow> (\<forall>n. v (K (LK_DirChild ino n)) = None)"
  using scan_of_Nil [of v 1] no_children_iff [OF assms] assms(1) by (simp add: store_ok_def)

lemma check_for_delete_wp:
  assumes "store_ok X v" and "ino_raw ino \<noteq> - 1"
  shows "wp (inode_check_for_delete_and_delete_atomically_description X ino)
     (\<lambda>r v'. if \<exists>par nm. parent_linked X v ino par nm then r = StillUsed \<and> v' = v
        else r = DeletedInoDesc \<and> v' = v(K (LK_Inode ino Description) := None))
     (\<lambda>_. False) v"
proof -
  have fin: "finite (dom v)" using assms(1) by (simp add: store_ok_def)
  have "scan_keys_of v (parent_link_scan (tx_kb X) ino) MAX_TIKV_SCAN_LIMIT = []
    \<longleftrightarrow> (\<forall>par nm. \<not> parent_linked X v ino par nm)"
    using scan_keys_of_Nil [OF fin] no_parents_iff [OF assms] by (simp add: MAX_TIKV_SCAN_LIMIT_def)
  then show ?thesis
    unfolding inode_check_for_delete_and_delete_atomically_description_def txn to_fs_key
    by (auto intro!: wp_and_then wp_scan_keys delete_key_wp wp_ret)
qed

lemma reserve_inos_wp:
  "wp (meta_mutable_reserve_new_inos X cnt)
     (\<lambda>r v'. case stored (js_meta_mutable (tx_js X)) (K LK_Meta) v of
        Some m \<Rightarrow> r = StorageIno (mm_inode_next m)
          \<and> v' = v(K LK_Meta \<mapsto> enc (js_meta_mutable (tx_js X)) (m\<lparr>mm_inode_next := mm_inode_next m + cnt\<rparr>))
      | None \<Rightarrow> r = parent_ino ROOT_INODE
          \<and> stored (js_meta_mutable (tx_js X)) (K LK_Meta) v'
              = Some \<lparr>mm_inode_next = ino_raw FIRST_DATA_INODE, mm_last_stat = None\<rparr>
          \<and> (\<forall>k. k \<notin> {K LK_Meta, K LK_MetaStatic} \<longrightarrow> v' k = v k))
     decode_error v"
  unfolding meta_mutable_reserve_new_inos_def meta_static_mutable_init_def txn to_fs_key
  by (rule wp_and_then, rule fetch_try_stored)
    (auto simp: Let_def intro!: wp_and_then put_json_wp wp_ret split: option.splits)

lemma inode_open_wp:
  "wp (inode_open X ino use_id)
     (\<lambda>_ v'. \<exists>desc typ. description_of X v ino = Some desc
        \<and> child_of X v OPENED_INODE_PARENT_INODE (ext_uuid_str (tx_ext X) use_id) = None
        \<and> v' = link_entry X OPENED_INODE_PARENT_INODE (ext_uuid_str (tx_ext X) use_id)
              \<lparr>sdi_ino = desc_ino desc, sdi_typ = typ\<rparr> v)
     (\<lambda>_. True) v"
  (is "wp _ ?Q ?E v")
  unfolding inode_open_def txn to_fs_key
proof (rule wp_and_then, rule fetch_stored)
  fix desc assume d: "stored (js_description (tx_js X)) (K (LK_Inode ino Description)) v = Some desc"
  let ?nm = "ext_uuid_str (tx_ext X) use_id"
  show "wp (and_then (directory_add_child_checked_existing_inode X OPENED_INODE_PARENT_INODE ?nm (desc_ino desc))
      (\<lambda>r. if existed_before r then fail (FileExist ?nm) else ret ())) ?Q ?E v"
    by (rule wp_and_then, rule wp_weaken, rule add_existing_wp)
      (use d in \<open>auto simp: existed_before_def description_of_def intro!: wp_fail wp_ret split: option.splits\<close>)
qed auto

lemma inode_close_wp:
  "wp (inode_close X ino use_id)
     (\<lambda>_ v'. \<exists>it. child_of X v OPENED_INODE_PARENT_INODE (ext_uuid_str (tx_ext X) use_id) = Some it
        \<and> sdi_ino it = ino
        \<and> v' = unlink_entry X OPENED_INODE_PARENT_INODE (ext_uuid_str (tx_ext X) use_id) ino v)
     (\<lambda>_. True) v"
  unfolding inode_close_def
  by (rule wp_and_then, rule wp_weaken, rule remove_child_wp) (auto intro!: wp_fail wp_ret)

end

section \<open>Sequences of operations\<close>

datatype dir_op =
    CreateOp "nat \<Rightarrow> system_time" parent_storage_ino name storage_dir_item_kind storage_file_permission u32 u32 u32
      "bytes option" storage_ino
  | LinkOp parent_storage_ino name storage_ino
  | RemoveOp parent_storage_ino name "storage_dir_item_kind set"
  | RemoveDirOp parent_storage_ino name
  | RenameOp parent_storage_ino name parent_storage_ino name
  | OpenOp storage_ino uuid
  | CloseOp storage_ino uuid
  | ReserveOp u64

definition ignore_result :: "('w, 'e, 'a) comp \<Rightarrow> ('w, 'e, unit) comp" where
  "ignore_result m = and_then m (\<lambda>_. ret ())"

fun dir_body :: "'w txn_with_config \<Rightarrow> dir_op \<Rightarrow> ('w, fs_error, unit) comp" where
  "dir_body X (CreateOp now par nm typ perm gid uid rdev inl ino) =
     ignore_result (directory_add_child_checked_new_inode X now par nm typ perm gid uid rdev inl ino)"
| "dir_body X (LinkOp par nm ino) = ignore_result (directory_add_child_checked_existing_inode X par nm ino)"
| "dir_body X (RemoveOp par nm allowed) = ignore_result (directory_remove_child X par nm allowed)"
| "dir_body X (RemoveDirOp par nm) = ignore_result (directory_remove_child_empty_directory X par nm)"
| "dir_body X (RenameOp par nm npar nnm) = directory_rename_child X par nm npar nnm"
| "dir_body X (OpenOp ino use_id) = inode_open X ino use_id"
| "dir_body X (CloseOp ino use_id) = inode_close X ino use_id"
| "dir_body X (ReserveOp cnt) = ignore_result (meta_mutable_reserve_new_inos X cnt)"

text \<open>Any number of operations, each with its retries, successful or not.\<close>

inductive dir_reachable :: "'w txn_with_config \<Rightarrow> 'w \<Rightarrow> 'w \<Rightarrow> bool" for X where
  dir_start: "dir_reachable X w w"
| dir_next: "dir_reachable X w w1 \<Longrightarrow> run_mini (tx_mini X) (dir_body X op) w1 = (r, w2) \<Longrightarrow> dir_reachable X w w2"

context fs_store
begin

lemma wp_ignore_result: "wp m (\<lambda>_ v'. P v') E v \<Longrightarrow> wp (ignore_result m) (\<lambda>_ v'. P v') E v"
  unfolding ignore_result_def by (rule wp_and_then, erule wp_weaken) (auto intro: wp_ret)

lemma links_ok_new:
  assumes "links_ok X v" and "child_of X v par nm = None"
  shows "links_ok X (inline_record X now inl ino (link_entry X par nm it
    (new_inode_records X now typ perm gid uid rdev ino v)))"
proof -
  let ?r = "new_inode_records X now typ perm gid uid rdev ino v"
  have same: "dirs_same X v ?r" by (rule dirs_same_records)
  then have "links_ok X ?r" using assms(1) by (rule dirs_same_links)
  moreover have "child_of X ?r par nm = None"
    using assms(2) same by (simp add: child_of_def dirs_same_def stored_def)
  ultimately show ?thesis by (intro dirs_same_links [OF dirs_same_inline] links_ok_link)
qed

lemma links_ok_rename:
  assumes "links_ok X v" and "child_of X v par nm = Some it" and "child_of X v npar nnm = None"
  shows "links_ok X (unlink_entry X par nm (sdi_ino it) (link_entry X npar nnm it' v))"
proof -
  have "links_ok X (link_entry X npar nnm it' v)" using assms(1,3) by (rule links_ok_link)
  moreover have "child_of X (link_entry X npar nnm it' v) par nm = Some it"
    using assms(2,3) by (auto simp: child_of_link)
  ultimately show ?thesis by (rule links_ok_unlink)
qed

lemma links_ok_reserve:
  assumes "links_ok X v" and "\<forall>k. k \<notin> {K LK_Meta, K LK_MetaStatic} \<longrightarrow> v' k = v k"
  shows "links_ok X v'"
proof (rule dirs_same_links [OF _ assms(1)])
  show "dirs_same X v v'" using assms(2) by (simp add: dirs_same_def)
qed

lemma dir_body_keeps_links:
  assumes "links_ok X v"
  shows "wp (dir_body X op) (\<lambda>_. links_ok X) (\<lambda>_. True) v"
proof (cases op)
  case (CreateOp now par nm ty perm gid uid rdev inl ino)
  show ?thesis
    unfolding CreateOp dir_body.simps
    by (rule wp_ignore_result, rule wp_weaken, rule add_new_inode_wp)
      (use assms links_ok_new in \<open>auto split: option.splits\<close>)
next
  case (LinkOp par nm ino)
  show ?thesis
    unfolding LinkOp dir_body.simps
    by (rule wp_ignore_result, rule wp_weaken, rule add_existing_wp)
      (use assms links_ok_link in \<open>auto split: option.splits\<close>)
next
  case (RemoveOp par nm allowed)
  show ?thesis
    unfolding RemoveOp dir_body.simps
    by (rule wp_ignore_result, rule wp_weaken, rule remove_child_wp) (use assms links_ok_unlink in auto)
next
  case (RemoveDirOp par nm)
  show ?thesis
    unfolding RemoveDirOp dir_body.simps
    by (rule wp_ignore_result, rule wp_weaken, rule remove_empty_dir_scan_wp) (use assms links_ok_unlink in auto)
next
  case (RenameOp par nm npar nnm)
  show ?thesis
    unfolding RenameOp dir_body.simps
    by (rule wp_weaken, rule rename_wp)
      (use assms links_ok_unlink links_ok_rename in \<open>auto split: option.splits\<close>)
next
  case (OpenOp ino use_id)
  show ?thesis
    unfolding OpenOp dir_body.simps by (rule wp_weaken, rule inode_open_wp) (use assms links_ok_link in auto)
next
  case (CloseOp ino use_id)
  show ?thesis
    unfolding CloseOp dir_body.simps by (rule wp_weaken, rule inode_close_wp) (use assms links_ok_unlink in auto)
next
  case (ReserveOp cnt)
  have "links_ok X v'" if "case stored (js_meta_mutable (tx_js X)) (K LK_Meta) v of
        Some m \<Rightarrow> r = StorageIno (mm_inode_next m)
          \<and> v' = v(K LK_Meta \<mapsto> enc (js_meta_mutable (tx_js X)) (m\<lparr>mm_inode_next := mm_inode_next m + cnt\<rparr>))
      | None \<Rightarrow> r = parent_ino ROOT_INODE
          \<and> stored (js_meta_mutable (tx_js X)) (K LK_Meta) v'
              = Some \<lparr>mm_inode_next = ino_raw FIRST_DATA_INODE, mm_last_stat = None\<rparr>
          \<and> (\<forall>k. k \<notin> {K LK_Meta, K LK_MetaStatic} \<longrightarrow> v' k = v k)" for r v'
    by (rule links_ok_reserve [OF assms]) (use that in \<open>auto split: option.splits\<close>)
  then show ?thesis
    unfolding ReserveOp dir_body.simps
    by (intro wp_ignore_result wp_weaken [OF reserve_inos_wp]) auto
qed

lemma dir_reachable_links:
  "dir_reachable X w w' \<Longrightarrow> ok w \<Longrightarrow> links_ok X (db w) \<Longrightarrow> ok w' \<and> links_ok X (db w')"
proof (induction rule: dir_reachable.induct)
  case (dir_next w w1 op r w2)
  then have w1: "ok w1" "links_ok X (db w1)" by auto
  from run_mini_outcome [OF dir_body_keeps_links [OF w1(2)] w1(1) dir_next.hyps(2)] w1(2)
  show ?case by (cases r) auto
qed simp

end

text \<open>
  C8. Directory entries and parent links stay consistent: in every state that is reached by
  any sequence of the transactions that create, link, remove and rename entries, open and
  close inodes and reserve inode numbers (successful, failed or retried), an inode has a link
  to a parent and name exactly if that entry of the parent exists and refers to the inode.
\<close>

theorem directory_links_consistent:
  assumes "fs_store T ok db view X" and "ok w" and "links_ok X (db w)" and "dir_reachable X w w'"
  shows "links_ok X (db w')"
  using fs_store.dir_reachable_links [OF assms(1,4,2,3)] by simp

text \<open>The witness: creating a file and renaming it on an empty store.\<close>

theorem directory_links_consistent_witness:
  "links_ok sample_txn (mem_content (snd (run_mini mem_tikv (dir_body sample_txn (RenameOp ROOT_INODE [97] ROOT_INODE [98]))
     (snd (run_mini mem_tikv (dir_body sample_txn
        (CreateOp (\<lambda>_. 0) ROOT_INODE [97] File (StorageFilePermission 0) 0 0 0 None (StorageIno 10))) (mem_with [] []))))))"
proof -
  let ?w = "mem_with [] []"
  let ?op1 = "CreateOp (\<lambda>_. 0) ROOT_INODE [97] File (StorageFilePermission 0) 0 0 0 None (StorageIno 10)"
  let ?op2 = "RenameOp ROOT_INODE [97] ROOT_INODE [98]"
  let ?w1 = "snd (run_mini mem_tikv (dir_body sample_txn ?op1) ?w)"
  have tx: "tx_mini sample_txn = mem_tikv" by (simp add: sample_txn_def)
  have init: "links_ok sample_txn (mem_content ?w)"
    by (simp add: links_ok_def parent_linked_def child_of_def stored_def)
  have step: "dir_reachable sample_txn w (snd (run_mini mem_tikv (dir_body sample_txn op) w1))"
    if "dir_reachable sample_txn w w1" for w w1 op
    by (rule dir_next [OF that, of op "fst (run_mini mem_tikv (dir_body sample_txn op) w1)"]) (simp add: tx)
  have "dir_reachable sample_txn ?w (snd (run_mini mem_tikv (dir_body sample_txn ?op2) ?w1))"
    by (intro step dir_start)
  from directory_links_consistent [OF memfs.fs_store_axioms mem_with_ok init this] show ?thesis .
qed

section \<open>Properties of the operations\<close>


text \<open>The names and records of the examples.\<close>

abbreviation sample_dir_item :: "storage_ino \<Rightarrow> storage_dir_item_kind \<Rightarrow> storage_dir_item" where
  "sample_dir_item i k \<equiv> \<lparr>sdi_ino = i, sdi_typ = k\<rparr>"

definition sample_entry :: "parent_storage_ino \<Rightarrow> name \<Rightarrow> storage_dir_item \<Rightarrow> (bytes \<times> bytes) list" where
  "sample_entry par nm it =
     [(fs_key sample_config (LK_ParentLink (sdi_ino it) par nm), enc (js_unit sample_json) ()),
      (fs_key sample_config (LK_DirChild (parent_ino par) nm), enc (js_dir_item sample_json) it)]"

lemma sample_entry_content:
  "mem_content (mem_with (ps @ sample_entry par nm it) f) = link_entry sample_txn par nm it (mem_content (mem_with ps f))"
  by (simp add: mem_with_content sample_entry_def link_entry_def sample_txn_def sample_ext_def)

lemma sample_links_ok: "links_ok sample_txn (mem_content (mem_with (sample_entry par nm it) f))"
  using memfs.links_ok_link [of Map.empty par nm it] sample_entry_content [of "[]" par nm it f]
  by (simp add: links_ok_def parent_linked_def child_of_def stored_def)

lemma sample_child_of:
  "child_of sample_txn (mem_content (mem_with (sample_entry par nm it) f)) p n =
     (if p = par \<and> n = nm then Some it else None)"
  using sample_entry_content [of "[]" par nm it f] memfs.child_of_link [of par nm it Map.empty p n]
  by (simp add: child_of_def stored_def)


text \<open>
  C37. A rename onto a name that exists already does not replace the target, as POSIX asks: it
  reports success, the target still refers to its own inode, and the entry of the source is
  removed. When source and target are the same entry, the entry is lost.
\<close>

theorem rename_onto_existing_drops_source:
  assumes "fs_store T ok db view X" and "ok w"
    and "child_of X (db w) par nm = Some it" and "child_of X (db w) npar nnm = Some target"
  shows "case run_mini (tx_mini X) (directory_rename_child X par nm npar nnm) w of
      (Inr _, w') \<Rightarrow> child_of X (db w') par nm = None
        \<and> ((npar, nnm) \<noteq> (par, nm) \<longrightarrow> child_of X (db w') npar nnm = Some target)
        \<and> \<not> parent_linked X (db w') (sdi_ino it) par nm
    | (Inl e, w') \<Rightarrow> db w' = db w"
proof -
  note fs = assms(1)
  obtain r w' where run: "run_mini (tx_mini X) (directory_rename_child X par nm npar nnm) w = (r, w')"
    by (cases "run_mini (tx_mini X) (directory_rename_child X par nm npar nnm) w")
  note out = fs_store.run_mini_outcome [OF fs fs_store.rename_wp [OF fs] assms(2) run]
  show ?thesis
    using out run assms(3,4)
    by (cases r) (auto simp: fs_store.child_of_unlink [OF fs] fs_store.parent_linked_unlink [OF fs])
qed

theorem rename_onto_existing_drops_source_witness:
  "case run_mini mem_tikv (directory_rename_child sample_txn ROOT_INODE [97] ROOT_INODE [97])
      (mem_with (sample_entry ROOT_INODE [97] (sample_dir_item (StorageIno 10) File)) []) of
    (Inr _, w') \<Rightarrow> child_of sample_txn (mem_content w') ROOT_INODE [97] = None
  | (Inl e, w') \<Rightarrow> child_of sample_txn (mem_content w') ROOT_INODE [97] \<noteq> None"
proof -
  let ?it = "sample_dir_item (StorageIno 10) File"
  let ?w = "mem_with (sample_entry ROOT_INODE [97] ?it) []"
  have "tx_mini sample_txn = mem_tikv" by (simp add: sample_txn_def)
  moreover have "child_of sample_txn (mem_content ?w) ROOT_INODE [97] = Some ?it"
    by (simp only: sample_child_of) simp
  ultimately show ?thesis
    using rename_onto_existing_drops_source [OF memfs.fs_store_axioms mem_with_ok,
        of "sample_entry ROOT_INODE [97] ?it" "[]" ROOT_INODE "[97]" ?it ROOT_INODE "[97]" ?it]
    by (auto split: prod.splits sum.splits)
qed

text \<open>
  C21. Removing a directory never orphans children: if the transaction succeeds, the entry was
  a directory without any child entry, and exactly its entry and parent link are gone; if it
  fails, nothing has changed, and the failure is one of the store or is due to the entry: it
  does not exist, is no directory, has children, or cannot be decoded.
\<close>

theorem remove_directory_only_if_empty:
  assumes "fs_store T ok db view X" and "ok w" and "store_ok X (db w)"
    and "\<forall>it. child_of X (db w) par nm = Some it \<longrightarrow> ino_raw (sdi_ino it) \<noteq> - 1"
  shows "case run_mini (tx_mini X) (directory_remove_child_empty_directory X par nm) w of
      (Inr it, w') \<Rightarrow> child_of X (db w) par nm = Some it \<and> sdi_typ it = Directory
        \<and> (\<forall>n. child_of X (db w) (ParentStorageIno (sdi_ino it)) n = None)
        \<and> db w' = unlink_entry X par nm (sdi_ino it) (db w)
    | (Inl e, w') \<Rightarrow> db w' = db w \<and> (store_error e \<or> decode_error e
        \<or> e = FileNotFound nm \<and> child_of X (db w) par nm = None
        \<or> (\<exists>it. child_of X (db w) par nm = Some it \<and> (e = WrongFileType \<and> sdi_typ it \<noteq> Directory
            \<or> sdi_typ it = Directory
              \<and> (\<exists>n. db w (fs_key (tx_fs_config X) (LK_DirChild (sdi_ino it) n)) \<noteq> None))))"
proof -
  note fs = assms(1)
  obtain r w' where run: "run_mini (tx_mini X) (directory_remove_child_empty_directory X par nm) w = (r, w')"
    by (cases "run_mini (tx_mini X) (directory_remove_child_empty_directory X par nm) w")
  note out = fs_store.run_mini_outcome [OF fs fs_store.remove_empty_dir_scan_wp [OF fs] assms(2) run]
  note empty = fs_store.empty_scan_iff [OF fs assms(3) assms(4) [rule_format]]
  show ?thesis
  proof (cases r)
    case (Inl e)
    with out run empty show ?thesis by auto
  next
    case (Inr it)
    with out empty [of it] have "\<forall>n. db w (fs_key (tx_fs_config X) (LK_DirChild (sdi_ino it) n)) = None" by simp
    with Inr out run show ?thesis by (simp add: child_of_def stored_def)
  qed
qed

lemma sample_store_ok:
  assumes "\<And>k. k \<in> fst ` set ps \<Longrightarrow> \<exists>lk. key_ok sample_config lk \<and> k = fs_key sample_config lk"
    and "\<And>a. fs_key sample_config (LK_BlockHash a) \<notin> fst ` set ps"
  shows "store_ok sample_txn (mem_content (mem_with ps f))"
proof -
  have dom: "dom (fold (\<lambda>(k, v) m. m(k \<mapsto> v)) ps m) = fst ` set ps \<union> dom m" for m :: kv
    by (induction ps arbitrary: m) auto
  have "finite (dom (mem_content (mem_with ps f)))" unfolding mem_with_content dom by simp
  moreover have "dom (mem_content (mem_with ps f)) = fst ` set ps" unfolding mem_with_content dom by simp
  ultimately show ?thesis
    using assms unfolding store_ok_def block_hash_at_def by (auto simp: sample_txn_def dest: domI)
qed

lemma sample_entry_store_ok: "store_ok sample_txn (mem_content (mem_with (sample_entry par nm it) f))"
proof (rule sample_store_ok)
  show "\<exists>lk. key_ok sample_config lk \<and> k = fs_key sample_config lk" if "k \<in> fst ` set (sample_entry par nm it)" for k
    using that unfolding sample_entry_def by (auto intro: exI [where x = "LK_ParentLink _ _ _"] exI [where x = "LK_DirChild _ _"])
  show "fs_key sample_config (LK_BlockHash a) \<notin> fst ` set (sample_entry par nm it)" for a
    by (simp add: sample_entry_def sample_cfg_ok)
qed

theorem remove_directory_only_if_empty_witness:
  "case run_mini mem_tikv (directory_remove_child_empty_directory sample_txn ROOT_INODE [97])
      (mem_with (sample_entry ROOT_INODE [97] (sample_dir_item (StorageIno 10) File)) []) of
    (Inr it, w') \<Rightarrow> False
  | (Inl e, w') \<Rightarrow> child_of sample_txn (mem_content w') ROOT_INODE [97] = Some (sample_dir_item (StorageIno 10) File)"
proof -
  let ?it = "sample_dir_item (StorageIno 10) File"
  let ?w = "mem_with (sample_entry ROOT_INODE [97] ?it) []"
  have tx: "tx_mini sample_txn = mem_tikv" by (simp add: sample_txn_def)
  have c: "child_of sample_txn (mem_content ?w) ROOT_INODE [97] = Some ?it"
    by (simp only: sample_child_of) simp
  then have inos: "\<forall>it. child_of sample_txn (mem_content ?w) ROOT_INODE [97] = Some it \<longrightarrow> ino_raw (sdi_ino it) \<noteq> - 1"
    by auto
  have w: "mem_ok ?w" "store_ok sample_txn (mem_content ?w)" by (rule mem_with_ok sample_entry_store_ok)+
  from remove_directory_only_if_empty [OF memfs.fs_store_axioms w inos] c tx
  show ?thesis by (auto split: prod.splits sum.splits)
qed

text \<open>
  C22. An inode is deleted exactly when nothing refers to it: the check reports the inode as
  used and changes nothing if a directory or an open handle still links to it; otherwise it
  deletes its description and nothing else.
\<close>

theorem inode_deleted_iff_unreferenced:
  assumes "fs_store T ok db view X" and "ok w" and "store_ok X (db w)" and "links_ok X (db w)"
    and "ino_raw ino \<noteq> - 1"
  shows "case run_mini (tx_mini X) (inode_check_for_delete_and_delete_atomically_description X ino) w of
      (Inr r, w') \<Rightarrow>
        (if \<exists>par nm it. child_of X (db w) par nm = Some it \<and> sdi_ino it = ino
         then r = StillUsed \<and> db w' = db w
         else r = DeletedInoDesc \<and> db w' = (db w)(fs_key (tx_fs_config X) (LK_Inode ino Description) := None))
    | (Inl e, w') \<Rightarrow> store_error e \<and> db w' = db w"
proof -
  note fs = assms(1)
  obtain r w' where run: "run_mini (tx_mini X) (inode_check_for_delete_and_delete_atomically_description X ino) w = (r, w')"
    by (cases "run_mini (tx_mini X) (inode_check_for_delete_and_delete_atomically_description X ino) w")
  note out = fs_store.run_mini_outcome [OF fs fs_store.check_for_delete_wp [OF fs assms(3,5)] assms(2) run]
  have refs: "(\<exists>par nm. parent_linked X (db w) ino par nm)
    \<longleftrightarrow> (\<exists>par nm it. child_of X (db w) par nm = Some it \<and> sdi_ino it = ino)"
    using assms(4) by (auto simp: links_ok_def)
  show ?thesis using out run unfolding refs by (cases r) auto
qed

theorem inode_deleted_iff_unreferenced_witness:
  "case run_mini mem_tikv (inode_check_for_delete_and_delete_atomically_description sample_txn (StorageIno 10))
      (mem_with (sample_entry ROOT_INODE [97] (sample_dir_item (StorageIno 10) File)) []) of
    (Inr r, w') \<Rightarrow> r = StillUsed
  | (Inl e, w') \<Rightarrow> store_error e"
proof -
  let ?it = "sample_dir_item (StorageIno 10) File"
  let ?w = "mem_with (sample_entry ROOT_INODE [97] ?it) []"
  have tx: "tx_mini sample_txn = mem_tikv" by (simp add: sample_txn_def)
  have "child_of sample_txn (mem_content ?w) ROOT_INODE [97] = Some ?it" by (simp only: sample_child_of) simp
  then have used: "\<exists>par nm it. child_of sample_txn (mem_content ?w) par nm = Some it \<and> sdi_ino it = StorageIno 10"
    by force
  have ino: "ino_raw (StorageIno 10) \<noteq> - 1" by simp
  have w: "mem_ok ?w" "store_ok sample_txn (mem_content ?w)" "links_ok sample_txn (mem_content ?w)"
    by (rule mem_with_ok sample_entry_store_ok sample_links_ok)+
  from inode_deleted_iff_unreferenced [OF memfs.fs_store_axioms w ino, unfolded if_P [OF used]] tx
  show ?thesis by (auto split: prod.splits sum.splits)
qed



end
