(* ===== verification/Block_Facts.thy ===== *)
theory Block_Facts
  imports Fs_View
begin

text \<open>
  What the operations on hashed blocks do: the block map of a file, the reference counters of
  the blocks and the blocks themselves. A block address refers to a block by its hash; the
  counter of a hash bounds the number of addresses that refer to it.
\<close>

section \<open>Counting\<close>

lemma map_of_functional:
  assumes "set ps = {(k, v). P k v}" and "\<And>k v v'. P k v \<Longrightarrow> P k v' \<Longrightarrow> v = v'"
  shows "map_of ps k = Some v \<longleftrightarrow> P k v"
proof
  assume "map_of ps k = Some v"
  then have "(k, v) \<in> set ps" by (rule map_of_SomeD)
  with assms(1) show "P k v" by simp
next
  assume P: "P k v"
  then have "(k, v) \<in> set ps" using assms(1) by simp
  then obtain v' where v': "map_of ps k = Some v'" by (meson weak_map_of_SomeI)
  then have "(k, v') \<in> set ps" by (rule map_of_SomeD)
  with assms P v' show "map_of ps k = Some v" by auto
qed

text \<open>The replaced hashes are counted.\<close>

definition occurrences :: "(bytes \<times> bytes) list \<Rightarrow> tifs_hash \<Rightarrow> nat" where
  "occurrences prev h = length (filter (\<lambda>p. snd p = h) prev)"

definition counts :: "(tifs_hash \<times> u64) list \<Rightarrow> tifs_hash \<Rightarrow> u64" where
  "counts decs h = (case map_of decs h of Some n \<Rightarrow> n | None \<Rightarrow> 0)"

lemma count_decrements_spec:
  assumes "\<forall>p \<in> set prev. length (snd p) = n" and "distinct (map fst decs)"
  shows "\<exists>decs'. count_decrements n prev decs = Inr decs' \<and> distinct (map fst decs')
    \<and> (\<forall>h. counts decs' h = counts decs h + of_nat (occurrences prev h))
    \<and> fst ` set decs' = fst ` set decs \<union> snd ` set prev"
  using assms
proof (induction n prev decs rule: count_decrements.induct)
  case (2 n k hash prev decs)
  let ?decs = "map_insert hash (counts decs hash + 1) decs"
  have "counts ?decs h = counts decs h + (if h = hash then 1 else 0)" for h
    by (simp add: counts_def map_of_map_insert)
  moreover have "fst ` set ?decs = insert hash (fst ` set decs)" using map_insert_keys by (metis set_map)
  moreover have "count_decrements n ((k, hash) # prev) decs = count_decrements n prev ?decs"
    using 2 by (simp add: counts_def Let_def)
  moreover have "distinct (map fst ?decs)" using 2 by (simp add: distinct_map_insert)
  ultimately show ?case
    using 2 by (auto simp: occurrences_def counts_def Let_def)
qed (simp add: occurrences_def)

lemma count_decrements_wrong_length:
  "\<exists>p \<in> set prev. length (snd p) \<noteq> n \<Longrightarrow>
   count_decrements n prev decs = Inl (Serialize ''hash'' ''BIN'' ''hash length mismatch.'')"
  by (induction n prev decs rule: count_decrements.induct) (auto simp: Let_def)

section \<open>References\<close>

definition refs_of :: "'w txn_with_config \<Rightarrow> kv \<Rightarrow> tifs_hash \<Rightarrow> block_address set" where
  "refs_of X d h = {a. block_hash_at X d a = Some h}"

abbreviation hash_ok :: "'w txn_with_config \<Rightarrow> tifs_hash \<Rightarrow> bool" where
  "hash_ok X h \<equiv> length h = cfg_hash_len (tx_fs_config X)"

text \<open>The content differs in the counters of the given hashes only.\<close>

definition set_counters :: "'w txn_with_config \<Rightarrow> (tifs_hash \<times> nat) list \<Rightarrow> kv \<Rightarrow> kv" where
  "set_counters X cs d = fold (\<lambda>(h, n) d. d(fs_key (tx_fs_config X) (LK_HashedBlockMeta h CCountedNamedUsages)
      \<mapsto> ext_big_enc (tx_ext X) n)) cs d"

definition incremented :: "'w txn_with_config \<Rightarrow> (tifs_hash \<times> u64) list \<Rightarrow> kv \<Rightarrow> kv" where
  "incremented X blocks d = set_counters X (map (\<lambda>(h, c). (h, unat c + ref_count X d h)) blocks) d"

text \<open>The mutations of a decrement, on the counters of \<open>d0\<close>.\<close>

definition decremented :: "'w txn_with_config \<Rightarrow> kv \<Rightarrow> (tifs_hash \<times> u64) list \<Rightarrow> kv \<Rightarrow> kv" where
  "decremented X d0 decs d = fold (\<lambda>(h, n) d.
      if ref_count X d0 h \<le> unat n
      then d(fs_key (tx_fs_config X) (LK_HashedBlockMeta h CCountedNamedUsages) := None,
             fs_key (tx_fs_config X) (LK_HashedBlock h) := None)
      else d(fs_key (tx_fs_config X) (LK_HashedBlockMeta h CCountedNamedUsages)
               \<mapsto> ext_big_enc (tx_ext X) (ref_count X d0 h - unat n))) decs d"

definition address_map :: "'w txn_with_config \<Rightarrow> (block_address \<times> tifs_hash option) list \<Rightarrow> kv \<Rightarrow> kv" where
  "address_map X addrs d = fold (\<lambda>(a, h) d. d(fs_key (tx_fs_config X) (LK_BlockHash a) := h)) addrs d"

text \<open>How many of the addresses referred to a hash.\<close>

definition replaced :: "'w txn_with_config \<Rightarrow> kv \<Rightarrow> block_address list \<Rightarrow> tifs_hash \<Rightarrow> nat" where
  "replaced X v as h = card {a \<in> set as. block_hash_at X v a = Some h}"

context fs_store
begin

lemma set_counters_other:
  assumes "\<forall>(h, n) \<in> set cs. hash_ok X h" and "key_ok (tx_fs_config X) lk"
    and "\<forall>h \<in> fst ` set cs. lk \<noteq> LK_HashedBlockMeta h CCountedNamedUsages"
  shows "set_counters X cs d (K lk) = d (K lk)"
  using assms by (induction cs arbitrary: d) (auto simp: set_counters_def)

lemma set_counters_counter:
  assumes "\<forall>(h, n) \<in> set cs. hash_ok X h" and "distinct (map fst cs)" and "hash_ok X h"
  shows "ref_count X (set_counters X cs d) h = (case map_of cs h of Some n \<Rightarrow> n | None \<Rightarrow> ref_count X d h)"
  using assms
proof (induction cs arbitrary: d)
  case (Cons p cs)
  obtain h' n where p: "p = (h', n)" by (cases p)
  let ?d = "d(K (LK_HashedBlockMeta h' CCountedNamedUsages) \<mapsto> ext_big_enc (tx_ext X) n)"
  have step: "set_counters X (p # cs) d = set_counters X cs ?d" by (simp add: set_counters_def p)
  have "ref_count X ?d h = (if h = h' then n else ref_count X d h)"
    using Cons.prems p by (simp add: ref_count_def)
  moreover have "map_of cs h' = None" using Cons.prems(2) p by (simp add: map_of_eq_None_iff)
  moreover have "ref_count X (set_counters X cs ?d) h = (case map_of cs h of Some n \<Rightarrow> n | None \<Rightarrow> ref_count X ?d h)"
    by (rule Cons.IH) (use Cons.prems p in auto)
  ultimately show ?case unfolding step by (auto simp: p split: option.split)
qed (simp add: set_counters_def)

lemma map_of_map_snd: "map_of (map (\<lambda>(h, c). (h, f h c)) xs) h = map_option (f h) (map_of xs h)"
  by (induction xs) auto

lemma incremented_counter:
  assumes "\<forall>(h, c) \<in> set blocks. hash_ok X h" and "distinct (map fst blocks)" and "hash_ok X h"
  shows "ref_count X (incremented X blocks d) h = ref_count X d h + unat (counts blocks h)"
proof -
  let ?cs = "map (\<lambda>(h, c). (h, unat c + ref_count X d h)) blocks"
  have keys: "map fst ?cs = map fst blocks" by (induction blocks) auto
  have "ref_count X (set_counters X ?cs d) h = (case map_of ?cs h of Some n \<Rightarrow> n | None \<Rightarrow> ref_count X d h)"
    by (rule set_counters_counter) (use assms in \<open>auto simp only: keys set_map image_iff split: prod.splits\<close>)
  then show ?thesis
    unfolding incremented_def map_of_map_snd [where f = "\<lambda>h c. unat c + ref_count X d h"]
    by (cases "map_of blocks h") (simp_all add: counts_def)
qed

lemma incremented_other:
  assumes "\<forall>(h, c) \<in> set blocks. hash_ok X h" and "key_ok (tx_fs_config X) lk"
    and "\<forall>h. lk \<noteq> LK_HashedBlockMeta h CCountedNamedUsages"
  shows "incremented X blocks d (K lk) = d (K lk)"
  unfolding incremented_def by (rule set_counters_other) (use assms in auto)

text \<open>Reading the counters.\<close>

lemma parsed_counters:
  assumes "\<forall>h \<in> set hs. hash_ok X h" and "batch_answer v (map (counter_key (tx_fs_config X)) hs) kvs"
  shows "map_of (rev (parse_counters (tx_fs_config X) (tx_ext X) kvs)) h = Some n
    \<longleftrightarrow> h \<in> set hs \<and> (\<exists>b. v (K (LK_HashedBlockMeta h CCountedNamedUsages)) = Some b \<and> n = ext_big_dec (tx_ext X) b)"
proof (rule map_of_functional)
  have kvs: "set kvs = {(k, b). (\<exists>h \<in> set hs. k = K (LK_HashedBlockMeta h CCountedNamedUsages)) \<and> v k = Some b}"
    using assms(2) unfolding batch_answer_def to_fs_key by auto
  have parse: "(case bind_result (key_parser_b (tx_fs_config X) (K (LK_HashedBlockMeta h CCountedNamedUsages))) parse_hash of
      Inl _ \<Rightarrow> None | Inr (_, hash) \<Rightarrow> Some (hash, m)) = Some (h, m)" if "h \<in> set hs" for h and m :: nat
    using parse_counter_key [of h "tx_fs_config X" CCountedNamedUsages] assms(1) that by auto
  show "set (rev (parse_counters (tx_fs_config X) (tx_ext X) kvs)) = {(h, n). h \<in> set hs
      \<and> (\<exists>b. v (K (LK_HashedBlockMeta h CCountedNamedUsages)) = Some b \<and> n = ext_big_dec (tx_ext X) b)}"
    (is "_ = ?rhs")
  proof (intro equalityI subsetI)
    fix p assume "p \<in> set (rev (parse_counters (tx_fs_config X) (tx_ext X) kvs))"
    then obtain k b where kb: "(k, b) \<in> set kvs" and p: "(case bind_result (key_parser_b (tx_fs_config X) k) parse_hash of
        Inl _ \<Rightarrow> None | Inr (_, hash) \<Rightarrow> Some (hash, ext_big_dec (tx_ext X) b)) = Some p"
      by (auto simp: parse_counters_def map_filter_def)
    from kb kvs obtain h where "h \<in> set hs" "k = K (LK_HashedBlockMeta h CCountedNamedUsages)" "v k = Some b" by auto
    with p parse [of h "ext_big_dec (tx_ext X) b"] show "p \<in> ?rhs" by auto
  next
    fix p assume "p \<in> ?rhs"
    then obtain h b where h: "h \<in> set hs" "v (K (LK_HashedBlockMeta h CCountedNamedUsages)) = Some b"
      "p = (h, ext_big_dec (tx_ext X) b)" by auto
    then have "(K (LK_HashedBlockMeta h CCountedNamedUsages), b) \<in> set kvs" using kvs by auto
    with parse [OF h(1), of "ext_big_dec (tx_ext X) b"] h(3)
    show "p \<in> set (rev (parse_counters (tx_fs_config X) (tx_ext X) kvs))"
      by (force simp: parse_counters_def map_filter_def)
  qed
qed auto

lemma counter_or_zero_parsed:
  assumes "\<forall>h \<in> set hs. hash_ok X h" and "batch_answer v (map (counter_key (tx_fs_config X)) hs) kvs" and "h \<in> set hs"
  shows "counter_or_zero (map_of (rev (parse_counters (tx_fs_config X) (tx_ext X) kvs))) h = ref_count X v h"
proof -
  note p = parsed_counters [OF assms(1,2), of h]
  show ?thesis
  proof (cases "v (K (LK_HashedBlockMeta h CCountedNamedUsages))")
    case None
    with p have "map_of (rev (parse_counters (tx_fs_config X) (tx_ext X) kvs)) h = None"
      by (metis option.exhaust option.simps(3))
    with None show ?thesis by (simp add: counter_or_zero_def ref_count_def)
  next
    case (Some b)
    with p [of "ext_big_dec (tx_ext X) b"] assms(3) show ?thesis by (simp add: counter_or_zero_def ref_count_def)
  qed
qed

section \<open>The operations on counters and addresses\<close>

lemma increment_mutations:
  assumes "\<forall>(h, c) \<in> set blocks. counter_or_zero prev h = ref_count X v h"
  shows "apply_mutations (map (\<lambda>(h, c). MutPut (counter_key (tx_fs_config X) h)
      (ext_big_enc (tx_ext X) (unat c + counter_or_zero prev h))) blocks) d
    = set_counters X (map (\<lambda>(h, c). (h, unat c + ref_count X v h)) blocks) d"
  using assms by (induction blocks arbitrary: d) (auto simp: set_counters_def to_fs_key)

lemma increment_wp:
  assumes ok: "\<forall>(h, c) \<in> set blocks. hash_ok X h"
  shows "wp (hb_increment_blocks_reference_count X blocks)
     (\<lambda>prev v'. distinct (map fst prev) \<and> (\<forall>h. counter_or_zero (map_of prev) h = (if h \<in> fst ` set blocks then ref_count X v h else 0))
        \<and> v' = incremented X blocks v)
     (\<lambda>_. False) v"
  unfolding hb_increment_blocks_reference_count_def Let_def txn
proof (rule wp_and_then, rule wp_batch_get_for_update)
  fix kvs assume answer: "batch_answer v (map (\<lambda>(h, c). counter_key (tx_fs_config X) h) blocks) kvs"
  let ?prev = "map_collect (parse_counters (tx_fs_config X) (tx_ext X) kvs)"
  let ?hs = "map fst blocks"
  have keys: "map (\<lambda>(h, c). counter_key (tx_fs_config X) h) blocks = map (counter_key (tx_fs_config X)) ?hs"
    by (induction blocks) auto
  have hs: "\<forall>h \<in> set ?hs. hash_ok X h" using ok by auto
  have prev: "counter_or_zero (map_of ?prev) h = ref_count X v h" if "h \<in> fst ` set blocks" for h
    unfolding map_of_map_collect by (rule counter_or_zero_parsed [OF hs answer [unfolded keys]]) (use that in simp)
  have none: "counter_or_zero (map_of ?prev) h = 0" if "h \<notin> fst ` set blocks" for h
    using parsed_counters [OF hs answer [unfolded keys], of h] that
    unfolding map_of_map_collect by (cases "map_of (rev (parse_counters (tx_fs_config X) (tx_ext X) kvs)) h") (auto simp: counter_or_zero_def)
  have "\<forall>(h, c) \<in> set blocks. counter_or_zero (map_of ?prev) h = ref_count X v h"
  proof
    fix p assume "p \<in> set blocks"
    then have "fst p \<in> fst ` set blocks" by simp
    then show "case p of (h, c) \<Rightarrow> counter_or_zero (map_of ?prev) h = ref_count X v h" using prev by (cases p) auto
  qed
  then have "apply_mutations (map (\<lambda>(h, c). MutPut (counter_key (tx_fs_config X) h)
      (ext_big_enc (tx_ext X) (unat c + counter_or_zero (map_of ?prev) h))) blocks) v = incremented X blocks v"
    unfolding incremented_def by (rule increment_mutations)
  with prev none show "wp (and_then (lift_tikv (tk_batch_mutate T (map (\<lambda>(h, c). MutPut (counter_key (tx_fs_config X) h)
      (ext_big_enc (tx_ext X) (unat c + counter_or_zero (map_of ?prev) h))) blocks))) (\<lambda>_. ret ?prev))
     (\<lambda>prev v'. distinct (map fst prev) \<and> (\<forall>h. counter_or_zero (map_of prev) h = (if h \<in> fst ` set blocks then ref_count X v h else 0))
        \<and> v' = incremented X blocks v) (\<lambda>_. False) v"
    by (auto intro!: wp_and_then wp_batch_mutate wp_ret)
qed

lemma address_mutations:
  "apply_mutations (map (\<lambda>(addr, new_hash). case new_hash of
      Some hash \<Rightarrow> MutPut (block_hash (tx_kb X) addr) hash
    | None \<Rightarrow> MutDelete (block_hash (tx_kb X) addr)) addrs) d = address_map X addrs d"
  by (induction addrs arbitrary: d) (auto simp: address_map_def to_fs_key split: option.splits)

lemma occurrences_replaced:
  assumes "batch_answer v (map (\<lambda>a. K (LK_BlockHash a)) as) kvs"
  shows "occurrences kvs h = replaced X v as h"
proof -
  have dist: "distinct (map fst kvs)" and kvs: "set kvs = {(k, b). (\<exists>a \<in> set as. k = K (LK_BlockHash a)) \<and> v k = Some b}"
    using assms by (auto simp: batch_answer_def)
  from dist have "distinct (filter (\<lambda>p. snd p = h) kvs)" by (simp add: distinct_map)
  then have "occurrences kvs h = card (set (filter (\<lambda>p. snd p = h) kvs))"
    unfolding occurrences_def by (rule distinct_card [symmetric])
  also have "set (filter (\<lambda>p. snd p = h) kvs)
      = (\<lambda>a. (K (LK_BlockHash a), h)) ` {a \<in> set as. block_hash_at X v a = Some h}"
    by (auto simp: kvs block_hash_at_def)
  also have "card \<dots> = replaced X v as h"
    unfolding replaced_def by (rule card_image) (simp add: inj_on_def)
  finally show ?thesis .
qed

lemma replace_wp:
  assumes lengths: "\<forall>a h. block_hash_at X v a = Some h \<longrightarrow> hash_ok X h"
  shows "wp (hb_replace_block_hash_for_address_no_size_update X addrs)
     (\<lambda>decs v'. v' = address_map X addrs v \<and> distinct (map fst decs) \<and> (\<forall>h \<in> fst ` set decs. hash_ok X h)
        \<and> (\<forall>h. counts decs h = of_nat (replaced X v (map fst addrs) h)))
     (\<lambda>_. False) v"
  (is "wp _ ?Q ?E v")
proof (cases "addrs = []")
  case True
  then show ?thesis
    by (auto simp: hb_replace_block_hash_for_address_no_size_update_def address_map_def counts_def replaced_def
        intro!: wp_ret)
next
  case False
  have keys: "map (\<lambda>(addr, _). block_hash (tx_kb X) addr) addrs = map (\<lambda>a. K (LK_BlockHash a)) (map fst addrs)"
    by (auto simp: to_fs_key)
  have count: "case count_decrements (cfg_hash_len (tx_fs_config X)) kvs [] of
      Inr decs \<Rightarrow> ?Q decs (address_map X addrs v) | Inl e \<Rightarrow> ?E e"
    if answer: "batch_answer v (map (\<lambda>a. K (LK_BlockHash a)) (map fst addrs)) kvs" for kvs
  proof -
    have "\<forall>p \<in> set kvs. hash_ok X (snd p)"
      using answer lengths by (auto simp: batch_answer_def block_hash_at_def)
    from count_decrements_spec [OF this, of "[]"] occurrences_replaced [OF answer] this
    show ?thesis by (auto simp: counts_def)
  qed
  from False show ?thesis
    unfolding hb_replace_block_hash_for_address_no_size_update_def Let_def txn
    by (simp only: keys length_0_conv if_False)
      (intro wp_and_then wp_batch_get wp_batch_mutate wp_of_result, simp only: address_mutations, rule count)
qed

lemma decremented_other:
  assumes "\<forall>(h, n) \<in> set decs. hash_ok X h" and "key_ok (tx_fs_config X) lk"
    and "\<forall>h \<in> fst ` set decs. lk \<noteq> LK_HashedBlockMeta h CCountedNamedUsages \<and> lk \<noteq> LK_HashedBlock h"
  shows "decremented X d0 decs d (K lk) = d (K lk)"
  using assms by (induction decs arbitrary: d) (auto simp: decremented_def)

lemma decremented_Cons:
  "decremented X d0 ((h, n) # decs) d = decremented X d0 decs (decremented X d0 [(h, n)] d)"
  by (simp add: decremented_def)

lemma decremented_one:
  assumes "hash_ok X h"
  shows "ref_count X (decremented X d0 [(h, n)] d) h = ref_count X d0 h - unat n"
    and "block_data_of X (decremented X d0 [(h, n)] d) h =
      (if ref_count X d0 h \<le> unat n then None else block_data_of X d h)"
proof -
  show "ref_count X (decremented X d0 [(h, n)] d) h = ref_count X d0 h - unat n"
    using assms by (cases "ref_count X d0 h \<le> unat n") (simp_all add: decremented_def ref_count_def [of X "_(_ := _)"])
  show "block_data_of X (decremented X d0 [(h, n)] d) h =
      (if ref_count X d0 h \<le> unat n then None else block_data_of X d h)"
    using assms by (simp add: block_data_of_def decremented_def)
qed

lemma decremented_view:
  assumes "\<forall>(h, n) \<in> set decs. hash_ok X h" and "distinct (map fst decs)" and "hash_ok X h"
  shows "ref_count X (decremented X d0 decs d) h =
      (if h \<in> fst ` set decs then ref_count X d0 h - unat (counts decs h) else ref_count X d h)
    \<and> block_data_of X (decremented X d0 decs d) h =
      (if h \<in> fst ` set decs \<and> ref_count X d0 h \<le> unat (counts decs h) then None else block_data_of X d h)"
  using assms(1,2)
proof (induction decs arbitrary: d)
  case (Cons p decs)
  obtain h' n where p: "p = (h', n)" by (cases p)
  let ?d = "decremented X d0 [(h', n)] d"
  have ok: "hash_ok X h'" and rest: "\<forall>(h, n) \<in> set decs. hash_ok X h" "distinct (map fst decs)" "h' \<notin> fst ` set decs"
    using Cons.prems p by auto
  have other: "ref_count X ?d h = ref_count X d h" "block_data_of X ?d h = block_data_of X d h" if "h \<noteq> h'"
    using decremented_other [of "[(h', n)]" _ d0 d] ok assms(3) that by (simp_all add: ref_count_def block_data_of_def)
  have cnt: "counts (p # decs) h = (if h = h' then n else counts decs h)" by (simp add: counts_def p)
  have step: "decremented X d0 (p # decs) d = decremented X d0 decs ?d" unfolding p by (rule decremented_Cons)
  show ?case
  proof (cases "h = h'")
    case True
    then show ?thesis
      using Cons.IH [OF rest(1,2), of ?d] rest(3) decremented_one [OF ok, of d0 n d]
      unfolding step cnt by (simp add: p)
  next
    case False
    then show ?thesis
      using Cons.IH [OF rest(1,2), of ?d] other unfolding step cnt by (simp add: p)
  qed
qed (simp add: decremented_def)

lemma decrement_entry:
  assumes "counter_or_zero prev h = ref_count X v h"
  shows "apply_mutations (decrement_mutations (tx_fs_config X) (tx_ext X) prev (h, n)) d = decremented X v [(h, n)] d"
  using assms by (auto simp: decrement_mutations_def Let_def decremented_def to_fs_key)

lemma decrement_all:
  assumes "\<forall>(h, n) \<in> set decs. counter_or_zero prev h = ref_count X v h"
  shows "apply_mutations (concat (map (decrement_mutations (tx_fs_config X) (tx_ext X) prev) decs)) d
    = decremented X v decs d"
  using assms
proof (induction decs arbitrary: d)
  case (Cons p decs)
  obtain h n where "p = (h, n)" by (cases p)
  with Cons decrement_entry [of prev h v n d] decremented_Cons [of v h n decs d] show ?case by simp
qed (simp add: decremented_def)

lemma decrement_wp:
  assumes ok: "\<forall>(h, n) \<in> set decs. hash_ok X h"
  shows "wp (hb_decrement_blocks_reference_count_and_delete_if_zero_reached X decs)
     (\<lambda>_ v'. v' = decremented X v decs v) (\<lambda>_. False) v"
  unfolding hb_decrement_blocks_reference_count_and_delete_if_zero_reached_def Let_def txn
proof (rule wp_and_then, rule wp_batch_get)
  fix kvs assume answer: "batch_answer v (map (\<lambda>(h, dec). counter_key (tx_fs_config X) h) decs) kvs"
  let ?prev = "map_of (rev (parse_counters (tx_fs_config X) (tx_ext X) kvs))"
  have keys: "map (\<lambda>(h, dec). counter_key (tx_fs_config X) h) decs = map (counter_key (tx_fs_config X)) (map fst decs)"
    by (induction decs) auto
  have hs: "\<forall>h \<in> set (map fst decs). hash_ok X h" using ok by auto
  have "\<forall>(h, n) \<in> set decs. counter_or_zero ?prev h = ref_count X v h"
  proof
    fix p assume "p \<in> set decs"
    then have "fst p \<in> set (map fst decs)" by simp
    from counter_or_zero_parsed [OF hs answer [unfolded keys] this]
    show "case p of (h, n) \<Rightarrow> counter_or_zero ?prev h = ref_count X v h" by (cases p) simp
  qed
  from decrement_all [OF this, of v]
  show "wp (lift_tikv (tk_batch_mutate T (concat (map (decrement_mutations (tx_fs_config X) (tx_ext X) ?prev) decs))))
     (\<lambda>_ v'. v' = decremented X v decs v) (\<lambda>_. False) v"
    by (intro wp_batch_mutate) simp
qed

end

section \<open>The invariant of the block store\<close>

text \<open>
  Counters bound the references, referenced blocks exist, and the data of a block has the hash
  under which it is stored. In a state without interrupted writes, moreover, every block with a
  positive counter exists.
\<close>

definition refs_bounded :: "'w txn_with_config \<Rightarrow> kv \<Rightarrow> bool" where
  "refs_bounded X d \<longleftrightarrow> (\<forall>h. hash_ok X h \<longrightarrow> card (refs_of X d h) \<le> ref_count X d h)"

definition blocks_present :: "'w txn_with_config \<Rightarrow> kv \<Rightarrow> bool" where
  "blocks_present X d \<longleftrightarrow> (\<forall>a h. block_hash_at X d a = Some h \<longrightarrow> block_data_of X d h \<noteq> None)"

definition blocks_sound :: "'w txn_with_config \<Rightarrow> kv \<Rightarrow> bool" where
  "blocks_sound X d \<longleftrightarrow> (\<forall>h b. hash_ok X h \<longrightarrow> block_data_of X d h = Some b
     \<longrightarrow> calculate_hash (ext_digests (tx_ext X)) (tx_fs_config X) b = h)"

definition block_inv :: "'w txn_with_config \<Rightarrow> kv \<Rightarrow> bool" where
  "block_inv X d \<longleftrightarrow> store_ok X d \<and> refs_bounded X d \<and> blocks_present X d \<and> blocks_sound X d"

definition counted_present :: "'w txn_with_config \<Rightarrow> kv \<Rightarrow> bool" where
  "counted_present X d \<longleftrightarrow> (\<forall>h. hash_ok X h \<longrightarrow> 0 < ref_count X d h \<longrightarrow> block_data_of X d h \<noteq> None)"

text \<open>Two contents with the same block maps, counters and blocks.\<close>

definition blocks_same :: "'w txn_with_config \<Rightarrow> kv \<Rightarrow> kv \<Rightarrow> bool" where
  "blocks_same X d d' \<longleftrightarrow> (\<forall>a. block_hash_at X d' a = block_hash_at X d a)
     \<and> (\<forall>h. hash_ok X h \<longrightarrow> ref_count X d' h = ref_count X d h \<and> block_data_of X d' h = block_data_of X d h)"

text \<open>Counters are exact: no reference is counted that does not exist.\<close>

definition refs_exact :: "'w txn_with_config \<Rightarrow> kv \<Rightarrow> bool" where
  "refs_exact X d \<longleftrightarrow> (\<forall>h. hash_ok X h \<longrightarrow> card (refs_of X d h) = ref_count X d h)"

context fs_store
begin

lemma refs_finite: "store_ok X d \<Longrightarrow> finite (refs_of X d h)"
proof -
  assume "store_ok X d"
  then have "finite (dom d)" by (simp add: store_ok_def)
  moreover have "(\<lambda>a. K (LK_BlockHash a)) ` refs_of X d h \<subseteq> dom d"
    by (auto simp: refs_of_def block_hash_at_def)
  ultimately have "finite ((\<lambda>a. K (LK_BlockHash a)) ` refs_of X d h)" by (rule rev_finite_subset)
  then show ?thesis by (rule finite_imageD) (simp add: inj_on_def)
qed

lemma block_hash_at_address_map:
  assumes "distinct (map fst addrs)"
  shows "block_hash_at X (address_map X addrs d) a =
    (case map_of addrs a of Some h \<Rightarrow> h | None \<Rightarrow> block_hash_at X d a)"
  using assms
proof (induction addrs arbitrary: d)
  case (Cons p addrs)
  obtain a' h where p: "p = (a', h)" by (cases p)
  have "address_map X (p # addrs) d = address_map X addrs (d(K (LK_BlockHash a') := h))"
    by (simp add: address_map_def p)
  moreover have "block_hash_at X (d(K (LK_BlockHash a') := h)) a = (if a = a' then h else block_hash_at X d a)"
    by (simp add: block_hash_at_def)
  moreover have "map_of addrs a' = None" using Cons.prems p by (simp add: map_of_eq_None_iff)
  ultimately show ?case using Cons.IH Cons.prems p by (auto split: option.split)
qed (simp add: address_map_def)

lemma address_map_other:
  "key_ok (tx_fs_config X) lk \<Longrightarrow> \<forall>a. lk \<noteq> LK_BlockHash a \<Longrightarrow> address_map X addrs d (K lk) = d (K lk)"
  by (induction addrs arbitrary: d) (auto simp: address_map_def)

text \<open>References are conserved: what an address loses and gains.\<close>

lemma refs_card_address_map:
  assumes ok: "store_ok X d" and dist: "distinct (map fst addrs)"
  shows "card (refs_of X (address_map X addrs d) h) + replaced X d (map fst addrs) h
    = card (refs_of X d h) + card {a. map_of addrs a = Some (Some h)}"
proof -
  let ?A = "set (map fst addrs)" and ?new = "{a. map_of addrs a = Some (Some h)}"
  have fin: "finite (refs_of X d h)" by (rule refs_finite [OF ok])
  have dom: "?A = dom (map_of addrs)" by (simp add: dom_map_of_conv_image_fst)
  have new: "?new \<subseteq> ?A" unfolding dom by auto
  then have fin_new: "finite ?new" by (rule finite_subset) simp
  have "refs_of X (address_map X addrs d) h = (refs_of X d h - ?A) \<union> ?new"
    unfolding refs_of_def block_hash_at_address_map [OF dist] dom by (auto split: option.splits)
  then have "card (refs_of X (address_map X addrs d) h) = card (refs_of X d h - ?A) + card ?new"
    using card_Un_disjoint [of "refs_of X d h - ?A" ?new] fin fin_new new by auto
  moreover have "replaced X d (map fst addrs) h = card (refs_of X d h \<inter> ?A)"
    unfolding replaced_def refs_of_def by (rule arg_cong [where f = card]) auto
  moreover have "card (refs_of X d h - ?A) + card (refs_of X d h \<inter> ?A) = card (refs_of X d h)"
    using card_Diff_subset_Int [of "refs_of X d h" ?A] fin card_mono [of "refs_of X d h" "refs_of X d h \<inter> ?A"] by simp
  ultimately show ?thesis by simp
qed

text \<open>Well-formed contents stay well-formed.\<close>

lemma store_ok_upd:
  assumes "store_ok X d" and "key_ok (tx_fs_config X) lk"
    and "\<forall>a h. lk = LK_BlockHash a \<longrightarrow> y = Some h \<longrightarrow> hash_ok X h"
  shows "store_ok X (d(K lk := y))"
proof -
  have "dom (d(K lk := y)) \<subseteq> insert (K lk) (dom d)" by auto
  then have "finite (dom (d(K lk := y)))" using assms(1) by (auto simp: store_ok_def intro: finite_subset)
  moreover have "\<exists>lk'. key_ok (tx_fs_config X) lk' \<and> k = K lk'" if "k \<in> dom (d(K lk := y))" for k
    using that assms(1,2) unfolding store_ok_def by (cases "k = K lk") (auto split: if_splits)
  moreover have "hash_ok X h" if "block_hash_at X (d(K lk := y)) a = Some h" for a h
    using that assms unfolding store_ok_def block_hash_at_def by (cases "lk = LK_BlockHash a") auto
  ultimately show ?thesis by (simp add: store_ok_def)
qed

lemma store_ok_set_counters:
  "store_ok X d \<Longrightarrow> \<forall>(h, n) \<in> set cs. hash_ok X h \<Longrightarrow> store_ok X (set_counters X cs d)"
  unfolding set_counters_def
  by (rule fold_invariant [where P = "store_ok X" and Q = "\<lambda>(h, n). hash_ok X h"]) (auto intro!: store_ok_upd)

lemma store_ok_incremented: "store_ok X d \<Longrightarrow> \<forall>(h, n) \<in> set blocks. hash_ok X h \<Longrightarrow> store_ok X (incremented X blocks d)"
  unfolding incremented_def by (rule store_ok_set_counters) auto

lemma store_ok_decremented:
  "store_ok X d \<Longrightarrow> \<forall>(h, n) \<in> set decs. hash_ok X h \<Longrightarrow> store_ok X (decremented X d0 decs d)"
  unfolding decremented_def
  by (rule fold_invariant [where P = "store_ok X" and Q = "\<lambda>(h, n). hash_ok X h"]) (auto intro!: store_ok_upd)

lemma store_ok_address_map:
  "store_ok X d \<Longrightarrow> \<forall>(a, h) \<in> set addrs. \<forall>h'. h = Some h' \<longrightarrow> hash_ok X h' \<Longrightarrow> store_ok X (address_map X addrs d)"
  unfolding address_map_def
  by (rule fold_invariant [where P = "store_ok X" and Q = "\<lambda>(a, h). \<forall>h'. h = Some h' \<longrightarrow> hash_ok X h'"]) (auto intro!: store_ok_upd)

text \<open>The invariant through the steps of a write.\<close>

lemma store_ok_hash: "store_ok X d \<Longrightarrow> block_hash_at X d a = Some h \<Longrightarrow> hash_ok X h"
  by (simp add: store_ok_def)

lemma blocks_same_inv: "blocks_same X d d' \<Longrightarrow> store_ok X d' \<Longrightarrow> block_inv X d \<Longrightarrow> block_inv X d'"
  by (auto simp: blocks_same_def block_inv_def refs_bounded_def blocks_present_def blocks_sound_def refs_of_def
      dest: store_ok_hash)

lemma blocks_same_counted: "blocks_same X d d' \<Longrightarrow> counted_present X d \<Longrightarrow> counted_present X d'"
  by (simp add: blocks_same_def counted_present_def)

lemma refs_of_incremented:
  "\<forall>(h, c) \<in> set blocks. hash_ok X h \<Longrightarrow> block_hash_at X (incremented X blocks d) a = block_hash_at X d a"
  "\<forall>(h, c) \<in> set blocks. hash_ok X h \<Longrightarrow> hash_ok X h' \<Longrightarrow> block_data_of X (incremented X blocks d) h' = block_data_of X d h'"
  by (simp_all add: block_hash_at_def block_data_of_def incremented_other)

lemma block_inv_incremented:
  assumes inv: "block_inv X d" and ok: "\<forall>(h, c) \<in> set blocks. hash_ok X h" and dist: "distinct (map fst blocks)"
  shows "block_inv X (incremented X blocks d)"
  unfolding block_inv_def
proof (intro conjI)
  let ?d = "incremented X blocks d"
  have so: "store_ok X d" using inv by (simp add: block_inv_def)
  show "store_ok X ?d" by (rule store_ok_incremented [OF so ok])
  show "refs_bounded X ?d"
    using inv incremented_counter [OF ok dist, of _ d] unfolding refs_bounded_def block_inv_def refs_of_def refs_of_incremented(1) [OF ok]
    by (auto intro: trans_le_add1)
  show "blocks_present X ?d"
    using inv store_ok_hash [OF so] refs_of_incremented [OF ok] unfolding blocks_present_def block_inv_def by auto
  show "blocks_sound X ?d"
    using inv refs_of_incremented(2) [OF ok] unfolding blocks_sound_def block_inv_def by auto
qed

lemma block_inv_upload:
  assumes inv: "block_inv X d" and ok: "hash_ok X h"
    and hash: "calculate_hash (ext_digests (tx_ext X)) (tx_fs_config X) b = h"
  shows "block_inv X (d(K (LK_HashedBlock h) \<mapsto> b))"
proof -
  let ?d = "d(K (LK_HashedBlock h) \<mapsto> b)"
  have so: "store_ok X d" using inv by (simp add: block_inv_def)
  have "block_hash_at X ?d a = block_hash_at X d a" for a using ok by (simp add: block_hash_at_def)
  moreover have "ref_count X ?d h' = ref_count X d h'" if "hash_ok X h'" for h'
    using ok that by (simp add: ref_count_def)
  moreover have "block_data_of X ?d h' = (if h' = h then Some b else block_data_of X d h')" if "hash_ok X h'" for h'
    using ok that by (simp add: block_data_of_def)
  moreover have "store_ok X ?d" by (rule store_ok_upd) (use so ok in auto)
  ultimately show ?thesis
    using inv hash store_ok_hash [OF so]
    by (auto simp: block_inv_def refs_bounded_def blocks_present_def blocks_sound_def refs_of_def)
qed

lemma block_inv_address_map:
  assumes inv: "block_inv X d" and dist: "distinct (map fst addrs)"
    and ok: "\<forall>(a, h) \<in> set addrs. \<forall>h'. h = Some h' \<longrightarrow> hash_ok X h'"
    and reserved: "\<forall>h. hash_ok X h \<longrightarrow>
      card (refs_of X d h) + card {a. map_of addrs a = Some (Some h)} \<le> ref_count X d h"
    and present: "\<forall>(a, h) \<in> set addrs. \<forall>h'. h = Some h' \<longrightarrow> block_data_of X d h' \<noteq> None"
  shows "block_inv X (address_map X addrs d)"
    and "\<forall>h. hash_ok X h \<longrightarrow> card (refs_of X (address_map X addrs d) h) + replaced X d (map fst addrs) h
      \<le> ref_count X (address_map X addrs d) h"
proof -
  let ?d = "address_map X addrs d"
  have so: "store_ok X d" using inv by (simp add: block_inv_def)
  have count: "ref_count X ?d h = ref_count X d h" "block_data_of X ?d h = block_data_of X d h" if "hash_ok X h" for h
    using that by (simp_all add: ref_count_def block_data_of_def address_map_other)
  show bound: "\<forall>h. hash_ok X h \<longrightarrow> card (refs_of X ?d h) + replaced X d (map fst addrs) h \<le> ref_count X ?d h"
    using reserved count refs_card_address_map [OF so dist] by simp
  then have "refs_bounded X ?d" by (auto simp: refs_bounded_def)
  moreover have "store_ok X ?d" by (rule store_ok_address_map [OF so ok])
  moreover have "blocks_present X ?d"
    unfolding blocks_present_def block_hash_at_address_map [OF dist]
  proof (intro allI impI)
    fix a h assume a: "(case map_of addrs a of Some h \<Rightarrow> h | None \<Rightarrow> block_hash_at X d a) = Some h"
    show "block_data_of X ?d h \<noteq> None"
    proof (cases "map_of addrs a")
      case None
      with a inv store_ok_hash [OF so] count(2) show ?thesis by (auto simp: block_inv_def blocks_present_def)
    next
      case (Some h')
      then have "(a, h') \<in> set addrs" by (rule map_of_SomeD)
      with a Some ok present count(2) show ?thesis by fastforce
    qed
  qed
  moreover have "blocks_sound X ?d" using inv count(2) by (auto simp: block_inv_def blocks_sound_def)
  ultimately show "block_inv X ?d" by (simp add: block_inv_def)
qed

lemma block_inv_decremented:
  assumes inv: "block_inv X d" and dist: "distinct (map fst decs)" and ok: "\<forall>(h, n) \<in> set decs. hash_ok X h"
    and enough: "\<forall>h. hash_ok X h \<longrightarrow> card (refs_of X d h) + unat (counts decs h) \<le> ref_count X d h"
  shows "block_inv X (decremented X d decs d)"
proof -
  let ?d = "decremented X d decs d"
  have so: "store_ok X d" using inv by (simp add: block_inv_def)
  have at: "block_hash_at X ?d a = block_hash_at X d a" for a
    using ok by (simp add: block_hash_at_def decremented_other)
  note view = decremented_view [OF ok dist, of _ d d]
  have zero: "counts decs h = 0" if "h \<notin> fst ` set decs" for h
    using that by (simp add: counts_def map_of_eq_None_iff split: option.splits) (metis domI dom_map_of_conv_image_fst)
  have "refs_bounded X ?d"
    unfolding refs_bounded_def refs_of_def at
  proof (intro allI impI)
    fix h assume h: "hash_ok X h"
    then show "card {a. block_hash_at X d a = Some h} \<le> ref_count X ?d h"
      using view [OF h] enough [rule_format, OF h] by (auto simp: refs_of_def)
  qed
  moreover have "blocks_present X ?d"
    unfolding blocks_present_def at
  proof (intro allI impI)
    fix a h assume a: "block_hash_at X d a = Some h"
    then have h: "hash_ok X h" and in_refs: "a \<in> refs_of X d h" using store_ok_hash [OF so] by (auto simp: refs_of_def)
    then have "0 < card (refs_of X d h)" using refs_finite [OF so, of h] by (auto simp: card_gt_0_iff)
    with enough h have "\<not> ref_count X d h \<le> unat (counts decs h)" by (auto simp: not_le dest: spec [of _ h])
    with view [OF h] inv a show "block_data_of X ?d h \<noteq> None" by (auto simp: block_inv_def blocks_present_def)
  qed
  moreover have "blocks_sound X ?d"
    using inv view unfolding blocks_sound_def block_inv_def by (auto split: if_splits)
  moreover have "store_ok X ?d" by (rule store_ok_decremented [OF so ok])
  ultimately show ?thesis by (simp add: block_inv_def)
qed

end

end
