(* ===== verification/Block_List_Facts.thy ===== *)
theory Block_List_Facts
  imports Block_Facts
begin

text \<open>
  Reading the block map of a file: the scan of a range of blocks returns exactly the hashes
  that are stored for the range, the loop over chunks ends and returns the same map, and the
  updates of the size record keep it consistent.
\<close>

section \<open>One range\<close>

definition range_map :: "'w txn_with_config \<Rightarrow> kv \<Rightarrow> storage_ino \<Rightarrow> block_index \<Rightarrow> block_index \<Rightarrow> block_index \<rightharpoonup> tifs_hash" where
  "range_map X d ino s e =
     (\<lambda>i. if s \<le> i \<and> i < e then block_hash_at X d \<lparr>ba_ino = ino, ba_index = i\<rparr> else None)"

lemma range_map_split:
  "s \<le> c \<Longrightarrow> c \<le> e \<Longrightarrow> range_map X d ino s c ++ range_map X d ino c e = range_map X d ino s e"
  by (rule ext) (auto simp: range_map_def map_add_def split: option.splits)

lemma range_map_empty: "\<not> s < e \<Longrightarrow> range_map X d ino s e = Map.empty"
  by (rule ext) (auto simp: range_map_def)

lemma block_index_less_iff: "(i :: block_index) < j \<longleftrightarrow> unat (block_raw i) < unat (block_raw j)"
  by (simp add: less_block_index_def word_less_nat_alt)

lemma block_index_le_iff: "(i :: block_index) \<le> j \<longleftrightarrow> unat (block_raw i) \<le> unat (block_raw j)"
  by (simp add: less_eq_block_index_def word_le_nat_alt)

lemma card_block_range: "card {i. s \<le> i \<and> i < e} \<le> unat (block_raw e) - unat (block_raw s)"
proof -
  have "(\<lambda>i. unat (block_raw i)) ` {i. s \<le> i \<and> i < e} \<subseteq> {unat (block_raw s) ..< unat (block_raw e)}"
    by (auto simp: block_index_less_iff block_index_le_iff)
  then have "card ((\<lambda>i. unat (block_raw i)) ` {i. s \<le> i \<and> i < e}) \<le> unat (block_raw e) - unat (block_raw s)"
    using card_mono [of "{unat (block_raw s) ..< unat (block_raw e)}"] by simp
  then show ?thesis by (subst (asm) card_image) (auto simp: inj_on_def word_unat_eq_iff [symmetric])
qed

lemma finite_block_index [simp]: "finite (A :: block_index set)"
proof (rule finite_imageD)
  show "finite (block_raw ` A)" by simp
  show "inj_on block_raw A" by (simp add: inj_on_def)
qed

context fs_store
begin

lemma range_keys:
  assumes "store_ok X v"
  shows "{k \<in> dom v. in_range (block_hash_range (tx_kb X) ino s e) k}
    = (\<lambda>i. K (LK_BlockHash \<lparr>ba_ino = ino, ba_index = i\<rparr>)) ` dom (range_map X v ino s e)"
proof -
  have "in_range (block_hash_range (tx_kb X) ino s e) (K lk)
      \<longleftrightarrow> (\<exists>i. lk = LK_BlockHash \<lparr>ba_ino = ino, ba_index = i\<rparr> \<and> s \<le> i \<and> i < e)" for lk
    using block_hash_range_iff by (simp add: fs_key_def key_builder_def)
  then have at: "in_range (block_hash_range (tx_kb X) ino s e) k
      \<longleftrightarrow> (\<exists>i. k = K (LK_BlockHash \<lparr>ba_ino = ino, ba_index = i\<rparr>) \<and> s \<le> i \<and> i < e)" if "k \<in> dom v" for k
    using that assms unfolding store_ok_def by metis
  show ?thesis
  proof (intro equalityI subsetI)
    fix k assume "k \<in> {k \<in> dom v. in_range (block_hash_range (tx_kb X) ino s e) k}"
    then have k: "k \<in> dom v" "in_range (block_hash_range (tx_kb X) ino s e) k" by simp_all
    with at obtain i where i: "k = K (LK_BlockHash \<lparr>ba_ino = ino, ba_index = i\<rparr>)" "s \<le> i" "i < e" by auto
    with k(1) have "i \<in> dom (range_map X v ino s e)" by (simp add: range_map_def block_hash_at_def dom_def)
    with i(1) show "k \<in> (\<lambda>i. K (LK_BlockHash \<lparr>ba_ino = ino, ba_index = i\<rparr>)) ` dom (range_map X v ino s e)" by simp
  next
    fix k assume "k \<in> (\<lambda>i. K (LK_BlockHash \<lparr>ba_ino = ino, ba_index = i\<rparr>)) ` dom (range_map X v ino s e)"
    then obtain i h where "k = K (LK_BlockHash \<lparr>ba_ino = ino, ba_index = i\<rparr>)" "range_map X v ino s e i = Some h" by auto
    then have i: "k = K (LK_BlockHash \<lparr>ba_ino = ino, ba_index = i\<rparr>)" "s \<le> i" "i < e" "k \<in> dom v"
      by (auto simp: range_map_def block_hash_at_def split: if_splits)
    with at [OF i(4)] show "k \<in> {k \<in> dom v. in_range (block_hash_range (tx_kb X) ino s e) k}" by auto
  qed
qed

lemma collected_hashes:
  assumes "\<forall>k \<in> set ks. \<exists>i. k = K (LK_BlockHash \<lparr>ba_ino = ino, ba_index = i\<rparr>)
    \<and> (\<exists>h. v k = Some h \<and> hash_ok X h)"
  shows "collect_block_hashes (tx_fs_config X) ino (map (\<lambda>k. (k, the (v k))) ks) m
    = Inr (\<lambda>i. if K (LK_BlockHash \<lparr>ba_ino = ino, ba_index = i\<rparr>) \<in> set ks
        then v (K (LK_BlockHash \<lparr>ba_ino = ino, ba_index = i\<rparr>)) else m i)"
  using assms
proof (induction ks arbitrary: m)
  case (Cons k ks)
  then obtain i h where k: "k = K (LK_BlockHash \<lparr>ba_ino = ino, ba_index = i\<rparr>)" "v k = Some h" "hash_ok X h" by auto
  have parse: "bind_result (key_parser_b (tx_fs_config X) k) (\<lambda>kp. bind_result (parse_key_block_address kp) f)
      = f \<lparr>ba_ino = ino, ba_index = i\<rparr>" for f :: "block_address \<Rightarrow> (block_index \<rightharpoonup> tifs_hash) tifs_result"
    using parse_block_hash_key [of "tx_fs_config X" "\<lparr>ba_ino = ino, ba_index = i\<rparr>"] k(1)
    by (auto simp: bind_result_def split: sum.splits)
  have "collect_block_hashes (tx_fs_config X) ino (map (\<lambda>k. (k, the (v k))) (k # ks)) m
      = collect_block_hashes (tx_fs_config X) ino (map (\<lambda>k. (k, the (v k))) ks) (m(i \<mapsto> h))"
    using k by (simp add: parse [unfolded k(1)])
  also have "\<dots> = Inr (\<lambda>j. if K (LK_BlockHash \<lparr>ba_ino = ino, ba_index = j\<rparr>) \<in> set ks
        then v (K (LK_BlockHash \<lparr>ba_ino = ino, ba_index = j\<rparr>)) else (m(i \<mapsto> h)) j)"
    by (rule Cons.IH) (use Cons.prems in simp)
  also have "\<dots> = Inr (\<lambda>i. if K (LK_BlockHash \<lparr>ba_ino = ino, ba_index = i\<rparr>) \<in> set (k # ks)
        then v (K (LK_BlockHash \<lparr>ba_ino = ino, ba_index = i\<rparr>)) else m i)"
    using k by (auto intro!: ext)
  finally show ?case .
qed simp

lemma hash_list_wp:
  assumes ok: "store_ok X v" and small: "unat (block_raw e) - unat (block_raw s) < 2 ^ 32"
  shows "wp (hb_get_block_hash_list_by_block_range X ino s e) (\<lambda>r v'. v' = v \<and> r = range_map X v ino s e) (\<lambda>_. False) v"
proof -
  let ?n = "of_nat (unat (block_raw e) - unat (block_raw s)) :: u32"
  let ?keys = "{k \<in> dom v. in_range (block_hash_range (tx_kb X) ino s e) k}"
  let ?ks = "scan_keys_of v (block_hash_range (tx_kb X) ino s e) ?n"
  have fin: "finite ?keys" using ok by (simp add: store_ok_def)
  have "card ?keys \<le> card {i. s \<le> i \<and> i < e}"
    unfolding range_keys [OF ok]
    by (rule order_trans [OF card_image_le card_mono]) (auto simp: range_map_def split: if_splits)
  also have "\<dots> \<le> unat ?n" using card_block_range [of s e] small by (simp add: unat_of_nat)
  finally have "set ?ks = ?keys"
    unfolding scan_keys_of_def using fin by simp
  then have ks: "set ?ks = (\<lambda>i. K (LK_BlockHash \<lparr>ba_ino = ino, ba_index = i\<rparr>)) ` dom (range_map X v ino s e)"
    using range_keys [OF ok] by simp
  have "collect_block_hashes (tx_fs_config X) ino (map (\<lambda>k. (k, the (v k))) ?ks) Map.empty
      = Inr (\<lambda>i. if K (LK_BlockHash \<lparr>ba_ino = ino, ba_index = i\<rparr>) \<in> set ?ks
          then v (K (LK_BlockHash \<lparr>ba_ino = ino, ba_index = i\<rparr>)) else None)"
    by (rule collected_hashes)
      (use ok in \<open>auto simp: ks range_map_def block_hash_at_def store_ok_def split: if_splits\<close>)
  also have "\<dots> = Inr (range_map X v ino s e)"
  proof -
    have mem: "K (LK_BlockHash \<lparr>ba_ino = ino, ba_index = i\<rparr>) \<in> set ?ks \<longleftrightarrow> i \<in> dom (range_map X v ino s e)" for i
      unfolding ks by auto
    have "(if i \<in> dom (range_map X v ino s e) then v (K (LK_BlockHash \<lparr>ba_ino = ino, ba_index = i\<rparr>)) else None)
        = range_map X v ino s e i" for i
      by (cases "range_map X v ino s e i") (auto simp: range_map_def block_hash_at_def split: if_splits)
    then show ?thesis unfolding mem by simp
  qed
  finally have "collect_block_hashes (tx_fs_config X) ino (scan_of v (block_hash_range (tx_kb X) ino s e) ?n) Map.empty
      = Inr (range_map X v ino s e)" by (simp add: scan_of_def)
  then show ?thesis
    unfolding hb_get_block_hash_list_by_block_range_def txn
    by (intro wp_and_then wp_scan wp_of_result) simp
qed

section \<open>The loop over chunks\<close>

lemma chunk_end:
  assumes "i < e" and "unat (block_raw e) + unat MAX_TIKV_SCAN_LIMIT < 2 ^ 64"
  shows "min (BlockIndex (block_raw i + ucast MAX_TIKV_SCAN_LIMIT)) e \<le> e"
    and "i < min (BlockIndex (block_raw i + ucast MAX_TIKV_SCAN_LIMIT)) e"
    and "unat (block_raw (min (BlockIndex (block_raw i + ucast MAX_TIKV_SCAN_LIMIT)) e)) - unat (block_raw i) < 2 ^ 32"
proof -
  let ?c = "BlockIndex (block_raw i + ucast MAX_TIKV_SCAN_LIMIT)"
  have c: "unat (block_raw ?c) = unat (block_raw i) + 10240"
    using assms by (simp add: block_index_less_iff MAX_TIKV_SCAN_LIMIT_def unat_plus_if')
  show "min ?c e \<le> e" by simp
  show "i < min ?c e" using assms(1) c by (simp add: block_index_less_iff [of i ?c])
  show "unat (block_raw (min ?c e)) - unat (block_raw i) < 2 ^ 32"
    using c by (cases "?c \<le> e") (auto simp: min_def block_index_le_iff)
qed

lemma hash_list_chunks_wp:
  assumes ok: "store_ok X v" and no_wrap: "unat (block_raw e) + unat MAX_TIKV_SCAN_LIMIT < 2 ^ 64"
    and fuel: "unat (block_raw e) - unat (block_raw i) \<le> fuel"
  shows "wp (hash_list_chunks X ino fuel i e acc) (\<lambda>r v'. v' = v \<and> r = Some (acc ++ range_map X v ino i e)) (\<lambda>_. False) v"
  using fuel
proof (induction fuel arbitrary: i acc)
  case 0
  then have "\<not> i < e" by (simp add: block_index_less_iff)
  then show ?case by (simp only: hash_list_chunks.simps if_False, intro wp_ret) (simp add: range_map_empty)
next
  case (Suc fuel)
  show ?case
  proof (cases "i < e")
    case False
    then show ?thesis by (simp only: hash_list_chunks.simps if_False, intro wp_ret) (simp add: range_map_empty)
  next
    case True
    let ?c = "min (BlockIndex (block_raw i + ucast MAX_TIKV_SCAN_LIMIT)) e"
    note c = chunk_end [OF True no_wrap]
    have less: "unat (block_raw e) - unat (block_raw ?c) \<le> fuel"
      using Suc.prems c(2) True unfolding block_index_less_iff by linarith
    have "wp (and_then (hb_get_block_hash_list_by_block_range X ino i ?c) (\<lambda>chunk. hash_list_chunks X ino fuel ?c e (acc ++ chunk)))
      (\<lambda>r v'. v' = v \<and> r = Some (acc ++ range_map X v ino i e)) (\<lambda>_. False) v"
    proof (rule wp_and_then, rule wp_weaken [OF hash_list_wp [OF ok c(3)]])
      fix chunk v' assume "v' = v \<and> chunk = range_map X v ino i ?c"
      then have "v' = v" "acc ++ chunk ++ range_map X v ino ?c e = acc ++ range_map X v ino i e"
        using range_map_split [of i ?c e X v ino] c(1,2) by (auto simp: map_add_assoc [symmetric] less_imp_le)
      with Suc.IH [OF less, of "acc ++ chunk"]
      show "wp (hash_list_chunks X ino fuel ?c e (acc ++ chunk)) (\<lambda>r v'. v' = v \<and> r = Some (acc ++ range_map X v ino i e)) (\<lambda>_. False) v'"
        by simp
    qed simp
    with True show ?thesis by (simp add: Let_def)
  qed
qed

lemma chunked_list_wp:
  assumes "store_ok X v" and "unat (block_raw e) + unat MAX_TIKV_SCAN_LIMIT < 2 ^ 64"
  shows "wp (hb_get_block_hash_list_by_block_range_chunked X ino s e)
    (\<lambda>r v'. v' = v \<and> r = Some (range_map X v ino s e)) (\<lambda>_. False) v"
  unfolding hb_get_block_hash_list_by_block_range_chunked_def
  using hash_list_chunks_wp [OF assms, of s "chunk_fuel s e" ino Map.empty] by (simp add: chunk_fuel_def)

end

text \<open>
  C11. Reading the block map in chunks is equivalent to looking every block up: for a range that
  stays away from the end of the index space the loop ends within the fuel, does not change
  the content, cannot fail by itself, and returns for every block index of the range exactly
  the stored hash, however many blocks there are and wherever the chunk borders lie.
\<close>

theorem chunked_block_list_complete:
  assumes "fs_store T ok db view X" and "ok w" and "store_ok X (db w)"
    and "unat (block_raw e) + unat MAX_TIKV_SCAN_LIMIT < 2 ^ 64"
  shows "case run_mini (tx_mini X) (hb_get_block_hash_list_by_block_range_chunked X ino s e) w of
      (Inr r, w') \<Rightarrow> db w' = db w \<and> r = Some (\<lambda>i. if s \<le> i \<and> i < e
         then block_hash_at X (db w) \<lparr>ba_ino = ino, ba_index = i\<rparr> else None)
    | (Inl err, w') \<Rightarrow> db w' = db w \<and> store_error err"
proof -
  note fs = assms(1)
  obtain r w' where run: "run_mini (tx_mini X) (hb_get_block_hash_list_by_block_range_chunked X ino s e) w = (r, w')"
    by (cases "run_mini (tx_mini X) (hb_get_block_hash_list_by_block_range_chunked X ino s e) w")
  from fs_store.run_mini_outcome [OF fs fs_store.chunked_list_wp [OF fs assms(3,4)] assms(2) run]
  show ?thesis using run by (cases r) (auto simp: range_map_def)
qed

theorem chunked_block_list_complete_witness:
  "case run_mini mem_tikv (hb_get_block_hash_list_by_block_range_chunked sample_txn (StorageIno 10) (BlockIndex 0) (BlockIndex 20000))
      (mem_with [(fs_key sample_config (LK_BlockHash \<lparr>ba_ino = StorageIno 10, ba_index = BlockIndex 11000\<rparr>), replicate 32 7)] []) of
    (Inr r, w') \<Rightarrow> r = Some [BlockIndex 11000 \<mapsto> replicate 32 7]
  | (Inl err, w') \<Rightarrow> store_error err"
proof -
  let ?a = "\<lparr>ba_ino = StorageIno 10, ba_index = BlockIndex 11000\<rparr>"
  let ?w = "mem_with [(fs_key sample_config (LK_BlockHash ?a), replicate 32 7)] []"
  have tx: "tx_mini sample_txn = mem_tikv" "tx_fs_config sample_txn = sample_config" by (simp_all add: sample_txn_def)
  have len: "cfg_hash_len sample_config = 32" using sample_cfg_ok
    by (simp add: cfg_ok_def sample_config_def from_options_def config_defaults_def config_or_fail_def bind_result_def)
  have content: "mem_content ?w = Map.empty(fs_key sample_config (LK_BlockHash ?a) \<mapsto> replicate 32 7)"
    by (simp add: mem_with_content)
  have at: "block_hash_at sample_txn (mem_content ?w) a = (if a = ?a then Some (replicate 32 7) else None)" for a
    unfolding content by (simp add: block_hash_at_def tx sample_cfg_ok)
  have "store_ok sample_txn Map.empty" by (simp add: store_ok_def block_hash_at_def)
  then have ok: "store_ok sample_txn (mem_content ?w)"
    unfolding content using memfs.store_ok_upd [of Map.empty "LK_BlockHash ?a"] len by (simp add: tx)
  have range: "unat (block_raw (BlockIndex 20000)) + unat MAX_TIKV_SCAN_LIMIT < 2 ^ 64" by (simp add: MAX_TIKV_SCAN_LIMIT_def)
  have "(\<lambda>i. if BlockIndex 0 \<le> i \<and> i < BlockIndex 20000
      then block_hash_at sample_txn (mem_content ?w) \<lparr>ba_ino = StorageIno 10, ba_index = i\<rparr> else None)
    = [BlockIndex 11000 \<mapsto> replicate 32 7]" unfolding at by auto
  with chunked_block_list_complete [OF memfs.fs_store_axioms mem_with_ok ok range, of "BlockIndex 0" "StorageIno 10"]
  show ?thesis unfolding tx by (auto split: prod.splits sum.splits)
qed

end
