(* ===== verification/Hash_Fs.thy ===== *)
theory Hash_Fs
  imports Directory_Facts Block_List_Facts
begin

text \<open>
  The hash file system on TiKV: \<open>TikvBasedHashFs\<close> of \<open>hash_fs_tikv_implementation.rs\<close>,
  the implementation of \<open>HashFsInterface\<close>. Every operation is a sequence of mini transactions
  and of single calls through the flexible transaction. The local locks of the source only
  avoid conflicts of a client with itself and are left out; clock readings, new identifiers
  and the iteration order of a \<open>HashMap\<close> are arguments. Jobs of the parallel pipe stage run in
  the order in which they are pushed, which is how the stage behaves for a limit of at most one
  (the default is zero). An operation that reads block maps returns \<open>None\<close> if the loop over
  the chunks does not end.
\<close>

section \<open>Helpers\<close>

datatype time_or_now = SpecificTime system_time | Now

fun get_time_from_time_or_now :: "system_time \<Rightarrow> time_or_now \<Rightarrow> system_time" where
  "get_time_from_time_or_now now (SpecificTime t) = t"
| "get_time_from_time_or_now now Now = now"

text \<open>The change count and the field, before and after.\<close>

definition set_if_changed :: "nat \<Rightarrow> 'a \<Rightarrow> 'a option \<Rightarrow> nat \<times> 'a" where
  "set_if_changed change_cnt field new = (case new of
     None \<Rightarrow> (change_cnt, field)
   | Some new_value \<Rightarrow> if field \<noteq> new_value then (change_cnt + 1, new_value) else (change_cnt, field))"

record 'w tikv_based_hash_fs =
  hf_txn_client_mux :: "'w tikv"
  hf_fs_config :: tifs_config
  hf_ext :: ext

abbreviation hf_f_txn :: "'w tikv_based_hash_fs \<Rightarrow> 'w flexible_transaction_kind" where
  "hf_f_txn H \<equiv> SpawnMiniTransactions (hf_txn_client_mux H)"

text \<open>The transaction that \<open>spinning_mini_txn().start()\<close> hands to an operation, and its loop.\<close>

definition started :: "'w tikv_based_hash_fs \<Rightarrow> 'w txn_with_config" where
  "started H = \<lparr>tx_fs_config = hf_fs_config H, tx_mini = hf_txn_client_mux H, tx_ext = hf_ext H\<rparr>"

abbreviation spinning :: "'w tikv_based_hash_fs \<Rightarrow> ('w, fs_error, 'a) comp \<Rightarrow> ('w, fs_error, 'a) comp" where
  "spinning H body \<equiv> run_mini (hf_txn_client_mux H) body"

text \<open>\<open>?\<close> in a function that returns \<open>HashFsResult\<close>.\<close>

abbreviation lift_fs :: "('w, fs_error, 'a) comp \<Rightarrow> ('w, hash_fs_error, 'a) comp" where
  "lift_fs \<equiv> map_err hash_error_of_fs"

abbreviation hf_kb :: "'w tikv_based_hash_fs \<Rightarrow> scoped_key_builder" where
  "hf_kb H \<equiv> key_builder (hf_fs_config H)"

abbreviation hf_js :: "'w tikv_based_hash_fs \<Rightarrow> json" where
  "hf_js H \<equiv> ext_json (hf_ext H)"

text \<open>Continuing after a result that may be missing.\<close>

definition then_some :: "('w, 'e, 'a option) comp \<Rightarrow> ('a \<Rightarrow> ('w, 'e, 'b option) comp) \<Rightarrow> ('w, 'e, 'b option) comp" where
  "then_some m k = and_then m (\<lambda>r. case r of None \<Rightarrow> ret None | Some x \<Rightarrow> k x)"

text \<open>
  \<open>AsyncParallelPipeStage\<close>: all jobs run, their results are kept; a caller that looks at the
  results fails with the first error.
\<close>

fun run_jobs :: "('w, 'e, unit) comp list \<Rightarrow> 'w \<Rightarrow> ('e + unit) list \<times> 'w" where
  "run_jobs [] w = ([], w)"
| "run_jobs (j # js) w = (case j w of (r, w1) \<Rightarrow> (case run_jobs js w1 of (rs, w2) \<Rightarrow> (r # rs, w2)))"

fun first_error :: "('e + unit) list \<Rightarrow> 'e + unit" where
  "first_error [] = Inr ()"
| "first_error (Inl e # rs) = Inl e"
| "first_error (Inr _ # rs) = first_error rs"

definition run_all_checked :: "('w, 'e, unit) comp list \<Rightarrow> ('w, 'e, unit) comp" where
  "run_all_checked js w = (case run_jobs js w of (rs, w') \<Rightarrow> (first_error rs, w'))"

section \<open>Clearing data\<close>

definition hb_clear_data_single_block ::
  "'w tikv_based_hash_fs \<Rightarrow> system_time \<Rightarrow> block_address \<Rightarrow> bool \<Rightarrow> ('w, fs_error, unit) comp" where
  "hb_clear_data_single_block H now addr do_size_update =
     and_then (spinning H (hb_replace_block_hash_for_address_no_size_update (started H) [(addr, None)])) (\<lambda>prev_hash.
     and_then (if do_size_update
         then spinning H (hb_replace_block_hash_for_address_only_size_update (started H) now addr 0)
         else ret ()) (\<lambda>_.
       case prev_hash of
         [] \<Rightarrow> ret ()
       | (prev_h, _) # _ \<Rightarrow>
           spinning H (hb_decrement_blocks_reference_count_and_delete_if_zero_reached (started H) [(prev_h, 1)])))"

definition hb_clear_data_no_sync_no_size_update ::
  "'w tikv_based_hash_fs \<Rightarrow> system_time \<Rightarrow> storage_ino \<Rightarrow> ('w, fs_error, unit) comp" where
  "hb_clear_data_no_sync_no_size_update H now ino =
     and_then (flex_fetch (hf_f_txn H) (generate_key_InoSize (hf_kb H) ino) (js_size (hf_js H))) (\<lambda>ino_size.
       let block_cnt = div_ceil (isz_size ino_size) (cfg_block_size (hf_fs_config H)) in
       run_all_checked (map (\<lambda>block.
         hb_clear_data_single_block H now \<lparr>ba_ino = ino, ba_index = BlockIndex (of_nat block)\<rparr> False) [0..<unat block_cnt]))"

section \<open>Directories\<close>

definition directory_remove_child_generic ::
  "'w tikv_based_hash_fs \<Rightarrow> system_time \<Rightarrow> parent_storage_ino \<Rightarrow> name \<Rightarrow> storage_dir_item_kind set
     \<Rightarrow> ('w, hash_fs_error, unit) comp" where
  "directory_remove_child_generic H now parent nm allowed_types =
     and_then (lift_fs (spinning H (directory_remove_child (started H) parent nm allowed_types))) (\<lambda>unlinked_item.
     and_then (lift_fs (spinning H (inode_check_for_delete_and_delete_atomically_description (started H)
         (sdi_ino unlinked_item)))) (\<lambda>r.
       if r = DeletedInoDesc
       then and_then (case sdi_typ unlinked_item of
              File \<Rightarrow> lift_fs (hb_clear_data_no_sync_no_size_update H now (sdi_ino unlinked_item))
            | Directory \<Rightarrow> ret ()
            | Symlink \<Rightarrow> ret ()) (\<lambda>_.
          lift_fs (for_each (\<lambda>meta. flex_delete (hf_f_txn H) (skb_buf (inode_x (hf_kb H) (sdi_ino unlinked_item) meta)))
            ino_metadatas))
       else ret ()))"

definition hf_meta_mutable_reserve_new_ino :: "'w tikv_based_hash_fs \<Rightarrow> ('w, fs_error, storage_ino) comp" where
  "hf_meta_mutable_reserve_new_ino H = spinning H (meta_mutable_reserve_new_ino (started H))"

definition hf_directory_add_child_checked_new_inode ::
  "'w tikv_based_hash_fs \<Rightarrow> (nat \<Rightarrow> system_time) \<Rightarrow> parent_storage_ino \<Rightarrow> name \<Rightarrow> storage_dir_item_kind
     \<Rightarrow> storage_file_permission \<Rightarrow> u32 \<Rightarrow> u32 \<Rightarrow> u32 \<Rightarrow> bytes option
     \<Rightarrow> ('w, hash_fs_error, storage_dir_item got_or_made) comp" where
  "hf_directory_add_child_checked_new_inode H now parent nm typ perm gid uid rdev inline_data =
     and_then (lift_fs (hf_meta_mutable_reserve_new_ino H)) (\<lambda>new_ino.
       lift_fs (spinning H (directory_add_child_checked_new_inode (started H) now parent nm typ perm gid uid rdev
         inline_data new_ino)))"

definition get_or_make_dir ::
  "'w tikv_based_hash_fs \<Rightarrow> (nat \<Rightarrow> system_time) \<Rightarrow> parent_storage_ino \<Rightarrow> name \<Rightarrow> storage_file_permission \<Rightarrow> u32 \<Rightarrow> u32
     \<Rightarrow> ('w, hash_fs_error, storage_dir_item got_or_made) comp" where
  "get_or_make_dir H now parent nm perm gid uid =
     hf_directory_add_child_checked_new_inode H now parent nm Directory perm gid uid 0 None"

definition hf_init ::
  "'w tikv_based_hash_fs \<Rightarrow> (nat \<Rightarrow> system_time) \<Rightarrow> u32 \<Rightarrow> u32 \<Rightarrow> ('w, hash_fs_error, storage_dir_item) comp" where
  "hf_init H now gid uid =
     and_then (get_or_make_dir H now PARENT_OF_ROOT_INODE [] (StorageFilePermission 511) gid uid) (\<lambda>attr.
       ret (snd (unpack attr)))"

definition meta_static_read :: "'w tikv_based_hash_fs \<Rightarrow> ('w, hash_fs_error, meta_static) comp" where
  "meta_static_read H =
     and_then (lift_fs (flex_get (hf_f_txn H) (key_meta_static (hf_kb H)))) (\<lambda>data.
       case data of
         None \<Rightarrow> fail H_FsNotInitialized
       | Some data \<Rightarrow> (case cd_dec (js_meta_static (hf_js H)) data of
           Inl err \<Rightarrow> fail (H_FsHasInvalidData (Some ''reading static metadata: {err:?}''))
         | Inr result \<Rightarrow> ret result))"

definition directory_read_children ::
  "'w tikv_based_hash_fs \<Rightarrow> storage_ino \<Rightarrow> ('w, hash_fs_error, directory_item list) comp" where
  "directory_read_children H dir_ino =
     lift_fs (spinning H (directory_scan_for_children (started H) dir_ino MAX_TIKV_SCAN_LIMIT))"

definition hf_directory_add_child_checked_existing_inode ::
  "'w tikv_based_hash_fs \<Rightarrow> parent_storage_ino \<Rightarrow> name \<Rightarrow> storage_ino \<Rightarrow> ('w, hash_fs_error, unit) comp" where
  "hf_directory_add_child_checked_existing_inode H parent nm ino =
     (if parent < ROOT_INODE then ret ()
      else and_then (lift_fs (spinning H (directory_add_child_checked_existing_inode (started H) parent nm ino))) (\<lambda>r.
        case r of ExistedAlready _ \<Rightarrow> fail H_FileAlreadyExists | NewlyCreated _ \<Rightarrow> ret ()))"

definition directory_add_new_symlink ::
  "'w tikv_based_hash_fs \<Rightarrow> (nat \<Rightarrow> system_time) \<Rightarrow> u32 \<Rightarrow> u32 \<Rightarrow> parent_storage_ino \<Rightarrow> name \<Rightarrow> bytes
     \<Rightarrow> ('w, hash_fs_error, storage_dir_item) comp" where
  "directory_add_new_symlink H now gid uid parent nm link =
     and_then (hf_directory_add_child_checked_new_inode H now parent nm Symlink (StorageFilePermission 511) gid uid 0
         (Some link)) (\<lambda>r.
       case r of NewlyCreated v \<Rightarrow> ret v | ExistedAlready _ \<Rightarrow> fail H_FileAlreadyExists)"

definition directory_remove_child_file ::
  "'w tikv_based_hash_fs \<Rightarrow> system_time \<Rightarrow> parent_storage_ino \<Rightarrow> name \<Rightarrow> ('w, hash_fs_error, unit) comp" where
  "directory_remove_child_file H now parent nm = directory_remove_child_generic H now parent nm {File, Symlink}"

definition directory_remove_child_directory ::
  "'w tikv_based_hash_fs \<Rightarrow> parent_storage_ino \<Rightarrow> name \<Rightarrow> ('w, hash_fs_error, unit) comp" where
  "directory_remove_child_directory H parent nm =
     and_then (lift_fs (spinning H (directory_remove_child_empty_directory (started H) parent nm))) (\<lambda>_. ret ())"

definition hf_directory_rename_child ::
  "'w tikv_based_hash_fs \<Rightarrow> parent_storage_ino \<Rightarrow> name \<Rightarrow> parent_storage_ino \<Rightarrow> name \<Rightarrow> ('w, hash_fs_error, unit) comp" where
  "hf_directory_rename_child H parent raw_name new_parent new_raw_name =
     and_then (lift_fs (of_result (check_file_name raw_name))) (\<lambda>_.
     and_then (lift_fs (of_result (check_file_name new_raw_name))) (\<lambda>_.
       lift_fs (spinning H (directory_rename_child (started H) parent raw_name new_parent new_raw_name))))"

section \<open>Inodes\<close>

type_synonym all_attributes = "ino_description \<times> ino_storage_file_attr \<times> ino_size \<times> ino_access_time"

text \<open>\<open>fetch(..).await.ok()\<close>: an error counts as a missing record.\<close>

definition or_none :: "('w, 'e, 'a) comp \<Rightarrow> ('w, 'f, 'a option) comp" where
  "or_none m w = (case m w of (Inr x, w') \<Rightarrow> (Inr (Some x), w') | (Inl _, w') \<Rightarrow> (Inr None, w'))"

definition inode_get_all_attributes ::
  "'w tikv_based_hash_fs \<Rightarrow> storage_ino \<Rightarrow> ('w, hash_fs_error, all_attributes) comp" where
  "inode_get_all_attributes H ino =
     and_then (lift_fs (flex_fetch (hf_f_txn H) (generate_key_InoDescription (hf_kb H) ino) (js_description (hf_js H)))) (\<lambda>desc.
     and_then (lift_fs (flex_fetch (hf_f_txn H) (generate_key_InoStorageFileAttr (hf_kb H) ino) (js_attr (hf_js H)))) (\<lambda>attr.
     and_then (lift_fs (flex_fetch (hf_f_txn H) (generate_key_InoSize (hf_kb H) ino) (js_size (hf_js H)))) (\<lambda>sz.
     and_then (or_none (flex_fetch (hf_f_txn H) (generate_key_InoAccessTime (hf_kb H) ino) (js_atime (hf_js H)))) (\<lambda>atime.
       ret (desc, attr, sz, case atime of
          Some t \<Rightarrow> t | None \<Rightarrow> InoAccessTime (max (isz_last_change sz) (attr_last_change attr)))))))"

definition directory_child_get_all_attributes ::
  "'w tikv_based_hash_fs \<Rightarrow> parent_storage_ino \<Rightarrow> name \<Rightarrow> ('w, hash_fs_error, all_attributes) comp" where
  "directory_child_get_all_attributes H parent nm =
     and_then (lift_fs (spinning H (directory_get_child (started H) parent nm))) (\<lambda>entry_opt.
       case entry_opt of
         None \<Rightarrow> fail H_FileNotFound
       | Some entry \<Rightarrow> inode_get_all_attributes H (sdi_ino entry))"

text \<open>The new attribute record and the number of changed fields; \<open>size\<close> and the times of macOS are ignored.\<close>

definition changed_attributes ::
  "system_time \<Rightarrow> storage_file_permission option \<Rightarrow> u32 option \<Rightarrow> u32 option \<Rightarrow> system_time option \<Rightarrow> u32 option
     \<Rightarrow> ino_storage_file_attr \<Rightarrow> nat \<times> ino_storage_file_attr" where
  "changed_attributes now mode uid gid ctime flags a =
     (let (cnt, p) = set_if_changed 0 (attr_perm a) mode;
          (cnt, u) = set_if_changed cnt (attr_uid a) uid;
          (cnt, g) = set_if_changed cnt (attr_gid a) gid;
          (cnt, l) = set_if_changed cnt (attr_last_change a) (Some (case ctime of Some t \<Rightarrow> t | None \<Rightarrow> now));
          (cnt, f) = set_if_changed cnt (attr_flags a) flags
      in (cnt, a\<lparr>attr_perm := p, attr_uid := u, attr_gid := g, attr_last_change := l, attr_flags := f\<rparr>))"

definition inode_set_all_attributes ::
  "'w tikv_based_hash_fs \<Rightarrow> (nat \<Rightarrow> system_time) \<Rightarrow> storage_ino \<Rightarrow> storage_file_permission option \<Rightarrow> u32 option
     \<Rightarrow> u32 option \<Rightarrow> u64 option \<Rightarrow> time_or_now option \<Rightarrow> time_or_now option \<Rightarrow> system_time option
     \<Rightarrow> system_time option \<Rightarrow> system_time option \<Rightarrow> system_time option \<Rightarrow> u32 option
     \<Rightarrow> ('w, hash_fs_error, unit) comp" where
  "inode_set_all_attributes H now ino mode uid gid sz atime mtime ctime crtime chgtime bkuptime flags =
     and_then (case atime of
         None \<Rightarrow> ret ()
       | Some t \<Rightarrow> lift_fs (flex_put_json (hf_f_txn H) (generate_key_InoAccessTime (hf_kb H) ino) (js_atime (hf_js H))
           (InoAccessTime (get_time_from_time_or_now (now 0) t)))) (\<lambda>_.
     and_then (case mtime of
         None \<Rightarrow> ret ()
       | Some t \<Rightarrow> lift_fs (flex_put_json (hf_f_txn H) (generate_key_InoModificationTime (hf_kb H) ino) (js_mtime (hf_js H))
           (InoModificationTime (get_time_from_time_or_now (now 1) t)))) (\<lambda>_.
     and_then (lift_fs (flex_fetch (hf_f_txn H) (generate_key_InoStorageFileAttr (hf_kb H) ino) (js_attr (hf_js H)))) (\<lambda>ino_attr.
       let (cnt, new_attr) = changed_attributes (now 2) mode uid gid ctime flags ino_attr in
       if cnt > 0
       then lift_fs (flex_put_json (hf_f_txn H) (generate_key_InoStorageFileAttr (hf_kb H) ino) (js_attr (hf_js H)) new_attr)
       else ret ())))"

definition hf_inode_open :: "'w tikv_based_hash_fs \<Rightarrow> uuid \<Rightarrow> storage_ino \<Rightarrow> ('w, hash_fs_error, uuid) comp" where
  "hf_inode_open H use_id ino =
     and_then (lift_fs (spinning H (inode_open (started H) ino use_id))) (\<lambda>_. ret use_id)"

definition hf_inode_close :: "'w tikv_based_hash_fs \<Rightarrow> storage_ino \<Rightarrow> uuid \<Rightarrow> ('w, hash_fs_error, unit) comp" where
  "hf_inode_close H ino use_id = lift_fs (spinning H (inode_close (started H) ino use_id))"

definition hf_inode_allocate_size ::
  "'w tikv_based_hash_fs \<Rightarrow> (nat \<Rightarrow> system_time) \<Rightarrow> storage_ino \<Rightarrow> 64 word \<Rightarrow> 64 word \<Rightarrow> ('w, hash_fs_error, unit) comp" where
  "hf_inode_allocate_size H now ino offset len =
     lift_fs (spinning H (inode_allocate_size (started H) now ino offset len))"

definition inode_read_inline_data :: "'w tikv_based_hash_fs \<Rightarrow> storage_ino \<Rightarrow> ('w, hash_fs_error, bytes) comp" where
  "inode_read_inline_data H ino =
     and_then (lift_fs (flex_fetch (hf_f_txn H) (generate_key_InoInlineData (hf_kb H) ino) (js_inline (hf_js H))))
       (\<lambda>ino_inline_data. ret (inl_inlined ino_inline_data))"

section \<open>Block maps\<close>

definition hf_hash_list_chunked ::
  "'w tikv_based_hash_fs \<Rightarrow> storage_ino \<Rightarrow> block_index \<Rightarrow> block_index
     \<Rightarrow> ('w, fs_error, (block_index \<rightharpoonup> tifs_hash) option) comp" where
  "hf_hash_list_chunked H ino start end_i =
     spinning H (hb_get_block_hash_list_by_block_range_chunked (started H) ino start end_i)"

text \<open>The hashes of a range in order, the hash of the empty block for blocks without an entry.\<close>

fun collect_hashes :: "nat \<Rightarrow> tifs_hash \<Rightarrow> (block_index \<rightharpoonup> tifs_hash) \<Rightarrow> nat \<Rightarrow> nat \<Rightarrow> bytes \<Rightarrow> bytes hash_fs_result" where
  "collect_hashes hash_len zero_hash hashes block_id 0 result = Inr result"
| "collect_hashes hash_len zero_hash hashes block_id (Suc n) result =
     (let block_hash = (case hashes (BlockIndex (of_nat block_id)) of Some h \<Rightarrow> h | None \<Rightarrow> zero_hash) in
      if length block_hash \<noteq> hash_len
      then Inl (H_FsHasInvalidData (Some ''hash has invalid length. Expected: {}, actual: {}''))
      else collect_hashes hash_len zero_hash hashes (block_id + 1) n (result @ block_hash))"

definition read_hashes_of_file ::
  "'w tikv_based_hash_fs \<Rightarrow> storage_ino \<Rightarrow> block_index \<Rightarrow> block_index \<Rightarrow> ('w, hash_fs_error, bytes option) comp" where
  "read_hashes_of_file H ino start end_i =
     then_some (lift_fs (hf_hash_list_chunked H ino start end_i)) (\<lambda>hashes.
       let zero_hash = calculate_hash (ext_digests (hf_ext H)) (hf_fs_config H) [] in
       and_then (of_result (collect_hashes (cfg_hash_len (hf_fs_config H)) zero_hash hashes
           (unat (block_raw start)) (unat (block_raw end_i) - unat (block_raw start)) []))
         (\<lambda>result. ret (Some result)))"

definition inode_read_block_hashes_data_range ::
  "'w tikv_based_hash_fs \<Rightarrow> storage_ino \<Rightarrow> u64 \<Rightarrow> u64 \<Rightarrow> ('w, hash_fs_error, (block_index \<rightharpoonup> tifs_hash) option) comp" where
  "inode_read_block_hashes_data_range H ino start_addr read_size =
     (let end_addr = start_addr + read_size;
          start_block = start_addr div cfg_block_size (hf_fs_config H);
          end_block = div_ceil end_addr (cfg_block_size (hf_fs_config H))
      in lift_fs (hf_hash_list_chunked H ino (BlockIndex start_block) (BlockIndex end_block)))"

fun read_ranges ::
  "'w tikv_based_hash_fs \<Rightarrow> storage_ino \<Rightarrow> (u64 \<times> u64) list \<Rightarrow> (block_index \<rightharpoonup> tifs_hash)
     \<Rightarrow> ('w, hash_fs_error, (block_index \<rightharpoonup> tifs_hash) option) comp" where
  "read_ranges H ino [] block_hashes_all = ret (Some block_hashes_all)"
| "read_ranges H ino ((a, b) # rs) block_hashes_all =
     then_some (lift_fs (hf_hash_list_chunked H ino (BlockIndex a) (BlockIndex b))) (\<lambda>block_hashes.
       read_ranges H ino rs (block_hashes_all ++ block_hashes))"

definition inode_read_block_hashes_block_range ::
  "'w tikv_based_hash_fs \<Rightarrow> storage_ino \<Rightarrow> (block_index \<times> block_index) list
     \<Rightarrow> ('w, hash_fs_error, (block_index \<rightharpoonup> tifs_hash) option) comp" where
  "inode_read_block_hashes_block_range H ino block_ranges =
     read_ranges H ino (ext_range_union (hf_ext H)
       (map (\<lambda>(a, b). (block_raw a, block_raw b)) block_ranges)) Map.empty"

section \<open>Writing blocks\<close>

text \<open>The addresses of all blocks with their new hash, and the end of the last one in the file.\<close>

definition addresses_to_modify ::
  "storage_ino \<Rightarrow> (tifs_hash \<times> u64 \<times> block_index list) list \<Rightarrow> (block_address \<times> tifs_hash option) list" where
  "addresses_to_modify ino blocks =
     concat (map (\<lambda>(h, l, ids). map (\<lambda>id. (\<lparr>ba_ino = ino, ba_index = id\<rparr>, Some h)) ids) blocks)"

definition max_file_size :: "u64 \<Rightarrow> (tifs_hash \<times> u64 \<times> block_index list) list \<Rightarrow> u64" where
  "max_file_size block_size blocks =
     fold (\<lambda>(h, l, ids) m. fold (\<lambda>id m. max m (block_raw id * block_size + l)) ids m) blocks 0"

definition inode_write_hash_block_to_addresses_update_ino_size_and_cleaning_previous_block_hashes ::
  "'w tikv_based_hash_fs \<Rightarrow> (nat \<Rightarrow> system_time) \<Rightarrow> uuid \<Rightarrow> storage_ino \<Rightarrow> (tifs_hash \<times> u64 \<times> block_index list) list
     \<Rightarrow> ('w, hash_fs_error, unit) comp" where
  "inode_write_hash_block_to_addresses_update_ino_size_and_cleaning_previous_block_hashes H now change_id ino blocks =
     (let new_size = max_file_size (cfg_block_size (hf_fs_config H)) blocks in
      and_then (lift_fs (spinning H (hb_replace_block_hash_for_address_no_size_update (started H)
          (addresses_to_modify ino blocks)))) (\<lambda>prev_hash_decrements.
      and_then (lift_fs (spinning H (lift_tikv (tk_delete (hf_txn_client_mux H)
          (skb_buf (inode_x (hf_kb H) ino FullHash)))))) (\<lambda>_.
      and_then (lift_fs (spinning H (put_json (hf_txn_client_mux H) (generate_key_InoChangeIterationId (hf_kb H) ino)
          (js_change_id (hf_js H)) (InoChangeIterationId change_id)))) (\<lambda>_.
      and_then (lift_fs (flex_fetch (hf_f_txn H) (generate_key_InoSize (hf_kb H) ino) (js_size (hf_js H)))) (\<lambda>size_peek.
      and_then (if new_size > isz_size size_peek
          then lift_fs (spinning H (hb_replace_block_hash_for_address_only_size_update_b (started H) (now 0) ino new_size))
          else ret ()) (\<lambda>_.
        lift_fs (spinning H (hb_decrement_blocks_reference_count_and_delete_if_zero_reached (started H)
          prev_hash_decrements))))))))"

definition hb_increment_reference_count ::
  "'w tikv_based_hash_fs \<Rightarrow> (tifs_hash \<times> u64) list \<Rightarrow> ('w, hash_fs_error, (tifs_hash \<times> nat) list) comp" where
  "hb_increment_reference_count H blocks = lift_fs (spinning H (hb_increment_blocks_reference_count (started H) blocks))"

definition hb_upload_new_block :: "'w tikv_based_hash_fs \<Rightarrow> (tifs_hash \<times> bytes) list \<Rightarrow> ('w, hash_fs_error, unit) comp" where
  "hb_upload_new_block H blocks =
     lift_fs (flex_batch_mutate (hf_f_txn H) (map (\<lambda>(h, d). MutPut (hashed_block (hf_kb H) h) d) blocks))"

fun collect_block_data :: "tifs_config \<Rightarrow> (bytes \<times> bytes) list \<Rightarrow> (tifs_hash \<times> bytes) list \<Rightarrow> (tifs_hash \<times> bytes) list tifs_result" where
  "collect_block_data cfg [] m = Inr m"
| "collect_block_data cfg ((k, v) # kvs) m =
     bind_result (key_parser_b cfg k) (\<lambda>kp.
     bind_result (parse_key_hashed_block kp) (\<lambda>hash. collect_block_data cfg kvs (map_insert hash v m)))"

definition hb_get_block_data_by_hashes ::
  "'w tikv_based_hash_fs \<Rightarrow> tifs_hash list \<Rightarrow> ('w, hash_fs_error, (tifs_hash \<times> bytes) list) comp" where
  "hb_get_block_data_by_hashes H hashes =
     and_then (lift_fs (flex_batch_get (hf_f_txn H) (map (hashed_block (hf_kb H)) hashes))) (\<lambda>rcv_data_list.
       lift_fs (of_result (collect_block_data (hf_fs_config H) rcv_data_list [])))"

section \<open>The hash of a file\<close>

fun collect_metadata ::
  "tifs_config \<Rightarrow> json \<Rightarrow> (bytes \<times> bytes) list
     \<Rightarrow> (tifs_hash list \<times> ino_change_iteration_id list \<times> ino_size list) tifs_result" where
  "collect_metadata cfg js [] = Inr ([], [], [])"
| "collect_metadata cfg js ((k, v) # data) =
     bind_result (key_parser_b cfg k) (\<lambda>kp.
     bind_result (parse_ino kp) (\<lambda>key.
     bind_result (collect_metadata cfg js data) (\<lambda>(existing_hash, change_iter_id, sizes).
       Inr (case kpi_meta key of
          FullHash \<Rightarrow> (v # existing_hash, change_iter_id, sizes)
        | ChangeIterationId \<Rightarrow> (case cd_dec (js_change_id js) v of
            Inr i \<Rightarrow> (existing_hash, i # change_iter_id, sizes) | Inl _ \<Rightarrow> (existing_hash, change_iter_id, sizes))
        | Size \<Rightarrow> (case cd_dec (js_size js) v of
            Inr s \<Rightarrow> (existing_hash, change_iter_id, s # sizes) | Inl _ \<Rightarrow> (existing_hash, change_iter_id, sizes))
        | _ \<Rightarrow> (existing_hash, change_iter_id, sizes)))))"

definition inode_read_metadata_multi ::
  "'w tikv_based_hash_fs \<Rightarrow> storage_ino \<Rightarrow> ino_metadata list
     \<Rightarrow> ('w, fs_error, tifs_hash list \<times> ino_change_iteration_id list \<times> ino_size list) comp" where
  "inode_read_metadata_multi H ino elements =
     and_then (flex_batch_get (hf_f_txn H) (map (\<lambda>meta. skb_buf (inode_x (hf_kb H) ino meta)) elements)) (\<lambda>data.
       of_result (collect_metadata (hf_fs_config H) (hf_js H) data))"

definition file_get_hash :: "'w tikv_based_hash_fs \<Rightarrow> storage_ino \<Rightarrow> ('w, hash_fs_error, bytes option) comp" where
  "file_get_hash H ino =
     and_then (lift_fs (inode_read_metadata_multi H ino [FullHash])) (\<lambda>(hash, _, _).
       case hash of
         h # _ \<Rightarrow> ret (Some h)
       | [] \<Rightarrow>
           and_then (lift_fs (inode_read_metadata_multi H ino [FullHash, ChangeIterationId, Size])) (\<lambda>(hash, iter, sizes).
             case hash of
               h # _ \<Rightarrow> ret (Some h)
             | [] \<Rightarrow>
                 (case sizes of
                    [] \<Rightarrow> fail H_FileNotFound
                  | sz # _ \<Rightarrow>
                      let change_iter_id = (case iter of i # _ \<Rightarrow> i | [] \<Rightarrow> InoChangeIterationId 0);
                          size_in_blocks = div_ceil (isz_size sz) (cfg_block_size (hf_fs_config H));
                          block_end = BlockIndex (size_in_blocks * of_nat (cfg_hash_len (hf_fs_config H)))
                      in then_some (read_hashes_of_file H ino (BlockIndex 0) block_end) (\<lambda>hash_data.
                           let new_full_hash = calculate_hash (ext_digests (hf_ext H)) (hf_fs_config H) hash_data in
                           and_then (lift_fs (spinning H (checked_write_of_file_hash (started H) ino change_iter_id new_full_hash)))
                             (\<lambda>_. ret (Some new_full_hash))))))"

definition file_read_block_hashes ::
  "'w tikv_based_hash_fs \<Rightarrow> storage_ino \<Rightarrow> block_index \<Rightarrow> block_index \<Rightarrow> ('w, hash_fs_error, bytes option) comp" where
  "file_read_block_hashes H ino start end_i = read_hashes_of_file H ino start end_i"

end
