(* ===== verification/Snapshot.thy ===== *)
theory Snapshot
  imports Hash_Fs
begin

text \<open>
  Snapshots of the whole file tree: \<open>CreateSnapshot\<close> of \<open>snapshot.rs\<close> and the parser of inode
  records it uses (\<open>kv_parser.rs\<close>). A snapshot reads the tree from a read-only transaction
  that sees the content at its start, and copies it, directory by directory, below a new
  directory: new inodes, the same names, the same attributes and shared blocks. The read-only
  transaction is a second client; opening it is a parameter of \<open>start_snapshot_read_only\<close>.
\<close>

section \<open>Parsing inode records\<close>

record inodes_attrs_hash_maps =
  iam_descriptions :: "(storage_ino \<times> ino_description) list"
  iam_existing_hash :: "(storage_ino \<times> tifs_hash) list"
  iam_change_iter_id :: "(storage_ino \<times> ino_change_iteration_id) list"
  iam_size :: "(storage_ino \<times> ino_size) list"
  iam_attrs :: "(storage_ino \<times> ino_storage_file_attr) list"
  iam_access_times :: "(storage_ino \<times> ino_access_time) list"
  iam_modification_times :: "(storage_ino \<times> ino_modification_time) list"
  iam_inline_data :: "(storage_ino \<times> ino_inline_data) list"

definition inodes_attrs_default :: inodes_attrs_hash_maps where
  "inodes_attrs_default = \<lparr>iam_descriptions = [], iam_existing_hash = [], iam_change_iter_id = [], iam_size = [],
     iam_attrs = [], iam_access_times = [], iam_modification_times = [], iam_inline_data = []\<rparr>"

text \<open>A record that does not parse is dropped.\<close>

definition insert_parsed ::
  "'a codec \<Rightarrow> bytes \<Rightarrow> storage_ino \<Rightarrow> (storage_ino \<times> 'a) list \<Rightarrow> (storage_ino \<times> 'a) list" where
  "insert_parsed c v ino m = (case deserialize_json c v of Inl _ \<Rightarrow> m | Inr x \<Rightarrow> map_insert ino x m)"

fun insert_attr :: "json \<Rightarrow> key_parser_ino \<Rightarrow> bytes \<Rightarrow> inodes_attrs_hash_maps \<Rightarrow> inodes_attrs_hash_maps" where
  "insert_attr js parsed v maps =
     (let ino = kpi_ino parsed in
      case kpi_meta parsed of
        Description \<Rightarrow> maps\<lparr>iam_descriptions := insert_parsed (js_description js) v ino (iam_descriptions maps)\<rparr>
      | FullHash \<Rightarrow> maps\<lparr>iam_existing_hash := map_insert ino v (iam_existing_hash maps)\<rparr>
      | ChangeIterationId \<Rightarrow> maps\<lparr>iam_change_iter_id := insert_parsed (js_change_id js) v ino (iam_change_iter_id maps)\<rparr>
      | Size \<Rightarrow> maps\<lparr>iam_size := insert_parsed (js_size js) v ino (iam_size maps)\<rparr>
      | UnixAttributes \<Rightarrow> maps\<lparr>iam_attrs := insert_parsed (js_attr js) v ino (iam_attrs maps)\<rparr>
      | AccessTime \<Rightarrow> maps\<lparr>iam_access_times := insert_parsed (js_atime js) v ino (iam_access_times maps)\<rparr>
      | ModificationTime \<Rightarrow>
          maps\<lparr>iam_modification_times := insert_parsed (js_mtime js) v ino (iam_modification_times maps)\<rparr>
      | InlineData \<Rightarrow> maps\<lparr>iam_inline_data := insert_parsed (js_inline js) v ino (iam_inline_data maps)\<rparr>
      | _ \<Rightarrow> maps)"

fun parse_inode_attrs_kv_pairs ::
  "tifs_config \<Rightarrow> json \<Rightarrow> (bytes \<times> bytes) list \<Rightarrow> inodes_attrs_hash_maps \<Rightarrow> inodes_attrs_hash_maps tifs_result" where
  "parse_inode_attrs_kv_pairs cfg js [] maps = Inr maps"
| "parse_inode_attrs_kv_pairs cfg js ((k, v) # pairs) maps =
     bind_result (key_parser_b cfg k) (\<lambda>kp.
     bind_result (parse_ino kp) (\<lambda>parsed.
       parse_inode_attrs_kv_pairs cfg js pairs (insert_attr js parsed v maps)))"

section \<open>Transactions with local state\<close>

text \<open>
  A mini transaction whose body changes a local variable: the store together with the variable.
  Rolling back does not restore the variable.
\<close>

definition on_world :: "('w, 'e, 'a) comp \<Rightarrow> ('w \<times> 's, 'e, 'a) comp" where
  "on_world m = (\<lambda>(w, s). case m w of (r, w') \<Rightarrow> (r, (w', s)))"

definition with_state :: "'w tikv \<Rightarrow> ('w \<times> 's) tikv" where
  "with_state T =
     \<lparr>tk_begin = on_world (tk_begin T),
      tk_get = (\<lambda>k. on_world (tk_get T k)),
      tk_batch_get = (\<lambda>ks. on_world (tk_batch_get T ks)),
      tk_batch_get_for_update = (\<lambda>ks. on_world (tk_batch_get_for_update T ks)),
      tk_put = (\<lambda>k v. on_world (tk_put T k v)),
      tk_delete = (\<lambda>k. on_world (tk_delete T k)),
      tk_batch_mutate = (\<lambda>ms. on_world (tk_batch_mutate T ms)),
      tk_scan = (\<lambda>r n. on_world (tk_scan T r n)),
      tk_scan_keys = (\<lambda>r n. on_world (tk_scan_keys T r n)),
      tk_commit = on_world (tk_commit T),
      tk_rollback = on_world (tk_rollback T)\<rparr>"

section \<open>Opening the snapshot\<close>

primrec start_snapshot_read_only :: "('w, fs_error, 'w tikv) comp \<Rightarrow> nat \<Rightarrow> ('w, fs_error, 'w tikv) comp" where
  "start_snapshot_read_only open_snapshot 0 w = open_snapshot w"
| "start_snapshot_read_only open_snapshot (Suc b) w =
     (case open_snapshot w of
        (Inr mini, w') \<Rightarrow> (Inr mini, w')
      | (Inl e, w') \<Rightarrow> start_snapshot_read_only open_snapshot b w')"

record 'w create_snapshot =
  csn_src_txn :: "'w txn_with_config"
  csn_txn_client_mux :: "'w tikv"

abbreviation csn_cfg :: "'w create_snapshot \<Rightarrow> tifs_config" where
  "csn_cfg S \<equiv> tx_fs_config (csn_src_txn S)"

abbreviation csn_single_action :: "'w create_snapshot \<Rightarrow> 'w flexible_transaction_kind" where
  "csn_single_action S \<equiv> SpawnMiniTransactions (csn_txn_client_mux S)"

text \<open>The transaction that \<open>spinning_mini_txn().start()\<close> hands out.\<close>

definition csn_started :: "'w create_snapshot \<Rightarrow> 'w txn_with_config" where
  "csn_started S = \<lparr>tx_fs_config = csn_cfg S, tx_mini = csn_txn_client_mux S, tx_ext = tx_ext (csn_src_txn S)\<rparr>"

definition reserve_new_inos :: "'w create_snapshot \<Rightarrow> u64 \<Rightarrow> ('w, fs_error, storage_ino) comp" where
  "reserve_new_inos S cnt = run_mini (csn_txn_client_mux S) (meta_mutable_reserve_new_inos (csn_started S) cnt)"

section \<open>Copying inodes\<close>

definition attr_keys :: "tifs_config \<Rightarrow> storage_ino \<Rightarrow> bytes list" where
  "attr_keys cfg ino =
     (let kb = key_builder cfg in
      [generate_key_InoDescription kb ino, generate_key_InoStorageFileAttr kb ino, generate_key_InoAccessTime kb ino,
       generate_key_InoModificationTime kb ino, generate_key_InoInlineData kb ino, generate_key_InoSize kb ino])"

text \<open>\<open>if let Some(value) = maps.field.remove(&src.ino)\<close>: the value leaves the map before it is put.\<close>

definition put_removed ::
  "(inodes_attrs_hash_maps \<Rightarrow> (storage_ino \<times> 'a) list)
     \<Rightarrow> (((storage_ino \<times> 'a) list \<Rightarrow> (storage_ino \<times> 'a) list) \<Rightarrow> inodes_attrs_hash_maps \<Rightarrow> inodes_attrs_hash_maps)
     \<Rightarrow> storage_ino \<Rightarrow> ('a \<Rightarrow> ('w, fs_error, unit) comp) \<Rightarrow> ('w \<times> inodes_attrs_hash_maps, fs_error, unit) comp" where
  "put_removed field field_update ino put = (\<lambda>(w, maps).
     case map_of (field maps) ino of
       None \<Rightarrow> (Inr (), (w, maps))
     | Some v \<Rightarrow> on_world (put v) (w, field_update (map_remove ino) maps))"

definition clone_attrs_of ::
  "'w create_snapshot \<Rightarrow> directory_item \<times> storage_ino \<Rightarrow> ('w \<times> inodes_attrs_hash_maps, fs_error, unit) comp" where
  "clone_attrs_of S src_new =
     (let (src, new_ino) = src_new; ino = dirit_ino src;
          T = csn_txn_client_mux S; kb = key_builder (csn_cfg S); js = tx_js (csn_src_txn S)
      in
      and_then (put_removed iam_descriptions iam_descriptions_update ino (\<lambda>v.
        put_json T (generate_key_InoDescription kb new_ino) (js_description js) (v\<lparr>desc_ino := new_ino\<rparr>))) (\<lambda>_.
      and_then (put_removed iam_attrs iam_attrs_update ino (put_json T (generate_key_InoStorageFileAttr kb new_ino) (js_attr js))) (\<lambda>_.
      and_then (put_removed iam_access_times iam_access_times_update ino (put_json T (generate_key_InoAccessTime kb new_ino) (js_atime js))) (\<lambda>_.
      and_then (put_removed iam_modification_times iam_modification_times_update ino
        (put_json T (generate_key_InoModificationTime kb new_ino) (js_mtime js))) (\<lambda>_.
      and_then (put_removed iam_inline_data iam_inline_data_update ino (put_json T (generate_key_InoInlineData kb new_ino) (js_inline js))) (\<lambda>_.
      put_removed iam_size (\<lambda>f maps. maps) ino (put_json T (generate_key_InoSize kb new_ino) (js_size js))))))))"

definition inode_clone_attrs ::
  "'w create_snapshot \<Rightarrow> (directory_item \<times> storage_ino) list \<Rightarrow> ('w, fs_error, (storage_ino \<times> ino_size) list) comp" where
  "inode_clone_attrs S src_dst_mapping =
     and_then (lift_tikv (tk_batch_get (tx_mini (csn_src_txn S))
         (concat (map (\<lambda>(src, dst). attr_keys (csn_cfg S) (dirit_ino src)) src_dst_mapping)))) (\<lambda>attr_data.
     and_then (of_result (parse_inode_attrs_kv_pairs (csn_cfg S) (tx_js (csn_src_txn S)) attr_data inodes_attrs_default)) (\<lambda>maps.
       \<lambda>w. case run_mini (with_state (csn_txn_client_mux S)) (for_each (clone_attrs_of S) src_dst_mapping) (w, maps) of
         (Inl e, (w', maps')) \<Rightarrow> (Inl e, w')
       | (Inr _, (w', maps')) \<Rightarrow> (Inr (iam_size maps'), w')))"

text \<open>The entries of a block map in the order of the \<open>BTreeMap\<close>, below an index.\<close>

definition block_map_entries :: "u64 \<Rightarrow> (block_index \<rightharpoonup> tifs_hash) \<Rightarrow> (block_index \<times> tifs_hash) list" where
  "block_map_entries end_i hashes = List.map_filter (\<lambda>i.
     map_option (Pair (BlockIndex (of_nat i))) (hashes (BlockIndex (of_nat i)))) [0..<unat end_i]"

text \<open>\<open>collect::<Counter<_>>()\<close>\<close>

definition count_hashes :: "tifs_hash list \<Rightarrow> (tifs_hash \<times> u64) list" where
  "count_hashes hs = fold (\<lambda>h m. map_insert h ((case map_of m h of None \<Rightarrow> 0 | Some n \<Rightarrow> n) + 1) m) hs []"

definition inode_clone_data ::
  "'w create_snapshot \<Rightarrow> directory_item \<Rightarrow> ino_size \<Rightarrow> storage_ino \<Rightarrow> ('w, fs_error, unit option) comp" where
  "inode_clone_data S src src_size dst =
     (let end_i = 1 + div_ceil (isz_size src_size) (cfg_block_size (csn_cfg S)) in
      then_some (hb_get_block_hash_list_by_block_range_chunked (csn_src_txn S) (dirit_ino src) (BlockIndex 0) (BlockIndex end_i)) (\<lambda>hashes.
        let entries = block_map_entries end_i hashes; block_incs = count_hashes (map snd entries) in
        and_then (run_mini (csn_txn_client_mux S) (hb_increment_blocks_reference_count (csn_started S) block_incs)) (\<lambda>pre_cnts.
        and_then (flex_batch_mutate (csn_single_action S) (map (\<lambda>(idx, hash).
          MutPut (block_hash (key_builder (csn_cfg S)) \<lparr>ba_ino = dst, ba_index = idx\<rparr>) hash) entries)) (\<lambda>_. ret (Some ())))))"

section \<open>Copying directories\<close>

text \<open>The children of one directory: the directories among them are copied later.\<close>

fun clone_children ::
  "'w create_snapshot \<Rightarrow> (storage_ino \<times> ino_size) list \<Rightarrow> (directory_item \<times> storage_ino) list
     \<Rightarrow> (parent_storage_ino \<times> parent_storage_ino) list \<Rightarrow> ('w, fs_error, (parent_storage_ino \<times> parent_storage_ino) list option) comp" where
  "clone_children S size_map [] copy_jobs = ret (Some copy_jobs)"
| "clone_children S size_map ((src_child, new_ino) # rest) copy_jobs =
     (case dirit_typ src_child of
        File \<Rightarrow>
          then_some (case map_of size_map (dirit_ino src_child) of
              Some src_size \<Rightarrow> inode_clone_data S src_child src_size new_ino
            | None \<Rightarrow> ret (Some ())) (\<lambda>_. clone_children S size_map rest copy_jobs)
      | Directory \<Rightarrow> clone_children S size_map rest
          (copy_jobs @ [(ParentStorageIno (dirit_ino src_child), ParentStorageIno new_ino)])
      | Symlink \<Rightarrow> clone_children S size_map rest copy_jobs)"

definition number_children :: "storage_ino \<Rightarrow> directory_item list \<Rightarrow> (directory_item \<times> storage_ino) list" where
  "number_children new_inos src_list =
     map (\<lambda>(i, src). (src, StorageIno (ino_raw new_inos + of_nat i))) (List.enumerate 0 src_list)"

definition copy_directory ::
  "'w create_snapshot \<Rightarrow> parent_storage_ino \<Rightarrow> parent_storage_ino \<Rightarrow> (parent_storage_ino \<times> parent_storage_ino) list
     \<Rightarrow> ('w, fs_error, (parent_storage_ino \<times> parent_storage_ino) list option) comp" where
  "copy_directory S origin_dir_ino destination_dir_ino copy_jobs =
     and_then (directory_scan_for_children (csn_src_txn S) (parent_ino origin_dir_ino) MAX_TIKV_SCAN_LIMIT) (\<lambda>src_list.
       if length src_list = 0 then ret (Some copy_jobs)
       else and_then (reserve_new_inos S (of_nat (length src_list))) (\<lambda>new_inos.
         let src_dst_mapping = number_children new_inos src_list in
         and_then (run_mini (csn_txn_client_mux S) (for_each (\<lambda>(src_child, new_ino).
             directory_add_child_link_unchecked (csn_started S) destination_dir_ino (dirit_name src_child)
               \<lparr>sdi_ino = new_ino, sdi_typ = dirit_typ src_child\<rparr>) src_dst_mapping)) (\<lambda>_.
         and_then (inode_clone_attrs S src_dst_mapping) (\<lambda>size_map.
           clone_children S size_map src_dst_mapping copy_jobs))))"

text \<open>
  The loop over the queue of directories; \<open>fuel\<close> bounds the number of directories, and running
  out of it is the value \<open>None\<close>.
\<close>

fun directory_copy_recursive ::
  "'w create_snapshot \<Rightarrow> nat \<Rightarrow> (parent_storage_ino \<times> parent_storage_ino) list \<Rightarrow> ('w, fs_error, unit option) comp" where
  "directory_copy_recursive S fuel [] = ret (Some ())"
| "directory_copy_recursive S 0 (job # copy_jobs) = ret None"
| "directory_copy_recursive S (Suc fuel) ((origin_dir_ino, destination_dir_ino) # copy_jobs) =
     then_some (copy_directory S origin_dir_ino destination_dir_ino copy_jobs) (directory_copy_recursive S fuel)"

definition create_snapshot ::
  "'w create_snapshot \<Rightarrow> (nat \<Rightarrow> system_time) \<Rightarrow> nat \<Rightarrow> name \<Rightarrow> ('w, fs_error, storage_dir_item got_or_made option) comp" where
  "create_snapshot S now fuel nm =
     and_then (fetch (tx_mini (csn_src_txn S)) (generate_key_InoStorageFileAttr (key_builder (csn_cfg S)) (parent_ino ROOT_INODE))
         (js_attr (tx_js (csn_src_txn S)))) (\<lambda>root_attr.
     and_then (reserve_new_inos S 1) (\<lambda>new_ino.
     and_then (run_mini (csn_txn_client_mux S) (directory_add_child_checked_new_inode (csn_started S) now
         SNAPSHOT_PARENT_INODE nm Directory (attr_perm root_attr) (attr_gid root_attr) (attr_uid root_attr)
         (attr_rdev root_attr) None new_ino)) (\<lambda>got_or_made.
       case got_or_made of
         ExistedAlready _ \<Rightarrow> ret (Some got_or_made)
       | NewlyCreated snapshot_dir \<Rightarrow>
           then_some (directory_copy_recursive S fuel [(ROOT_INODE, ParentStorageIno (sdi_ino snapshot_dir))])
             (\<lambda>_. ret (Some (NewlyCreated snapshot_dir))))))"

definition snapshot_create ::
  "'w tikv_based_hash_fs \<Rightarrow> ('w, fs_error, 'w tikv) comp \<Rightarrow> (nat \<Rightarrow> system_time) \<Rightarrow> nat \<Rightarrow> name
     \<Rightarrow> ('w, hash_fs_error, storage_dir_item got_or_made option) comp" where
  "snapshot_create H open_snapshot now fuel nm =
     and_then (lift_fs (start_snapshot_read_only open_snapshot SPIN_ATTEMPTS)) (\<lambda>snapshot.
       lift_fs (create_snapshot
         \<lparr>csn_src_txn = \<lparr>tx_fs_config = hf_fs_config H, tx_mini = snapshot, tx_ext = hf_ext H\<rparr>,
          csn_txn_client_mux = hf_txn_client_mux H\<rparr> now fuel nm))"

end
