(* ===== verification/Hash_Fs_Interface.thy ===== *)
theory Hash_Fs_Interface
  imports Snapshot
begin

text \<open>
  The trait \<open>HashFsInterface\<close> of \<open>hash_fs_interface.rs\<close> as a record of operations over a world
  \<open>'w\<close>, and the two implementations of it that the program has: the file system on TiKV here,
  the gRPC client in its own theory. What an operation takes from its surroundings (readings of
  the clock, a fresh identifier) is an argument. Operations with a loop that may not end return
  an option, \<open>None\<close> standing for a call that does not return.
\<close>

record op_env =
  env_now :: "nat \<Rightarrow> system_time"
  env_uuid :: uuid
  env_fuel :: nat

record 'w hash_fs_interface =
  if_init :: "op_env \<Rightarrow> u32 \<Rightarrow> u32 \<Rightarrow> ('w, hash_fs_error, storage_dir_item) comp"
  if_meta_static_read :: "('w, hash_fs_error, meta_static) comp"
  if_directory_read_children :: "storage_ino \<Rightarrow> ('w, hash_fs_error, directory_item list) comp"
  if_directory_add_child_checked_new_inode ::
    "op_env \<Rightarrow> parent_storage_ino \<Rightarrow> name \<Rightarrow> storage_dir_item_kind \<Rightarrow> storage_file_permission \<Rightarrow> u32 \<Rightarrow> u32 \<Rightarrow> u32
      \<Rightarrow> bytes option \<Rightarrow> ('w, hash_fs_error, storage_dir_item got_or_made) comp"
  if_directory_add_child_checked_existing_inode ::
    "parent_storage_ino \<Rightarrow> name \<Rightarrow> storage_ino \<Rightarrow> ('w, hash_fs_error, unit) comp"
  if_directory_remove_child_file :: "op_env \<Rightarrow> parent_storage_ino \<Rightarrow> name \<Rightarrow> ('w, hash_fs_error, unit) comp"
  if_directory_remove_child_directory :: "parent_storage_ino \<Rightarrow> name \<Rightarrow> ('w, hash_fs_error, unit) comp"
  if_directory_rename_child ::
    "parent_storage_ino \<Rightarrow> name \<Rightarrow> parent_storage_ino \<Rightarrow> name \<Rightarrow> ('w, hash_fs_error, unit) comp"
  if_directory_child_get_all_attributes :: "parent_storage_ino \<Rightarrow> name \<Rightarrow> ('w, hash_fs_error, all_attributes) comp"
  if_directory_add_new_symlink ::
    "op_env \<Rightarrow> u32 \<Rightarrow> u32 \<Rightarrow> parent_storage_ino \<Rightarrow> name \<Rightarrow> bytes \<Rightarrow> ('w, hash_fs_error, storage_dir_item) comp"
  if_inode_get_all_attributes :: "storage_ino \<Rightarrow> ('w, hash_fs_error, all_attributes) comp"
  if_inode_set_all_attributes ::
    "op_env \<Rightarrow> storage_ino \<Rightarrow> storage_file_permission option \<Rightarrow> u32 option \<Rightarrow> u32 option \<Rightarrow> u64 option
      \<Rightarrow> time_or_now option \<Rightarrow> time_or_now option \<Rightarrow> system_time option \<Rightarrow> system_time option \<Rightarrow> system_time option
      \<Rightarrow> system_time option \<Rightarrow> u32 option \<Rightarrow> ('w, hash_fs_error, unit) comp"
  if_inode_open :: "op_env \<Rightarrow> storage_ino \<Rightarrow> ('w, hash_fs_error, uuid) comp"
  if_inode_close :: "storage_ino \<Rightarrow> uuid \<Rightarrow> ('w, hash_fs_error, unit) comp"
  if_inode_allocate_size :: "op_env \<Rightarrow> storage_ino \<Rightarrow> 64 word \<Rightarrow> 64 word \<Rightarrow> ('w, hash_fs_error, unit) comp"
  if_inode_read_inline_data :: "storage_ino \<Rightarrow> ('w, hash_fs_error, bytes) comp"
  if_inode_read_block_hashes_data_range ::
    "storage_ino \<Rightarrow> u64 \<Rightarrow> u64 \<Rightarrow> ('w, hash_fs_error, (block_index \<rightharpoonup> tifs_hash) option) comp"
  if_inode_read_block_hashes_block_range ::
    "storage_ino \<Rightarrow> (block_index \<times> block_index) list \<Rightarrow> ('w, hash_fs_error, (block_index \<rightharpoonup> tifs_hash) option) comp"
  if_hb_get_block_data_by_hashes :: "tifs_hash list \<Rightarrow> ('w, hash_fs_error, (tifs_hash \<times> bytes) list) comp"
  if_file_get_hash :: "storage_ino \<Rightarrow> ('w, hash_fs_error, bytes option) comp"
  if_file_read_block_hashes :: "storage_ino \<Rightarrow> block_index \<Rightarrow> block_index \<Rightarrow> ('w, hash_fs_error, bytes option) comp"
  if_hb_increment_reference_count :: "(tifs_hash \<times> u64) list \<Rightarrow> ('w, hash_fs_error, (tifs_hash \<times> nat) list) comp"
  if_hb_upload_new_block :: "(tifs_hash \<times> bytes) list \<Rightarrow> ('w, hash_fs_error, unit) comp"
  if_inode_write_hash_block_to_addresses ::
    "op_env \<Rightarrow> storage_ino \<Rightarrow> (tifs_hash \<times> u64 \<times> block_index list) list \<Rightarrow> ('w, hash_fs_error, unit) comp"
  if_snapshot_create :: "op_env \<Rightarrow> name \<Rightarrow> ('w, hash_fs_error, storage_dir_item got_or_made option) comp"

definition tikv_hash_fs_interface ::
  "'w tikv_based_hash_fs \<Rightarrow> ('w, fs_error, 'w tikv) comp \<Rightarrow> 'w hash_fs_interface" where
  "tikv_hash_fs_interface H open_snapshot =
     \<lparr>if_init = (\<lambda>env. hf_init H (env_now env)),
      if_meta_static_read = meta_static_read H,
      if_directory_read_children = directory_read_children H,
      if_directory_add_child_checked_new_inode = (\<lambda>env. hf_directory_add_child_checked_new_inode H (env_now env)),
      if_directory_add_child_checked_existing_inode = hf_directory_add_child_checked_existing_inode H,
      if_directory_remove_child_file = (\<lambda>env. directory_remove_child_file H (env_now env 0)),
      if_directory_remove_child_directory = directory_remove_child_directory H,
      if_directory_rename_child = hf_directory_rename_child H,
      if_directory_child_get_all_attributes = directory_child_get_all_attributes H,
      if_directory_add_new_symlink = (\<lambda>env. directory_add_new_symlink H (env_now env)),
      if_inode_get_all_attributes = inode_get_all_attributes H,
      if_inode_set_all_attributes = (\<lambda>env. inode_set_all_attributes H (env_now env)),
      if_inode_open = (\<lambda>env. hf_inode_open H (env_uuid env)),
      if_inode_close = hf_inode_close H,
      if_inode_allocate_size = (\<lambda>env. hf_inode_allocate_size H (env_now env)),
      if_inode_read_inline_data = inode_read_inline_data H,
      if_inode_read_block_hashes_data_range = inode_read_block_hashes_data_range H,
      if_inode_read_block_hashes_block_range = inode_read_block_hashes_block_range H,
      if_hb_get_block_data_by_hashes = hb_get_block_data_by_hashes H,
      if_file_get_hash = file_get_hash H,
      if_file_read_block_hashes = file_read_block_hashes H,
      if_hb_increment_reference_count = hb_increment_reference_count H,
      if_hb_upload_new_block = hb_upload_new_block H,
      if_inode_write_hash_block_to_addresses = (\<lambda>env.
        inode_write_hash_block_to_addresses_update_ino_size_and_cleaning_previous_block_hashes H (env_now env) (env_uuid env)),
      if_snapshot_create = (\<lambda>env. snapshot_create H open_snapshot (env_now env) (env_fuel env))\<rparr>"

end
