(* ===== verification/Block_Splitter.thy ===== *)
theory Block_Splitter
  imports Inode_Ops
begin

text \<open>
  How a range of a file is cut into blocks: \<open>hash_block/block_splitter.rs\<close> for writes and
  reads, \<open>hashed_block.rs\<close> and \<open>hash_block/helpers.rs\<close> for the update of a partial
  block, and \<open>parsers.rs\<close> for putting a read together. A \<open>usize\<close> is a natural number
  (64-bit targets, so \<open>as usize\<close> is \<open>unat\<close>); indices and sizes stay 64-bit words.
  Constructing a splitter with block size 0 divides by zero: \<open>None\<close>.
\<close>

section \<open>Splitting a write\<close>

record block_index_and_data =
  bid_block_index :: block_index
  bid_data :: bytes

record block_splitter_write =
  bsw_block_size :: u64
  bsw_start :: u64
  bsw_data :: bytes
  bsw_first_data_start_position :: nat
  bsw_first_data :: block_index_and_data
  bsw_mid_data :: block_index_and_data
  bsw_last_data :: block_index_and_data

definition get_irregular_start_and_rest :: "u64 \<Rightarrow> u64 \<Rightarrow> bytes \<Rightarrow> block_splitter_write" where
  "get_irregular_start_and_rest block_size start data =
     (let first_index = start div block_size;
          start_position = unat (start mod block_size);
          remaining_space = unat block_size - start_position;
          write_length = min remaining_space (length data);
          regular = (write_length = unat block_size);
          first = (if regular then [] else take write_length data);
          rest = (if regular then data else drop write_length data);
          index = (if regular then first_index else first_index + 1);
          full_blocks = length rest div unat block_size;
          begin_of_last = full_blocks * unat block_size;
          mid = take begin_of_last rest;
          end_block = drop begin_of_last rest;
          last_index = index + of_nat full_blocks
      in \<lparr>bsw_block_size = block_size, bsw_start = start, bsw_data = data,
          bsw_first_data_start_position = start_position,
          bsw_first_data = \<lparr>bid_block_index = BlockIndex first_index, bid_data = first\<rparr>,
          bsw_mid_data = \<lparr>bid_block_index = BlockIndex index, bid_data = mid\<rparr>,
          bsw_last_data =
            (if length end_block > 0
             then \<lparr>bid_block_index = BlockIndex last_index, bid_data = end_block\<rparr>
             else \<lparr>bid_block_index = BlockIndex (last_index - 1), bid_data = []\<rparr>)\<rparr>)"

definition block_splitter_write_new :: "u64 \<Rightarrow> u64 \<Rightarrow> bytes \<Rightarrow> block_splitter_write option" where
  "block_splitter_write_new block_size start data =
     (if block_size = 0 then None else Some (get_irregular_start_and_rest block_size start data))"

definition get_range :: "block_splitter_write \<Rightarrow> block_index \<times> block_index" where
  "get_range bs =
     (bid_block_index (bsw_first_data bs),
      BlockIndex (block_raw (bid_block_index (bsw_last_data bs)) + 1))"

section \<open>Splitting a read\<close>

record block_splitter_read =
  bsr_block_size :: u64
  bsr_start :: u64
  bsr_size :: u64
  bsr_first_block_index :: u64
  bsr_first_block_read_offset :: u64
  bsr_bytes_to_read_first_block :: u64
  bsr_block_count :: u64
  bsr_end_block_index :: u64

definition block_splitter_read_new :: "u64 \<Rightarrow> u64 \<Rightarrow> u64 \<Rightarrow> block_splitter_read option" where
  "block_splitter_read_new block_size start sz =
     (if block_size = 0 then None else
      let first_block = start div block_size;
          first_block_read_offset = start mod block_size;
          bytes_first = min (block_size - first_block_read_offset) sz;
          remaining_size = sz - bytes_first;
          last_block = first_block + remaining_size div block_size;
          remaining_bytes_last_block = remaining_size mod block_size;
          block_count = last_block - first_block;
          block_count = (if bytes_first > 0 then block_count + 1 else block_count);
          block_count = (if remaining_bytes_last_block > 0 then block_count + 1 else block_count)
      in Some \<lparr>bsr_block_size = block_size, bsr_start = start, bsr_size = sz,
           bsr_first_block_index = first_block,
           bsr_first_block_read_offset = first_block_read_offset,
           bsr_bytes_to_read_first_block = bytes_first,
           bsr_block_count = block_count,
           bsr_end_block_index = first_block + block_count\<rparr>)"

definition bsr_block_range :: "block_splitter_read \<Rightarrow> u64 \<times> u64" where
  "bsr_block_range bs = (bsr_first_block_index bs, bsr_end_block_index bs)"

section \<open>Updating a partial block\<close>

definition update_data_range_in_vec :: "nat \<Rightarrow> bytes \<Rightarrow> bytes \<Rightarrow> bytes" where
  "update_data_range_in_vec start_write_pos block_write_data dest =
     (let write_till_position = start_write_pos + length block_write_data;
          dest = (if length dest < write_till_position
                  then resize_zero write_till_position dest else dest)
      in copy_into start_write_pos block_write_data dest)"

record hashed_block_rec =
  hb_hash :: "tifs_hash option"
  hb_data :: bytes

definition hashed_block_new :: hashed_block_rec where
  "hashed_block_new = \<lparr>hb_hash = None, hb_data = []\<rparr>"

definition update_data_range :: "nat \<Rightarrow> bytes \<Rightarrow> hashed_block_rec \<Rightarrow> hashed_block_rec" where
  "update_data_range start_write_pos d self =
     self\<lparr>hb_data := update_data_range_in_vec start_write_pos d (hb_data self)\<rparr>"

definition empty_block :: "u64 \<Rightarrow> bytes" where
  "empty_block block_size = replicate (unat block_size) 0"

record update_irregular_block =
  uib_data :: block_index_and_data
  uib_start_position :: nat
  uib_original_data_hash :: "tifs_hash option"

text \<open>
  The set of requested hashes and the maps of new blocks and of new block hashes are threaded
  through; the file system configuration enters as the digest function \<open>calc\<close> it provides
  (\<open>TiFsConfig::calculate_hash\<close>).
\<close>

definition get_and_add_original_block_hash ::
  "block_index_and_data \<Rightarrow> nat \<Rightarrow> (block_index \<rightharpoonup> tifs_hash) \<Rightarrow> tifs_hash list
     \<Rightarrow> update_irregular_block \<times> tifs_hash list" where
  "get_and_add_original_block_hash d pos hash_list_prev requests =
     (let found = (if length (bid_data d) > 0 then hash_list_prev (bid_block_index d) else None)
      in (\<lparr>uib_data = d, uib_start_position = pos, uib_original_data_hash = found\<rparr>,
          (case found of None \<Rightarrow> requests | Some h \<Rightarrow> List.insert h requests)))"

type_synonym new_blocks = "(tifs_hash \<times> bytes) list \<times> (block_index \<times> tifs_hash) list"

definition get_and_modify_block_and_publish_hash ::
  "(bytes \<Rightarrow> tifs_hash) \<Rightarrow> (tifs_hash \<rightharpoonup> bytes) \<Rightarrow> update_irregular_block \<Rightarrow> new_blocks \<Rightarrow> new_blocks" where
  "get_and_modify_block_and_publish_hash calc pre_data self out =
     (if length (bid_data (uib_data self)) > 0
      then let original = Option.bind (uib_original_data_hash self) pre_data;
               modifiable = (case original of Some orig \<Rightarrow> orig | None \<Rightarrow> []);
               modifiable = update_data_range_in_vec (uib_start_position self)
                 (bid_data (uib_data self)) modifiable;
               new_hash = calc modifiable
           in (map_try_insert new_hash modifiable (fst out),
               map_insert (bid_block_index (uib_data self)) new_hash (snd out))
      else out)"

section \<open>Reading from blocks\<close>

text \<open>
  One iteration of the loop of \<open>hb_read_from_blocks\<close>: the block with index
  \<open>first_block_index + rel\<close> appends to the result. \<open>bs.size - result.len()\<close> cannot
  underflow here: the result never grows beyond the size.
\<close>

definition read_block_step ::
  "block_splitter_read \<Rightarrow> (block_index \<rightharpoonup> tifs_hash) \<Rightarrow> (tifs_hash \<rightharpoonup> bytes) \<Rightarrow> nat \<Rightarrow> bytes \<Rightarrow> bytes" where
  "read_block_step bs block_hashes blocks_data rel_index result =
     (let block_data = (case Option.bind (block_hashes (BlockIndex
              (bsr_first_block_index bs + of_nat rel_index))) blocks_data of
            Some d \<Rightarrow> d | None \<Rightarrow> []);
          (rd_start, rd_size) =
            (if rel_index = 0
             then (unat (bsr_first_block_read_offset bs), unat (bsr_bytes_to_read_first_block bs))
             else (0, min (unat (bsr_size bs) - length result) (unat (bsr_block_size bs))))
      in if rd_start < length block_data
         then result @ take (min (rd_start + rd_size) (length block_data) - rd_start)
                (drop rd_start block_data)
         else result)"

definition hb_read_from_blocks ::
  "block_splitter_read \<Rightarrow> (block_index \<rightharpoonup> tifs_hash) \<Rightarrow> (tifs_hash \<rightharpoonup> bytes) \<Rightarrow> bytes tifs_result" where
  "hb_read_from_blocks bs block_hashes blocks_data =
     Inr (fold (read_block_step bs block_hashes blocks_data)
       [0..<unat (bsr_end_block_index bs) - unat (bsr_first_block_index bs)] [])"

section \<open>Facts on splitting a write\<close>

lemma unat_div_u64: "unat (a div b) = unat a div unat b" for a b :: u64
  by (simp add: unat_div)

lemma unat_add_of_nat_u64: "unat a + n < 2 ^ 64 \<Longrightarrow> unat (a + of_nat n) = unat a + n" for a :: u64
  by (simp add: unat_word_ariths unat_of_nat mod_simps)

lemma of_nat_eq_wordI: "unat w = n \<Longrightarrow> of_nat n = w" for w :: u64
  by auto

lemma unat_succ_bound: "unat a + 1 < 2 ^ 64 \<Longrightarrow> unat (a + 1) = unat a + 1" for a :: u64
  using unat_add_of_nat_u64 [of a 1] by simp

text \<open>The first piece: what it takes, and where the rest starts.\<close>

lemma split_write_regular:
  fixes s b len :: nat
  assumes "0 < b" and "min (b - s mod b) len = b"
  shows "s mod b = 0" and "b \<le> len" and "b * (s div b) = s"
proof -
  have "s mod b < b" using assms(1) by simp
  then show "s mod b = 0" "b \<le> len" using assms by (auto simp: min_def split: if_splits)
  then show "b * (s div b) = s" using mult_div_mod_eq [of b s] by linarith
qed

lemma split_write_irregular:
  fixes s b len :: nat
  assumes "0 < b" and "b - s mod b < len"
  shows "b * (s div b + 1) = s + (b - s mod b)"
proof -
  have "s mod b < b" using assms by simp
  then show ?thesis using mult_div_mod_eq [of b s]
    unfolding distrib_left mult_1_right by linarith
qed

lemma le_mult_pos: "0 < b \<Longrightarrow> k \<le> b * k" for b k :: nat
  by (cases b) auto

lemma div_pred_eqI: "0 < b \<Longrightarrow> b * k < e \<Longrightarrow> e \<le> b * k + b \<Longrightarrow> (e - 1) div b = k" for b e k :: nat
  by (intro div_nat_eqI) (simp_all add: algebra_simps)

lemma length_rest_split:
  fixes n b :: nat
  shows "n div b * b + n mod b = n" and "n - n div b * b = n mod b"
  by (simp_all add: minus_div_mult_eq_mod)

definition split_ok :: "nat \<Rightarrow> nat \<Rightarrow> bytes \<Rightarrow> block_splitter_write \<Rightarrow> bool" where
  "split_ok b s data w \<longleftrightarrow>
     (let first = bid_data (bsw_first_data w); mid = bid_data (bsw_mid_data w);
          final = bid_data (bsw_last_data w);
          index = (\<lambda>d. unat (block_raw (bid_block_index d)))
      in first @ mid @ final = data
       \<and> index (bsw_first_data w) = s div b \<and> bsw_first_data_start_position w = s mod b
       \<and> s mod b + length first \<le> b
       \<and> length mid mod b = 0 \<and> length final < b
       \<and> (mid \<noteq> [] \<longrightarrow> b * index (bsw_mid_data w) = s + length first)
       \<and> (final \<noteq> [] \<longrightarrow> b * index (bsw_last_data w) = s + length first + length mid)
       \<and> (data \<noteq> [] \<longrightarrow> index (bsw_last_data w) = (s + length data - 1) div b))"

lemma split_tail_ok:
  fixes rest :: bytes and i :: u64 and b e :: nat
  defines "n \<equiv> length rest div b"
  assumes "0 < b" and "b * unat i = e" and "e + length rest < 2 ^ 64" and "rest \<noteq> []"
  shows "drop (n * b) rest \<noteq> [] \<Longrightarrow>
      b * unat (i + of_nat n) = e + n * b \<and> unat (i + of_nat n) = (e + length rest - 1) div b"
    and "drop (n * b) rest = [] \<Longrightarrow> unat (i + of_nat n - 1) = (e + length rest - 1) div b"
proof -
  have nb: "n * b + length rest mod b = length rest" by (simp add: n_def length_rest_split)
  have "unat i + n \<le> b * (unat i + n)" using assms(2) by simp
  also have "\<dots> = e + n * b" using assms(3) by (simp add: algebra_simps)
  also have "\<dots> < 2 ^ 64" using assms(4) nb by linarith
  finally have u: "unat (i + of_nat n) = unat i + n" by (rule unat_add_of_nat_u64)
  then have bu: "b * unat (i + of_nat n) = e + n * b" using assms(3) by (simp add: algebra_simps)
  { assume "drop (n * b) rest \<noteq> []"
    then have "0 < length rest mod b" using nb by auto
    then have "(e + length rest - 1) div b = unat (i + of_nat n)"
      using nb bu assms(2) mod_less_divisor [OF assms(2), of "length rest"]
      by (intro div_pred_eqI) linarith+
    with bu show "b * unat (i + of_nat n) = e + n * b \<and> unat (i + of_nat n) = (e + length rest - 1) div b"
      by simp }
  { assume "drop (n * b) rest = []"
    then have full: "length rest = n * b" using nb by simp
    then have "0 < n" using assms(5) by (cases n) auto
    then have pred: "unat (i + of_nat n - 1) = unat i + n - 1"
      using u by (metis add_gr_0 unat_0 unat_minus_one less_irrefl)
    have "b * (unat i + n - 1) + b = e + length rest"
      using \<open>0 < n\<close> full assms(3) by (cases n) (simp_all add: algebra_simps)
    then have "(e + length rest - 1) div b = unat i + n - 1"
      using assms(2) by (intro div_pred_eqI) auto
    with pred show "unat (i + of_nat n - 1) = (e + length rest - 1) div b" by simp }
qed


text \<open>The splitter in terms of its first piece, the index after it and the rest.\<close>

definition split_parts :: "u64 \<Rightarrow> u64 \<Rightarrow> bytes \<Rightarrow> bytes \<Rightarrow> u64 \<Rightarrow> bytes \<Rightarrow> block_splitter_write" where
  "split_parts block_size start data first index rest =
     (let n = length rest div unat block_size;
          mid = take (n * unat block_size) rest; end_block = drop (n * unat block_size) rest
      in \<lparr>bsw_block_size = block_size, bsw_start = start, bsw_data = data,
          bsw_first_data_start_position = unat (start mod block_size),
          bsw_first_data = \<lparr>bid_block_index = BlockIndex (start div block_size), bid_data = first\<rparr>,
          bsw_mid_data = \<lparr>bid_block_index = BlockIndex index, bid_data = mid\<rparr>,
          bsw_last_data =
            (if length end_block > 0
             then \<lparr>bid_block_index = BlockIndex (index + of_nat n), bid_data = end_block\<rparr>
             else \<lparr>bid_block_index = BlockIndex (index + of_nat n - 1), bid_data = []\<rparr>)\<rparr>)"

lemma get_irregular_start_and_rest_parts:
  "get_irregular_start_and_rest bs start data =
     (let w = min (unat bs - unat (start mod bs)) (length data) in
      if w = unat bs then split_parts bs start data [] (start div bs) data
      else split_parts bs start data (take w data) (start div bs + 1) (drop w data))"
  unfolding get_irregular_start_and_rest_def split_parts_def Let_def by (simp only: if_True if_False split: if_split) blast

lemma split_parts_ok:
  fixes first rest :: bytes and start index bs :: u64
  assumes "0 < unat bs" and "first @ rest = data" and "rest \<noteq> []"
    and "unat start mod unat bs + length first \<le> unat bs"
    and "unat bs * unat index = unat start + length first"
    and "unat start + length data < 2 ^ 64"
  shows "split_ok (unat bs) (unat start) data (split_parts bs start data first index rest)"
proof -
  let ?b = "unat bs" and ?s = "unat start" and ?n = "length rest div unat bs"
  have len: "length data = length first + length rest" using assms(2) by auto
  have bound: "(?s + length first) + length rest < 2 ^ 64" using assms(6) len by simp
  note tail = split_tail_ok [OF assms(1,5) bound assms(3)]
  have lm: "length (take (?n * ?b) rest) = ?n * ?b" by simp
  have ld: "length (drop (?n * ?b) rest) < ?b" using assms(1) by (simp add: length_rest_split)
  have cat: "first @ take (?n * ?b) rest @ drop (?n * ?b) rest = data" using assms(2) by simp
  have sum: "?s + length data = ?s + length first + length rest" using len by simp
  show ?thesis
  proof (cases "drop (?n * ?b) rest = []")
    case True
    then have mid: "take (?n * ?b) rest = rest" using cat assms(2) by (metis append_Nil2 append_take_drop_id)
    have "length rest mod ?b = 0" using True length_rest_split(2) [of "length rest" ?b] by simp
    then show ?thesis
      unfolding split_ok_def split_parts_def Let_def sum
      using True tail(2) [OF True] assms(1-5) mid lm by (simp add: unat_div unat_mod)
  next
    case False
    then show ?thesis
      unfolding split_ok_def split_parts_def Let_def sum
      using conjunct1 [OF tail(1) [OF False]] conjunct2 [OF tail(1) [OF False]] assms(1-5) cat lm ld
      by (simp add: unat_div unat_mod)
  qed
qed

lemma split_write_ok:
  assumes "bs \<noteq> 0" and "unat start + length data < 2 ^ 64"
  shows "split_ok (unat bs) (unat start) data (get_irregular_start_and_rest bs start data)"
proof -
  let ?b = "unat bs" and ?s = "unat start" and ?i = "start div bs"
  let ?w = "min (?b - ?s mod ?b) (length data)"
  have pos: "0 < ?b" using assms(1) by (simp add: unat_gt_0)
  have i: "unat ?i = ?s div ?b" by (rule unat_div_u64)
  have m: "unat (start mod bs) = ?s mod ?b" by (simp add: unat_mod)
  have r: "?s mod ?b < ?b" using pos by simp
  note parts = get_irregular_start_and_rest_parts [of bs start data, unfolded m Let_def]
  consider (full) "?w = ?b" | (over) "?w \<noteq> ?b" "?b - ?s mod ?b < length data"
    | (within) "?w \<noteq> ?b" "length data \<le> ?b - ?s mod ?b" by linarith
  then show ?thesis
  proof cases
    case full
    note reg = split_write_regular [OF pos full]
    have "split_ok ?b ?s data (split_parts bs start data [] ?i data)"
      using reg pos i assms(2) by (intro split_parts_ok) auto
    then show ?thesis using parts full by simp
  next
    case over
    then have w: "?w = ?b - ?s mod ?b" by simp
    have e: "?b * (?s div ?b + 1) = ?s + ?w"
      using split_write_irregular [OF pos over(2)] w by simp
    have "?s div ?b + 1 \<le> ?b * (?s div ?b + 1)" by (rule le_mult_pos [OF pos])
    also have "\<dots> < 2 ^ 64" using e assms(2) by linarith
    finally have i1: "unat (?i + 1) = ?s div ?b + 1" using i by (metis unat_succ_bound)
    have "split_ok ?b ?s data (split_parts bs start data (take ?w data) (?i + 1) (drop ?w data))"
      using e i1 over r assms(2) pos by (intro split_parts_ok) (simp_all add: w)
    then show ?thesis using parts over(1) by simp
  next
    case within
    then have w: "?w = length data" by simp
    have "(?s + length data - 1) div ?b = ?s div ?b" if "0 < length data"
      using that within(2) r pos mult_div_mod_eq [of ?b ?s] by (intro div_pred_eqI) linarith+
    moreover have "?s mod ?b + length data \<le> ?b" using within(2) r by linarith
    ultimately have "split_ok ?b ?s data (split_parts bs start data data (?i + 1) [])"
      unfolding split_ok_def split_parts_def Let_def using within(2) r pos i m by simp
    then show ?thesis using parts within(1) w by simp
  qed
qed

lemma split_write_range:
  assumes "bs \<noteq> 0" and "unat start + length data < 2 ^ 64" and "data \<noteq> []"
  shows "get_range (get_irregular_start_and_rest bs start data) =
    (BlockIndex (start div bs), BlockIndex (of_nat ((unat start + length data - 1) div unat bs) + 1))"
proof -
  let ?w = "get_irregular_start_and_rest bs start data"
  have "block_raw (bid_block_index (bsw_last_data ?w)) = of_nat ((unat start + length data - 1) div unat bs)"
    using split_write_ok [OF assms(1,2)] assms(3) unfolding split_ok_def Let_def by (metis of_nat_eq_wordI)
  moreover have "bid_block_index (bsw_first_data ?w) = BlockIndex (start div bs)"
    by (simp add: get_irregular_start_and_rest_def Let_def)
  ultimately show ?thesis by (simp add: get_range_def)
qed

section \<open>Facts on splitting a read\<close>

definition read_split_ok :: "nat \<Rightarrow> nat \<Rightarrow> nat \<Rightarrow> block_splitter_read \<Rightarrow> bool" where
  "read_split_ok b s n r \<longleftrightarrow>
     unat (bsr_block_size r) = b \<and> unat (bsr_size r) = n
     \<and> unat (bsr_first_block_index r) = s div b
     \<and> unat (bsr_first_block_read_offset r) = s mod b
     \<and> unat (bsr_bytes_to_read_first_block r) = min (b - s mod b) n
     \<and> unat (bsr_end_block_index r) = (if n = 0 then s div b else (s + n - 1) div b + 1)"

lemma read_split_count:
  fixes b s n :: nat
  assumes "0 < b" and "0 < n"
  defines "rem \<equiv> n - min (b - s mod b) n"
  shows "(s + n - 1) div b + 1 =
    s div b + (rem div b + 1 + (if rem mod b = 0 then 0 else 1))"
proof -
  have r: "s mod b < b" and sd: "b * (s div b) + s mod b = s" using assms(1) by simp_all
  have rd: "b * (rem div b) + rem mod b = rem" by simp
  show ?thesis
  proof (cases "n \<le> b - s mod b")
    case True
    then have "rem = 0" by (simp add: rem_def)
    moreover have "(s + n - 1) div b = s div b"
      using True assms(1,2) r sd by (intro div_pred_eqI) linarith+
    ultimately show ?thesis by simp
  next
    case False
    then have "rem = n - (b - s mod b)" by (simp add: rem_def)
    then have sn: "s + n = b * (s div b + 1) + rem"
      using False r sd unfolding distrib_left mult_1_right by linarith
    show ?thesis
    proof (cases "rem mod b = 0")
      case True
      have "s + n = b * (s div b + rem div b) + b"
        using sn rd True by (simp add: algebra_simps)
      then have "(s + n - 1) div b = s div b + rem div b"
        using assms(1) by (intro div_pred_eqI) auto
      then show ?thesis using True by simp
    next
      case False
      have "s + n = b * (s div b + rem div b + 1) + rem mod b"
        using sn rd by (simp add: algebra_simps)
      then have "(s + n - 1) div b = s div b + rem div b + 1"
        using False assms(1) mod_less_divisor [OF assms(1), of rem]
        by (intro div_pred_eqI) (auto simp: less_imp_le)
      then show ?thesis using False by simp
    qed
  qed
qed

lemma read_split_correct:
  assumes "bs \<noteq> 0" and "unat start + unat n < 2 ^ 64" and "block_splitter_read_new bs start n = Some r"
  shows "read_split_ok (unat bs) (unat start) (unat n) r"
proof -
  let ?b = "unat bs" and ?s = "unat start" and ?n = "unat n"
  let ?first = "min (bs - start mod bs) n"
  let ?rem = "?n - min (?b - ?s mod ?b) ?n"
  have pos: "0 < ?b" using assms(1) by (simp add: unat_gt_0)
  have "start mod bs \<le> bs" using pos by (simp add: word_le_nat_alt unat_mod less_imp_le)
  then have f: "unat ?first = min (?b - ?s mod ?b) ?n"
    by (simp add: min_def word_le_nat_alt unat_sub unat_mod)
  have rm: "unat (n - ?first) = ?rem"
    using f by (simp add: unat_sub)
  let ?cnt = "(n - ?first) div bs"
  have cnt: "unat ?cnt = ?rem div ?b" by (simp add: unat_div_u64 rm)
  have f0: "?first > 0 \<longleftrightarrow> 0 < ?n"
    using f pos mod_less_divisor [OF pos, of ?s] by (auto simp: word_less_nat_alt min_def)
  have m0: "(n - ?first) mod bs > 0 \<longleftrightarrow> ?rem mod ?b \<noteq> 0"
    by (simp add: word_less_nat_alt unat_mod rm)
  have r: "r = \<lparr>bsr_block_size = bs, bsr_start = start, bsr_size = n,
      bsr_first_block_index = start div bs, bsr_first_block_read_offset = start mod bs,
      bsr_bytes_to_read_first_block = ?first, bsr_block_count = bsr_block_count r,
      bsr_end_block_index = start div bs + bsr_block_count r\<rparr>"
    and r_end: "bsr_block_count r =
      (let c = (if ?first > 0 then ?cnt + 1 else ?cnt)
       in if (n - ?first) mod bs > 0 then c + 1 else c)"
    using assms(3) unfolding block_splitter_read_new_def Let_def if_not_P [OF assms(1)] option.inject
    by (clarify, simp only: block_splitter_read.simps add_diff_cancel_left')+
  have e: "unat (bsr_end_block_index r) = (if ?n = 0 then ?s div ?b else (?s + ?n - 1) div ?b + 1)"
  proof (cases "?n = 0")
    case True
    then show ?thesis
      using r_end by (subst r) (simp add: unat_div_u64 unat_eq_zero)
  next
    case False
    let ?k = "?rem div ?b + 1 + (if ?rem mod ?b = 0 then 0 else 1)"
    have c: "of_nat (?rem div ?b) = ?cnt" using cnt by (rule of_nat_eq_wordI)
    have "bsr_end_block_index r =
        start div bs + (?cnt + 1 + (if (n - ?first) mod bs > 0 then 1 else 0))"
      using r False f0 by (simp only: r_end if_True) simp
    also have "\<dots> = start div bs + of_nat ?k"
      unfolding m0 by (simp add: c)
    finally have "bsr_end_block_index r = start div bs + of_nat ?k" .
    moreover have total: "?s div ?b + ?k = (?s + ?n - 1) div ?b + 1"
      using read_split_count [OF pos, of ?n ?s] False by simp
    moreover have "(?s + ?n - 1) div ?b + 1 < 2 ^ 64"
      using assms(2) False div_le_dividend [of "?s + ?n - 1" ?b] by linarith
    moreover have "unat (start div bs) + ?k < 2 ^ 64 \<Longrightarrow>
        unat (start div bs + of_nat ?k) = unat (start div bs) + ?k"
      by (rule unat_add_of_nat_u64)
    ultimately show ?thesis using False by (simp only: unat_div_u64 if_False)
  qed
  show ?thesis
    unfolding read_split_ok_def e by (subst (1 2 3 4 5) r) (simp add: f unat_div_u64 unat_mod)
qed

section \<open>Facts on reading from blocks\<close>

text \<open>
  \<open>block_of file b i\<close> is what block \<open>i\<close> of a file without holes holds: full blocks, then
  the rest, then nothing.
\<close>

definition block_of :: "bytes \<Rightarrow> nat \<Rightarrow> nat \<Rightarrow> bytes" where
  "block_of file b i = take b (drop (i * b) file)"

definition lookup_block ::
  "(block_index \<rightharpoonup> tifs_hash) \<Rightarrow> (tifs_hash \<rightharpoonup> bytes) \<Rightarrow> u64 \<Rightarrow> bytes" where
  "lookup_block block_hashes blocks_data i =
     (case Option.bind (block_hashes (BlockIndex i)) blocks_data of Some d \<Rightarrow> d | None \<Rightarrow> [])"

lemma read_block_step_first:
  "read_block_step bs bh bd 0 res = res @ take (unat (bsr_bytes_to_read_first_block bs))
     (drop (unat (bsr_first_block_read_offset bs)) (lookup_block bh bd (bsr_first_block_index bs)))"
  by (simp add: read_block_step_def lookup_block_def Let_def min_def)

lemma read_block_step_next:
  "0 < rel \<Longrightarrow> read_block_step bs bh bd rel res =
     res @ take (min (unat (bsr_size bs) - length res) (unat (bsr_block_size bs)))
       (lookup_block bh bd (bsr_first_block_index bs + of_nat rel))"
  by (simp add: read_block_step_def lookup_block_def Let_def min_def)

lemma take_take_drop_block:
  "m \<le> b \<Longrightarrow> off < b \<Longrightarrow> off + m \<le> b \<Longrightarrow>
   take m (drop off (block_of file b q)) = take m (drop (q * b + off) file)"
  by (simp add: block_of_def drop_take min_def add.commute)

lemma read_blocks_prefix:
  assumes r: "read_split_ok b s n bs" and pos: "0 < b" and n: "0 < n"
    and content: "\<And>i. s div b \<le> i \<Longrightarrow> i \<le> (s + n - 1) div b \<Longrightarrow>
      lookup_block bh bd (of_nat i) = block_of file b i"
    and k: "s div b + k \<le> (s + n - 1) div b"
  shows "fold (read_block_step bs bh bd) [0..<Suc k] [] =
    take (min n (Suc k * b - s mod b)) (drop s file)"
  using k
proof (induction k)
  case 0
  have off: "s mod b < b" using pos by simp
  have idx: "of_nat (s div b) = bsr_first_block_index bs"
    using r by (intro of_nat_eq_wordI) (simp add: read_split_ok_def)
  have "lookup_block bh bd (bsr_first_block_index bs) = block_of file b (s div b)"
    using content [of "s div b"] 0 by (simp add: idx)
  then show ?case
    using r off by (simp add: read_block_step_first read_split_ok_def take_take_drop_block min.commute)
next
  case (Suc k)
  let ?res = "take (min n (Suc k * b - s mod b)) (drop s file)"
  let ?q = "s div b + Suc k"
  have off: "s mod b < b" and s: "s div b * b + s mod b = s" using pos by simp_all
  have pre: "fold (read_block_step bs bh bd) [0..<Suc k] [] = ?res" using Suc by simp
  have idx: "of_nat ?q = bsr_first_block_index bs + of_nat (Suc k)"
    using r of_nat_eq_wordI [of "bsr_first_block_index bs" "s div b"]
    by (simp add: read_split_ok_def)
  have blk: "lookup_block bh bd (bsr_first_block_index bs + of_nat (Suc k)) = block_of file b ?q"
    using content [of ?q] Suc.prems unfolding idx [symmetric] by simp
  have pos_q: "s + (Suc k * b - s mod b) = ?q * b"
  proof -
    have "b \<le> Suc k * b" by simp
    then show ?thesis using off s unfolding add_mult_distrib by linarith
  qed
  have more: "Suc k * b - s mod b < n"
  proof -
    have "?q * b \<le> (s + n - 1) div b * b" using Suc.prems by (intro mult_right_mono) auto
    also have "\<dots> \<le> s + n - 1" by simp
    finally show ?thesis using pos_q n by linarith
  qed
  have next_n: "min n (Suc (Suc k) * b - s mod b) = (Suc k * b - s mod b) + min (n - (Suc k * b - s mod b)) b"
  proof -
    have "b \<le> Suc k * b" "Suc (Suc k) * b = Suc k * b + b" by simp_all
    then show ?thesis using more off by linarith
  qed
  have step: "fold (read_block_step bs bh bd) [0..<Suc (Suc k)] [] =
      ?res @ take (min (n - length ?res) b) (block_of file b ?q)"
    using pre r blk read_block_step_next [of "Suc k" bs bh bd ?res]
    by (simp add: read_split_ok_def)
  show ?case
  proof (cases "length file \<le> ?q * b")
    case True
    have "length (drop s file) \<le> Suc k * b - s mod b" using True pos_q by simp
    then show ?thesis unfolding step next_n using more True by (simp add: block_of_def)
  next
    case False
    then have "length ?res = Suc k * b - s mod b" using more pos_q by simp
    then show ?thesis
      unfolding step next_n take_add using more pos_q
      by (simp add: block_of_def add.commute min.commute)
  qed
qed

lemma read_from_blocks_of_file:
  assumes "read_split_ok b s n bs" and "0 < b"
    and "\<And>i. s div b \<le> i \<Longrightarrow> i \<le> (s + n - 1) div b \<Longrightarrow>
      lookup_block bh bd (of_nat i) = block_of file b i"
  shows "hb_read_from_blocks bs bh bd = Inr (take n (drop s file))"
proof (cases "n = 0")
  case True
  then show ?thesis using assms(1) by (simp add: hb_read_from_blocks_def read_split_ok_def)
next
  case False
  let ?k = "(s + n - 1) div b - s div b"
  have le: "s div b \<le> (s + n - 1) div b" using False by (intro div_le_mono) simp
  then have cnt: "unat (bsr_end_block_index bs) - unat (bsr_first_block_index bs) = Suc ?k"
    using assms(1) False by (simp add: read_split_ok_def Suc_diff_le)
  have "s + n - 1 < ((s + n - 1) div b + 1) * b"
    using dividend_less_div_times [OF assms(2), of "s + n - 1"] by simp
  moreover have "s div b * b + s mod b = s" by simp
  moreover have "Suc ?k * b + s div b * b = ((s + n - 1) div b + 1) * b"
    using le by (metis add_Suc_right add.commute add_mult_distrib le_add_diff_inverse2 plus_1_eq_Suc)
  ultimately have "n \<le> Suc ?k * b - s mod b" using False by linarith
  then have "min n (Suc ?k * b - s mod b) = n" by simp
  then show ?thesis
    using read_blocks_prefix [OF assms(1,2) _ assms(3), of ?k] False le
    unfolding hb_read_from_blocks_def cnt by simp
qed

section \<open>Properties\<close>

text \<open>
  C23. A write is cut without loss: for a non-zero block size and an end within the address
  space, the first, middle and last piece concatenate to the data; the first piece lies in
  the block of the start offset at the right position and does not cross it; the middle
  piece is a whole number of blocks that starts on a block boundary; the last piece starts on
  a block boundary and is shorter than a block; and the block range of the write runs from
  the block of its first byte to the block of its last byte.
\<close>

theorem block_splitter_write_correct:
  assumes "bs \<noteq> 0" and "unat start + length data < 2 ^ 64"
  shows "\<exists>w. block_splitter_write_new bs start data = Some w
    \<and> split_ok (unat bs) (unat start) data w
    \<and> (data \<noteq> [] \<longrightarrow> unat (block_raw (fst (get_range w))) = unat start div unat bs
        \<and> get_range w = (BlockIndex (start div bs),
            BlockIndex (of_nat ((unat start + length data - 1) div unat bs) + 1)))"
  using split_write_ok [OF assms] split_write_range [OF assms] assms(1)
  by (simp add: block_splitter_write_new_def unat_div)

theorem block_splitter_write_correct_witness:
  "\<exists>w. block_splitter_write_new 4 6 [1, 2, 3, 4, 5, 6, 7] = Some w
    \<and> split_ok 4 6 [1, 2, 3, 4, 5, 6, 7] w \<and> get_range w = (BlockIndex 1, BlockIndex 4)"
  using block_splitter_write_correct [of 4 6 "[1, 2, 3, 4, 5, 6, 7]"] by auto

text \<open>
  C24. Reading a range returns exactly the bytes of that range that exist: if the block map and
  the block data hold the blocks of a file without holes, then for every start and size within
  the address space \<open>hb_read_from_blocks\<close> on the read splitter returns \<open>size\<close> bytes from
  \<open>start\<close> on, or what is left up to the end of the file.
\<close>

theorem read_returns_file_range:
  assumes "bs \<noteq> 0" and "unat start + unat n < 2 ^ 64"
    and "block_splitter_read_new bs start n = Some r"
    and "\<forall>i. unat start div unat bs \<le> i \<and> i \<le> (unat start + unat n - 1) div unat bs \<longrightarrow>
      lookup_block block_hashes blocks_data (of_nat i) = block_of file (unat bs) i"
  shows "hb_read_from_blocks r block_hashes blocks_data = Inr (take (unat n) (drop (unat start) file))"
  using read_from_blocks_of_file [OF read_split_correct [OF assms(1-3)]] assms(1,4)
  by (simp add: unat_gt_0)

theorem read_returns_file_range_witness:
  "hb_read_from_blocks (the (block_splitter_read_new 4 3 3))
     [BlockIndex 0 \<mapsto> [7], BlockIndex 1 \<mapsto> [8]] [[7] \<mapsto> [1, 2, 3, 4], [8] \<mapsto> [5, 6]] = Inr [4, 5, 6]"
proof -
  have "(\<forall>i. i = 0 \<or> i = (1::nat) \<longrightarrow> lookup_block [BlockIndex 0 \<mapsto> [7], BlockIndex 1 \<mapsto> [8]]
      [[7] \<mapsto> [1, 2, 3, 4], [8] \<mapsto> [5, 6]] (of_nat i) = block_of [1, 2, 3, 4, 5, 6] 4 i)"
    by (auto simp: lookup_block_def block_of_def)
  moreover have "0 \<le> i \<and> i \<le> (1::nat) \<longleftrightarrow> i = 0 \<or> i = 1" for i by auto
  moreover have "block_splitter_read_new 4 3 3 = Some (the (block_splitter_read_new 4 3 3))"
    by (simp add: block_splitter_read_new_def Let_def)
  ultimately show ?thesis
    using read_returns_file_range [of 4 3 3 "the (block_splitter_read_new 4 3 3)"
        "[BlockIndex 0 \<mapsto> [7], BlockIndex 1 \<mapsto> [8]]" "[[7] \<mapsto> [1, 2, 3, 4], [8] \<mapsto> [5, 6]]"
        "[1, 2, 3, 4, 5, 6]"]
    by simp
qed

text \<open>
  A hole is not filled with zeros: reading two blocks of which only the second is stored
  returns the second block's bytes at the front, so they appear at the offset of the first.
\<close>

lemma hole_is_skipped:
  assumes "bs \<noteq> 0" and "2 * unat bs < 2 ^ 64" and "length d = unat bs"
    and "lookup_block block_hashes blocks_data 0 = []"
    and "lookup_block block_hashes blocks_data 1 = d"
  shows "\<exists>r. block_splitter_read_new bs 0 (2 * bs) = Some r
    \<and> hb_read_from_blocks r block_hashes blocks_data = Inr d"
proof -
  obtain r where r: "block_splitter_read_new bs 0 (2 * bs) = Some r"
    using assms(1) by (simp add: block_splitter_read_new_def Let_def)
  have n: "unat (2 * bs) = 2 * unat bs" using assms(2) by (simp add: unat_word_ariths)
  have ok: "read_split_ok (unat bs) 0 (2 * unat bs) r"
    using read_split_correct [OF assms(1) _ r] assms(2) n by simp
  have pos: "0 < unat bs" using assms(1) by (simp add: unat_gt_0)
  have "(2 * unat bs - 1) div unat bs = 1" using pos by (intro div_pred_eqI) auto
  then have cnt: "[0..<unat (bsr_end_block_index r) - unat (bsr_first_block_index r)] = [0, Suc 0]"
    using ok pos by (simp add: read_split_ok_def upt_rec)
  have "bsr_first_block_index r = 0" using ok by (simp add: read_split_ok_def unat_eq_zero)
  then have "hb_read_from_blocks r block_hashes blocks_data = Inr d"
    using ok assms(3-5) unfolding hb_read_from_blocks_def cnt
    by (simp add: read_block_step_first read_block_step_next read_split_ok_def)
  with r show ?thesis by blast
qed

lemma hole_is_skipped_witness:
  "\<exists>r. block_splitter_read_new 2 0 4 = Some r
    \<and> hb_read_from_blocks r [BlockIndex 1 \<mapsto> [9]] [[9] \<mapsto> [5, 6]] = Inr [5, 6]"
  using hole_is_skipped [of 2 "[5, 6]" "[BlockIndex 1 \<mapsto> [9]]" "[[9] \<mapsto> [5, 6]]"]
  by (simp add: lookup_block_def)

end
