(* ===== verification/Fuse_To_Hashfs.thy ===== *)
theory Fuse_To_Hashfs
  imports Hash_Fs_Interface Block_Splitter
begin

text \<open>
  The file operations on top of a hash file system: \<open>Txn\<close> of \<open>fuse_to_hashfs.rs\<close>, with the
  accumulated writes of \<open>file_handler.rs\<close>. The world is the world of the hash file system and
  the block cache. The cache (\<open>moka\<close>) is a parameter: what it answers is laid down by a locale.
  Errors of the interface become \<open>FsError\<close>. An operation that panics or does not return has the
  value \<open>None\<close>. The order in which hash maps are iterated is a parameter.
\<close>

section \<open>Cache and iteration order\<close>

record 'c block_cache =
  bc_get :: "tifs_hash \<Rightarrow> 'c \<Rightarrow> bytes option \<times> 'c"
  bc_insert :: "tifs_hash \<Rightarrow> bytes \<Rightarrow> 'c \<Rightarrow> 'c"

record map_order =
  mo_hashes :: "tifs_hash list \<Rightarrow> tifs_hash list"
  mo_blocks :: "(tifs_hash \<times> bytes) list \<Rightarrow> (tifs_hash \<times> bytes) list"
  mo_indices :: "(block_index \<times> tifs_hash) list \<Rightarrow> (block_index \<times> tifs_hash) list"
  mo_multi :: "(tifs_hash \<times> block_index list) list \<Rightarrow> (tifs_hash \<times> block_index list) list"

record ('w, 'c) txn =
  txn_hash_fs :: "'w hash_fs_interface"
  txn_fs_config :: tifs_config
  txn_block_size :: u64
  txn_block_cache :: "'c block_cache"
  txn_order :: map_order
  txn_digests :: digests

text \<open>\<open>begin_on_hash_fs_interface\<close>: the block size is copied from the configuration.\<close>

definition begin_on_hash_fs_interface ::
  "'w hash_fs_interface \<Rightarrow> tifs_config \<Rightarrow> 'c block_cache \<Rightarrow> map_order \<Rightarrow> digests \<Rightarrow> ('w, 'c) txn" where
  "begin_on_hash_fs_interface hash_fs fs_config cache ord dig =
     \<lparr>txn_hash_fs = hash_fs, txn_fs_config = fs_config, txn_block_size = cfg_block_size fs_config,
      txn_block_cache = cache, txn_order = ord, txn_digests = dig\<rparr>"

type_synonym ('w, 'c, 'a) txn_comp = "('w \<times> 'c, fs_error, 'a) comp"

text \<open>A call of the interface: its error is converted by \<open>?\<close>.\<close>

definition fs_call :: "('w, hash_fs_error, 'a) comp \<Rightarrow> ('w, 'c, 'a) txn_comp" where
  "fs_call m = map_err fs_error_of_hash (on_world m)"

definition on_cache :: "('c \<Rightarrow> 'a \<times> 'c) \<Rightarrow> ('w, 'c, 'a) txn_comp" where
  "on_cache f = (\<lambda>(w, c). case f c of (x, c') \<Rightarrow> (Inr x, (w, c')))"

abbreviation txn_calc :: "('w, 'c) txn \<Rightarrow> bytes \<Rightarrow> tifs_hash" where
  "txn_calc X \<equiv> calculate_hash (txn_digests X) (txn_fs_config X)"

section \<open>Chunking\<close>

text \<open>\<open>make_chunks_hash_map\<close>: the last chunk is filled before a new one is opened.\<close>

definition make_chunks_hash_map :: "('k \<times> 'v) list \<Rightarrow> nat \<Rightarrow> ('k \<times> 'v) list list" where
  "make_chunks_hash_map input max_chunk_size =
     fold (\<lambda>(k, v) a.
       if a \<noteq> [] \<and> length (last a) < max_chunk_size
       then butlast a @ [map_insert k v (last a)]
       else a @ [[(k, v)]]) input []"

text \<open>\<open>slice::chunks\<close>\<close>

function chunks :: "nat \<Rightarrow> 'a list \<Rightarrow> 'a list list" where
  "chunks n xs = (if n = 0 \<or> xs = [] then [] else take n xs # chunks n (drop n xs))"
  by auto

termination chunks by (relation "measure (\<lambda>(n, xs). length xs)") auto

declare chunks.simps [simp del]

section \<open>Plain calls\<close>

definition txn_open :: "('w, 'c) txn \<Rightarrow> op_env \<Rightarrow> storage_ino \<Rightarrow> ('w, 'c, uuid) txn_comp" where
  "txn_open X env ino = fs_call (if_inode_open (txn_hash_fs X) env ino)"

definition txn_close :: "('w, 'c) txn \<Rightarrow> storage_ino \<Rightarrow> uuid \<Rightarrow> ('w, 'c, unit) txn_comp" where
  "txn_close X ino use_id = fs_call (if_inode_close (txn_hash_fs X) ino use_id)"

text \<open>\<open>clamp\<close> is \<open>min\<close> here; the slice of the hash panics if the hash is too short.\<close>

definition read_hash_of_file :: "('w, 'c) txn \<Rightarrow> storage_ino \<Rightarrow> u64 \<Rightarrow> u64 \<Rightarrow> ('w, 'c, bytes option) txn_comp" where
  "read_hash_of_file X ino offset sz =
     (let hash_size = of_nat (cfg_hash_len (txn_fs_config X)) :: u64;
          offset = min offset hash_size;
          remaining = hash_size - offset;
          sz = min sz remaining
      in if sz = 0 then ret (Some [])
         else then_some (fs_call (if_file_get_hash (txn_hash_fs X) ino)) (\<lambda>the_hash.
           if unat (offset + sz) \<le> length the_hash
           then ret (Some (take (unat sz) (drop (unat offset) the_hash)))
           else ret None))"

definition connect_inode_to_directory ::
  "('w, 'c) txn \<Rightarrow> parent_storage_ino \<Rightarrow> name \<Rightarrow> storage_ino \<Rightarrow> ('w, 'c, unit) txn_comp" where
  "connect_inode_to_directory X parent nm ino =
     and_then (fs_call (if_directory_add_child_checked_existing_inode (txn_hash_fs X) parent nm ino)) (\<lambda>_. ret ())"

definition txn_directory_add_child_checked_new_inode ::
  "('w, 'c) txn \<Rightarrow> op_env \<Rightarrow> parent_storage_ino \<Rightarrow> name \<Rightarrow> storage_dir_item_kind \<Rightarrow> storage_file_permission
     \<Rightarrow> u32 \<Rightarrow> u32 \<Rightarrow> u32 \<Rightarrow> bytes option \<Rightarrow> ('w, 'c, storage_dir_item got_or_made) txn_comp" where
  "txn_directory_add_child_checked_new_inode X env parent nm typ perm gid uid rdev inline_data =
     fs_call (if_directory_add_child_checked_new_inode (txn_hash_fs X) env parent nm typ perm gid uid rdev inline_data)"

definition txn_directory_remove_child :: "('w, 'c) txn \<Rightarrow> op_env \<Rightarrow> parent_storage_ino \<Rightarrow> name \<Rightarrow> ('w, 'c, unit) txn_comp" where
  "txn_directory_remove_child X env parent nm = fs_call (if_directory_remove_child_file (txn_hash_fs X) env parent nm)"

definition read_static_meta :: "('w, 'c) txn \<Rightarrow> ('w, 'c, meta_static option) txn_comp" where
  "read_static_meta X = and_then (fs_call (if_meta_static_read (txn_hash_fs X))) (\<lambda>m. ret (Some m))"

definition read_link :: "('w, 'c) txn \<Rightarrow> storage_ino \<Rightarrow> ('w, 'c, bytes) txn_comp" where
  "read_link X ino = fs_call (if_inode_read_inline_data (txn_hash_fs X) ino)"

definition add_hard_link ::
  "('w, 'c) txn \<Rightarrow> storage_ino \<Rightarrow> parent_storage_ino \<Rightarrow> name \<Rightarrow> ('w, 'c, unit) txn_comp" where
  "add_hard_link X ino further_parent new_name =
     fs_call (if_directory_add_child_checked_existing_inode (txn_hash_fs X) further_parent new_name ino)"

definition txn_unlink :: "('w, 'c) txn \<Rightarrow> op_env \<Rightarrow> parent_storage_ino \<Rightarrow> name \<Rightarrow> ('w, 'c, unit) txn_comp" where
  "txn_unlink X env parent nm = and_then (txn_directory_remove_child X env parent nm) (\<lambda>_. ret ())"

definition txn_rmdir :: "('w, 'c) txn \<Rightarrow> parent_storage_ino \<Rightarrow> name \<Rightarrow> ('w, 'c, unit) txn_comp" where
  "txn_rmdir X parent nm = fs_call (if_directory_remove_child_directory (txn_hash_fs X) parent nm)"

definition get_all_ino_data :: "('w, 'c) txn \<Rightarrow> storage_ino \<Rightarrow> ('w, 'c, all_attributes) txn_comp" where
  "get_all_ino_data X ino = fs_call (if_inode_get_all_attributes (txn_hash_fs X) ino)"

definition set_attributes ::
  "('w, 'c) txn \<Rightarrow> op_env \<Rightarrow> storage_ino \<Rightarrow> u32 option \<Rightarrow> u32 option \<Rightarrow> u32 option \<Rightarrow> u64 option \<Rightarrow> time_or_now option
     \<Rightarrow> time_or_now option \<Rightarrow> system_time option \<Rightarrow> u64 option \<Rightarrow> system_time option \<Rightarrow> system_time option
     \<Rightarrow> system_time option \<Rightarrow> u32 option \<Rightarrow> ('w, 'c, unit) txn_comp" where
  "set_attributes X env ino mode uid gid sz atime mtime ctime fh crtime chgtime bkuptime flags =
     (let mode_conv = map_option (\<lambda>m. StorageFilePermission (as_file_perm m)) mode in
      fs_call (if_inode_set_all_attributes (txn_hash_fs X) env ino mode_conv uid gid sz atime mtime ctime crtime chgtime
        bkuptime flags))"

definition f_allocate :: "('w, 'c) txn \<Rightarrow> op_env \<Rightarrow> storage_ino \<Rightarrow> 64 word \<Rightarrow> 64 word \<Rightarrow> ('w, 'c, unit) txn_comp" where
  "f_allocate X env ino offset len = fs_call (if_inode_allocate_size (txn_hash_fs X) env ino offset len)"

definition txn_mkdir ::
  "('w, 'c) txn \<Rightarrow> op_env \<Rightarrow> parent_storage_ino \<Rightarrow> name \<Rightarrow> storage_file_permission \<Rightarrow> u32 \<Rightarrow> u32
     \<Rightarrow> ('w, 'c, storage_dir_item option) txn_comp" where
  "txn_mkdir X env parent nm perm gid uid =
     (if parent = SNAPSHOT_PARENT_INODE
      then then_some (fs_call (if_snapshot_create (txn_hash_fs X) env nm)) (\<lambda>got_or_made.
        case got_or_made of
          NewlyCreated created \<Rightarrow> ret (Some created)
        | ExistedAlready _ \<Rightarrow> fail (FileExist nm))
      else and_then (txn_directory_add_child_checked_new_inode X env parent nm Directory perm gid uid 0 None) (\<lambda>result.
        if existed_before result then fail (FileExist nm) else ret (Some (got_or_made_value result))))"

definition txn_read_dir :: "('w, 'c) txn \<Rightarrow> storage_ino \<Rightarrow> ('w, 'c, directory_item list) txn_comp" where
  "txn_read_dir X ino = fs_call (if_directory_read_children (txn_hash_fs X) ino)"

definition txn_statfs :: "('w, 'c) txn \<Rightarrow> ('w, 'c, stat_fs) txn_comp" where
  "txn_statfs X = ret \<lparr>stat_blocks = 0, stat_bfree = - 1, stat_bavail = - 1, stat_files = 0, stat_ffree = - 1,
     stat_bsize = ucast (cfg_block_size (txn_fs_config X)), stat_namelen = MAX_NAME_LEN, stat_frsize = 0\<rparr>"

definition get_hashes_of_file ::
  "('w, 'c) txn \<Rightarrow> storage_ino \<Rightarrow> block_index \<Rightarrow> block_index \<Rightarrow> ('w, 'c, bytes option) txn_comp" where
  "get_hashes_of_file X ino start end_i = fs_call (if_file_read_block_hashes (txn_hash_fs X) ino start end_i)"

section \<open>Reading\<close>

text \<open>Looking up the hashes in the cache: the found blocks and the remaining hashes.\<close>

fun lookup_cached ::
  "('w, 'c) txn \<Rightarrow> tifs_hash list \<Rightarrow> (tifs_hash \<times> bytes) list \<Rightarrow> tifs_hash list
     \<Rightarrow> ('w, 'c, (tifs_hash \<times> bytes) list \<times> tifs_hash list) txn_comp" where
  "lookup_cached X [] result uncached = ret (result, uncached)"
| "lookup_cached X (hash # hashes) result uncached =
     and_then (on_cache (bc_get (txn_block_cache X) hash)) (\<lambda>found.
       case found of
         Some cached \<Rightarrow> lookup_cached X hashes (map_insert hash cached result) uncached
       | None \<Rightarrow> lookup_cached X hashes result (List.insert hash uncached))"

definition cache_all :: "('w, 'c) txn \<Rightarrow> (tifs_hash \<times> bytes) list \<Rightarrow> ('w, 'c, unit) txn_comp" where
  "cache_all X blocks = on_cache (\<lambda>c. ((), fold (\<lambda>(h, d). bc_insert (txn_block_cache X) h d) blocks c))"

fun validate_blocks :: "(bytes \<Rightarrow> tifs_hash) \<Rightarrow> (tifs_hash \<times> bytes) list \<Rightarrow> unit tifs_result" where
  "validate_blocks calc [] = Inr ()"
| "validate_blocks calc ((hash, v) # blocks) =
     (if hash \<noteq> calc v then Inl (ChecksumMismatch hash (calc v)) else validate_blocks calc blocks)"

definition hb_get_block_data_by_hashes_cached ::
  "('w, 'c) txn \<Rightarrow> tifs_hash list \<Rightarrow> ('w, 'c, (tifs_hash \<times> bytes) list) txn_comp" where
  "hb_get_block_data_by_hashes_cached X hash_list =
     and_then (lookup_cached X (mo_hashes (txn_order X) hash_list) [] []) (\<lambda>(result, uncached_block_hashes).
       if length uncached_block_hashes = 0 then ret result
       else
         and_then (fs_call (if_hb_get_block_data_by_hashes (txn_hash_fs X) uncached_block_hashes)) (\<lambda>uncached_blocks.
         and_then (cache_all X (mo_blocks (txn_order X) uncached_blocks)) (\<lambda>_.
         and_then (if cfg_validate_read_hashes (txn_fs_config X)
             then of_result (validate_blocks (txn_calc X) (mo_blocks (txn_order X) uncached_blocks)) else ret ()) (\<lambda>_.
           ret (fold (\<lambda>(h, d). map_insert h d) uncached_blocks result)))))"

text \<open>
  The values of a block map without repetitions. \<open>lo\<close> and \<open>hi\<close> enclose the indices the map can
  hold: the request was for the blocks of a range.
\<close>

definition block_map_values :: "nat \<Rightarrow> nat \<Rightarrow> (block_index \<rightharpoonup> tifs_hash) \<Rightarrow> tifs_hash list" where
  "block_map_values lo hi hashes =
     remdups (List.map_filter (\<lambda>i. hashes (BlockIndex (of_nat i))) [lo..<hi])"

definition hb_read_data ::
  "('w, 'c) txn \<Rightarrow> storage_ino \<Rightarrow> u64 \<Rightarrow> u64 option \<Rightarrow> ('w, 'c, bytes option) txn_comp" where
  "hb_read_data X ino start chunk_size =
     (let bs = cfg_block_size (txn_fs_config X);
          sz = (case chunk_size of Some s \<Rightarrow> s | None \<Rightarrow> bs) in
      then_some (fs_call (if_inode_read_block_hashes_data_range (txn_hash_fs X) ino start sz)) (\<lambda>block_hashes.
        let block_hashes_set = block_map_values (unat (start div bs)) (unat (div_ceil (start + sz) bs)) block_hashes in
        then_some (ret (block_splitter_read_new bs start sz)) (\<lambda>splitter.
          and_then (hb_get_block_data_by_hashes_cached X block_hashes_set) (\<lambda>blocks_data.
          and_then (of_result (hb_read_from_blocks splitter block_hashes (map_of blocks_data))) (\<lambda>result.
            ret (Some result))))))"

definition read_data :: "('w, 'c) txn \<Rightarrow> storage_ino \<Rightarrow> u64 \<Rightarrow> u64 option \<Rightarrow> ('w, 'c, bytes option) txn_comp" where
  "read_data X ino start chunk_size = hb_read_data X ino start chunk_size"

definition txn_read :: "('w, 'c) txn \<Rightarrow> storage_ino \<Rightarrow> u64 \<Rightarrow> u32 \<Rightarrow> ('w, 'c, bytes option) txn_comp" where
  "txn_read X ino start sz = read_data X ino start (Some (ucast sz))"

section \<open>Writing\<close>

record write_task_data =
  wtd_data :: bytes
  wtd_start :: u64

text \<open>The sum of the lengths, a \<open>u64\<close>.\<close>

definition write_data_len :: "write_task_data list \<Rightarrow> u64" where
  "write_data_len jobs = (case map (\<lambda>j. of_nat (length (wtd_data j))) jobs of [] \<Rightarrow> 0 | l # ls \<Rightarrow> fold (\<lambda>x a. a + x) ls l)"

definition inode_write_upload_block_reference_counting_and_write_addresses ::
  "('w, 'c) txn \<Rightarrow> op_env \<Rightarrow> storage_ino \<Rightarrow> tifs_hash \<Rightarrow> u64 \<Rightarrow> bytes \<Rightarrow> block_index list \<Rightarrow> ('w, 'c, unit) txn_comp" where
  "inode_write_upload_block_reference_counting_and_write_addresses X env ino hash ref_count_delta data block_ids =
     and_then (fs_call (if_hb_increment_reference_count (txn_hash_fs X) [(hash, ref_count_delta)])) (\<lambda>prev.
       let previous_reference_count = (case prev of [] \<Rightarrow> 0 | (_, n) # _ \<Rightarrow> n); block_len = of_nat (length data) in
       and_then (if previous_reference_count = 0
           then fs_call (if_hb_upload_new_block (txn_hash_fs X) [(hash, data)]) else ret ()) (\<lambda>_.
       and_then (fs_call (if_inode_write_hash_block_to_addresses (txn_hash_fs X) env ino
           [(hash, block_len, block_ids)])) (\<lambda>_. ret ())))"

text \<open>The splitters of all jobs; constructing one panics for block size 0.\<close>

definition split_jobs :: "u64 \<Rightarrow> write_task_data list \<Rightarrow> block_splitter_write list option" where
  "split_jobs block_size jobs =
     (if block_size = 0 \<and> jobs \<noteq> [] then None
      else Some (map (\<lambda>j. get_irregular_start_and_rest block_size (wtd_start j) (wtd_data j)) jobs))"

text \<open>The handlers of the partial first and last blocks, with the hashes of the blocks to read.\<close>

fun make_data_handlers ::
  "(block_index \<rightharpoonup> tifs_hash) \<Rightarrow> block_splitter_write list \<Rightarrow> tifs_hash list
     \<Rightarrow> (update_irregular_block \<times> update_irregular_block) list \<times> tifs_hash list" where
  "make_data_handlers hash_list_prev [] requests = ([], requests)"
| "make_data_handlers hash_list_prev (bs # rest) requests =
     (let (first, requests) = get_and_add_original_block_hash (bsw_first_data bs) (bsw_first_data_start_position bs)
            hash_list_prev requests;
          (last, requests) = get_and_add_original_block_hash (bsw_last_data bs) 0 hash_list_prev requests;
          (handlers, requests) = make_data_handlers hash_list_prev rest requests
      in ((first, last) # handlers, requests))"

definition publish_irregular ::
  "(bytes \<Rightarrow> tifs_hash) \<Rightarrow> (tifs_hash \<rightharpoonup> bytes) \<Rightarrow> (update_irregular_block \<times> update_irregular_block) list
     \<Rightarrow> new_blocks \<Rightarrow> new_blocks" where
  "publish_irregular calc pre_data handlers out =
     fold (\<lambda>(first, last) out. get_and_modify_block_and_publish_hash calc pre_data last
        (get_and_modify_block_and_publish_hash calc pre_data first out)) handlers out"

definition publish_mid :: "(bytes \<Rightarrow> tifs_hash) \<Rightarrow> nat \<Rightarrow> block_splitter_write \<Rightarrow> new_blocks \<Rightarrow> new_blocks" where
  "publish_mid calc block_size bs out =
     fold (\<lambda>(index, chunk) (new_blocks, new_block_index_hash).
        let hash = calc chunk in
        (map_insert hash chunk new_blocks,
         map_insert (BlockIndex (block_raw (bid_block_index (bsw_mid_data bs)) + of_nat index)) hash new_block_index_hash))
       (List.enumerate 0 (chunks block_size (bid_data (bsw_mid_data bs)))) out"

text \<open>Blocks whose hash does not change are filtered out.\<close>

definition drop_unchanged ::
  "(block_index \<rightharpoonup> tifs_hash) \<Rightarrow> (block_index \<times> tifs_hash) list \<Rightarrow> (block_index \<times> tifs_hash) list" where
  "drop_unchanged hash_list_prev new_block_index_hash =
     filter (\<lambda>(i, h). hash_list_prev i \<noteq> Some h) new_block_index_hash"

definition group_by_hash :: "(block_index \<times> tifs_hash) list \<Rightarrow> (tifs_hash \<times> block_index list) list" where
  "group_by_hash idx = fold (\<lambda>(i, h). multimap_insert h i) idx []"

text \<open>The block of a hash; \<open>unwrap\<close> cannot fail, every hash comes with its block.\<close>

definition block_of_hash :: "(tifs_hash \<times> bytes) list \<Rightarrow> tifs_hash \<Rightarrow> bytes" where
  "block_of_hash new_blocks h = (case map_of new_blocks h of Some d \<Rightarrow> d | None \<Rightarrow> [])"

definition write_chunked ::
  "('w, 'c) txn \<Rightarrow> op_env \<Rightarrow> storage_ino \<Rightarrow> (tifs_hash \<times> bytes) list \<Rightarrow> (tifs_hash \<times> block_index list) list
     \<Rightarrow> ('w, 'c, unit) txn_comp" where
  "write_chunked X env ino new_blocks mm =
     (let increments = map (\<lambda>(h, ids). (h, of_nat (length ids))) mm in
      and_then (fs_call (if_hb_increment_reference_count (txn_hash_fs X) increments)) (\<lambda>prev_ref_counts.
        let blocks_to_upload = map (\<lambda>(h, c). (h, block_of_hash new_blocks h))
              (filter (\<lambda>(h, c). counter_or_zero (map_of prev_ref_counts) h = 0) increments) in
        and_then (fs_call (if_hb_upload_new_block (txn_hash_fs X) blocks_to_upload)) (\<lambda>_.
          fs_call (if_inode_write_hash_block_to_addresses (txn_hash_fs X) env ino
            (map (\<lambda>(h, ids). (h, of_nat (length (block_of_hash new_blocks h)), ids)) mm)))))"

text \<open>One job for each new block: the results of the jobs are not looked at.\<close>

definition write_single_blocks ::
  "('w, 'c) txn \<Rightarrow> (nat \<Rightarrow> op_env) \<Rightarrow> storage_ino \<Rightarrow> (tifs_hash \<times> bytes) list \<Rightarrow> (tifs_hash \<times> block_index list) list
     \<Rightarrow> ('w, 'c, unit) txn_comp" where
  "write_single_blocks X env ino new_blocks mm = (\<lambda>w.
     (Inr (), snd (run_jobs (map (\<lambda>(n, hash, block_ids).
        inode_write_upload_block_reference_counting_and_write_addresses X (env n) ino hash (of_nat (length block_ids))
          (block_of_hash new_blocks hash) block_ids) (List.enumerate 0 mm)) w)))"

definition hb_write_data ::
  "('w, 'c) txn \<Rightarrow> (nat \<Rightarrow> op_env) \<Rightarrow> storage_ino \<Rightarrow> write_task_data list \<Rightarrow> ('w, 'c, bool option) txn_comp" where
  "hb_write_data X env ino jobs =
     then_some (ret (split_jobs (txn_block_size X) jobs)) (\<lambda>bs_list.
     then_some (fs_call (if_inode_read_block_hashes_block_range (txn_hash_fs X) ino (map get_range bs_list))) (\<lambda>hash_list_prev.
       let (data_handlers, pre_data_hash_request) = make_data_handlers hash_list_prev bs_list [] in
       and_then (hb_get_block_data_by_hashes_cached X pre_data_hash_request) (\<lambda>pre_data.
         let (new_blocks, new_block_index_hash) = fold (publish_mid (txn_calc X) (unat (txn_block_size X))) bs_list
               (publish_irregular (txn_calc X) (map_of pre_data) data_handlers ([], [])) in
         and_then (cache_all X (mo_blocks (txn_order X) new_blocks)) (\<lambda>_.
           let changed = drop_unchanged hash_list_prev new_block_index_hash;
               mm = mo_multi (txn_order X) (group_by_hash (mo_indices (txn_order X) changed)) in
           and_then (if cfg_chunked_block_upload (txn_fs_config X)
               then write_chunked X (env 0) ino new_blocks mm
               else write_single_blocks X env ino new_blocks mm) (\<lambda>_.
             ret (Some (length changed > 0)))))))"

text \<open>
  \<open>write\<close> on the accumulator of the file handler: the data is queued, and the queue is written
  when it is flushed or has grown beyond the limit. The queue is emptied before it is written.
\<close>

definition txn_write ::
  "('w, 'c) txn \<Rightarrow> (nat \<Rightarrow> op_env) \<Rightarrow> storage_ino \<Rightarrow> u64 \<Rightarrow> bytes \<Rightarrow> bool
     \<Rightarrow> (('w \<times> 'c) \<times> write_task_data list, fs_error, nat option) comp" where
  "txn_write X env ino start data flush = (\<lambda>(w, acc).
     let sz = length data;
         acc = (if length data > 0 then acc @ [\<lparr>wtd_data = data, wtd_start = start\<rparr>] else acc)
     in if flush \<or> write_data_len acc > cfg_write_accumulator_flush_threshold (txn_fs_config X)
        then if length acc > 0
             then then_some (on_world (hb_write_data X env ino acc)) (\<lambda>_. ret (Some sz)) (w, [])
             else (Inr (Some sz), (w, []))
        else (Inr (Some sz), (w, acc)))"

end
