(* ===== verification/Write_Facts.thy ===== *)
theory Write_Facts
  imports Fuse_To_Hashfs Block_Facts
begin

text \<open>
  What a write of blocks does to the store: references are counted up, new blocks are uploaded,
  the addresses are redirected, the size grows, and the replaced references are counted down.
  Each step is its own transaction, and any of them can fail. The invariant of the block store
  holds at every such point: no block that a file refers to is lost. A write that succeeds
  leaves the counters exact.
\<close>

section \<open>The file system of a transaction\<close>

definition hfs :: "'w txn_with_config \<Rightarrow> 'w tikv_based_hash_fs" where
  "hfs X = \<lparr>hf_txn_client_mux = tx_mini X, hf_fs_config = tx_fs_config X, hf_ext = tx_ext X\<rparr>"

lemma hfs_simps [simp]:
  "started (hfs X) = X" "hf_txn_client_mux (hfs X) = tx_mini X" "hf_fs_config (hfs X) = tx_fs_config X"
  "hf_ext (hfs X) = tx_ext X"
  by (simp_all add: hfs_def started_def)

text \<open>The addresses after a write: the given ones are redirected, the others stay.\<close>

definition redirected ::
  "'w txn_with_config \<Rightarrow> (block_address \<times> tifs_hash option) list \<Rightarrow> kv \<Rightarrow> kv \<Rightarrow> bool" where
  "redirected X addrs d d' \<longleftrightarrow> (\<forall>a. block_hash_at X d' a =
     (case map_of addrs a of Some h \<Rightarrow> h | None \<Rightarrow> block_hash_at X d a))"

text \<open>The size record grows to the target and stays well-formed.\<close>

definition size_grown :: "'w txn_with_config \<Rightarrow> storage_ino \<Rightarrow> u64 \<Rightarrow> kv \<Rightarrow> kv \<Rightarrow> bool" where
  "size_grown X ino n d d' \<longleftrightarrow> (\<exists>s s'. size_of_ino X d ino = Some s \<and> size_of_ino X d' ino = Some s'
     \<and> isz_size s' = max (isz_size s) n
     \<and> (ino_size_wf (cfg_block_size (tx_fs_config X)) s \<longrightarrow> ino_size_wf (cfg_block_size (tx_fs_config X)) s'))"

text \<open>Blocks may go, but their data never changes.\<close>

definition blocks_kept :: "'w txn_with_config \<Rightarrow> kv \<Rightarrow> kv \<Rightarrow> bool" where
  "blocks_kept X d d' \<longleftrightarrow> (\<forall>h. hash_ok X h \<longrightarrow> block_data_of X d' h = None \<or> block_data_of X d' h = block_data_of X d h)"

text \<open>Uploaded blocks.\<close>

definition with_blocks :: "'w txn_with_config \<Rightarrow> (tifs_hash \<times> bytes) list \<Rightarrow> kv \<Rightarrow> kv" where
  "with_blocks X ups d = fold (\<lambda>(h, b) d. d(fs_key (tx_fs_config X) (LK_HashedBlock h) \<mapsto> b)) ups d"

lemma redirected_Nil [simp]: "redirected X [] d d' \<longleftrightarrow> (\<forall>a. block_hash_at X d' a = block_hash_at X d a)"
  by (simp add: redirected_def)

context fs_store
begin

lemma blocks_same_refl: "blocks_same X d d"
  by (simp add: blocks_same_def)

lemma blocks_same_trans: "blocks_same X d1 d2 \<Longrightarrow> blocks_same X d2 d3 \<Longrightarrow> blocks_same X d1 d3"
  by (simp add: blocks_same_def)

lemma blocks_same_inode: "blocks_same X d (d(K (LK_Inode i m) := y))"
  by (simp add: blocks_same_def block_hash_at_def ref_count_def block_data_of_def)

lemma store_ok_inode: "store_ok X d \<Longrightarrow> store_ok X (d(K (LK_Inode i m) := y))"
  by (rule store_ok_upd) auto

lemma block_inv_inode: "block_inv X d \<Longrightarrow> block_inv X (d(K (LK_Inode i m) := y))"
  by (rule blocks_same_inv [OF blocks_same_inode]) (auto simp: block_inv_def intro: store_ok_inode)

text \<open>A mini transaction of the file system.\<close>

lemma spinning_dwp:
  assumes "wp body Q E d" and "\<And>e. E' e d"
  shows "dwp (lift_fs (run_mini (T) body)) Q E' d"
  using run_mini_dwp [OF assms(1)] assms(2)
  by (intro dwp_map_err) (auto elim!: dwp_weaken)

lemma size_update_wp:
  "wp (hb_replace_block_hash_for_address_only_size_update_b X now ino n)
     (\<lambda>_ v'. size_grown X ino n v v' \<and> (v' = v \<or> (\<exists>y. v' = v(K (LK_Inode ino Size) \<mapsto> y)))) (\<lambda>_. True) v"
  unfolding hb_replace_block_hash_for_address_only_size_update_b_def txn to_fs_key
proof (intro wp_and_then fetch_stored)
  fix s assume s: "stored (js_size (tx_js X)) (K (LK_Inode ino Size)) v = Some s"
  show "wp (if isz_size s < n
      then put_json T (K (LK_Inode ino Size)) (js_size (tx_js X)) (set_size now n (cfg_block_size (tx_fs_config X)) s)
      else ret ()) (\<lambda>_ v'. size_grown X ino n v v' \<and> (v' = v \<or> (\<exists>y. v' = v(K (LK_Inode ino Size) \<mapsto> y)))) (\<lambda>_. True) v"
  proof (cases "isz_size s < n")
    case True
    then show ?thesis
      using s by (auto simp: size_grown_def size_of_ino_def max_def intro!: put_json_wp set_size_wf)
  next
    case False
    then show ?thesis
      unfolding if_not_P [OF False]
      using s by (intro wp_ret) (auto simp: size_grown_def size_of_ino_def max_def)
  qed
qed auto

text \<open>The last step: the replaced references are counted down.\<close>

lemma decrement_step:
  assumes inv: "block_inv X d" and dist: "distinct (map fst decs)" and ok: "\<forall>(h, n) \<in> set decs. hash_ok X h"
    and enough: "\<forall>h. hash_ok X h \<longrightarrow> card (refs_of X d h) + unat (counts decs h) \<le> ref_count X d h"
  shows "block_inv X (decremented X d decs d)"
    and "\<forall>h. hash_ok X h \<longrightarrow> ref_count X (decremented X d decs d) h = ref_count X d h - unat (counts decs h)"
    and "\<forall>a. block_hash_at X (decremented X d decs d) a = block_hash_at X d a"
    and "size_of_ino X (decremented X d decs d) i = size_of_ino X d i"
    and "blocks_kept X d (decremented X d decs d)"
proof -
  show "block_inv X (decremented X d decs d)" by (rule block_inv_decremented [OF inv dist ok enough])
  have zero: "counts decs h = 0" if "h \<notin> fst ` set decs" for h
    using that by (auto simp: counts_def split: option.split dest: map_of_SomeD intro: rev_image_eqI)
  show "\<forall>h. hash_ok X h \<longrightarrow> ref_count X (decremented X d decs d) h = ref_count X d h - unat (counts decs h)"
    using decremented_view [OF ok dist, of _ d d] zero by auto
  show "blocks_kept X d (decremented X d decs d)"
    using decremented_view [OF ok dist, of _ d d] by (auto simp: blocks_kept_def)
  show "\<forall>a. block_hash_at X (decremented X d decs d) a = block_hash_at X d a"
    using ok by (simp add: block_hash_at_def decremented_other)
  show "size_of_ino X (decremented X d decs d) i = size_of_ino X d i"
    using ok by (auto simp: size_of_ino_def intro!: stored_cong decremented_other)
qed

section \<open>Redirecting addresses\<close>

text \<open>The part of a write between redirecting and counting down touches records of the inode only.\<close>

lemma write_records_dwp:
  assumes inv: "block_inv X d"
    and size: "\<And>d'. blocks_same X d d' \<Longrightarrow> block_inv X d' \<Longrightarrow> size_grown X ino n d d' \<Longrightarrow> dwp m Q E d'"
    and err: "\<And>e d'. blocks_same X d d' \<Longrightarrow> block_inv X d' \<Longrightarrow> E e d'"
  shows "dwp (and_then (lift_fs (run_mini (T) (lift_tikv (tk_delete (T) (K (LK_Inode ino FullHash)))))) (\<lambda>_.
      and_then (lift_fs (run_mini (T) (put_json (T) (K (LK_Inode ino ChangeIterationId))
          (js_change_id (tx_js X)) cid))) (\<lambda>_.
      and_then (lift_fs (flex_fetch (SpawnMiniTransactions (T)) (K (LK_Inode ino Size)) (js_size (tx_js X)))) (\<lambda>size_peek.
      and_then (if n > isz_size size_peek
          then lift_fs (run_mini (T) (hb_replace_block_hash_for_address_only_size_update_b X now ino n))
          else ret ()) (\<lambda>_. m))))) Q E d"
  (is "dwp (and_then ?del ?rest) Q E d")
proof (rule dwp_and_then, rule spinning_dwp [where E = "\<lambda>_. True"])
  let ?d1 = "d(K (LK_Inode ino FullHash) := None)"
  let ?d2 = "?d1(K (LK_Inode ino ChangeIterationId) \<mapsto> enc (js_change_id (tx_js X)) cid)"
  have inv1: "block_inv X ?d1" and inv2: "block_inv X ?d2" using inv by (auto intro: block_inv_inode)
  have same1: "blocks_same X d ?d1" by (rule blocks_same_inode)
  have same2: "blocks_same X d ?d2" by (rule blocks_same_trans [OF same1 blocks_same_inode])
  have size2: "size_of_ino X ?d2 ino = size_of_ino X d ino" by (simp add: size_of_ino_def)
  show "\<And>e. E e d" by (rule err [OF blocks_same_refl inv])
  have upd: "dwp (if n > isz_size s
        then lift_fs (run_mini (T) (hb_replace_block_hash_for_address_only_size_update_b X now ino n))
        else ret ()) (\<lambda>_. dwp m Q E) E ?d2" if s: "size_of_ino X ?d2 ino = Some s" for s
  proof (cases "n > isz_size s")
    case True
    have post: "dwp m Q E d'" if "size_grown X ino n ?d2 d' \<and> (d' = ?d2 \<or> (\<exists>y. d' = ?d2(K (LK_Inode ino Size) \<mapsto> y)))" for d'
    proof (rule size)
      show "blocks_same X d d'" using that same2 blocks_same_trans [OF same2 blocks_same_inode] by auto
      show "block_inv X d'" using that inv2 by (auto intro: block_inv_inode)
      show "size_grown X ino n d d'" using that size2 by (simp add: size_grown_def)
    qed
    show ?thesis unfolding if_P [OF True]
      by (rule spinning_dwp, rule wp_weaken, rule size_update_wp) (use post err [OF same2 inv2] in auto)
  next
    case False
    then have "size_grown X ino n d ?d2" using s size2 by (simp add: size_grown_def max_def)
    then have "dwp m Q E ?d2" by (rule size [OF same2 inv2])
    then show ?thesis unfolding if_not_P [OF False] by (rule dwp_ret)
  qed
  show "wp (lift_tikv (tk_delete (T) (K (LK_Inode ino FullHash))))
      (\<lambda>_. dwp (and_then (lift_fs (run_mini (T) (put_json (T) (K (LK_Inode ino ChangeIterationId))
          (js_change_id (tx_js X)) cid))) (\<lambda>_.
      and_then (lift_fs (flex_fetch (SpawnMiniTransactions (T)) (K (LK_Inode ino Size)) (js_size (tx_js X)))) (\<lambda>size_peek.
      and_then (if n > isz_size size_peek
          then lift_fs (run_mini (T) (hb_replace_block_hash_for_address_only_size_update_b X now ino n))
          else ret ()) (\<lambda>_. m)))) Q E) (\<lambda>_. True) d"
  proof (rule wp_delete, intro dwp_and_then spinning_dwp [where E = "\<lambda>_. True"] put_json_wp dwp_map_err flex_fetch_dwp)
    show "case deserialize_json (js_size (tx_js X)) data of
        Inl _ \<Rightarrow> True
      | Inr x \<Rightarrow> dwp (and_then (if isz_size x < n
          then lift_fs (run_mini (T) (hb_replace_block_hash_for_address_only_size_update_b X now ino n))
          else ret ()) (\<lambda>_. m)) Q E ?d2"
      if "?d2 (K (LK_Inode ino Size)) = Some data" for data
      using that upd [THEN dwp_and_then]
      by (auto simp: size_of_ino_def stored_def deserialize_json_def split: sum.splits)
  qed (use err [OF same1 inv1] err [OF same2 inv2] in auto)
qed

lemma replaced_le: "replaced X d as h \<le> length as"
  unfolding replaced_def by (rule order_trans [OF card_mono [of "set as"] card_length]) auto

lemma counts_replaced:
  assumes "length as < 2 ^ 64" and "\<forall>h. counts decs h = of_nat (replaced X d as h)"
  shows "unat (counts decs h) = replaced X d as h"
proof -
  have "replaced X d as h < 2 ^ 64" using replaced_le [of d as h] assms(1) by linarith
  with assms(2) show ?thesis by (simp add: unat_of_nat)
qed

text \<open>The whole operation.\<close>

lemma write_addresses_dwp:
  fixes ino :: storage_ino and blocks :: "(tifs_hash \<times> u64 \<times> block_index list) list"
  defines "addrs \<equiv> addresses_to_modify ino blocks"
  assumes inv: "block_inv X d" and dist: "distinct (map fst addrs)" and few: "length addrs < 2 ^ 64"
    and ok: "\<forall>(a, h) \<in> set addrs. \<forall>h'. h = Some h' \<longrightarrow> hash_ok X h'"
    and reserved: "\<forall>h. hash_ok X h \<longrightarrow>
      card (refs_of X d h) + card {a. map_of addrs a = Some (Some h)} \<le> ref_count X d h"
    and present: "\<forall>(a, h) \<in> set addrs. \<forall>h'. h = Some h' \<longrightarrow> block_data_of X d h' \<noteq> None"
  shows "dwp (inode_write_hash_block_to_addresses_update_ino_size_and_cleaning_previous_block_hashes (hfs X) now cid ino blocks)
     (\<lambda>_ d'. block_inv X d' \<and> redirected X addrs d d' \<and> blocks_kept X d d'
        \<and> size_grown X ino (max_file_size (cfg_block_size (tx_fs_config X)) blocks) d d'
        \<and> (\<forall>h. hash_ok X h \<longrightarrow> ref_count X d' h = ref_count X d h - replaced X d (map fst addrs) h))
     (\<lambda>_ d'. block_inv X d' \<and> (redirected X [] d d' \<or> redirected X addrs d d')) d"
  (is "dwp _ ?Q ?E d")
  unfolding inode_write_hash_block_to_addresses_update_ino_size_and_cleaning_previous_block_hashes_def Let_def
    hfs_simps to_fs_key txn addrs_def [symmetric]
proof (rule dwp_and_then, rule dwp_weaken, rule spinning_dwp [OF replace_wp, where E' = "\<lambda>_ d'. d' = d"])
  let ?d1 = "address_map X addrs d"
  have so: "store_ok X d" using inv by (simp add: block_inv_def)
  show "\<forall>a h. block_hash_at X d a = Some h \<longrightarrow> hash_ok X h" using store_ok_hash [OF so] by simp
  note inv1 = block_inv_address_map [OF inv dist ok reserved present]
  have red1: "redirected X addrs d ?d1" unfolding redirected_def block_hash_at_address_map [OF dist] by simp
  have size1: "size_of_ino X ?d1 ino = size_of_ino X d ino"
    by (auto simp: size_of_ino_def intro!: stored_cong address_map_other)
  have count1: "ref_count X ?d1 h = ref_count X d h" "block_data_of X ?d1 h = block_data_of X d h" if "hash_ok X h" for h
    using that by (simp_all add: ref_count_def block_data_of_def address_map_other)
  show "?E e d'" if "d' = d" for e :: hash_fs_error and d' using inv that by simp
  fix decs d' assume "d' = ?d1 \<and> distinct (map fst decs) \<and> (\<forall>h \<in> fst ` set decs. hash_ok X h)
      \<and> (\<forall>h. counts decs h = of_nat (replaced X d (map fst addrs) h))"
  then have d': "d' = ?d1" and decs: "distinct (map fst decs)" "\<forall>(h, n) \<in> set decs. hash_ok X h"
    and cnt: "\<forall>h. counts decs h = of_nat (replaced X d (map fst addrs) h)" by auto
  have cnt': "unat (counts decs h) = replaced X d (map fst addrs) h" for h
    by (rule counts_replaced [OF _ cnt]) (use few in simp)
  show "dwp (and_then (lift_fs (run_mini (T) (lift_tikv (tk_delete (T) (K (LK_Inode ino FullHash)))))) (\<lambda>_.
      and_then (lift_fs (run_mini (T) (put_json (T) (K (LK_Inode ino ChangeIterationId))
          (js_change_id (tx_js X)) (InoChangeIterationId cid)))) (\<lambda>_.
      and_then (lift_fs (flex_fetch (SpawnMiniTransactions (T)) (K (LK_Inode ino Size)) (js_size (tx_js X)))) (\<lambda>size_peek.
      and_then (if max_file_size (cfg_block_size (tx_fs_config X)) blocks > isz_size size_peek
          then lift_fs (run_mini (T) (hb_replace_block_hash_for_address_only_size_update_b X (now 0) ino
            (max_file_size (cfg_block_size (tx_fs_config X)) blocks)))
          else ret ()) (\<lambda>_. lift_fs (run_mini (T) (hb_decrement_blocks_reference_count_and_delete_if_zero_reached X decs))))))) ?Q ?E d'"
    unfolding d'
  proof (rule write_records_dwp [OF inv1(1)])
    show "?E e d2" if "blocks_same X ?d1 d2" "block_inv X d2" for e :: hash_fs_error and d2
      using that red1 by (simp add: redirected_def blocks_same_def)
    fix d2 assume same: "blocks_same X ?d1 d2" and inv2: "block_inv X d2"
      and grown: "size_grown X ino (max_file_size (cfg_block_size (tx_fs_config X)) blocks) ?d1 d2"
    have "refs_of X d2 h = refs_of X ?d1 h" for h using same by (simp add: refs_of_def blocks_same_def)
    then have enough: "\<forall>h. hash_ok X h \<longrightarrow> card (refs_of X d2 h) + unat (counts decs h) \<le> ref_count X d2 h"
      using inv1(2) same unfolding cnt' by (simp add: blocks_same_def)
    note dec = decrement_step [OF inv2 decs enough]
    have "?Q () (decremented X d2 decs d2)"
      using dec(1) dec(2) dec(3) dec(4) [of ino] dec(5) same red1 grown size1 count1 unfolding cnt'
      by (simp add: redirected_def blocks_same_def blocks_kept_def size_grown_def)
    moreover have "?E e d2" for e :: hash_fs_error using same inv2 red1 by (simp add: redirected_def blocks_same_def)
    ultimately show "dwp (lift_fs (run_mini (T) (hb_decrement_blocks_reference_count_and_delete_if_zero_reached X decs))) ?Q ?E d2"
      by (intro spinning_dwp [OF wp_weaken [OF decrement_wp [OF decs(2)]]]) auto
  qed
qed auto

section \<open>Counting up and uploading\<close>

lemma with_blocks_simps [simp]:
  "with_blocks X [] d = d"
  "with_blocks X ((h, b) # ups) d = with_blocks X ups (d(K (LK_HashedBlock h) \<mapsto> b))"
  by (simp_all add: with_blocks_def)

lemma put_blocks:
  "apply_mutations (map (\<lambda>(h, b). MutPut (K (LK_HashedBlock h)) b) ups) d = with_blocks X ups d"
  by (induction ups arbitrary: d) auto

lemma upload_dwp:
  assumes "Q () (with_blocks X ups d)" and "\<And>e. E e d"
  shows "dwp (hb_upload_new_block (hfs X) ups) Q E d"
  unfolding hb_upload_new_block_def hfs_simps to_fs_key txn
  by (intro dwp_map_err flex_batch_mutate_dwp) (use assms put_blocks [of ups d] in simp_all)

lemma uploaded:
  assumes "block_inv X d"
    and "\<forall>(h, b) \<in> set ups. hash_ok X h \<and> calculate_hash (ext_digests (tx_ext X)) (tx_fs_config X) b = h"
  defines "d' \<equiv> with_blocks X ups d"
  shows "block_inv X d'" and "block_hash_at X d' a = block_hash_at X d a"
    and "hash_ok X h \<Longrightarrow> ref_count X d' h = ref_count X d h"
    and "hash_ok X h \<Longrightarrow> h \<in> fst ` set ups \<Longrightarrow> \<exists>b. (h, b) \<in> set ups \<and> block_data_of X d' h = Some b"
    and "hash_ok X h \<Longrightarrow> h \<notin> fst ` set ups \<Longrightarrow> block_data_of X d' h = block_data_of X d h"
    and "size_of_ino X d' i = size_of_ino X d i"
proof -
  have "block_inv X d' \<and> block_hash_at X d' a = block_hash_at X d a \<and> size_of_ino X d' i = size_of_ino X d i
    \<and> (hash_ok X h \<longrightarrow> ref_count X d' h = ref_count X d h
      \<and> (h \<in> fst ` set ups \<longrightarrow> (\<exists>b. (h, b) \<in> set ups \<and> block_data_of X d' h = Some b))
      \<and> (h \<notin> fst ` set ups \<longrightarrow> block_data_of X d' h = block_data_of X d h))"
    using assms(1,2) unfolding d'_def
  proof (induction ups arbitrary: d)
    case (Cons p ups)
    obtain g b where p: "p = (g, b)" by (cases p)
    let ?d = "d(K (LK_HashedBlock g) \<mapsto> b)"
    have g: "hash_ok X g" "calculate_hash (ext_digests (tx_ext X)) (tx_fs_config X) b = g" using Cons.prems p by auto
    then have "block_inv X ?d" by (rule block_inv_upload [OF Cons.prems(1)])
    then have IH: "let d' = with_blocks X ups ?d in
      block_inv X d' \<and> block_hash_at X d' a = block_hash_at X ?d a \<and> size_of_ino X d' i = size_of_ino X ?d i
      \<and> (hash_ok X h \<longrightarrow> ref_count X d' h = ref_count X ?d h
        \<and> (h \<in> fst ` set ups \<longrightarrow> (\<exists>b. (h, b) \<in> set ups \<and> block_data_of X d' h = Some b))
        \<and> (h \<notin> fst ` set ups \<longrightarrow> block_data_of X d' h = block_data_of X ?d h))"
      unfolding Let_def by (rule Cons.IH) (use Cons.prems in auto)
    have "block_hash_at X ?d a = block_hash_at X d a" using g by (simp add: block_hash_at_def)
    moreover have "size_of_ino X ?d i = size_of_ino X d i" using g by (simp add: size_of_ino_def)
    moreover have "ref_count X ?d h = ref_count X d h" if "hash_ok X h" using g that by (simp add: ref_count_def)
    moreover have "block_data_of X ?d h = (if h = g then Some b else block_data_of X d h)" if "hash_ok X h"
      using g that by (simp add: block_data_of_def)
    ultimately show ?case using IH unfolding Let_def p with_blocks_simps by (cases "h \<in> fst ` set ups") (auto split: if_splits)
  qed simp
  then show "block_inv X d'" "block_hash_at X d' a = block_hash_at X d a" "size_of_ino X d' i = size_of_ino X d i"
    "hash_ok X h \<Longrightarrow> ref_count X d' h = ref_count X d h"
    "hash_ok X h \<Longrightarrow> h \<in> fst ` set ups \<Longrightarrow> \<exists>b. (h, b) \<in> set ups \<and> block_data_of X d' h = Some b"
    "hash_ok X h \<Longrightarrow> h \<notin> fst ` set ups \<Longrightarrow> block_data_of X d' h = block_data_of X d h" by simp_all
qed

lemma increment_dwp:
  assumes "\<forall>(h, c) \<in> set incs. hash_ok X h"
    and "\<And>prev. distinct (map fst prev) \<Longrightarrow> (\<forall>h. counter_or_zero (map_of prev) h = (if h \<in> fst ` set incs then ref_count X d h else 0)) \<Longrightarrow>
      Q prev (incremented X incs d)" and "\<And>e. E e d"
  shows "dwp (hb_increment_reference_count (hfs X) incs) Q E d"
  unfolding hb_increment_reference_count_def hfs_simps txn
  by (rule spinning_dwp, rule wp_weaken, rule increment_wp [OF assms(1)]) (use assms(2,3) in auto)

end

section \<open>Groups of blocks\<close>

text \<open>The blocks of a write, grouped by hash: hashes and indices occur once.\<close>

definition groups_ok :: "'w txn_with_config \<Rightarrow> (tifs_hash \<times> block_index list) list \<Rightarrow> bool" where
  "groups_ok X mm \<longleftrightarrow> distinct (map fst mm) \<and> distinct (concat (map snd mm)) \<and> length (concat (map snd mm)) < 2 ^ 64
     \<and> (\<forall>(h, ids) \<in> set mm. hash_ok X h)"

definition group_addresses :: "storage_ino \<Rightarrow> (tifs_hash \<times> block_index list) list \<Rightarrow> (block_address \<times> tifs_hash option) list" where
  "group_addresses ino mm = concat (map (\<lambda>(h, ids). map (\<lambda>id. (\<lparr>ba_ino = ino, ba_index = id\<rparr>, Some h)) ids) mm)"

lemma addresses_of_groups [simp]:
  "addresses_to_modify ino (map (\<lambda>(h, ids). (h, len h, ids)) mm) = group_addresses ino mm"
  unfolding addresses_to_modify_def group_addresses_def by (rule arg_cong [where f = concat]) auto

lemma group_addresses_fst: "map fst (group_addresses ino mm) = map (\<lambda>id. \<lparr>ba_ino = ino, ba_index = id\<rparr>) (concat (map snd mm))"
  by (induction mm) (auto simp: group_addresses_def)

lemma group_addresses_distinct: "distinct (concat (map snd mm)) \<Longrightarrow> distinct (map fst (group_addresses ino mm))"
  unfolding group_addresses_fst distinct_map by (auto simp: inj_on_def)

lemma group_addresses_length: "length (group_addresses ino mm) = length (concat (map snd mm))"
  using arg_cong [OF group_addresses_fst [of ino mm], of length] by simp

lemma set_group_addresses:
  "set (group_addresses ino mm) = {(\<lparr>ba_ino = ino, ba_index = id\<rparr>, Some h) | h ids id. (h, ids) \<in> set mm \<and> id \<in> set ids}"
  by (force simp: group_addresses_def)

text \<open>The references that a group adds.\<close>

lemma group_references:
  assumes "distinct (map fst mm)" and "distinct (concat (map snd mm))"
  shows "card {a. map_of (group_addresses ino mm) a = Some (Some h)} = (case map_of mm h of Some ids \<Rightarrow> length ids | None \<Rightarrow> 0)"
proof -
  have "map_of (group_addresses ino mm) a = Some (Some h) \<longleftrightarrow> (a, Some h) \<in> set (group_addresses ino mm)" for a
    by (rule map_of_eq_Some_iff) (rule group_addresses_distinct [OF assms(2)])
  then have eq: "{a. map_of (group_addresses ino mm) a = Some (Some h)}
      = {\<lparr>ba_ino = ino, ba_index = id\<rparr> | ids id. map_of mm h = Some ids \<and> id \<in> set ids}"
    using assms(1) by (auto simp: set_group_addresses)
  show ?thesis
  proof (cases "map_of mm h")
    case (Some ids)
    then have "(h, ids) \<in> set mm" by (rule map_of_SomeD)
    then have "distinct ids" using assms(2) by (auto simp: distinct_concat_iff)
    moreover have "{\<lparr>ba_ino = ino, ba_index = id\<rparr> | ids' id. map_of mm h = Some ids' \<and> id \<in> set ids'}
        = (\<lambda>id. \<lparr>ba_ino = ino, ba_index = id\<rparr>) ` set ids" using Some by auto
    ultimately show ?thesis unfolding eq using Some by (simp add: card_image inj_on_def distinct_card)
  qed (simp add: eq)
qed

abbreviation increments_of :: "(tifs_hash \<times> block_index list) list \<Rightarrow> (tifs_hash \<times> u64) list" where
  "increments_of mm \<equiv> map (\<lambda>(h, ids). (h, of_nat (length ids))) mm"

abbreviation calc_hash :: "'w txn_with_config \<Rightarrow> bytes \<Rightarrow> tifs_hash" where
  "calc_hash X \<equiv> calculate_hash (ext_digests (tx_ext X)) (tx_fs_config X)"

text \<open>The blocks that are uploaded: those without references before.\<close>

abbreviation uploads_of ::
  "'w txn_with_config \<Rightarrow> kv \<Rightarrow> (tifs_hash \<Rightarrow> bytes) \<Rightarrow> (tifs_hash \<times> block_index list) list \<Rightarrow> (tifs_hash \<times> bytes) list" where
  "uploads_of X d blk mm \<equiv> map (\<lambda>(h, c). (h, blk h)) (filter (\<lambda>(h, c). ref_count X d h = 0) (increments_of mm))"

context fs_store
begin

lemma counts_of_groups:
  assumes "length (concat (map snd mm)) < 2 ^ 64"
  shows "unat (counts (map (\<lambda>(h, ids). (h, of_nat (length ids))) mm) h) = (case map_of mm h of Some ids \<Rightarrow> length ids | None \<Rightarrow> 0)"
proof (cases "map_of mm h")
  case (Some ids)
  then have "ids \<in> set (map snd mm)" using imageI [OF map_of_SomeD [OF Some], of snd] by simp
  then have "length ids \<le> length (concat (map snd mm))"
    unfolding length_concat by (intro member_le_sum_list) auto
  then have "length ids < 2 ^ 64" using assms by linarith
  then show ?thesis using Some by (simp add: counts_def map_of_map_snd [where f = "\<lambda>h ids. of_nat (length ids)"] unat_of_nat)
qed (simp add: counts_def map_of_map_snd [where f = "\<lambda>h ids. of_nat (length ids)"])
lemma exact_counted: "block_inv X d \<Longrightarrow> refs_exact X d \<Longrightarrow> counted_present X d"
  unfolding counted_present_def
proof (intro allI impI)
  fix h assume inv: "block_inv X d" "refs_exact X d" and h: "hash_ok X h" "0 < ref_count X d h"
  then have "0 < card (refs_of X d h)" by (simp add: refs_exact_def)
  then have "refs_of X d h \<noteq> {}" by auto
  then obtain a where "block_hash_at X d a = Some h" by (auto simp: refs_of_def)
  with inv(1) show "block_data_of X d h \<noteq> None" by (auto simp: block_inv_def blocks_present_def)
qed

lemma groups_ready:
  fixes d mm blk
  defines "d1 \<equiv> incremented X (increments_of mm) d"
  defines "d2 \<equiv> with_blocks X (uploads_of X d blk mm) d1"
  assumes inv: "block_inv X d" and cp: "counted_present X d" and mm: "groups_ok X mm"
    and blk: "\<forall>(h, ids) \<in> set mm. calc_hash X (blk h) = h"
  shows "block_inv X d1" and "block_inv X d2"
    and "\<forall>a. block_hash_at X d1 a = block_hash_at X d a" and "\<forall>a. block_hash_at X d2 a = block_hash_at X d a"
    and "\<forall>h. hash_ok X h \<longrightarrow> ref_count X d2 h = ref_count X d h + card {a. map_of (group_addresses ino mm) a = Some (Some h)}"
    and "\<forall>(a, h) \<in> set (group_addresses ino mm). \<forall>h'. h = Some h' \<longrightarrow> block_data_of X d2 h' \<noteq> None"
    and "size_of_ino X d2 i = size_of_ino X d i"
    and "\<forall>h. hash_ok X h \<longrightarrow> block_data_of X d2 h = block_data_of X d h \<or> h \<in> fst ` set mm \<and> block_data_of X d2 h = Some (blk h)"
proof -
  have hs: "\<forall>(h, c) \<in> set (increments_of mm). hash_ok X h" and dist: "distinct (map fst mm)"
    "distinct (concat (map snd mm))" and few: "length (concat (map snd mm)) < 2 ^ 64"
    using mm by (auto simp: groups_ok_def)
  have keys: "map fst (increments_of mm) = map fst mm" by (induction mm) auto
  have inc_dist: "distinct (map fst (increments_of mm))" unfolding keys by (rule dist(1))
  show inv1: "block_inv X d1" unfolding d1_def by (rule block_inv_incremented [OF inv hs inc_dist])
  show at1: "\<forall>a. block_hash_at X d1 a = block_hash_at X d a" unfolding d1_def using refs_of_incremented(1) [OF hs] by simp
  have cnt: "ref_count X d1 h = ref_count X d h + card {a. map_of (group_addresses ino mm) a = Some (Some h)}" if "hash_ok X h" for h
    unfolding d1_def incremented_counter [OF hs inc_dist that] counts_of_groups [OF few] group_references [OF dist] by simp
  have ups: "\<forall>(h, b) \<in> set (uploads_of X d blk mm). hash_ok X h \<and> calc_hash X b = h" using hs blk by auto
  note up = uploaded [OF inv1 ups, folded d2_def]
  show "block_inv X d2" by (rule up(1))
  show "\<forall>a. block_hash_at X d2 a = block_hash_at X d a" using up(2) at1 by simp
  show "\<forall>h. hash_ok X h \<longrightarrow> ref_count X d2 h = ref_count X d h + card {a. map_of (group_addresses ino mm) a = Some (Some h)}"
    using up(3) cnt by simp
  have data1: "block_data_of X d1 h = block_data_of X d h" if "hash_ok X h" for h
    unfolding d1_def by (rule refs_of_incremented(2) [OF hs that])
  have dom: "fst ` set (uploads_of X d blk mm) = {h \<in> fst ` set mm. ref_count X d h = 0}" by force
  have "block_data_of X d2 h \<noteq> None" if "(h, ids) \<in> set mm" for h ids
  proof -
    have h: "hash_ok X h" using that mm by (auto simp: groups_ok_def)
    show ?thesis
    proof (cases "ref_count X d h = 0")
      case True
      then show ?thesis using up(4) [OF h] that unfolding dom by force
    next
      case False
      then have "block_data_of X d h \<noteq> None" using cp h by (simp add: counted_present_def)
      with up(5) [OF h] False show ?thesis unfolding dom by (simp add: data1 [OF h])
    qed
  qed
  then show "\<forall>(a, h) \<in> set (group_addresses ino mm). \<forall>h'. h = Some h' \<longrightarrow> block_data_of X d2 h' \<noteq> None"
    by (auto simp: set_group_addresses)
  show "size_of_ino X d2 i = size_of_ino X d i"
    using up(6) [of i] hs by (auto simp: d1_def size_of_ino_def intro!: stored_cong incremented_other)
  show "\<forall>h. hash_ok X h \<longrightarrow> block_data_of X d2 h = block_data_of X d h \<or> h \<in> fst ` set mm \<and> block_data_of X d2 h = Some (blk h)"
  proof (intro allI impI)
    fix h assume h: "hash_ok X h"
    show "block_data_of X d2 h = block_data_of X d h \<or> h \<in> fst ` set mm \<and> block_data_of X d2 h = Some (blk h)"
      using up(4) [OF h] up(5) [OF h] data1 [OF h] dom by (cases "h \<in> fst ` set (uploads_of X d blk mm)") auto
  qed
qed

text \<open>After a complete write the counters are exact again.\<close>

lemma exact_after_write:
  assumes inv: "block_inv X d2" and exact: "refs_exact X d" and at: "\<forall>a. block_hash_at X d2 a = block_hash_at X d a"
    and dist: "distinct (map fst addrs)"
    and cnt: "\<forall>h. hash_ok X h \<longrightarrow> ref_count X d2 h = ref_count X d h + card {a. map_of addrs a = Some (Some h)}"
    and red: "redirected X addrs d2 d'"
    and dec: "\<forall>h. hash_ok X h \<longrightarrow> ref_count X d' h = ref_count X d2 h - replaced X d2 (map fst addrs) h"
  shows "refs_exact X d'"
  unfolding refs_exact_def
proof (intro allI impI)
  fix h assume h: "hash_ok X h"
  have so: "store_ok X d2" using inv by (simp add: block_inv_def)
  have "refs_of X d' h = refs_of X (address_map X addrs d2) h"
    using red unfolding redirected_def refs_of_def block_hash_at_address_map [OF dist] by simp
  moreover have "refs_of X d2 h = refs_of X d h" using at by (simp add: refs_of_def)
  ultimately show "card (refs_of X d' h) = ref_count X d' h"
    using refs_card_address_map [OF so dist, of h] dec cnt exact h by (simp add: refs_exact_def)
qed

end

end
