(* ===== verification/Txn_Facts.thy ===== *)
theory Txn_Facts
  imports Write_Facts Block_List_Facts
begin

text \<open>
  The contract between the file operations and what is below them: a hash file system with a
  committed content, a block cache that only ever returns what was put into it, and hash maps that
  iterate over their entries in some order (\<open>file_contract\<close>). The hash file system on TiKV keeps it
  (\<open>file_store\<close>). The lemmas give what reading block maps, reading blocks through the cache and the
  three steps of a write do to the content of the store.
\<close>

lemma option_eqI: "(\<And>v. x = Some v \<longleftrightarrow> y = Some v) \<Longrightarrow> x = y"
  by (cases x; cases y) auto

section \<open>Caches and orders\<close>

text \<open>
  A cache: \<open>holds c\<close> are the entries it may still answer with. It may forget entries at any
  time.
\<close>

locale block_cache_laws =
  fixes C :: "'c block_cache" and holds :: "'c \<Rightarrow> (tifs_hash \<times> bytes) set"
  assumes get_law: "bc_get C h c = (r, c') \<Longrightarrow> holds c' \<subseteq> holds c \<and> (\<forall>b. r = Some b \<longrightarrow> (h, b) \<in> holds c)"
    and insert_law: "holds (bc_insert C h b c) \<subseteq> insert (h, b) (holds c)"
begin

lemma inserted_all: "holds (fold (\<lambda>(h, d). bc_insert C h d) blocks c) \<subseteq> set blocks \<union> holds c"
proof (induction blocks arbitrary: c)
  case (Cons p blocks)
  obtain h d where "p = (h, d)" by (cases p)
  with Cons.IH [of "bc_insert C h d c"] insert_law [of h d c] show ?case by auto
qed simp

end

text \<open>A cache of the last entries.\<close>

definition list_cache :: "nat \<Rightarrow> (tifs_hash \<times> bytes) list block_cache" where
  "list_cache n = \<lparr>bc_get = (\<lambda>h c. (map_of c h, c)), bc_insert = (\<lambda>h b c. take n ((h, b) # c))\<rparr>"

interpretation list_cache: block_cache_laws "list_cache n" set
  by unfold_locales (auto simp: list_cache_def dest: map_of_SomeD in_set_takeD)

definition order_ok :: "map_order \<Rightarrow> bool" where
  "order_ok ord \<longleftrightarrow> (\<forall>xs. mset (mo_hashes ord xs) = mset xs) \<and> (\<forall>xs. mset (mo_blocks ord xs) = mset xs)
     \<and> (\<forall>xs. mset (mo_indices ord xs) = mset xs) \<and> (\<forall>xs. mset (mo_multi ord xs) = mset xs)"

definition insertion_order :: map_order where
  "insertion_order = \<lparr>mo_hashes = id, mo_blocks = id, mo_indices = id, mo_multi = rev\<rparr>"

lemma insertion_order_ok: "order_ok insertion_order"
  by (simp add: order_ok_def insertion_order_def)

text \<open>
  A cache whose entries have the hash they are stored under and are among the known blocks.
  Which blocks are known is a parameter of the contract: all of them where only hashes matter,
  a set without collisions where the content does.
\<close>

abbreviation block_good :: "'w txn_with_config \<Rightarrow> bytes set \<Rightarrow> tifs_hash \<Rightarrow> bytes \<Rightarrow> bool" where
  "block_good X known h b \<equiv> calc_hash X b = h \<and> b \<in> known"

definition cache_ok :: "'w txn_with_config \<Rightarrow> ('c \<Rightarrow> (tifs_hash \<times> bytes) set) \<Rightarrow> bytes set \<Rightarrow> 'c \<Rightarrow> bool" where
  "cache_ok X holds known c \<longleftrightarrow> (\<forall>(h, b) \<in> holds c. block_good X known h b)"

definition stored_known :: "'w txn_with_config \<Rightarrow> bytes set \<Rightarrow> kv \<Rightarrow> bool" where
  "stored_known X known d \<longleftrightarrow> (\<forall>h b. hash_ok X h \<longrightarrow> block_data_of X d h = Some b \<longrightarrow> b \<in> known)"

lemma stored_known_UNIV [simp]: "stored_known X UNIV d"
  by (simp add: stored_known_def)

section \<open>Reading from the store\<close>

context fs_store
begin

text \<open>Reading blocks.\<close>

lemma collected_blocks:
  "\<forall>(h, v) \<in> set hvs. hash_ok X h \<Longrightarrow>
   collect_block_data (tx_fs_config X) (map (\<lambda>(h, v). (K (LK_HashedBlock h), v)) hvs) m = Inr (fold (\<lambda>(h, v). map_insert h v) hvs m)"
proof (induction hvs arbitrary: m)
  case (Cons p hvs)
  obtain h v where p: "p = (h, v)" by (cases p)
  then have "hash_ok X h" using Cons.prems by simp
  then have "bind_result (key_parser_b (tx_fs_config X) (K (LK_HashedBlock h))) parse_key_hashed_block = Inr h"
    by (rule parse_hashed_block_key)
  then show ?case using Cons p by (auto simp: bind_result_def split: sum.splits)
qed simp

lemma block_pairs:
  assumes "\<forall>(k, v) \<in> set kvs. \<exists>h. k = K (LK_HashedBlock h) \<and> hash_ok X h"
  shows "\<exists>hvs. kvs = map (\<lambda>(h, v). (K (LK_HashedBlock h), v)) hvs \<and> (\<forall>(h, v) \<in> set hvs. hash_ok X h)"
  using assms
proof (induction kvs)
  case (Cons p kvs)
  then obtain hvs h where "kvs = map (\<lambda>(h, v). (K (LK_HashedBlock h), v)) hvs" "\<forall>(h, v) \<in> set hvs. hash_ok X h"
    "p = (K (LK_HashedBlock h), snd p)" "hash_ok X h" by (cases p) auto
  then show ?case by (intro exI [of _ "(h, snd p) # hvs"]) auto
qed simp

lemma get_blocks_dwp:
  assumes hs: "\<forall>h \<in> set hs. hash_ok X h"
    and post: "\<And>m. \<lbrakk>distinct (map fst m); \<forall>h. map_of m h = (if h \<in> set hs then block_data_of X d h else None)\<rbrakk> \<Longrightarrow> Q m d"
    and err: "\<And>e. E e d"
  shows "dwp (hb_get_block_data_by_hashes (hfs X) hs) Q E d"
  unfolding hb_get_block_data_by_hashes_def hfs_simps txn
proof (intro dwp_and_then dwp_map_err flex_batch_get_dwp dwp_of_result)
  fix kvs assume "batch_answer d (map (hashed_block (tx_kb X)) hs) kvs"
  then have kvs: "set kvs = {(k, v). (\<exists>h \<in> set hs. k = K (LK_HashedBlock h)) \<and> d k = Some v}" "distinct (map fst kvs)"
    unfolding batch_answer_def to_fs_key by auto
  then have "\<forall>(k, v) \<in> set kvs. \<exists>h. k = K (LK_HashedBlock h) \<and> hash_ok X h" using hs by auto
  from block_pairs [OF this] obtain hvs where hvs: "kvs = map (\<lambda>(h, v). (K (LK_HashedBlock h), v)) hvs"
    "\<forall>(h, v) \<in> set hvs. hash_ok X h" by blast
  have "map fst kvs = map (\<lambda>h. K (LK_HashedBlock h)) (map fst hvs)" unfolding hvs(1) by auto
  then have "distinct (map (\<lambda>h. K (LK_HashedBlock h)) (map fst hvs))" using kvs(2) by simp
  then have "distinct (map fst hvs)" unfolding distinct_map [of "\<lambda>h. K (LK_HashedBlock h)"] by (rule conjunct1)
  then have dist: "distinct (map fst (rev hvs))" by (simp add: rev_map [symmetric])
  let ?m = "fold (\<lambda>(h, v). map_insert h v) hvs []"
  have "map_of ?m h = (if h \<in> set hs then block_data_of X d h else None)" for h
  proof (rule option_eqI)
    fix v
    have "map_of ?m h = Some v \<longleftrightarrow> (h, v) \<in> set hvs"
      using map_of_eq_Some_iff [OF dist] by (simp add: map_of_fold_map_insert)
    also have "\<dots> \<longleftrightarrow> h \<in> set hs \<and> d (K (LK_HashedBlock h)) = Some v"
    proof
      assume "(h, v) \<in> set hvs"
      then have "(K (LK_HashedBlock h), v) \<in> set kvs" "hash_ok X h" using hvs by force+
      then show "h \<in> set hs \<and> d (K (LK_HashedBlock h)) = Some v" using hs unfolding kvs(1) by auto
    next
      assume h: "h \<in> set hs \<and> d (K (LK_HashedBlock h)) = Some v"
      then have "(K (LK_HashedBlock h), v) \<in> set kvs" unfolding kvs(1) by auto
      then show "(h, v) \<in> set hvs" using hvs hs h by auto
    qed
    also have "\<dots> \<longleftrightarrow> (if h \<in> set hs then block_data_of X d h else None) = Some v" by (simp add: block_data_of_def)
    finally show "map_of ?m h = Some v \<longleftrightarrow> (if h \<in> set hs then block_data_of X d h else None) = Some v" .
  qed
  then have "Q ?m d" using distinct_map_collect [of hvs] by (intro post) (simp_all add: map_collect_def)
  then show "case collect_block_data (tx_fs_config X) kvs [] of Inr x \<Rightarrow> Q x d | Inl e \<Rightarrow> E (hash_error_of_fs e) d"
    unfolding hvs(1) collected_blocks [OF hvs(2)] by simp
qed (rule err)

text \<open>Whatever is read, the content stays and all hashes have the right length.\<close>

abbreviation map_ok :: "(block_index \<rightharpoonup> tifs_hash) \<Rightarrow> bool" where
  "map_ok m \<equiv> \<forall>i h. m i = Some h \<longrightarrow> hash_ok X h"

lemma collected_map_ok: "collect_block_hashes (tx_fs_config X) ino pairs m = Inr m' \<Longrightarrow> map_ok m \<Longrightarrow> map_ok m'"
proof (induction pairs arbitrary: m)
  case (Cons p pairs)
  obtain k h where p: "p = (k, h)" by (cases p)
  obtain m1 where "collect_block_hashes (tx_fs_config X) ino pairs m1 = Inr m'" "map_ok m1"
    using Cons.prems unfolding p collect_block_hashes.simps
    by (auto simp: bind_result_Inr_iff split: if_splits)
  then show ?case by (rule Cons.IH)
qed simp

lemma hash_list_any_wp:
  "wp (hb_get_block_hash_list_by_block_range X ino s e) (\<lambda>m v'. v' = v \<and> map_ok m) (\<lambda>_. True) v"
proof -
  have "map_ok m" if "collect_block_hashes (tx_fs_config X) ino pairs Map.empty = Inr m" for pairs m
    by (rule collected_map_ok [OF that]) simp
  then show ?thesis
    unfolding hb_get_block_hash_list_by_block_range_def txn
    by (intro wp_and_then wp_scan wp_of_result) (auto split: sum.splits)
qed

lemma hash_list_chunks_any_wp:
  "map_ok acc \<Longrightarrow> wp (hash_list_chunks X ino fuel i e acc) (\<lambda>r v'. v' = v \<and> (\<forall>m. r = Some m \<longrightarrow> map_ok m)) (\<lambda>_. True) v"
proof (induction fuel arbitrary: i acc)
  case 0
  then show ?case
    by (cases "i < e") (simp_all only: hash_list_chunks.simps if_True if_False, (intro wp_ret, simp)+)
next
  case (Suc fuel)
  show ?case
  proof (cases "i < e")
    case False
    with Suc.prems show ?thesis by (simp only: hash_list_chunks.simps if_False) (intro wp_ret, simp)
  next
    case True
    have "wp (and_then (hb_get_block_hash_list_by_block_range X ino i c) (\<lambda>chunk. hash_list_chunks X ino fuel c e (acc ++ chunk)))
      (\<lambda>r v'. v' = v \<and> (\<forall>m. r = Some m \<longrightarrow> map_ok m)) (\<lambda>_. True) v" for c
    proof (rule wp_and_then, rule wp_weaken, rule hash_list_any_wp)
      fix chunk v' assume "v' = v \<and> map_ok chunk"
      with Suc.prems have "map_ok (acc ++ chunk)" "v' = v" by (auto simp: map_add_def split: option.splits)
      with Suc.IH [OF this(1), of c] show "wp (hash_list_chunks X ino fuel c e (acc ++ chunk))
          (\<lambda>r v'. v' = v \<and> (\<forall>m. r = Some m \<longrightarrow> map_ok m)) (\<lambda>_. True) v'" by simp
    qed simp
    with True show ?thesis by (simp add: Let_def)
  qed
qed

lemma read_ranges_any_dwp:
  "map_ok acc \<Longrightarrow> dwp (read_ranges (hfs X) ino rs acc) (\<lambda>r d'. d' = d \<and> (\<forall>m. r = Some m \<longrightarrow> map_ok m)) (\<lambda>_ d'. d' = d) d"
proof (induction rs arbitrary: acc)
  case Nil
  then show ?case by (simp only: read_ranges.simps) (intro dwp_ret, simp)
next
  case (Cons p rs)
  obtain a b where p: "p = (a, b)" by (cases p)
  show ?case
    unfolding p read_ranges.simps then_some_def hf_hash_list_chunked_def hfs_simps txn
      hb_get_block_hash_list_by_block_range_chunked_def
  proof (rule dwp_and_then, rule spinning_dwp, rule wp_weaken, rule hash_list_chunks_any_wp)
    fix r :: "(block_index \<rightharpoonup> tifs_hash) option" and d'
    assume r: "d' = d \<and> (\<forall>m. r = Some m \<longrightarrow> map_ok m)"
    show "dwp (case r of None \<Rightarrow> ret None | Some x \<Rightarrow> read_ranges (hfs X) ino rs (acc ++ x))
        (\<lambda>r d'. d' = d \<and> (\<forall>m. r = Some m \<longrightarrow> map_ok m)) (\<lambda>_ d'. d' = d) d'"
    proof (cases r)
      case None
      with r show ?thesis by (simp only: option.case) (intro dwp_ret, simp)
    next
      case (Some m)
      with r Cons.prems have "map_ok (acc ++ m)" by (auto simp: map_add_def split: option.splits)
      with Cons.IH Some r show ?thesis by simp
    qed
  qed simp_all
qed

lemma block_ranges_any_dwp:
  "dwp (inode_read_block_hashes_block_range (hfs X) ino rs) (\<lambda>r d'. d' = d \<and> (\<forall>m. r = Some m \<longrightarrow> map_ok m)) (\<lambda>_ d'. d' = d) d"
  unfolding inode_read_block_hashes_block_range_def by (rule read_ranges_any_dwp) simp

text \<open>Away from the end of the index space the map is the stored one.\<close>

definition ranges_map :: "kv \<Rightarrow> storage_ino \<Rightarrow> (u64 \<times> u64) list \<Rightarrow> block_index \<rightharpoonup> tifs_hash" where
  "ranges_map d ino rs = (\<lambda>i. if in_ranges rs (block_raw i) then block_hash_at X d \<lparr>ba_ino = ino, ba_index = i\<rparr> else None)"

lemma ranges_map_Cons: "ranges_map d ino ((a, b) # rs) = range_map X d ino (BlockIndex a) (BlockIndex b) ++ ranges_map d ino rs"
  by (auto simp: fun_eq_iff ranges_map_def range_map_def in_ranges_def map_add_def less_eq_block_index_def less_block_index_def
      split: option.splits)

lemma read_ranges_dwp:
  assumes ok: "store_ok X d" and small: "\<forall>(a, b) \<in> set rs. a < b \<longrightarrow> unat b + unat MAX_TIKV_SCAN_LIMIT < 2 ^ 64"
  shows "dwp (read_ranges (hfs X) ino rs acc) (\<lambda>r d'. d' = d \<and> r = Some (acc ++ ranges_map d ino rs)) (\<lambda>_ d'. d' = d) d"
  using small
proof (induction rs arbitrary: acc)
  case Nil
  then show ?case by (simp only: read_ranges.simps) (intro dwp_ret, simp add: ranges_map_def in_ranges_def map_add_def)
next
  case (Cons p rs)
  obtain a b where p: "p = (a, b)" by (cases p)
  let ?m = "range_map X d ino (BlockIndex a) (BlockIndex b)"
  have "wp (hb_get_block_hash_list_by_block_range_chunked X ino (BlockIndex a) (BlockIndex b))
      (\<lambda>r v'. v' = d \<and> r = Some ?m) (\<lambda>_. False) d"
  proof (cases "a < b")
    case True
    then show ?thesis using Cons.prems p by (intro chunked_list_wp [OF ok]) simp
  next
    case False
    then have ge: "\<not> BlockIndex a < BlockIndex b" by (simp add: less_block_index_def)
    moreover have "chunk_fuel (BlockIndex a) (BlockIndex b) = 0" using False by (simp add: chunk_fuel_def word_less_nat_alt)
    ultimately show ?thesis
      unfolding hb_get_block_hash_list_by_block_range_chunked_def
      by (simp only: hash_list_chunks.simps if_False, intro wp_ret) (simp add: range_map_empty)
  qed
  moreover have "\<forall>(a, b) \<in> set rs. a < b \<longrightarrow> unat b + unat MAX_TIKV_SCAN_LIMIT < 2 ^ 64" using Cons.prems by simp
  note IH = Cons.IH [OF this]
  ultimately have "dwp (read_ranges (hfs X) ino (p # rs) acc) (\<lambda>r d'. d' = d \<and> r = Some (acc ++ ?m ++ ranges_map d ino rs)) (\<lambda>_ d'. d' = d) d"
    unfolding p read_ranges.simps then_some_def hf_hash_list_chunked_def hfs_simps txn
    by (intro dwp_and_then spinning_dwp) (auto elim!: wp_weaken intro!: IH)
  then show ?case unfolding p ranges_map_Cons map_add_assoc .
qed

text \<open>The ranges of a request are merged before they are read; only the indices they contain matter.\<close>

abbreviation raw_ranges :: "(block_index \<times> block_index) list \<Rightarrow> (u64 \<times> u64) list" where
  "raw_ranges rs \<equiv> map (\<lambda>(a, b). (block_raw a, block_raw b)) rs"

lemma block_ranges_dwp:
  assumes ok: "store_ok X d" and small: "\<forall>x. in_ranges (raw_ranges rs) x \<longrightarrow> unat x + 10241 < 2 ^ 64"
  shows "dwp (inode_read_block_hashes_block_range (hfs X) ino rs)
    (\<lambda>r d'. d' = d \<and> r = Some (ranges_map d ino (raw_ranges rs))) (\<lambda>_ d'. d' = d) d"
proof -
  let ?u = "ext_range_union (tx_ext X) (raw_ranges rs)"
  have union: "in_ranges ?u x = in_ranges (raw_ranges rs) x" for x using ext by (simp add: ext_ok_def)
  have "unat b + unat MAX_TIKV_SCAN_LIMIT < 2 ^ 64" if ab: "(a, b) \<in> set ?u" "a < b" for a b
  proof -
    have "0 < unat b" using ab(2) by (simp add: word_less_nat_alt)
    then have b: "unat b = Suc (unat (b - 1))" by (simp add: unat_minus_one unat_gt_0)
    then have "in_ranges ?u (b - 1)" using ab by (auto simp: in_ranges_def word_le_nat_alt word_less_nat_alt intro!: bexI [of _ "(a, b)"])
    then show ?thesis using small b unfolding union by (simp add: MAX_TIKV_SCAN_LIMIT_def)
  qed
  then have "\<forall>(a, b) \<in> set ?u. a < b \<longrightarrow> unat b + unat MAX_TIKV_SCAN_LIMIT < 2 ^ 64" by blast
  note read = read_ranges_dwp [OF ok this, of ino Map.empty]
  have "ranges_map d ino ?u = ranges_map d ino (raw_ranges rs)" by (simp only: ranges_map_def union)
  with read show ?thesis
    unfolding inode_read_block_hashes_block_range_def hfs_simps by simp
qed

lemma read_range_dwp:
  assumes ok: "store_ok X d" and bound: "unat start + unat n < 2 ^ 64"
    and last: "(unat start + unat n) div unat (cfg_block_size (tx_fs_config X)) + 10241 < 2 ^ 64"
  shows "dwp (inode_read_block_hashes_data_range (hfs X) ino start n)
    (\<lambda>r d'. d' = d \<and> r = Some (range_map X d ino (BlockIndex (start div cfg_block_size (tx_fs_config X)))
        (BlockIndex (div_ceil (start + n) (cfg_block_size (tx_fs_config X)))))) (\<lambda>_ d'. d' = d) d"
proof -
  let ?bs = "cfg_block_size (tx_fs_config X)"
  let ?b = "unat (cfg_block_size (tx_fs_config X))"
  have bs0: "?bs \<noteq> 0" using cfg by (simp add: cfg_ok_def)
  then have pos: "0 < ?b" by (simp add: unat_gt_0)
  have sum: "unat (start + n) = unat start + unat n" using bound by (simp add: unat_word_ariths)
  have "unat (div_ceil (start + n) ?bs) = (unat start + unat n + ?b - 1) div ?b" unfolding unat_div_ceil [OF bs0] sum ..
  also have "\<dots> \<le> (unat start + unat n + ?b) div ?b" by (intro div_le_mono) simp
  also have "\<dots> = Suc ((unat start + unat n) div ?b)" by (subst div_add_self2) (use pos in auto)
  finally have "unat (block_raw (BlockIndex (div_ceil (start + n) ?bs))) + unat MAX_TIKV_SCAN_LIMIT < 2 ^ 64"
    using last by (simp add: MAX_TIKV_SCAN_LIMIT_def)
  from chunked_list_wp [OF ok this] show ?thesis
    unfolding inode_read_block_hashes_data_range_def Let_def hf_hash_list_chunked_def hfs_simps txn
    by (rule spinning_dwp) simp
qed

text \<open>What the operations promise, by the content \<open>d\<close> before and \<open>d'\<close> after.\<close>

abbreviation maps_read :: "kv \<Rightarrow> (block_index \<rightharpoonup> tifs_hash) option \<Rightarrow> kv \<Rightarrow> bool" where
  "maps_read d r d' \<equiv> d' = d \<and> (\<forall>m. r = Some m \<longrightarrow> map_ok m)"

abbreviation ranges_read :: "kv \<Rightarrow> storage_ino \<Rightarrow> (block_index \<times> block_index) list \<Rightarrow> (block_index \<rightharpoonup> tifs_hash) option \<Rightarrow> kv \<Rightarrow> bool" where
  "ranges_read d ino rs r d' \<equiv> d' = d \<and> r = Some (ranges_map d ino (raw_ranges rs))"

abbreviation data_range_read :: "kv \<Rightarrow> storage_ino \<Rightarrow> u64 \<Rightarrow> u64 \<Rightarrow> (block_index \<rightharpoonup> tifs_hash) option \<Rightarrow> kv \<Rightarrow> bool" where
  "data_range_read d ino start n r d' \<equiv> d' = d \<and> r = Some (range_map X d ino (BlockIndex (start div cfg_block_size (tx_fs_config X)))
     (BlockIndex (div_ceil (start + n) (cfg_block_size (tx_fs_config X)))))"

abbreviation blocks_read :: "kv \<Rightarrow> tifs_hash list \<Rightarrow> (tifs_hash \<times> bytes) list \<Rightarrow> kv \<Rightarrow> bool" where
  "blocks_read d hs m d' \<equiv> d' = d \<and> distinct (map fst m)
     \<and> (\<forall>h. map_of m h = (if h \<in> set hs then block_data_of X d h else None))"

abbreviation counters_read :: "kv \<Rightarrow> (tifs_hash \<times> u64) list \<Rightarrow> (tifs_hash \<times> nat) list \<Rightarrow> kv \<Rightarrow> bool" where
  "counters_read d incs prev d' \<equiv> d' = incremented X incs d \<and> distinct (map fst prev)
     \<and> (\<forall>h. counter_or_zero (map_of prev) h = (if h \<in> fst ` set incs then ref_count X d h else 0))"

abbreviation addressable :: "kv \<Rightarrow> (block_address \<times> tifs_hash option) list \<Rightarrow> bool" where
  "addressable d addrs \<equiv> block_inv X d \<and> distinct (map fst addrs) \<and> length addrs < 2 ^ 64
     \<and> (\<forall>(a, h) \<in> set addrs. \<forall>h'. h = Some h' \<longrightarrow> hash_ok X h')
     \<and> (\<forall>h. hash_ok X h \<longrightarrow> card (refs_of X d h) + card {a. map_of addrs a = Some (Some h)} \<le> ref_count X d h)
     \<and> (\<forall>(a, h) \<in> set addrs. \<forall>h'. h = Some h' \<longrightarrow> block_data_of X d h' \<noteq> None)"

abbreviation addressed :: "kv \<Rightarrow> storage_ino \<Rightarrow> (tifs_hash \<times> u64 \<times> block_index list) list \<Rightarrow> unit \<Rightarrow> kv \<Rightarrow> bool" where
  "addressed d ino blocks u d' \<equiv> block_inv X d' \<and> redirected X (addresses_to_modify ino blocks) d d' \<and> blocks_kept X d d'
     \<and> (blocks \<noteq> [] \<longrightarrow> size_grown X ino (max_file_size (cfg_block_size (tx_fs_config X)) blocks) d d')
     \<and> (\<forall>h. hash_ok X h \<longrightarrow> ref_count X d' h = ref_count X d h - replaced X d (map fst (addresses_to_modify ino blocks)) h)"

abbreviation interrupted :: "kv \<Rightarrow> (block_address \<times> tifs_hash option) list \<Rightarrow> kv \<Rightarrow> bool" where
  "interrupted d addrs d' \<equiv> block_inv X d' \<and> (redirected X [] d d' \<or> redirected X addrs d d')"

end

section \<open>The contract of the hash file system\<close>

text \<open>
  What the file operations rely on is stated over any state with a committed content, since the
  hash file system they call may be the one on TiKV or a client of it: \<open>triple sok sdb m Q E d\<close>
  is \<open>dwp\<close> for such a state.
\<close>

definition triple ::
  "('s \<Rightarrow> bool) \<Rightarrow> ('s \<Rightarrow> kv) \<Rightarrow> ('s, 'e, 'a) comp \<Rightarrow> ('a \<Rightarrow> kv \<Rightarrow> bool) \<Rightarrow> (kv \<Rightarrow> bool) \<Rightarrow> kv \<Rightarrow> bool" where
  "triple sok sdb m Q E d \<longleftrightarrow> (\<forall>s r s'. sok s \<longrightarrow> sdb s = d \<longrightarrow> m s = (r, s') \<longrightarrow>
     sok s' \<and> (case r of Inr x \<Rightarrow> Q x (sdb s') | Inl e \<Rightarrow> E (sdb s')))"

lemma tripleI:
  assumes "\<And>s r s'. sok s \<Longrightarrow> sdb s = d \<Longrightarrow> m s = (r, s') \<Longrightarrow>
     sok s' \<and> (case r of Inr x \<Rightarrow> Q x (sdb s') | Inl e \<Rightarrow> E (sdb s'))"
  shows "triple sok sdb m Q E d"
  using assms unfolding triple_def by blast

lemma tripleD:
  assumes "triple sok sdb m Q E (sdb s)" and "sok s" and "m s = (r, s')"
  shows "sok s' \<and> (case r of Inr x \<Rightarrow> Q x (sdb s') | Inl e \<Rightarrow> E (sdb s'))"
  using assms unfolding triple_def by blast

lemma triple_weaken:
  assumes "triple sok sdb m Q E d" and "\<And>x d'. Q x d' \<Longrightarrow> Q' x d'" and "\<And>d'. E d' \<Longrightarrow> E' d'"
  shows "triple sok sdb m Q' E' d"
proof (rule tripleI)
  fix s r s' assume "sok s" "sdb s = d" "m s = (r, s')"
  with tripleD [of sok sdb m Q E s r s'] assms(1) assms(2,3)
  show "sok s' \<and> (case r of Inr x \<Rightarrow> Q' x (sdb s') | Inl e \<Rightarrow> E' (sdb s'))" by (cases r) auto
qed

lemma triple_ret: "Q x d \<Longrightarrow> triple sok sdb (ret x) Q E d"
  by (rule tripleI) auto

text \<open>
  A transaction on file data has a cache, an order of its hash maps, and the configuration of the
  file system. The contract has a clause for every operation that reading and writing of file data call. Each
  may fail; only writing to addresses may then have changed anything.
\<close>

locale file_txn = fs_store T ok db view X + block_cache_laws "txn_block_cache Y" holds
  for T :: "'w tikv" and ok :: "'w \<Rightarrow> bool" and db :: "'w \<Rightarrow> kv" and view :: "'w \<Rightarrow> kv" and X :: "'w txn_with_config"
    and Y :: "('s, 'c) txn" and holds :: "'c \<Rightarrow> (tifs_hash \<times> bytes) set" and known :: "bytes set" +
  assumes txn_cfg: "txn_fs_config Y = tx_fs_config X" "txn_block_size Y = cfg_block_size (tx_fs_config X)"
    and txn_dig: "txn_digests Y = ext_digests (tx_ext X)"
    and order: "order_ok (txn_order Y)"

locale file_contract = file_txn T ok db view X Y holds known
  for T :: "'w tikv" and ok :: "'w \<Rightarrow> bool" and db :: "'w \<Rightarrow> kv" and view :: "'w \<Rightarrow> kv" and X :: "'w txn_with_config"
    and Y :: "('s, 'c) txn" and holds :: "'c \<Rightarrow> (tifs_hash \<times> bytes) set" and known :: "bytes set" +
  fixes sok :: "'s \<Rightarrow> bool" and sdb :: "'s \<Rightarrow> kv"
  assumes block_ranges_any:
      "triple sok sdb (if_inode_read_block_hashes_block_range (txn_hash_fs Y) ino rs) (maps_read d) (\<lambda>d'. d' = d) d"
    and block_ranges: "\<lbrakk>store_ok X d; \<forall>x. in_ranges (raw_ranges rs) x \<longrightarrow> unat x + 10241 < 2 ^ 64\<rbrakk> \<Longrightarrow>
      triple sok sdb (if_inode_read_block_hashes_block_range (txn_hash_fs Y) ino rs) (ranges_read d ino rs) (\<lambda>d'. d' = d) d"
    and data_range: "\<lbrakk>store_ok X d; unat start + unat n < 2 ^ 64;
        (unat start + unat n) div unat (cfg_block_size (tx_fs_config X)) + 10241 < 2 ^ 64\<rbrakk> \<Longrightarrow>
      triple sok sdb (if_inode_read_block_hashes_data_range (txn_hash_fs Y) ino start n) (data_range_read d ino start n) (\<lambda>d'. d' = d) d"
    and get_blocks: "\<forall>h \<in> set hs. hash_ok X h \<Longrightarrow>
      triple sok sdb (if_hb_get_block_data_by_hashes (txn_hash_fs Y) hs) (blocks_read d hs) (\<lambda>d'. d' = d) d"
    and increment: "\<forall>(h, c) \<in> set incs. hash_ok X h \<Longrightarrow>
      triple sok sdb (if_hb_increment_reference_count (txn_hash_fs Y) incs) (counters_read d incs) (\<lambda>d'. d' = d) d"
    and upload: "triple sok sdb (if_hb_upload_new_block (txn_hash_fs Y) ups) (\<lambda>_ d'. d' = with_blocks X ups d) (\<lambda>d'. d' = d) d"
    and write_addresses: "addressable d (addresses_to_modify ino blocks) \<Longrightarrow>
      triple sok sdb (if_inode_write_hash_block_to_addresses (txn_hash_fs Y) env ino blocks)
        (addressed d ino blocks) (interrupted d (addresses_to_modify ino blocks)) d"

section \<open>The hash file system on TiKV\<close>

locale file_store = file_txn T ok db view X Y holds known
  for T :: "'w tikv" and ok :: "'w \<Rightarrow> bool" and db :: "'w \<Rightarrow> kv" and view :: "'w \<Rightarrow> kv" and X :: "'w txn_with_config"
    and Y :: "('w, 'c) txn" and holds :: "'c \<Rightarrow> (tifs_hash \<times> bytes) set" and known :: "bytes set" +
  fixes snap :: "('w, fs_error, 'w tikv) comp"
  assumes iface: "txn_hash_fs Y = tikv_hash_fs_interface (hfs X) snap"

context fs_store
begin

lemma dwp_triple: "dwp m Q (\<lambda>_. E) d \<Longrightarrow> triple ok db m Q E d"
  by (simp add: dwp_def triple_def)

lemma get_blocks_triple:
  "\<forall>h \<in> set hs. hash_ok X h \<Longrightarrow> triple ok db (hb_get_block_data_by_hashes (hfs X) hs) (blocks_read d hs) (\<lambda>d'. d' = d) d"
  by (rule dwp_triple, rule get_blocks_dwp) simp_all

lemma increment_triple:
  "\<forall>(h, c) \<in> set incs. hash_ok X h \<Longrightarrow> triple ok db (hb_increment_reference_count (hfs X) incs) (counters_read d incs) (\<lambda>d'. d' = d) d"
  by (rule dwp_triple, rule increment_dwp) simp_all

lemma upload_triple:
  "triple ok db (hb_upload_new_block (hfs X) ups) (\<lambda>_ d'. d' = with_blocks X ups d) (\<lambda>d'. d' = d) d"
  by (rule dwp_triple, rule upload_dwp) simp_all

lemma write_addresses_triple:
  assumes "addressable d (addresses_to_modify ino blocks)"
  shows "triple ok db (inode_write_hash_block_to_addresses_update_ino_size_and_cleaning_previous_block_hashes (hfs X) now cid ino blocks)
    (addressed d ino blocks) (interrupted d (addresses_to_modify ino blocks)) d"
  by (rule triple_weaken [OF dwp_triple [OF write_addresses_dwp]]) (use assms in blast)+

lemmas tikv_triples = block_ranges_any_dwp [THEN dwp_triple] block_ranges_dwp [THEN dwp_triple] read_range_dwp [THEN dwp_triple]
  get_blocks_triple increment_triple upload_triple write_addresses_triple

end

sublocale file_store \<subseteq> file_contract T ok db view X Y holds known ok db
  by (intro file_contract.intro file_contract_axioms.intro file_txn_axioms, unfold iface tikv_hash_fs_interface_def hash_fs_interface.simps)
    (rule tikv_triples | assumption)+

context file_store
begin

lemma contract: "file_contract T ok db view X Y holds ok db"
  by (rule file_contract_axioms)

end

definition sample_file_txn :: "(mem_store, (tifs_hash \<times> bytes) list) txn" where
  "sample_file_txn = begin_on_hash_fs_interface (tikv_hash_fs_interface (hfs sample_txn) (fail (UnknownError ''''))) sample_config
     (list_cache 3) insertion_order (ext_digests (tx_ext sample_txn))"

interpretation memfile: file_store mem_tikv mem_ok mem_content "\<lambda>s. map_of (mem_view s)" sample_txn sample_file_txn set known
  "fail (UnknownError '''')"
  for known
proof -
  have eq: "txn_block_cache sample_file_txn = list_cache 3"
    by (simp add: sample_file_txn_def begin_on_hash_fs_interface_def)
  have cache: "block_cache_laws (txn_block_cache sample_file_txn) set"
    unfolding eq by (rule list_cache.block_cache_laws_axioms)
  show "file_store mem_tikv mem_ok mem_content (\<lambda>s. map_of (mem_view s)) sample_txn sample_file_txn set (fail (UnknownError ''''))"
    by (intro file_store.intro file_txn.intro file_txn_axioms.intro file_store_axioms.intro memfs.fs_store_axioms cache)
      (simp_all add: sample_file_txn_def begin_on_hash_fs_interface_def insertion_order_ok sample_txn_def)
qed

section \<open>Through the cache\<close>

context file_contract
begin

lemma order_set [simp]:
  "set (mo_hashes (txn_order Y) hs) = set hs" "set (mo_blocks (txn_order Y) bs) = set bs"
  using order unfolding order_ok_def by (metis set_mset_mset)+

text \<open>
  \<open>twp m Q E d\<close>: started with committed content \<open>d\<close> and a cache whose entries have the hash
  they are stored under, \<open>m\<close> keeps the cache so and ends with a result and a content in \<open>Q\<close>
  or with an error and a content in \<open>E\<close>.
\<close>

abbreviation cache_sound :: "'c \<Rightarrow> bool" where
  "cache_sound c \<equiv> cache_ok X holds known c"

definition twp :: "('s, 'c, 'a) txn_comp \<Rightarrow> ('a \<Rightarrow> kv \<Rightarrow> bool) \<Rightarrow> (kv \<Rightarrow> bool) \<Rightarrow> kv \<Rightarrow> bool" where
  "twp m Q E d \<longleftrightarrow> (\<forall>w c r w' c'. sok w \<longrightarrow> cache_sound c \<longrightarrow> sdb w = d \<longrightarrow> m (w, c) = (r, (w', c')) \<longrightarrow>
     sok w' \<and> cache_sound c' \<and> (case r of Inr x \<Rightarrow> Q x (sdb w') | Inl e \<Rightarrow> E (sdb w')))"

lemma twpI:
  assumes "\<And>w c r w' c'. sok w \<Longrightarrow> cache_sound c \<Longrightarrow> sdb w = d \<Longrightarrow> m (w, c) = (r, (w', c')) \<Longrightarrow>
     sok w' \<and> cache_sound c' \<and> (case r of Inr x \<Rightarrow> Q x (sdb w') | Inl e \<Rightarrow> E (sdb w'))"
  shows "twp m Q E d"
  using assms unfolding twp_def by blast

lemma twpD:
  assumes "twp m Q E (sdb w)" and "sok w" and "cache_sound c" and "m (w, c) = (r, (w', c'))"
  shows "sok w' \<and> cache_sound c' \<and> (case r of Inr x \<Rightarrow> Q x (sdb w') | Inl e \<Rightarrow> E (sdb w'))"
  using assms unfolding twp_def by blast

lemma twp_ret: "Q x d \<Longrightarrow> twp (ret x) Q E d"
  by (rule twpI) auto

lemma twp_of_result: "(case r of Inr x \<Rightarrow> Q x d | Inl e \<Rightarrow> E d) \<Longrightarrow> twp (of_result r) Q E d"
  by (rule twpI) (auto split: sum.splits)

lemma twp_and_then:
  assumes "twp m (\<lambda>x. twp (k x) Q E) E d"
  shows "twp (and_then m k) Q E d"
proof (rule twpI)
  fix w c r w' c' assume w: "sok w" "cache_sound c" "sdb w = d" and run: "and_then m k (w, c) = (r, (w', c'))"
  from run show "sok w' \<and> cache_sound c' \<and> (case r of Inr x \<Rightarrow> Q x (sdb w') | Inl e \<Rightarrow> E (sdb w'))"
  proof (cases rule: and_then_cases)
    case (1 e)
    with twpD [of m "\<lambda>x. twp (k x) Q E" E w c] assms w show ?thesis by simp
  next
    case (2 x wc)
    obtain w1 c1 where wc: "wc = (w1, c1)" by (cases wc)
    have "sok w1 \<and> cache_sound c1 \<and> twp (k x) Q E (sdb w1)"
      using twpD [of m "\<lambda>x. twp (k x) Q E" E w c "Inr x" w1 c1] assms w 2(1) wc by simp
    with twpD [of "k x" Q E w1 c1 r w' c'] 2(2) wc show ?thesis by simp
  qed
qed

lemma twp_weaken:
  assumes "twp m Q E d" and "\<And>x d'. Q x d' \<Longrightarrow> Q' x d'" and "\<And>d'. E d' \<Longrightarrow> E' d'"
  shows "twp m Q' E' d"
proof (rule twpI)
  fix w c r w' c' assume "sok w" "cache_sound c" "sdb w = d" "m (w, c) = (r, (w', c'))"
  with twpD [of m Q E w c r w' c'] assms(1) assms(2,3)
  show "sok w' \<and> cache_sound c' \<and> (case r of Inr x \<Rightarrow> Q' x (sdb w') | Inl e \<Rightarrow> E' (sdb w'))" by (cases r) auto
qed

lemma twp_then_some:
  assumes "twp m (\<lambda>r. case r of None \<Rightarrow> Q None | Some x \<Rightarrow> twp (k x) Q E) E d"
  shows "twp (then_some m k) Q E d"
  unfolding then_some_def
  by (rule twp_and_then, rule twp_weaken [OF assms]) (auto split: option.splits intro: twp_ret)

lemma twp_fs_call:
  assumes "triple sok sdb m Q E d"
  shows "twp (fs_call m) Q E d"
proof (rule twpI)
  fix w c r w' c' assume w: "sok w" "cache_sound c" "sdb w = d" and run: "fs_call m (w, c) = (r, (w', c'))"
  obtain r1 w1 where m: "m w = (r1, w1)" by (cases "m w")
  with run have "c' = c" "w' = w1" "r = (case r1 of Inl e \<Rightarrow> Inl (fs_error_of_hash e) | Inr x \<Rightarrow> Inr x)"
    by (auto simp: fs_call_def on_world_def map_err_apply split: sum.splits)
  with tripleD [of sok sdb m Q E w r1 w1] assms w m
  show "sok w' \<and> cache_sound c' \<and> (case r of Inr x \<Rightarrow> Q x (sdb w') | Inl e \<Rightarrow> E (sdb w'))" by (auto split: sum.splits)
qed

lemma twp_cache_all:
  assumes "\<forall>(h, b) \<in> set blocks. block_good X known h b" and "Q () d"
  shows "twp (cache_all Y blocks) Q E d"
proof (rule twpI)
  fix w c r w' c' assume w: "sok w" "cache_sound c" "sdb w = d" and run: "cache_all Y blocks (w, c) = (r, (w', c'))"
  then have "r = Inr ()" "w' = w" "c' = fold (\<lambda>(h, d). bc_insert (txn_block_cache Y) h d) blocks c"
    by (simp_all add: cache_all_def on_cache_def)
  with inserted_all [of blocks c] assms w
  show "sok w' \<and> cache_sound c' \<and> (case r of Inr x \<Rightarrow> Q x (sdb w') | Inl e \<Rightarrow> E (sdb w'))"
    by (auto simp: cache_ok_def)
qed

text \<open>Looking up hashes in the cache.\<close>

lemma lookup_cached_twp:
  assumes "\<And>result' uncached'. \<lbrakk>\<forall>h b. map_of result' h = Some b \<longrightarrow> map_of result h = Some b \<or> h \<in> set hs \<and> block_good X known h b;
      fst ` set result' \<union> set uncached' = set hs \<union> fst ` set result \<union> set uncached;
      set uncached' \<subseteq> set hs \<union> set uncached\<rbrakk> \<Longrightarrow> Q (result', uncached') d"
  shows "twp (lookup_cached Y hs result uncached) Q E d"
  using assms
proof (induction hs arbitrary: result uncached)
  case Nil
  show ?case unfolding lookup_cached.simps by (intro twp_ret Nil) auto
next
  case (Cons h hs)
  have get: "twp (on_cache (bc_get (txn_block_cache Y) h)) (\<lambda>r d'. d' = d \<and> (\<forall>b. r = Some b \<longrightarrow> block_good X known h b)) E d"
  proof (rule twpI)
    fix w c r w' c' assume w: "sok w" "cache_sound c" "sdb w = d"
      and run: "on_cache (bc_get (txn_block_cache Y) h) (w, c) = (r, (w', c'))"
    obtain x c1 where x: "bc_get (txn_block_cache Y) h c = (x, c1)" by (cases "bc_get (txn_block_cache Y) h c")
    with run have "r = Inr x" "w' = w" "c' = c1" by (simp_all add: on_cache_def)
    with get_law [OF x] w
    show "sok w' \<and> cache_sound c' \<and> (case r of Inr r \<Rightarrow> sdb w' = d \<and> (\<forall>b. r = Some b \<longrightarrow> block_good X known h b) | Inl e \<Rightarrow> E (sdb w'))"
      by (auto simp: cache_ok_def)
  qed
  show ?case
    unfolding lookup_cached.simps
  proof (rule twp_and_then, rule twp_weaken [OF get])
    fix found d' assume found: "d' = d \<and> (\<forall>b. found = Some b \<longrightarrow> block_good X known h b)"
    show "twp (case found of Some cached \<Rightarrow> lookup_cached Y hs (map_insert h cached result) uncached
        | None \<Rightarrow> lookup_cached Y hs result (List.insert h uncached)) Q E d'"
    proof (cases found)
      case None
      have "twp (lookup_cached Y hs result (List.insert h uncached)) Q E d"
        by (rule Cons.IH, rule Cons.prems) auto
      with None found show ?thesis by simp
    next
      case (Some b)
      then have "block_good X known h b" using found by simp
      then have "twp (lookup_cached Y hs (map_insert h b result) uncached) Q E d"
        using map_insert_keys [of h b result]
        by (intro Cons.IH Cons.prems) (auto simp: map_of_map_insert split: if_splits)
      with Some found show ?thesis by simp
    qed
  qed
qed

lemma validate_blocks_sound: "\<forall>(h, b) \<in> set bs. calc b = h \<Longrightarrow> validate_blocks calc bs = Inr ()"
  by (induction calc bs rule: validate_blocks.induct) auto

text \<open>Through the cache: every block that is stored is found, and what is found has its hash.\<close>

lemma get_blocks_cached_twp:
  assumes hs: "\<forall>h \<in> set hs. hash_ok X h" and sound: "blocks_sound X d" and stored: "stored_known X known d"
    and post: "\<And>r. \<lbrakk>\<forall>h b. map_of r h = Some b \<longrightarrow> h \<in> set hs \<and> block_good X known h b;
      \<forall>h \<in> set hs. block_data_of X d h \<noteq> None \<longrightarrow> map_of r h \<noteq> None\<rbrakk> \<Longrightarrow> Q r d"
    and err: "E d"
  shows "twp (hb_get_block_data_by_hashes_cached Y hs) Q E d"
  unfolding hb_get_block_data_by_hashes_cached_def
proof (rule twp_and_then, rule lookup_cached_twp)
  fix result uncached
  assume res: "\<forall>h b. map_of result h = Some b \<longrightarrow> map_of [] h = Some b \<or> h \<in> set (mo_hashes (txn_order Y) hs) \<and> block_good X known h b"
    and all: "fst ` set result \<union> set uncached = set (mo_hashes (txn_order Y) hs) \<union> fst ` set [] \<union> set []"
    and unc: "set uncached \<subseteq> set (mo_hashes (txn_order Y) hs) \<union> set []"
  have cover: "map_of result h \<noteq> None" if "h \<in> set hs" "h \<notin> set uncached" for h
    using all that by (auto simp: map_of_eq_None_iff image_Un)
  show "twp (case (result, uncached) of (result, uncached_block_hashes) \<Rightarrow>
      if length uncached_block_hashes = 0 then ret result
      else and_then (fs_call (if_hb_get_block_data_by_hashes (txn_hash_fs Y) uncached_block_hashes)) (\<lambda>uncached_blocks.
        and_then (cache_all Y (mo_blocks (txn_order Y) uncached_blocks)) (\<lambda>_.
        and_then (if cfg_validate_read_hashes (txn_fs_config Y)
          then of_result (validate_blocks (txn_calc Y) (mo_blocks (txn_order Y) uncached_blocks)) else ret ()) (\<lambda>_.
          ret (fold (\<lambda>(h, d). map_insert h d) uncached_blocks result))))) Q E d"
  proof (cases "uncached = []")
    case True
    then have "Q result d" using res cover by (intro post) auto
    then have "twp (ret result) Q E d" by (rule twp_ret)
    then show ?thesis using True by simp
  next
    case False
    have h_ok: "\<forall>h \<in> set uncached. hash_ok X h" using unc hs by auto
    have step: "triple sok sdb (if_hb_get_block_data_by_hashes (txn_hash_fs Y) uncached) (\<lambda>blocks. twp (and_then (cache_all Y (mo_blocks (txn_order Y) blocks)) (\<lambda>_.
        and_then (if cfg_validate_read_hashes (txn_fs_config Y)
          then of_result (validate_blocks (txn_calc Y) (mo_blocks (txn_order Y) blocks)) else ret ()) (\<lambda>_.
          ret (fold (\<lambda>(h, d). map_insert h d) blocks result)))) Q E) E d"
    proof (rule triple_weaken [OF get_blocks [OF h_ok]])
      show "E d'" if "d' = d" for d' using err that by simp
      fix m d' assume "d' = d \<and> distinct (map fst m) \<and> (\<forall>h. map_of m h = (if h \<in> set uncached then block_data_of X d h else None))"
      then have d': "d' = d" and dist: "distinct (map fst m)" and m: "\<forall>h. map_of m h = (if h \<in> set uncached then block_data_of X d h else None)" by simp_all
      have found: "calc_hash X b = h" "b \<in> known" "h \<in> set hs" if "map_of m h = Some b" for h b
        using that m h_ok sound stored unc by (auto simp: blocks_sound_def stored_known_def split: if_splits)
      have all': "\<forall>(h, b) \<in> set (mo_blocks (txn_order Y) m). block_good X known h b" using found map_of_eq_Some_iff [OF dist] by auto
      then have all: "\<forall>(h, b) \<in> set (mo_blocks (txn_order Y) m). calc_hash X b = h" by blast
      have "distinct (map fst (rev m))" using dist by (simp add: rev_map [symmetric])
      then have rev: "map_of (rev m) = map_of m" using dist by (intro map_of_inject_set [THEN iffD2]) simp_all
      have merged: "map_of (fold (\<lambda>(h, d). map_insert h d) m result) h = (case map_of m h of Some b \<Rightarrow> Some b | None \<Rightarrow> map_of result h)" for h
        by (simp add: map_of_fold_map_insert rev map_add_def)
      have "block_good X known h b \<and> h \<in> set hs" if "map_of (fold (\<lambda>(h, d). map_insert h d) m result) h = Some b" for h b
        using that res found [of h b] by (auto simp: merged split: option.splits)
      then have "Q (fold (\<lambda>(h, d). map_insert h d) m result) d"
        by (intro post) (use cover m in \<open>auto simp: merged split: option.splits if_splits\<close>)
      moreover have calc: "txn_calc Y = calc_hash X" using txn_cfg txn_dig by simp
      ultimately show "twp (and_then (cache_all Y (mo_blocks (txn_order Y) m)) (\<lambda>_.
        and_then (if cfg_validate_read_hashes (txn_fs_config Y)
          then of_result (validate_blocks (txn_calc Y) (mo_blocks (txn_order Y) m)) else ret ()) (\<lambda>_.
          ret (fold (\<lambda>(h, d). map_insert h d) m result)))) Q E d'"
        unfolding d' calc validate_blocks_sound [OF all]
        by (intro twp_and_then twp_cache_all [OF all']) (cases "cfg_validate_read_hashes (txn_fs_config Y)"; simp only: if_True if_False; intro twp_of_result twp_ret, simp only: sum.case; intro twp_ret)
    qed
    show ?thesis
      using False by simp (rule twp_and_then, rule twp_fs_call, rule step)
  qed
qed

end

end
