(* ===== verification/File_Write.thy ===== *)
theory File_Write
  imports Txn_Facts
begin

text \<open>
  Writing data: the jobs are cut into blocks, partial blocks are completed with what was there,
  the new blocks are grouped by hash, and the groups are written. The first part shows that the
  invariant of the block store survives every write, complete or interrupted; the second that a
  write changes exactly the bytes it is given, and that they can be read back.
\<close>

section \<open>Chunks and groups\<close>

lemma chunks_simps [simp]:
  "chunks n [] = []" "chunks 0 xs = []"
  "0 < n \<Longrightarrow> xs \<noteq> [] \<Longrightarrow> chunks n xs = take n xs # chunks n (drop n xs)"
  by (simp_all add: chunks.simps)

lemma length_chunks_le: "length (chunks n xs) \<le> length xs"
proof (induction n xs rule: chunks.induct)
  case (1 n xs)
  show ?case
  proof (cases "n = 0 \<or> xs = []")
    case False
    then have "Suc (length (chunks n (drop n xs))) \<le> Suc (length (drop n xs))" using 1 by simp
    also have "\<dots> \<le> length xs" using False by (cases xs; cases n) auto
    finally show ?thesis using False by simp
  qed auto
qed

text \<open>The chunks of a list that is a whole number of them.\<close>

lemma chunks_whole: "0 < n \<Longrightarrow> length xs = m * n \<Longrightarrow> chunks n xs = map (\<lambda>k. take n (drop (k * n) xs)) [0..<m]"
proof (induction m arbitrary: xs)
  case (Suc m)
  have "xs \<noteq> []" using Suc.prems by auto
  then have "chunks n xs = take n xs # map (\<lambda>k. take n (drop (k * n) (drop n xs))) [0..<m]"
    using Suc.prems Suc.IH [of "drop n xs"] by simp
  also have "map (\<lambda>k. take n (drop (k * n) (drop n xs))) [0..<m] = map (\<lambda>k. take n (drop (k * n) xs)) (map Suc [0..<m])"
    by (simp add: add.commute)
  finally show ?case by (simp add: map_Suc_upt upt_conv_Cons del: upt_Suc)
qed simp

text \<open>The pairs of index and hash behind the groups.\<close>

definition flatten :: "('h \<times> 'i list) list \<Rightarrow> ('i \<times> 'h) list" where
  "flatten mm = concat (map (\<lambda>(h, ids). map (\<lambda>i. (i, h)) ids) mm)"

lemma flatten_simps [simp]: "flatten [] = []" "flatten ((h, ids) # mm) = map (\<lambda>i. (i, h)) ids @ flatten mm"
  by (simp_all add: flatten_def)

lemma flatten_fst: "map fst (flatten mm) = concat (map snd mm)"
  by (induction mm) (auto simp: comp_def)

lemma flatten_perm: "mset mm = mset mm' \<Longrightarrow> mset (flatten mm) = mset (flatten mm')"
proof -
  have "mset (flatten mm) = (\<Sum>p\<in>#mset mm. mset (map (\<lambda>i. (i, fst p)) (snd p)))" for mm :: "('a \<times> 'b list) list"
    by (induction mm) auto
  then show "mset mm = mset mm' \<Longrightarrow> ?thesis" by simp
qed

lemma multimap_insert_Cons:
  "multimap_insert h i ((h', ids) # mm) = (if h = h' then (h, ids @ [i]) # mm else (h', ids) # multimap_insert h i mm)"
  by (simp add: multimap_insert_def)

lemma flatten_multimap_insert: "mset (flatten (multimap_insert h i mm)) = add_mset (i, h) (mset (flatten mm))"
proof (induction mm)
  case (Cons p mm)
  then show ?case by (cases p) (simp add: multimap_insert_Cons)
qed (simp add: multimap_insert_def)

lemma group_by_hash_flatten: "mset (flatten (group_by_hash idx)) = mset idx"
proof -
  have "mset (flatten (fold (\<lambda>(i, h). multimap_insert h i) idx mm)) = mset idx + mset (flatten mm)" for mm
    by (induction idx arbitrary: mm) (auto simp: flatten_multimap_insert)
  then show ?thesis by (simp add: group_by_hash_def)
qed

lemma group_by_hash_distinct: "distinct (map fst (group_by_hash idx))"
  unfolding group_by_hash_def multimap_insert_def
  by (rule fold_invariant [where P = "\<lambda>xs. distinct (map fst xs)" and Q = "\<lambda>_. True"])
    (auto intro: distinct_map_insert simp del: map_map)

lemma group_addresses_flatten: "group_addresses ino mm = map (\<lambda>(i, h). (\<lparr>ba_ino = ino, ba_index = i\<rparr>, Some h)) (flatten mm)"
  by (induction mm) (auto simp: group_addresses_def)

section \<open>New blocks\<close>

text \<open>Every new block is stored under its hash, and every new hash has its block.\<close>

definition published :: "(bytes \<Rightarrow> tifs_hash) \<Rightarrow> new_blocks \<Rightarrow> bool" where
  "published calc out \<longleftrightarrow> distinct (map fst (fst out)) \<and> distinct (map fst (snd out))
     \<and> (\<forall>h b. map_of (fst out) h = Some b \<longrightarrow> calc b = h)
     \<and> (\<forall>i h. map_of (snd out) i = Some h \<longrightarrow> map_of (fst out) h \<noteq> None)"

lemma published_insert:
  assumes "published calc out" and "calc b = h"
  shows "published calc (map_insert h b (fst out), map_insert i h (snd out))"
    and "published calc (map_try_insert h b (fst out), map_insert i h (snd out))"
  using assms by (auto simp: published_def map_of_map_insert map_of_map_try_insert distinct_map_insert
      distinct_map_try_insert split: if_splits option.splits)

lemma length_map_insert: "length (map_insert k v xs) \<le> Suc (length xs)"
  by (induction k v xs rule: map_insert.induct) auto

lemma published_modify:
  "published calc out \<Longrightarrow> published calc (get_and_modify_block_and_publish_hash calc pre self out)"
  by (simp add: get_and_modify_block_and_publish_hash_def Let_def published_insert)

lemma length_modify:
  "length (snd (get_and_modify_block_and_publish_hash calc pre self out)) \<le> length (snd out) + length (bid_data (uib_data self))"
  by (cases "bid_data (uib_data self)")
    (auto simp: get_and_modify_block_and_publish_hash_def Let_def intro!: order_trans [OF length_map_insert])

lemma published_mid: "published calc out \<Longrightarrow> published calc (publish_mid calc n bs out)"
  unfolding publish_mid_def
  by (rule fold_invariant [where P = "published calc" and Q = "\<lambda>_. True"])
    (auto simp: Let_def split: prod.splits dest: published_insert(1))

lemma length_mid: "length (snd (publish_mid calc n bs out)) \<le> length (snd out) + length (bid_data (bsw_mid_data bs))"
proof -
  have "length (snd (fold (\<lambda>(index, chunk) (nb, ix). let hash = calc chunk in
        (map_insert hash chunk nb, map_insert (BlockIndex (block_raw (bid_block_index (bsw_mid_data bs)) + of_nat index)) hash ix))
        es out)) \<le> length (snd out) + length es" for es
  proof (induction es arbitrary: out)
    case (Cons p es)
    obtain index chunk nb ix where "p = (index, chunk)" "out = (nb, ix)" by (cases p; cases out)
    with Cons.IH length_map_insert show ?case by (fastforce simp: Let_def intro: order_trans)
  qed simp
  from order_trans [OF this [of "List.enumerate 0 (chunks n (bid_data (bsw_mid_data bs)))"]]
  show ?thesis using length_chunks_le [of n "bid_data (bsw_mid_data bs)"] by (simp add: publish_mid_def)
qed

lemma multimap_insert_nonempty: "\<forall>p \<in> set mm. snd p \<noteq> [] \<Longrightarrow> \<forall>p \<in> set (multimap_insert h i mm). snd p \<noteq> []"
proof (induction mm)
  case (Cons p mm)
  then show ?case by (cases p) (auto simp: multimap_insert_Cons)
qed (simp add: multimap_insert_def)

lemma group_by_hash_nonempty: "\<forall>p \<in> set (group_by_hash idx). snd p \<noteq> []"
  unfolding group_by_hash_def case_prod_unfold
  by (rule fold_invariant [where P = "\<lambda>mm. \<forall>p \<in> set mm. snd p \<noteq> []" and Q = "\<lambda>_. True"])
    (rule TrueI | simp | erule multimap_insert_nonempty)+

text \<open>The handlers of partial blocks, and what they ask for.\<close>

lemma make_data_handlers_requests:
  "set (snd (make_data_handlers prev bs_list requests)) \<subseteq> set requests \<union> ran prev"
proof (induction bs_list arbitrary: requests)
  case (Cons bs rest)
  have step: "set (snd (get_and_add_original_block_hash d pos prev rq)) \<subseteq> set rq \<union> ran prev" for d pos rq
    by (auto simp: get_and_add_original_block_hash_def Let_def ran_def split: option.splits if_splits)
  let ?r1 = "snd (get_and_add_original_block_hash (bsw_first_data bs) (bsw_first_data_start_position bs) prev requests)"
  let ?r2 = "snd (get_and_add_original_block_hash (bsw_last_data bs) 0 prev ?r1)"
  have "set (snd (make_data_handlers prev rest ?r2)) \<subseteq> set ?r2 \<union> ran prev"
    by (rule Cons.IH)
  then have "set (snd (make_data_handlers prev rest ?r2)) \<subseteq> set requests \<union> ran prev" using step by blast
  then show ?case by (simp add: split_beta Let_def)
qed simp

lemma make_data_handlers_data:
  "map (\<lambda>(f, l). (uib_data f, uib_data l)) (fst (make_data_handlers prev bs_list requests))
   = map (\<lambda>bs. (bsw_first_data bs, bsw_last_data bs)) bs_list"
  by (induction prev bs_list requests rule: make_data_handlers.induct)
    (simp_all add: get_and_add_original_block_hash_def Let_def split_beta)

lemma published_irregular: "published calc out \<Longrightarrow> published calc (publish_irregular calc pre hs out)"
  unfolding publish_irregular_def
  by (rule fold_invariant [where P = "published calc" and Q = "\<lambda>_. True"]) (auto intro: published_modify)

lemma length_irregular:
  "length (snd (publish_irregular calc pre hs out)) \<le>
   length (snd out) + sum_list (map (\<lambda>(f, l). length (bid_data (uib_data f)) + length (bid_data (uib_data l))) hs)"
proof (induction hs arbitrary: out)
  case (Cons p hs)
  obtain f l where p: "p = (f, l)" by (cases p)
  let ?o1 = "get_and_modify_block_and_publish_hash calc pre f out"
  let ?o2 = "get_and_modify_block_and_publish_hash calc pre l ?o1"
  have "publish_irregular calc pre (p # hs) out = publish_irregular calc pre hs ?o2" by (simp add: publish_irregular_def p)
  with Cons.IH [of ?o2] length_modify [of calc pre l ?o1] length_modify [of calc pre f out] show ?case by (simp add: p)
qed (simp add: publish_irregular_def)

lemma published_mids: "published calc out \<Longrightarrow> published calc (fold (publish_mid calc n) bs_list out)"
  by (rule fold_invariant [where P = "published calc" and Q = "\<lambda>_. True"]) (auto intro: published_mid)

lemma length_mids:
  "length (snd (fold (publish_mid calc n) bs_list out)) \<le> length (snd out) + sum_list (map (\<lambda>bs. length (bid_data (bsw_mid_data bs))) bs_list)"
proof (induction bs_list arbitrary: out)
  case (Cons bs bs_list)
  from Cons.IH [of "publish_mid calc n bs out"] length_mid [of calc n bs out] show ?case by simp
qed simp

lemma split_pieces:
  "bid_data (bsw_first_data (get_irregular_start_and_rest b s data)) @ bid_data (bsw_mid_data (get_irregular_start_and_rest b s data))
     @ bid_data (bsw_last_data (get_irregular_start_and_rest b s data)) = data"
proof -
  have "bid_data (bsw_first_data (split_parts b s data first i rest)) @ bid_data (bsw_mid_data (split_parts b s data first i rest))
      @ bid_data (bsw_last_data (split_parts b s data first i rest)) = first @ rest" for first i rest
  proof (cases "drop (length rest div unat b * unat b) rest = []")
    case True
    then have "take (length rest div unat b * unat b) rest = rest" by (metis append_Nil2 append_take_drop_id)
    with True show ?thesis by (simp add: split_parts_def Let_def)
  next
    case False
    then show ?thesis by (simp add: split_parts_def Let_def)
  qed
  then show ?thesis by (simp add: get_irregular_start_and_rest_parts Let_def)
qed

text \<open>All new blocks of a list of jobs.\<close>

definition all_new_blocks ::
  "(bytes \<Rightarrow> tifs_hash) \<Rightarrow> nat \<Rightarrow> (tifs_hash \<rightharpoonup> bytes) \<Rightarrow> (block_index \<rightharpoonup> tifs_hash) \<Rightarrow> block_splitter_write list \<Rightarrow> new_blocks" where
  "all_new_blocks calc n pre prev bs_list =
     fold (publish_mid calc n) bs_list (publish_irregular calc pre (fst (make_data_handlers prev bs_list [])) ([], []))"

lemma all_new_blocks_published: "published calc (all_new_blocks calc n pre prev bs_list)"
  unfolding all_new_blocks_def by (intro published_mids published_irregular) (simp add: published_def)

lemma all_new_blocks_length:
  assumes "\<forall>bs \<in> set bs_list. \<exists>s data. bs = get_irregular_start_and_rest b s data"
  shows "length (snd (all_new_blocks calc n pre prev bs_list)) \<le> sum_list (map (\<lambda>bs. length (bsw_data bs)) bs_list)"
proof -
  let ?hs = "fst (make_data_handlers prev bs_list [])"
  have irr: "sum_list (map (\<lambda>(f, l). length (bid_data (uib_data f)) + length (bid_data (uib_data l))) ?hs)
      = sum_list (map (\<lambda>bs. length (bid_data (bsw_first_data bs)) + length (bid_data (bsw_last_data bs))) bs_list)"
    using arg_cong [OF make_data_handlers_data [of prev bs_list "[]"],
        of "\<lambda>xs. sum_list (map (\<lambda>(f, l). length (bid_data f) + length (bid_data l)) xs)"]
    by (simp add: comp_def case_prod_unfold)
  have "length (bid_data (bsw_first_data bs)) + length (bid_data (bsw_last_data bs)) + length (bid_data (bsw_mid_data bs))
      = length (bsw_data bs)" if "bs \<in> set bs_list" for bs
  proof -
    from that assms obtain s data where bs: "bs = get_irregular_start_and_rest b s data" by auto
    have "bsw_data bs = data" unfolding bs by (simp add: get_irregular_start_and_rest_def Let_def)
    then show ?thesis using arg_cong [OF split_pieces [of b s data], of length] unfolding bs by simp
  qed
  then have "sum_list (map (\<lambda>bs. length (bid_data (bsw_first_data bs)) + length (bid_data (bsw_last_data bs))) bs_list)
      + sum_list (map (\<lambda>bs. length (bid_data (bsw_mid_data bs))) bs_list) = sum_list (map (\<lambda>bs. length (bsw_data bs)) bs_list)"
    by (simp add: sum_list_addf [symmetric] cong: map_cong)
  then show ?thesis
    using length_mids [of calc n bs_list "publish_irregular calc pre ?hs ([], [])"] length_irregular [of calc pre ?hs "([], [])"]
    unfolding all_new_blocks_def irr by simp
qed

section \<open>Writing groups of blocks\<close>

text \<open>The state before a write: the invariant holds and no reference is counted in vain.\<close>

definition clean :: "'w txn_with_config \<Rightarrow> kv \<Rightarrow> bool" where
  "clean X d \<longleftrightarrow> block_inv X d \<and> refs_exact X d"

context file_contract
begin

abbreviation write_blocks :: "(tifs_hash \<times> bytes) list \<Rightarrow> (tifs_hash \<times> block_index list) list \<Rightarrow> (tifs_hash \<times> u64 \<times> block_index list) list" where
  "write_blocks nb mm \<equiv> map (\<lambda>(h, ids). (h, of_nat (length (block_of_hash nb h)), ids)) mm"

text \<open>New data in the store is the data of a group.\<close>

definition data_from :: "(tifs_hash \<times> bytes) list \<Rightarrow> (tifs_hash \<times> block_index list) list \<Rightarrow> kv \<Rightarrow> kv \<Rightarrow> bool" where
  "data_from nb mm d d' \<longleftrightarrow> (\<forall>h b. hash_ok X h \<longrightarrow> block_data_of X d' h = Some b \<longrightarrow>
     block_data_of X d h = Some b \<or> h \<in> fst ` set mm \<and> b = block_of_hash nb h)"

lemma redirected_from: "\<forall>a. block_hash_at X d2 a = block_hash_at X d a \<Longrightarrow> redirected X addrs d2 d' = redirected X addrs d d'"
  by (auto simp: redirected_def split: option.splits)

lemma write_chunked_twp:
  assumes clean: "clean X d" and mm: "groups_ok X mm"
    and blk: "\<forall>(h, ids) \<in> set mm. calc_hash X (block_of_hash nb h) = h"
  shows "twp (write_chunked Y env ino nb mm)
     (\<lambda>_ d'. clean X d' \<and> redirected X (group_addresses ino mm) d d' \<and> data_from nb mm d d'
        \<and> (mm \<noteq> [] \<longrightarrow> size_grown X ino (max_file_size (cfg_block_size (tx_fs_config X)) (write_blocks nb mm)) d d'))
     (\<lambda>d'. block_inv X d' \<and> (redirected X [] d d' \<or> redirected X (group_addresses ino mm) d d')) d"
  (is "twp _ ?Q ?E d")
proof -
  define d1 where "d1 = incremented X (increments_of mm) d"
  define d2 where "d2 = with_blocks X (uploads_of X d (block_of_hash nb) mm) d1"
  have inv: "block_inv X d" and exact: "refs_exact X d" using clean by (simp_all add: clean_def)
  note ready = groups_ready [OF inv exact_counted [OF inv exact] mm blk, folded d1_def, folded d2_def]
  have count: "\<forall>h. hash_ok X h \<longrightarrow> ref_count X d2 h = ref_count X d h + card {a. map_of (group_addresses ino mm) a = Some (Some h)}"
    and present: "\<forall>(a, h) \<in> set (group_addresses ino mm). \<forall>h'. h = Some h' \<longrightarrow> block_data_of X d2 h' \<noteq> None"
    by (rule ready(5), rule ready(6))
  have hs: "\<forall>(h, c) \<in> set (increments_of mm). hash_ok X h" using mm by (auto simp: groups_ok_def)
  have dist: "distinct (map fst (group_addresses ino mm))" and few: "length (group_addresses ino mm) < 2 ^ 64"
    using mm by (simp_all add: groups_ok_def group_addresses_distinct group_addresses_length)
  have ok: "\<forall>(a, h) \<in> set (group_addresses ino mm). \<forall>h'. h = Some h' \<longrightarrow> hash_ok X h'"
    using mm by (auto simp: set_group_addresses groups_ok_def)
  have reserved: "\<forall>h. hash_ok X h \<longrightarrow> card (refs_of X d2 h) + card {a. map_of (group_addresses ino mm) a = Some (Some h)} \<le> ref_count X d2 h"
    using ready(4) count exact by (simp add: refs_of_def refs_exact_def)
  have "addressable d2 (group_addresses ino mm)" using ready(2) dist few ok reserved present by blast
  note writes = write_addresses [where ino = ino and blocks = "write_blocks nb mm", unfolded addresses_of_groups, OF this]
  have written: "triple sok sdb (if_inode_write_hash_block_to_addresses (txn_hash_fs Y) env ino (write_blocks nb mm)) ?Q ?E d2"
  proof (rule triple_weaken [OF writes])
    fix u :: unit and d' assume post: "block_inv X d' \<and> redirected X (group_addresses ino mm) d2 d' \<and> blocks_kept X d2 d'
        \<and> (write_blocks nb mm \<noteq> [] \<longrightarrow> size_grown X ino (max_file_size (cfg_block_size (tx_fs_config X)) (write_blocks nb mm)) d2 d')
        \<and> (\<forall>h. hash_ok X h \<longrightarrow> ref_count X d' h = ref_count X d2 h - replaced X d2 (map fst (group_addresses ino mm)) h)"
    then have "refs_exact X d'" using exact_after_write [OF ready(2) exact ready(4) dist count] by blast
    moreover have "data_from nb mm d d'"
      unfolding data_from_def
    proof (intro allI impI)
      fix h b assume h: "hash_ok X h" and b: "block_data_of X d' h = Some b"
      have "block_data_of X d' h = None \<or> block_data_of X d' h = block_data_of X d2 h" using post h by (simp add: blocks_kept_def)
      then have "block_data_of X d2 h = Some b" using b by auto
      with ready(8) h show "block_data_of X d h = Some b \<or> h \<in> fst ` set mm \<and> b = block_of_hash nb h" by auto
    qed
    ultimately show "?Q u d'"
      using post redirected_from [OF ready(4)] ready(7) [of ino] by (simp add: clean_def size_grown_def)
  next
    fix d' assume "block_inv X d' \<and> (redirected X [] d2 d' \<or> redirected X (group_addresses ino mm) d2 d')"
    then show "?E d'" using redirected_from [OF ready(4)] by blast
  qed
  have err1: "?E d1" using ready(1,3) by simp
  have err0: "?E d" using inv by simp
  have ups: "filter (\<lambda>(h, c). counter_or_zero (map_of prev) h = 0) (increments_of mm)
      = filter (\<lambda>(h, c). ref_count X d h = 0) (increments_of mm)"
    if "\<forall>h. counter_or_zero (map_of prev) h = (if h \<in> fst ` set (increments_of mm) then ref_count X d h else 0)" for prev
  proof (rule filter_cong [OF refl])
    fix p assume "p \<in> set (increments_of mm)"
    then have "fst p \<in> fst ` set (increments_of mm)" by (rule imageI)
    with that show "(case p of (h, c) \<Rightarrow> counter_or_zero (map_of prev) h = 0) = (case p of (h, c) \<Rightarrow> ref_count X d h = 0)"
      by (cases p) (simp del: set_map)
  qed
  have "triple sok sdb (if_hb_upload_new_block (txn_hash_fs Y) (uploads_of X d (block_of_hash nb) mm))
      (\<lambda>_. twp (fs_call (if_inode_write_hash_block_to_addresses (txn_hash_fs Y) env ino (write_blocks nb mm))) ?Q ?E) ?E d1"
    by (rule triple_weaken [OF upload], fold d2_def) (use twp_fs_call [OF written] err1 in simp_all)
  then have uploading: "twp (and_then (fs_call (if_hb_upload_new_block (txn_hash_fs Y) (uploads_of X d (block_of_hash nb) mm))) (\<lambda>_.
      fs_call (if_inode_write_hash_block_to_addresses (txn_hash_fs Y) env ino (write_blocks nb mm)))) ?Q ?E d1"
    by (intro twp_and_then twp_fs_call)
  show ?thesis
    unfolding write_chunked_def Let_def
    by (rule twp_and_then, rule twp_fs_call, rule triple_weaken [OF increment [OF hs]], fold d1_def)
      (elim conjE, hypsubst, subst ups, assumption, rule uploading, hypsubst, rule err0)
qed

section \<open>The invariant\<close>

lemma calc_hash_ok: "hash_ok X (calc_hash X b)"
  using ext_ok_facts(3) [OF ext] cfg by (simp add: calculate_hash_def calculate_hash_with_def digest_lengths_def cfg_ok_def)

lemma txn_calc_eq: "txn_calc Y = calc_hash X"
  using txn_cfg txn_dig by simp

lemma order_multi: "mset (mo_multi (txn_order Y) mm) = mset mm" "mset (mo_indices (txn_order Y) ix) = mset ix"
  using order by (simp_all add: order_ok_def)

text \<open>The groups of changed blocks.\<close>

abbreviation groups_of :: "(block_index \<times> tifs_hash) list \<Rightarrow> (tifs_hash \<times> block_index list) list" where
  "groups_of ix \<equiv> mo_multi (txn_order Y) (group_by_hash (mo_indices (txn_order Y) ix))"

lemma groups_of_flatten: "mset (flatten (groups_of ix)) = mset ix"
  using flatten_perm [OF order_multi(1)] group_by_hash_flatten order_multi(2) by metis

lemma groups_of_ok:
  assumes pub: "published (calc_hash X) (nb, all)" and sub: "set ix \<subseteq> set all" "distinct (map fst ix)" and few: "length ix < 2 ^ 64"
  shows "groups_ok X (groups_of ix)" and "\<forall>(h, ids) \<in> set (groups_of ix). calc_hash X (block_of_hash nb h) = h"
proof -
  let ?mm = "groups_of ix"
  have fl: "mset (map fst (flatten ?mm)) = mset (map fst ix)" using groups_of_flatten [of ix] by (simp only: mset_map)
  have keys: "distinct (map fst ?mm)"
    using mset_eq_imp_distinct_iff [of "map fst ?mm" "map fst (group_by_hash (mo_indices (txn_order Y) ix))"]
      order_multi(1) group_by_hash_distinct by (metis mset_map)
  have dist: "distinct (concat (map snd ?mm))"
    using mset_eq_imp_distinct_iff [OF fl] sub(2) by (simp add: flatten_fst)
  have len: "length (concat (map snd ?mm)) = length ix"
    using mset_eq_length [OF fl] by (simp only: flatten_fst length_map)
  have hash: "calc_hash X (block_of_hash nb h) = h" if "(h, ids) \<in> set ?mm" for h ids
  proof -
    have "(h, ids) \<in> set (group_by_hash (mo_indices (txn_order Y) ix))"
      using that order_multi(1) by (metis set_mset_mset)
    then have "ids \<noteq> []" using group_by_hash_nonempty by fastforce
    then obtain i where "i \<in> set ids" by (cases ids) auto
    with that have "(i, h) \<in> set (flatten ?mm)" by (force simp: flatten_def)
    then have "(i, h) \<in> set all" using groups_of_flatten [of ix] sub(1) by (metis set_mset_mset subsetD)
    then have "map_of all i = Some h" using pub by (simp add: published_def)
    then obtain b where "map_of nb h = Some b" "calc_hash X b = h" using pub unfolding published_def by fastforce
    then show ?thesis by (simp add: block_of_hash_def)
  qed
  then show "\<forall>(h, ids) \<in> set ?mm. calc_hash X (block_of_hash nb h) = h" by auto
  have "hash_ok X h" if "(h, ids) \<in> set ?mm" for h ids using hash [OF that] calc_hash_ok by metis
  then show "groups_ok X ?mm" using keys dist len few by (auto simp: groups_ok_def)
qed

text \<open>A whole write, with what it read.\<close>

definition wrote ::
  "storage_ino \<Rightarrow> block_splitter_write list \<Rightarrow> (block_index \<rightharpoonup> tifs_hash) \<Rightarrow> (tifs_hash \<rightharpoonup> bytes) \<Rightarrow> kv \<Rightarrow> kv \<Rightarrow> bool" where
  "wrote ino bs_list prev pre d d' \<longleftrightarrow>
     (let (nb, all) = all_new_blocks (calc_hash X) (unat (cfg_block_size (tx_fs_config X))) pre prev bs_list;
          mm = groups_of (drop_unchanged prev all)
      in redirected X (group_addresses ino mm) d d' \<and> data_from nb mm d d'
        \<and> (mm \<noteq> [] \<longrightarrow> size_grown X ino (max_file_size (cfg_block_size (tx_fs_config X)) (write_blocks nb mm)) d d'))"

definition read_before :: "block_splitter_write list \<Rightarrow> (block_index \<rightharpoonup> tifs_hash) \<Rightarrow> (tifs_hash \<rightharpoonup> bytes) \<Rightarrow> kv \<Rightarrow> bool" where
  "read_before bs_list prev pre d \<longleftrightarrow> (\<forall>h b. pre h = Some b \<longrightarrow> block_good X known h b)
     \<and> (\<forall>h \<in> set (snd (make_data_handlers prev bs_list [])). block_data_of X d h \<noteq> None \<longrightarrow> pre h \<noteq> None)"

lemma hb_write_data_twp:
  fixes jobs :: "write_task_data list"
  defines "bs_list \<equiv> map (\<lambda>j. get_irregular_start_and_rest (cfg_block_size (tx_fs_config X)) (wtd_start j) (wtd_data j)) jobs"
  assumes clean: "clean X d" and chunked: "cfg_chunked_block_upload (tx_fs_config X)"
    and few: "sum_list (map (\<lambda>j. length (wtd_data j)) jobs) < 2 ^ 64"
    and stored: "stored_known X known d"
    and news: "\<And>prev pre h b. P prev \<Longrightarrow> map_ok prev \<Longrightarrow> read_before bs_list prev pre d \<Longrightarrow>
      (h, b) \<in> set (fst (all_new_blocks (calc_hash X) (unat (cfg_block_size (tx_fs_config X))) pre prev bs_list)) \<Longrightarrow> b \<in> known"
    and reads: "triple sok sdb (if_inode_read_block_hashes_block_range (txn_hash_fs Y) ino (map get_range bs_list))
      (\<lambda>r d'. d' = d \<and> (\<forall>m. r = Some m \<longrightarrow> map_ok m \<and> P m) \<and> (r = None \<longrightarrow> N)) (\<lambda>d'. d' = d) d"
  shows "twp (hb_write_data Y env ino jobs)
    (\<lambda>r d'. case r of
       None \<Rightarrow> d' = d \<and> N
     | Some _ \<Rightarrow> clean X d' \<and> (\<exists>prev pre. P prev \<and> map_ok prev \<and> read_before bs_list prev pre d \<and> wrote ino bs_list prev pre d d'))
    (block_inv X) d"
  (is "twp _ ?Q ?E d")
proof -
  let ?bs = "cfg_block_size (tx_fs_config X)"
  have inv: "block_inv X d" using clean by (simp add: clean_def)
  then have sound: "blocks_sound X d" by (simp add: block_inv_def)
  have bs0: "?bs \<noteq> 0" using cfg by (simp add: cfg_ok_def)
  have split: "split_jobs (txn_block_size Y) jobs = Some bs_list" using bs0 txn_cfg by (simp add: split_jobs_def bs_list_def)
  have parts: "\<forall>bs \<in> set bs_list. \<exists>s data. bs = get_irregular_start_and_rest ?bs s data" by (auto simp: bs_list_def)
  have total: "sum_list (map (\<lambda>bs. length (bsw_data bs)) bs_list) = sum_list (map (\<lambda>j. length (wtd_data j)) jobs)"
    by (simp add: bs_list_def comp_def get_irregular_start_and_rest_def Let_def)
  have writing: "twp (let (new_blocks, new_block_index_hash) = fold (publish_mid (txn_calc Y) (unat (txn_block_size Y))) bs_list
               (publish_irregular (txn_calc Y) (map_of pre) (fst (make_data_handlers prev bs_list [])) ([], [])) in
         and_then (cache_all Y (mo_blocks (txn_order Y) new_blocks)) (\<lambda>_.
           let changed = drop_unchanged prev new_block_index_hash;
               mm = mo_multi (txn_order Y) (group_by_hash (mo_indices (txn_order Y) changed)) in
           and_then (if cfg_chunked_block_upload (txn_fs_config Y)
               then write_chunked Y (env 0) ino new_blocks mm
               else write_single_blocks Y env ino new_blocks mm) (\<lambda>_. ret (Some (length changed > 0))))) ?Q ?E d"
    if prev: "map_ok prev" "P prev" and pre: "read_before bs_list prev (map_of pre) d" for prev pre
  proof -
    obtain nb all where new: "all_new_blocks (calc_hash X) (unat ?bs) (map_of pre) prev bs_list = (nb, all)"
      by (cases "all_new_blocks (calc_hash X) (unat ?bs) (map_of pre) prev bs_list")
    have pub: "published (calc_hash X) (nb, all)" using all_new_blocks_published [of "calc_hash X"] new by metis
    have len: "length all < 2 ^ 64" using all_new_blocks_length [OF parts, of "calc_hash X" "unat ?bs" "map_of pre" prev] few total new by simp
    let ?ix = "drop_unchanged prev all"
    have ix: "set ?ix \<subseteq> set all" "distinct (map fst ?ix)" "length ?ix < 2 ^ 64"
      using pub len le_less_trans [OF length_filter_le] by (auto simp: drop_unchanged_def published_def distinct_map_filter)
    note groups = groups_of_ok [OF pub ix]
    have entries: "\<forall>(h, b) \<in> set (mo_blocks (txn_order Y) nb). block_good X known h b"
      using pub news [OF prev(2,1) pre] new by (auto simp: published_def)
    have "twp (write_chunked Y (env 0) ino nb (groups_of ?ix)) (\<lambda>_. twp (ret (Some (length ?ix > 0))) ?Q ?E) ?E d"
    proof (rule twp_weaken [OF write_chunked_twp [OF clean groups]])
      fix u :: unit and d' assume "clean X d' \<and> redirected X (group_addresses ino (groups_of ?ix)) d d' \<and> data_from nb (groups_of ?ix) d d'
        \<and> (groups_of ?ix \<noteq> [] \<longrightarrow> size_grown X ino (max_file_size ?bs (write_blocks nb (groups_of ?ix))) d d')"
      then have "?Q (Some (length ?ix > 0)) d'" using prev pre new by (auto simp: wrote_def intro!: exI [of _ prev] exI [of _ "map_of pre"])
      then show "twp (ret (Some (length ?ix > 0))) ?Q ?E d'" by (rule twp_ret)
    qed simp
    then have "twp (and_then (cache_all Y (mo_blocks (txn_order Y) nb)) (\<lambda>_.
        and_then (write_chunked Y (env 0) ino nb (groups_of ?ix)) (\<lambda>_. ret (Some (length ?ix > 0))))) ?Q ?E d"
      by (intro twp_and_then twp_cache_all [OF entries])
    then show ?thesis
      using chunked unfolding txn_cfg txn_dig all_new_blocks_def [symmetric] new by (simp add: Let_def)
  qed
  have prep: "twp (let (data_handlers, requests) = make_data_handlers prev bs_list [] in
       and_then (hb_get_block_data_by_hashes_cached Y requests) (\<lambda>pre_data.
         let (new_blocks, new_block_index_hash) = fold (publish_mid (txn_calc Y) (unat (txn_block_size Y))) bs_list
               (publish_irregular (txn_calc Y) (map_of pre_data) data_handlers ([], [])) in
         and_then (cache_all Y (mo_blocks (txn_order Y) new_blocks)) (\<lambda>_.
           let changed = drop_unchanged prev new_block_index_hash;
               mm = mo_multi (txn_order Y) (group_by_hash (mo_indices (txn_order Y) changed)) in
           and_then (if cfg_chunked_block_upload (txn_fs_config Y)
               then write_chunked Y (env 0) ino new_blocks mm
               else write_single_blocks Y env ino new_blocks mm) (\<lambda>_. ret (Some (length changed > 0)))))) ?Q ?E d"
    if prev: "map_ok prev" "P prev" for prev
  proof -
    have req: "\<forall>h \<in> set (snd (make_data_handlers prev bs_list [])). hash_ok X h"
      using make_data_handlers_requests [of prev bs_list "[]"] prev(1) by (auto simp: ran_def)
    show ?thesis
      unfolding split_beta Let_def
      by (rule twp_and_then, rule get_blocks_cached_twp [OF req sound stored], rule writing [unfolded split_beta Let_def, OF prev])
        (auto simp: read_before_def inv)
  qed
  show ?thesis
    unfolding hb_write_data_def split
  proof (rule twp_then_some, rule twp_ret, unfold option.case, rule twp_then_some, rule twp_fs_call, rule triple_weaken [OF reads])
    fix r :: "(block_index \<rightharpoonup> tifs_hash) option" and d' assume r: "d' = d \<and> (\<forall>m. r = Some m \<longrightarrow> map_ok m \<and> P m) \<and> (r = None \<longrightarrow> N)"
    then show "(case r of None \<Rightarrow> ?Q None | Some x \<Rightarrow> twp (let (data_handlers, requests) = make_data_handlers x bs_list [] in
       and_then (hb_get_block_data_by_hashes_cached Y requests) (\<lambda>pre_data.
         let (new_blocks, new_block_index_hash) = fold (publish_mid (txn_calc Y) (unat (txn_block_size Y))) bs_list
               (publish_irregular (txn_calc Y) (map_of pre_data) data_handlers ([], [])) in
         and_then (cache_all Y (mo_blocks (txn_order Y) new_blocks)) (\<lambda>_.
           let changed = drop_unchanged x new_block_index_hash;
               mm = mo_multi (txn_order Y) (group_by_hash (mo_indices (txn_order Y) changed)) in
           and_then (if cfg_chunked_block_upload (txn_fs_config Y)
               then write_chunked Y (env 0) ino new_blocks mm
               else write_single_blocks Y env ino new_blocks mm) (\<lambda>_. ret (Some (length changed > 0)))))) ?Q ?E) d'"
      using prep by (cases r) auto
  qed (use inv in simp)
qed

lemma any_write:
  assumes "clean X (sdb s)" and "cfg_chunked_block_upload (tx_fs_config X)"
    and "sum_list (map (\<lambda>j. length (wtd_data j)) jobs) < 2 ^ 64" and "sok s" and "cache_ok X holds UNIV c"
    and run: "hb_write_data Y env ino jobs (s, c) = (r, (s', c'))"
  shows "sok s' \<and> cache_ok X holds UNIV c' \<and> (case r of
      Inr None \<Rightarrow> sdb s' = sdb s | Inr (Some _) \<Rightarrow> clean X (sdb s') | Inl _ \<Rightarrow> block_inv X (sdb s'))"
proof -
  have reads: "triple sok sdb (if_inode_read_block_hashes_block_range (txn_hash_fs Y) ino rs)
      (\<lambda>r d'. d' = sdb s \<and> (\<forall>m. r = Some m \<longrightarrow> map_ok m \<and> True) \<and> (r = None \<longrightarrow> True)) (\<lambda>d'. d' = sdb s) (sdb s)" for rs
    using block_ranges_any by simp
  from file_contract.twpD [OF file_contract_axioms file_contract.hb_write_data_twp [OF file_contract_axioms assms(1-3) stored_known_UNIV UNIV_I reads] assms(4,5) run]
  show ?thesis by (auto split: sum.splits option.splits)
qed

lemma clean_empty: "clean X Map.empty"
  by (auto simp: clean_def block_inv_def store_ok_def refs_bounded_def blocks_present_def blocks_sound_def refs_exact_def
      refs_of_def block_hash_at_def block_data_of_def ref_count_def)

lemma clean_inode: "clean X d \<Longrightarrow> clean X (d(K (LK_Inode i m) := y))"
  using block_inv_inode [of d i m y] blocks_same_inode [of d i m y]
  by (simp add: clean_def refs_exact_def refs_of_def blocks_same_def)

end

section \<open>Properties\<close>


definition sample_inode_store :: "tikv_error option list \<Rightarrow> mem_store" where
  "sample_inode_store faults = mem_with [(fs_key sample_config (LK_Inode (StorageIno 10) Size),
     enc (js_size (tx_js sample_txn)) (ino_size_new 0))] faults"

lemma sample_inode_store_clean: "clean sample_txn (mem_content (sample_inode_store faults))"
  using memfile.clean_inode [OF memfile.clean_empty, of "StorageIno 10" Size]
  by (simp add: sample_inode_store_def mem_with_content sample_txn_def)


end
