(* ===== verification/File_Content.thy ===== *)
theory File_Content
  imports File_Write
begin

text \<open>
  What a file contains: block by block and byte by byte. A write changes exactly the bytes it
  is given and leaves all other bytes of all files as they are; reading the written range gives
  the written bytes. Both rest on the blocks in use having different hashes, which is what the
  program relies on by addressing blocks by their hash.
\<close>

section \<open>The pieces of a write\<close>

text \<open>The part of the data that falls into a block, and the block after the write.\<close>

definition piece :: "nat \<Rightarrow> nat \<Rightarrow> bytes \<Rightarrow> nat \<Rightarrow> bytes" where
  "piece b s data i = take (min (s + length data) (Suc i * b) - max s (i * b)) (drop (max s (i * b) - s) data)"

definition written_block :: "nat \<Rightarrow> nat \<Rightarrow> bytes \<Rightarrow> bytes \<Rightarrow> nat \<Rightarrow> bytes" where
  "written_block b s data old i =
     (if piece b s data i = [] then old else update_data_range_in_vec (max s (i * b) - i * b) (piece b s data i) old)"

lemma piece_empty_iff: "piece b s data i = [] \<longleftrightarrow> s + length data \<le> i * b \<or> Suc i * b \<le> s \<or> length data = 0 \<or> b = 0"
proof -
  have "piece b s data i = [] \<longleftrightarrow> min (s + length data) (Suc i * b) \<le> max s (i * b) \<or> length data \<le> max s (i * b) - s"
    by (simp add: piece_def)
  also have "\<dots> \<longleftrightarrow> s + length data \<le> i * b \<or> Suc i * b \<le> s \<or> length data = 0 \<or> b = 0"
  proof -
    have "min (s + n) (b + c) \<le> max s c \<or> n \<le> max s c - s \<longleftrightarrow> s + n \<le> c \<or> b + c \<le> s \<or> n = 0 \<or> b = 0" for n c by arith
    then show ?thesis unfolding mult_Suc .
  qed
  finally show ?thesis .
qed

lemma piece_length: "length (piece b s data i) \<le> b"
proof -
  have "min (s + n) (b + c) - max s c \<le> b" for n c by arith
  then show ?thesis unfolding piece_def mult_Suc length_take by (rule min.coboundedI2)
qed

text \<open>The three kinds of pieces that the splitter makes: the first, whole blocks, the last.\<close>

abbreviation first_of :: "block_splitter_write \<Rightarrow> bytes" where
  "first_of w \<equiv> bid_data (bsw_first_data w)"

abbreviation mid_of :: "block_splitter_write \<Rightarrow> bytes" where
  "mid_of w \<equiv> bid_data (bsw_mid_data w)"

abbreviation last_of :: "block_splitter_write \<Rightarrow> bytes" where
  "last_of w \<equiv> bid_data (bsw_last_data w)"

abbreviation index_of :: "block_index_and_data \<Rightarrow> nat" where
  "index_of d \<equiv> unat (block_raw (bid_block_index d))"

lemma split_okD:
  assumes "split_ok b s data w"
  shows "first_of w @ mid_of w @ last_of w = data" "index_of (bsw_first_data w) = s div b"
    "bsw_first_data_start_position w = s mod b" "s mod b + length (first_of w) \<le> b"
    "length (mid_of w) mod b = 0" "length (last_of w) < b"
    "mid_of w \<noteq> [] \<Longrightarrow> b * index_of (bsw_mid_data w) = s + length (first_of w)"
    "last_of w \<noteq> [] \<Longrightarrow> b * index_of (bsw_last_data w) = s + length (first_of w) + length (mid_of w)"
  using assms by (simp_all add: split_ok_def Let_def)

lemma split_data:
  assumes "split_ok b s data w"
  shows "length data = length (first_of w) + length (mid_of w) + length (last_of w)"
    and "take (length (first_of w)) data = first_of w" and "drop (length (first_of w)) data = mid_of w @ last_of w"
  using split_okD(1) [OF assms] by auto

lemma boundary_dvd:
  assumes "split_ok b s data w" and "mid_of w \<noteq> [] \<or> last_of w \<noteq> []"
  shows "b dvd s + length (first_of w)"
proof (cases "mid_of w = []")
  case False
  then show ?thesis using split_okD(7) [OF assms(1)] by (metis dvd_triv_left)
next
  case True
  then show ?thesis using assms(2) split_okD(8) [OF assms(1)] by (metis add_0_right dvd_triv_left list.size(3))
qed

text \<open>The first piece ends with the data or with its block.\<close>

lemma first_end:
  assumes "split_ok b s data w" and "0 < b" and "first_of w \<noteq> []" and "mid_of w \<noteq> [] \<or> last_of w \<noteq> []"
  shows "s + length (first_of w) = Suc (s div b) * b"
proof -
  obtain q where q: "s + length (first_of w) = b * q" using boundary_dvd [OF assms(1,4)] by auto
  have s: "s = b * (s div b) + s mod b" by simp
  have "0 < length (first_of w)" using assms(3) by simp
  then have "b * (s div b) < b * q" using q s by linarith
  then have "s div b < q" by simp
  moreover have "b * q \<le> b * Suc (s div b)" using q s split_okD(4) [OF assms(1)] unfolding mult_Suc_right by linarith
  then have "q \<le> Suc (s div b)" using assms(2) by (simp only: nat_mult_le_cancel1)
  ultimately have "q = Suc (s div b)" by simp
  with q show ?thesis by (simp add: mult.commute)
qed

lemma first_piece:
  assumes "split_ok b s data w" and "0 < b" and "first_of w \<noteq> []"
  shows "piece b s data (s div b) = first_of w" and "max s (s div b * b) = s"
proof -
  have low: "s div b * b \<le> s" by simp
  then show "max s (s div b * b) = s" by simp
  have "min (s + length data) (Suc (s div b) * b) = s + length (first_of w)"
  proof (cases "mid_of w = [] \<and> last_of w = []")
    case True
    then have "length data = length (first_of w)" using split_data(1) [OF assms(1)] by simp
    moreover have "s div b * b + s mod b = s" by simp
    then have "s + length (first_of w) \<le> Suc (s div b) * b" using split_okD(4) [OF assms(1)] unfolding mult_Suc by linarith
    ultimately show ?thesis by simp
  next
    case False
    then show ?thesis using first_end [OF assms] split_data(1) [OF assms(1)] by simp
  qed
  then show "piece b s data (s div b) = first_of w"
    using low split_data(2) [OF assms(1)] by (simp add: piece_def max_absorb1)
qed

lemma mid_piece:
  assumes ok: "split_ok b s data w" and pos: "0 < b" and j: "j < length (mid_of w) div b"
  defines "i \<equiv> index_of (bsw_mid_data w) + j"
  shows "piece b s data i = take b (drop (j * b) (mid_of w))" and "max s (i * b) - i * b = 0"
    and "length (piece b s data i) = b"
proof -
  have m: "mid_of w \<noteq> []" using j by auto
  have ib: "i * b = s + length (first_of w) + j * b"
    using split_okD(7) [OF ok m] by (simp add: i_def algebra_simps)
  have "Suc j * b \<le> length (mid_of w) div b * b" using j by (intro mult_right_mono) simp_all
  also have "\<dots> = length (mid_of w)" using split_okD(5) [OF ok] by (simp add: mod_0_imp_dvd)
  finally have le: "j * b + b \<le> length (mid_of w)" by simp
  then have "min (s + length data) (Suc i * b) = i * b + b" using split_data(1) [OF ok] ib by simp
  moreover have mx: "max s (i * b) = i * b" using ib by simp
  moreover have "drop (i * b - s) data = drop (j * b) (mid_of w @ last_of w)"
  proof -
    have "i * b - s = length (first_of w) + j * b" using ib by simp
    then have "drop (i * b - s) data = drop (j * b) (drop (length (first_of w)) data)" by (simp add: add.commute)
    then show ?thesis unfolding split_data(3) [OF ok] .
  qed
  ultimately have "piece b s data i = take b (drop (j * b) (mid_of w @ last_of w))" by (simp add: piece_def)
  also have "\<dots> = take b (drop (j * b) (mid_of w))" using le by simp
  finally show "piece b s data i = take b (drop (j * b) (mid_of w))" .
  then show "length (piece b s data i) = b" using le by simp
  show "max s (i * b) - i * b = 0" using mx by simp
qed

lemma last_piece:
  assumes ok: "split_ok b s data w" and pos: "0 < b" and l: "last_of w \<noteq> []"
  defines "i \<equiv> index_of (bsw_last_data w)"
  shows "piece b s data i = last_of w" and "max s (i * b) - i * b = 0"
proof -
  have ib: "i * b = s + length (first_of w) + length (mid_of w)" using split_okD(8) [OF ok l] by (simp add: i_def mult.commute)
  then have mx: "max s (i * b) = i * b" by simp
  then show "max s (i * b) - i * b = 0" by simp
  have "min (s + length data) (Suc i * b) = i * b + length (last_of w)"
    using split_data(1) [OF ok] split_okD(6) [OF ok] ib by simp
  moreover have "drop (i * b - s) data = last_of w"
  proof -
    have "i * b - s = length (first_of w) + length (mid_of w)" using ib by simp
    then have "drop (i * b - s) data = drop (length (mid_of w)) (drop (length (first_of w)) data)" by (simp add: add.commute)
    then show ?thesis unfolding split_data(3) [OF ok] by simp
  qed
  ultimately show "piece b s data i = last_of w" using mx by (simp add: piece_def)
qed

text \<open>There are no other pieces.\<close>

lemma pieces_complete:
  assumes ok: "split_ok b s data w" and pos: "0 < b" and ne: "piece b s data i \<noteq> []"
  shows "first_of w \<noteq> [] \<and> i = s div b \<or> (\<exists>j < length (mid_of w) div b. i = index_of (bsw_mid_data w) + j)
    \<or> last_of w \<noteq> [] \<and> i = index_of (bsw_last_data w)"
proof -
  let ?S = "s + length (first_of w)"
  have lo: "i * b < s + length data" and hi: "s < Suc i * b" and n: "0 < length data" using ne by (auto simp: piece_empty_iff)
  show ?thesis
  proof (cases "i * b < ?S")
    case True
    have "first_of w \<noteq> []"
    proof
      assume f: "first_of w = []"
      then have "mid_of w \<noteq> [] \<or> last_of w \<noteq> []" using n split_data(1) [OF ok] by auto
      from boundary_dvd [OF ok this] f obtain q where "s = b * q" by auto
      with True f hi have "i * b < q * b" "q * b < Suc i * b" by (simp_all add: mult.commute)
      then have "i < q" "q < Suc i" by (simp_all only: mult_less_cancel2)
      then show False by simp
    qed
    moreover have "i = s div b"
    proof -
      have "?S \<le> Suc (s div b) * b"
        using split_okD(4) [OF ok] div_mult_mod_eq [of s b] unfolding mult_Suc by linarith
      then have "i * b < Suc (s div b) * b" using True by linarith
      then have "i \<le> s div b" by (simp only: mult_less_cancel2 less_Suc_eq_le)
      moreover have "s div b < Suc i" using hi pos by (simp add: div_less_iff_less_mult)
      ultimately show ?thesis by simp
    qed
    ultimately show ?thesis by simp
  next
    case False
    then have ml: "mid_of w \<noteq> [] \<or> last_of w \<noteq> []" using lo split_data(1) [OF ok] by auto
    from boundary_dvd [OF ok this] obtain q where q: "?S = b * q" by auto
    have qi: "q \<le> i" using False q pos by (simp add: mult.commute)
    obtain k where k: "length (mid_of w) = b * k" using split_okD(5) [OF ok] by (auto simp: mod_eq_0_iff_dvd)
    show ?thesis
    proof (cases "i < q + k")
      case True
      then have "mid_of w \<noteq> []" using qi k pos by auto
      then have "index_of (bsw_mid_data w) = q" using split_okD(7) [OF ok] q pos by simp
      then show ?thesis using True qi k pos by (intro disjI2 disjI1 exI [of _ "i - q"]) simp
    next
      case False
      then have "(q + k) * b \<le> i * b" by (intro mult_right_mono) simp_all
      then have ge: "?S + length (mid_of w) \<le> i * b" using q k by (simp add: algebra_simps)
      then have l: "last_of w \<noteq> []" using lo split_data(1) [OF ok] by auto
      then have ib: "b * index_of (bsw_last_data w) = ?S + length (mid_of w)" by (rule split_okD(8) [OF ok])
      then have "i * b < Suc (index_of (bsw_last_data w)) * b"
        using lo split_data(1) [OF ok] split_okD(6) [OF ok] by (simp add: mult.commute)
      then have "i \<le> index_of (bsw_last_data w)" by (simp only: mult_less_cancel2 less_Suc_eq_le)
      moreover have "index_of (bsw_last_data w) \<le> i" using mult_le_cancel1 [of b "index_of (bsw_last_data w)" i] ge ib pos by (simp add: mult.commute)
      ultimately show ?thesis using l by simp
    qed
  qed
qed

section \<open>The new blocks of one write\<close>

definition old_block :: "(tifs_hash \<rightharpoonup> bytes) \<Rightarrow> (block_index \<rightharpoonup> tifs_hash) \<Rightarrow> block_index \<Rightarrow> bytes" where
  "old_block pre prev i = (case Option.bind (prev i) pre of Some d \<Rightarrow> d | None \<Rightarrow> [])"

text \<open>The new blocks, in the order in which they are entered.\<close>

definition new_content ::
  "nat \<Rightarrow> (tifs_hash \<rightharpoonup> bytes) \<Rightarrow> (block_index \<rightharpoonup> tifs_hash) \<Rightarrow> block_splitter_write \<Rightarrow> (block_index \<times> bytes) list" where
  "new_content b pre prev w =
     (let upd = (\<lambda>d pos. (bid_block_index d, update_data_range_in_vec pos (bid_data d) (old_block pre prev (bid_block_index d))))
      in (if first_of w = [] then [] else [upd (bsw_first_data w) (bsw_first_data_start_position w)])
       @ (if last_of w = [] then [] else [upd (bsw_last_data w) 0])
       @ map (\<lambda>(index, chunk). (BlockIndex (block_raw (bid_block_index (bsw_mid_data w)) + of_nat index), chunk))
           (List.enumerate 0 (chunks b (mid_of w))))"

text \<open>Entering blocks one by one.\<close>

definition enter_block :: "(bytes \<Rightarrow> tifs_hash) \<Rightarrow> block_index \<times> bytes \<Rightarrow> new_blocks \<Rightarrow> new_blocks" where
  "enter_block calc p out = (map_insert (calc (snd p)) (snd p) (fst out), map_insert (fst p) (calc (snd p)) (snd out))"

lemma enter_blocks:
  "fold (enter_block calc) ps out = (fold (\<lambda>(k, v). map_insert k v) (map (\<lambda>(x, c). (calc c, c)) ps) (fst out),
     fold (\<lambda>(k, v). map_insert k v) (map (\<lambda>(x, c). (x, calc c)) ps) (snd out))"
  by (induction ps arbitrary: out) (auto simp: enter_block_def)

lemma publish_mid_enter:
  "publish_mid calc b w out = fold (enter_block calc)
     (map (\<lambda>(index, chunk). (BlockIndex (block_raw (bid_block_index (bsw_mid_data w)) + of_nat index), chunk))
       (List.enumerate 0 (chunks b (mid_of w)))) out"
  unfolding publish_mid_def fold_map by (rule fold_cong) (auto simp: enter_block_def Let_def fun_eq_iff)

lemma all_new_blocks_index:
  "snd (all_new_blocks calc b pre prev [w]) = map_collect (map (\<lambda>(x, c). (x, calc c)) (new_content b pre prev w))"
  by (simp add: all_new_blocks_def publish_mid_enter publish_irregular_def new_content_def enter_blocks map_collect_def Let_def
      get_and_add_original_block_hash_def get_and_modify_block_and_publish_hash_def old_block_def)

lemma set_map_insert: "set (map_insert k v xs) \<subseteq> insert (k, v) (set xs)"
  by (induction k v xs rule: map_insert.induct) auto

lemma set_map_try_insert: "set (map_try_insert k v xs) \<subseteq> insert (k, v) (set xs)"
  using set_map_insert [of k v xs] by (auto simp: map_try_insert_def)

lemma set_inserts: "set (fold (\<lambda>(k, v). map_insert k v) ps xs) \<subseteq> set ps \<union> set xs"
proof (induction ps arbitrary: xs)
  case (Cons p ps)
  obtain k v where "p = (k, v)" by (cases p)
  then show ?case using Cons.IH [of "map_insert k v xs"] set_map_insert [of k v xs] by auto
qed simp

lemma all_new_blocks_data:
  "set (fst (all_new_blocks calc b pre prev [w])) \<subseteq> (\<lambda>(x, c). (calc c, c)) ` set (new_content b pre prev w)"
proof -
  let ?mids = "map (\<lambda>(index, chunk). (BlockIndex (block_raw (bid_block_index (bsw_mid_data w)) + of_nat index), chunk))
       (List.enumerate 0 (chunks b (mid_of w)))"
  let ?irr = "publish_irregular calc pre (fst (make_data_handlers prev [w] [])) ([], [])"
  have "set (fst (all_new_blocks calc b pre prev [w])) \<subseteq> (\<lambda>(x, c). (calc c, c)) ` set ?mids \<union> set (fst ?irr)"
    using set_inserts [of "map (\<lambda>(x, c). (calc c, c)) ?mids" "fst ?irr"]
    unfolding all_new_blocks_def fold.simps comp_def id_def publish_mid_enter enter_blocks fst_conv set_map .
  moreover have "(\<lambda>(x, c). (calc c, c)) ` set ?mids \<subseteq> (\<lambda>(x, c). (calc c, c)) ` set (new_content b pre prev w)"
    by (intro image_mono) (auto simp: new_content_def Let_def)
  moreover have "set (fst ?irr) \<subseteq> (\<lambda>(x, c). (calc c, c)) ` set (new_content b pre prev w)"
    by (auto simp: publish_irregular_def get_and_add_original_block_hash_def get_and_modify_block_and_publish_hash_def
        new_content_def old_block_def Let_def dest!: subsetD [OF set_map_try_insert])
  ultimately show ?thesis by blast
qed

lemma block_index_nat: "BlockIndex (of_nat (unat (block_raw i))) = i"
  by (cases i) simp

lemma block_index_eqI: "unat (block_raw x) = unat (block_raw y) \<Longrightarrow> x = y"
  by (metis block_index_nat)

text \<open>A chunk of the size of a block replaces the block.\<close>

lemma update_whole: "length old \<le> length new \<Longrightarrow> update_data_range_in_vec 0 new old = new"
  by (simp add: update_data_range_in_vec_def Let_def resize_zero_def copy_into_def)

text \<open>The entries are the blocks after the write.\<close>

lemma new_content_iff:
  assumes ok: "split_ok b s data w" and pos: "0 < b" and bound: "s + length data < 2 ^ 64"
    and old: "\<forall>i. length (old_block pre prev i) \<le> b"
  shows "(x, h) \<in> set (new_content b pre prev w) \<longleftrightarrow>
    piece b s data (unat (block_raw x)) \<noteq> [] \<and> h = written_block b s data (old_block pre prev x) (unat (block_raw x))"
  (is "_ \<longleftrightarrow> ?R x h")
proof -
  let ?i = "\<lambda>x. unat (block_raw x)" and ?m = "block_raw (bid_block_index (bsw_mid_data w))"
  let ?k = "length (mid_of w) div b"
  have whole: "chunks b (mid_of w) = map (\<lambda>j. take b (drop (j * b) (mid_of w))) [0..<?k]"
    using split_okD(5) [OF ok] pos by (intro chunks_whole) (simp_all add: mod_0_imp_dvd)
  have idx: "unat (?m + of_nat j) = index_of (bsw_mid_data w) + j" if "j < ?k" for j
  proof (rule unat_add_of_nat_u64)
    have "mid_of w \<noteq> []" using that by auto
    then have "b * index_of (bsw_mid_data w) = s + length (first_of w)" by (rule split_okD(7) [OF ok])
    moreover have "j * b < length (mid_of w)" using that
      by (metis pos split_okD(5) [OF ok] mod_0_imp_dvd dvd_div_mult_self mult_less_cancel2)
    ultimately have "b * (index_of (bsw_mid_data w) + j) < 2 ^ 64" using bound split_data(1) [OF ok] by (simp add: algebra_simps)
    moreover have "index_of (bsw_mid_data w) + j \<le> b * (index_of (bsw_mid_data w) + j)" using pos by simp
    ultimately show "unat ?m + j < 2 ^ 64" by linarith
  qed
  have mid: "(x, h) \<in> set (map (\<lambda>(index, chunk). (BlockIndex (?m + of_nat index), chunk)) (List.enumerate 0 (chunks b (mid_of w))))
      \<longleftrightarrow> (\<exists>j < ?k. x = BlockIndex (?m + of_nat j) \<and> h = take b (drop (j * b) (mid_of w)))" (is "?M \<longleftrightarrow> ?N")
  proof
    assume ?M
    then obtain j where "j < ?k" "x = BlockIndex (?m + of_nat j)" "h = take b (drop (j * b) (mid_of w))"
      unfolding whole by (auto simp: in_set_enumerate_eq)
    then show ?N by blast
  next
    assume ?N
    then obtain j where j: "j < ?k" "x = BlockIndex (?m + of_nat j)" "h = take b (drop (j * b) (mid_of w))" by blast
    then have "(j, take b (drop (j * b) (mid_of w))) \<in> set (List.enumerate 0 (chunks b (mid_of w)))"
      unfolding whole by (simp add: in_set_enumerate_eq)
    then have "(\<lambda>(index, chunk). (BlockIndex (?m + of_nat index), chunk)) (j, take b (drop (j * b) (mid_of w))) \<in>
        set (map (\<lambda>(index, chunk). (BlockIndex (?m + of_nat index), chunk)) (List.enumerate 0 (chunks b (mid_of w))))"
      unfolding set_map by (rule imageI)
    then show ?M using j by simp
  qed
  let ?W = "written_block b s data (old_block pre prev x) (?i x)" and ?P = "piece b s data (?i x)"
  have first: "?P \<noteq> []" "?W = update_data_range_in_vec (bsw_first_data_start_position w) (first_of w) (old_block pre prev x)"
    if "first_of w \<noteq> []" "x = bid_block_index (bsw_first_data w)"
  proof -
    have i: "?i x = s div b" using that(2) split_okD(2) [OF ok] by simp
    have "max s (s div b * b) - s div b * b = s mod b"
      using first_piece(2) [OF ok pos that(1)] by (simp add: minus_div_mult_eq_mod)
    then show "?P \<noteq> []" "?W = update_data_range_in_vec (bsw_first_data_start_position w) (first_of w) (old_block pre prev x)"
      using that i first_piece(1) [OF ok pos that(1)] split_okD(3) [OF ok] by (simp_all add: written_block_def)
  qed
  have last: "?P \<noteq> []" "?W = update_data_range_in_vec 0 (last_of w) (old_block pre prev x)"
    if "last_of w \<noteq> []" "x = bid_block_index (bsw_last_data w)"
    using that last_piece [OF ok pos that(1)] by (simp_all add: written_block_def)
  have mids: "?P \<noteq> []" "?W = take b (drop (j * b) (mid_of w))" if "j < ?k" "x = BlockIndex (?m + of_nat j)" for j
  proof -
    note p = mid_piece [OF ok pos that(1)]
    have i: "?i x = index_of (bsw_mid_data w) + j" using idx that by simp
    then show ne: "?P \<noteq> []" using p(3) pos by auto
    show "?W = take b (drop (j * b) (mid_of w))"
      using ne p update_whole [of "old_block pre prev x" ?P] old unfolding i by (simp add: written_block_def)
  qed
  have "(x, h) \<in> set (new_content b pre prev w) \<longleftrightarrow>
      first_of w \<noteq> [] \<and> x = bid_block_index (bsw_first_data w)
        \<and> h = update_data_range_in_vec (bsw_first_data_start_position w) (first_of w) (old_block pre prev x)
      \<or> last_of w \<noteq> [] \<and> x = bid_block_index (bsw_last_data w)
        \<and> h = update_data_range_in_vec 0 (last_of w) (old_block pre prev x) \<or> ?M"
    by (auto simp: new_content_def Let_def)
  also have "\<dots> \<longleftrightarrow> ?R x h" (is "?F \<or> ?L \<or> _ \<longleftrightarrow> _")
  proof
    assume new: "?F \<or> ?L \<or> ?M"
    from new [unfolded mid] show "?R x h"
    proof (elim disjE exE conjE)
      fix j assume "j < ?k" "x = BlockIndex (?m + of_nat j)" "h = take b (drop (j * b) (mid_of w))"
      then show ?thesis using mids [of j] by simp
    next
      assume "first_of w \<noteq> []" "x = bid_block_index (bsw_first_data w)"
        "h = update_data_range_in_vec (bsw_first_data_start_position w) (first_of w) (old_block pre prev x)"
      then show ?thesis using first by simp
    next
      assume "last_of w \<noteq> []" "x = bid_block_index (bsw_last_data w)"
        "h = update_data_range_in_vec 0 (last_of w) (old_block pre prev x)"
      then show ?thesis using last by simp
    qed
  next
    assume r: "?R x h"
    then have ne: "piece b s data (?i x) \<noteq> []" and h: "h = written_block b s data (old_block pre prev x) (?i x)" by blast+
    from pieces_complete [OF ok pos ne]
    show "?F \<or> ?L \<or> ?M"
    proof (elim disjE exE conjE)
      assume f: "first_of w \<noteq> []" "?i x = s div b"
      then have "x = bid_block_index (bsw_first_data w)" using split_okD(2) [OF ok] by (intro block_index_eqI) simp
      then show ?thesis using f h first(2) by simp
    next
      fix j assume j: "j < ?k" "?i x = index_of (bsw_mid_data w) + j"
      then have "x = BlockIndex (?m + of_nat j)" using idx by (intro block_index_eqI) simp
      then show ?thesis unfolding mid using j h mids(2) [of j] by (intro disjI2 exI [of _ j] conjI) simp_all
    next
      assume l: "last_of w \<noteq> []" "?i x = index_of (bsw_last_data w)"
      then have "x = bid_block_index (bsw_last_data w)" by (intro block_index_eqI) simp
      then show ?thesis using l h last(2) by simp
    qed
  qed
  finally show ?thesis .
qed

section \<open>The content of a file\<close>

text \<open>A block of a file; where the block map has no entry, the block is empty.\<close>

definition block_at :: "'w txn_with_config \<Rightarrow> kv \<Rightarrow> storage_ino \<Rightarrow> block_index \<Rightarrow> bytes" where
  "block_at X d ino i = (case Option.bind (block_hash_at X d \<lparr>ba_ino = ino, ba_index = i\<rparr>) (block_data_of X d) of
     Some b \<Rightarrow> b | None \<Rightarrow> [])"

text \<open>A byte of a file; bytes beyond a block are zero.\<close>

definition nth_or_zero :: "bytes \<Rightarrow> nat \<Rightarrow> u8" where
  "nth_or_zero xs j = (if j < length xs then xs ! j else 0)"

definition byte_at :: "'w txn_with_config \<Rightarrow> kv \<Rightarrow> storage_ino \<Rightarrow> nat \<Rightarrow> u8" where
  "byte_at X d ino p = (let b = unat (cfg_block_size (tx_fs_config X)) in
     nth_or_zero (block_at X d ino (BlockIndex (of_nat (p div b)))) (p mod b))"

lemma nth_or_zero_update:
  "nth_or_zero (update_data_range_in_vec pos new old) j =
     (if pos \<le> j \<and> j < pos + length new then new ! (j - pos) else nth_or_zero old j)"
  by (auto simp: nth_or_zero_def update_data_range_in_vec_def Let_def nth_copy_into nth_resize_zero)

lemma length_update: "length (update_data_range_in_vec pos new old) = max (length old) (pos + length new)"
  by (simp add: update_data_range_in_vec_def Let_def)

text \<open>The bytes of a written block.\<close>

lemma nth_written_block:
  assumes "0 < b"
  shows "nth_or_zero (written_block b s data old (p div b)) (p mod b) =
    (if s \<le> p \<and> p < s + length data then data ! (p - s) else nth_or_zero old (p mod b))"
proof -
  let ?i = "p div b" and ?j = "p mod b"
  let ?lo = "max s (?i * b)" and ?hi = "min (s + length data) (Suc ?i * b)"
  have p: "?i * b + ?j = p" and j: "?j < b" using assms by simp_all
  have len: "length (piece b s data ?i) = ?hi - ?lo"
    by (simp add: piece_def)
  have nth: "piece b s data ?i ! k = data ! (?lo - s + k)" if "k < ?hi - ?lo" for k
    using that by (simp add: piece_def)
  have inside: "s \<le> p \<and> p < s + length data \<longleftrightarrow> ?lo \<le> p \<and> p < ?hi"
  proof -
    have "?i * b \<le> p" by simp
    moreover have "p < Suc ?i * b" using p j unfolding mult_Suc by linarith
    ultimately show ?thesis by simp
  qed
  show ?thesis
  proof (cases "piece b s data ?i = []")
    case True
    then have "?hi \<le> ?lo" using len by simp
    then have "\<not> (s \<le> p \<and> p < s + length data)" unfolding inside by linarith
    then show ?thesis using True by (auto simp: written_block_def)
  next
    case False
    then have "0 < ?hi - ?lo" unfolding len [symmetric] by simp
    then have "?lo < ?hi" by (simp only: zero_less_diff)
    moreover have "x \<le> lo \<Longrightarrow> lo < hi \<Longrightarrow> lo - x \<le> j \<and> j < lo - x + (hi - lo) \<longleftrightarrow> lo \<le> x + j \<and> x + j < hi" for x lo hi j :: nat
      by auto
    ultimately have "?lo - ?i * b \<le> ?j \<and> ?j < ?lo - ?i * b + (?hi - ?lo) \<longleftrightarrow> s \<le> p \<and> p < s + length data"
      unfolding inside using p by (metis max.cobounded2)
    moreover have "piece b s data ?i ! (?j - (?lo - ?i * b)) = data ! (p - s)" if "?lo \<le> p" "p < ?hi"
    proof -
      have "?j - (?lo - ?i * b) = p - ?lo" "?lo - s + (p - ?lo) = p - s" using that p by auto
      moreover have "p - ?lo < ?hi - ?lo" using that by (rule diff_less_mono [rotated])
      ultimately show ?thesis using nth [of "p - ?lo"] by simp
    qed
    ultimately show ?thesis using False len inside by (simp add: written_block_def nth_or_zero_update)
  qed
qed

lemma map_of_graph:
  assumes "\<And>x v. (x, v) \<in> set ps \<longleftrightarrow> D x \<and> v = f x"
  shows "map_of ps x = (if D x then Some (f x) else None)"
proof (cases "map_of ps x")
  case None
  then have "(x, f x) \<notin> set ps" by (force simp: map_of_eq_None_iff)
  then show ?thesis using assms [of x "f x"] None by simp
next
  case (Some v)
  then show ?thesis using assms map_of_SomeD [of ps x v] by simp
qed

lemma written_whole: "0 < b \<Longrightarrow> length old \<le> b \<Longrightarrow> length old' \<le> b \<Longrightarrow> length (piece b s data i) = b \<Longrightarrow> max s (i * b) - i * b = 0 \<Longrightarrow>
  written_block b s data old i = written_block b s data old' i"
  by (auto simp: written_block_def update_whole)

context file_contract
begin

abbreviation bsz :: nat where
  "bsz \<equiv> unat (cfg_block_size (tx_fs_config X))"

lemma bsz_pos: "0 < bsz"
  using cfg by (simp add: cfg_ok_def unat_gt_0)

lemma same_block:
  assumes "inj_on (calc_hash X) known" and "blocks_sound X d" and "stored_known X known d"
    and "hash_ok X h" and "block_data_of X d h = Some b" and "b' \<in> known" and "calc_hash X b' = h"
  shows "b = b'"
proof -
  have "calc_hash X b = calc_hash X b'" "b \<in> known" using assms by (auto simp: blocks_sound_def stored_known_def)
  then show ?thesis using assms(1,6) by (auto dest: inj_onD)
qed

text \<open>What is read before the write is what the file holds, for the blocks that are completed.\<close>

lemma read_old_block:
  assumes inj: "inj_on (calc_hash X) known" and clean: "clean X d" and stored: "stored_known X known d"
    and pre: "read_before [w] prev pre d" and prev: "prev x = block_hash_at X d \<lparr>ba_ino = ino, ba_index = x\<rparr>"
    and irr: "first_of w \<noteq> [] \<and> x = bid_block_index (bsw_first_data w) \<or> last_of w \<noteq> [] \<and> x = bid_block_index (bsw_last_data w)"
  shows "old_block pre prev x = block_at X d ino x"
proof (cases "prev x")
  case None
  then show ?thesis using prev by (simp add: old_block_def block_at_def)
next
  case (Some h)
  have inv: "store_ok X d" "blocks_present X d" "blocks_sound X d" using clean by (simp_all add: clean_def block_inv_def)
  have hok: "hash_ok X h" using inv(1) Some prev by (simp add: store_ok_def)
  obtain b where b: "block_data_of X d h = Some b" using inv(2) Some prev by (auto simp: blocks_present_def)
  have "h \<in> set (snd (make_data_handlers prev [w] []))"
    using irr Some by (auto simp: get_and_add_original_block_hash_def Let_def split: option.splits)
  then obtain b' where b': "pre h = Some b'" "block_good X known h b'" using pre b by (auto simp: read_before_def)
  then have "b = b'" using same_block [OF inj inv(3) stored hok b] by blast
  then show ?thesis using Some prev b b' by (simp add: old_block_def block_at_def)
qed

text \<open>The situation of one write after everything it needs has been read.\<close>

definition prepared ::
  "kv \<Rightarrow> storage_ino \<Rightarrow> nat \<Rightarrow> bytes \<Rightarrow> block_splitter_write \<Rightarrow> (block_index \<rightharpoonup> tifs_hash) \<Rightarrow> (tifs_hash \<rightharpoonup> bytes) \<Rightarrow> bool" where
  "prepared d ino s data w prev pre \<longleftrightarrow> clean X d \<and> stored_known X known d \<and> read_before [w] prev pre d
     \<and> split_ok bsz s data w \<and> s + length data < 2 ^ 64
     \<and> (\<forall>x. prev x = (if piece bsz s data (unat (block_raw x)) = [] then None else block_hash_at X d \<lparr>ba_ino = ino, ba_index = x\<rparr>))
     \<and> inj_on (calc_hash X) known \<and> (\<forall>b \<in> known. length b \<le> bsz)"

abbreviation after_write :: "kv \<Rightarrow> storage_ino \<Rightarrow> nat \<Rightarrow> bytes \<Rightarrow> block_index \<Rightarrow> bytes" where
  "after_write d ino s data x \<equiv> written_block bsz s data (block_at X d ino x) (unat (block_raw x))"

lemma block_at_known:
  assumes "clean X d" and "stored_known X known d"
  shows "block_at X d ino x = [] \<or> block_at X d ino x \<in> known"
proof (cases "block_hash_at X d \<lparr>ba_ino = ino, ba_index = x\<rparr>")
  case (Some h)
  then have "hash_ok X h" using assms(1) by (auto simp: clean_def block_inv_def store_ok_def)
  with Some show ?thesis using assms(2) by (auto simp: stored_known_def block_at_def split: option.splits)
qed (simp add: block_at_def)

lemma new_content_prepared:
  assumes p: "prepared d ino s data w prev pre"
  shows "(x, c) \<in> set (new_content bsz pre prev w) \<longleftrightarrow>
    piece bsz s data (unat (block_raw x)) \<noteq> [] \<and> c = after_write d ino s data x"
proof -
  let ?i = "unat (block_raw x)"
  have ok: "split_ok bsz s data w" and clean: "clean X d" and stored: "stored_known X known d"
    and pre: "read_before [w] prev pre d" and inj: "inj_on (calc_hash X) known" and len: "\<forall>b \<in> known. length b \<le> bsz"
    using p by (simp_all add: prepared_def)
  have old: "length (old_block pre prev i) \<le> bsz" for i
    using pre len by (auto simp: old_block_def read_before_def bind_eq_Some_conv split: option.splits)
  have at: "length (block_at X d ino x) \<le> bsz" using block_at_known [OF clean stored, of ino x] len by auto
  have "written_block bsz s data (old_block pre prev x) ?i = after_write d ino s data x" if ne: "piece bsz s data ?i \<noteq> []"
  proof -
    have prev: "prev x = block_hash_at X d \<lparr>ba_ino = ino, ba_index = x\<rparr>" using p ne by (simp add: prepared_def)
    note irr = read_old_block [OF inj clean stored pre prev]
    from pieces_complete [OF ok bsz_pos ne] show ?thesis
    proof (elim disjE exE conjE)
      assume "first_of w \<noteq> []" "?i = s div bsz"
      moreover from this have "x = bid_block_index (bsw_first_data w)" using split_okD(2) [OF ok] by (intro block_index_eqI) simp
      ultimately show ?thesis using irr by simp
    next
      fix j assume "j < length (mid_of w) div bsz" "?i = index_of (bsw_mid_data w) + j"
      then show ?thesis using mid_piece(2,3) [OF ok bsz_pos] old at by (intro written_whole [OF bsz_pos]) simp_all
    next
      assume "last_of w \<noteq> []" "?i = index_of (bsw_last_data w)"
      moreover from this have "x = bid_block_index (bsw_last_data w)" by (intro block_index_eqI) simp
      ultimately show ?thesis using irr by simp
    qed
  qed
  then show ?thesis
    using new_content_iff [OF ok bsz_pos, of pre prev x c] p old by (auto simp: prepared_def)
qed

text \<open>The block map after the write.\<close>

lemma wrote_hashes:
  assumes p: "prepared d ino s data w prev pre" and wrote: "wrote ino [w] prev pre d d'"
  shows "block_hash_at X d' \<lparr>ba_ino = i, ba_index = x\<rparr> =
    (if i = ino \<and> piece bsz s data (unat (block_raw x)) \<noteq> [] then Some (calc_hash X (after_write d ino s data x))
     else block_hash_at X d \<lparr>ba_ino = i, ba_index = x\<rparr>)"
proof -
  obtain nb all where new: "all_new_blocks (calc_hash X) bsz pre prev [w] = (nb, all)" by (cases "all_new_blocks (calc_hash X) bsz pre prev [w]")
  let ?mm = "groups_of (drop_unchanged prev all)" and ?C = "\<lambda>x. calc_hash X (after_write d ino s data x)"
  let ?P = "\<lambda>x. piece bsz s data (unat (block_raw x)) \<noteq> []"
  have red: "redirected X (group_addresses ino ?mm) d d'" using wrote new by (simp add: wrote_def Let_def)
  have "map_of all = map_of (rev (map (\<lambda>(x, c). (x, calc_hash X c)) (new_content bsz pre prev w)))"
    using all_new_blocks_index [of "calc_hash X" bsz pre prev w] new by (simp add: map_of_map_collect)
  moreover have "map_of (rev (map (\<lambda>(x, c). (x, calc_hash X c)) (new_content bsz pre prev w))) x = (if ?P x then Some (?C x) else None)" for x
    by (rule map_of_graph) (auto simp: image_iff Bex_def new_content_prepared [OF p])
  ultimately have all: "map_of all x = (if ?P x then Some (?C x) else None)" for x by simp
  have dist: "distinct (map fst all)" using all_new_blocks_published [of "calc_hash X" bsz pre prev "[w]"] new by (simp add: published_def)
  have mem: "(x, h) \<in> set all \<longleftrightarrow> ?P x \<and> h = ?C x" for x h
    unfolding map_of_eq_Some_iff [OF dist, symmetric] all by auto
  have "set (flatten ?mm) = set (drop_unchanged prev all)" using groups_of_flatten by (metis set_mset_mset)
  then have ch: "(x, h) \<in> set (flatten ?mm) \<longleftrightarrow> ?P x \<and> prev x \<noteq> Some h \<and> h = ?C x" for x h
    by (auto simp: drop_unchanged_def mem)
  have ga: "(a, v) \<in> set (group_addresses ino ?mm) \<longleftrightarrow>
      (ba_ino a = ino \<and> ?P (ba_index a) \<and> prev (ba_index a) \<noteq> Some (?C (ba_index a))) \<and> v = Some (?C (ba_index a))" for a v
    unfolding group_addresses_flatten by (cases a) (auto simp: ch image_iff Bex_def)
  show ?thesis
    using red p unfolding redirected_def map_of_graph [OF ga] by (auto simp: prepared_def)
qed

text \<open>The stored blocks after the write are still among the known ones.\<close>

lemma wrote_known:
  assumes p: "prepared d ino s data w prev pre" and wrote: "wrote ino [w] prev pre d d'"
    and results: "\<And>x. after_write d ino s data x \<in> known"
  shows "stored_known X known d'"
proof -
  obtain nb all where new: "all_new_blocks (calc_hash X) bsz pre prev [w] = (nb, all)" by (cases "all_new_blocks (calc_hash X) bsz pre prev [w]")
  have nb: "b \<in> known" if "(h, b) \<in> set nb" for h b
  proof -
    have "(h, b) \<in> (\<lambda>(x, c). (calc_hash X c, c)) ` set (new_content bsz pre prev w)"
      using that subsetD [OF all_new_blocks_data [of "calc_hash X" bsz pre prev w]] new by simp
    then show ?thesis using results by (auto simp: new_content_prepared [OF p])
  qed
  have "block_of_hash nb h \<in> known" if h: "h \<in> fst ` set (groups_of (drop_unchanged prev all))" for h
  proof -
    obtain ids where ids: "(h, ids) \<in> set (groups_of (drop_unchanged prev all))" using h by auto
    moreover have "(h, ids) \<in> set (group_by_hash (mo_indices (txn_order Y) (drop_unchanged prev all)))"
      using ids order_multi(1) by (metis set_mset_mset)
    then have "ids \<noteq> []" using group_by_hash_nonempty by fastforce
    then obtain x where "x \<in> set ids" by (cases ids) auto
    ultimately have "(x, h) \<in> set (flatten (groups_of (drop_unchanged prev all)))" by (auto simp: flatten_def)
    then have "(x, h) \<in> set (drop_unchanged prev all)" using groups_of_flatten by (metis set_mset_mset)
    then have "(x, h) \<in> set all" by (auto simp: drop_unchanged_def)
    moreover have "published (calc_hash X) (nb, all)" using all_new_blocks_published [of "calc_hash X" bsz pre prev "[w]"] new by simp
    ultimately have "map_of nb h \<noteq> None" by (auto simp: published_def)
    then show ?thesis using nb map_of_SomeD by (fastforce simp: block_of_hash_def)
  qed
  moreover have "data_from nb (groups_of (drop_unchanged prev all)) d d'" using wrote new by (simp add: wrote_def Let_def)
  moreover have "stored_known X known d" using p by (simp add: prepared_def)
  ultimately show ?thesis unfolding data_from_def stored_known_def by blast
qed

lemma wrote_blocks:
  assumes p: "prepared d ino s data w prev pre" and wrote: "wrote ino [w] prev pre d d'" and clean': "clean X d'"
    and results: "\<And>x. after_write d ino s data x \<in> known"
  shows "block_at X d' i x = (if i = ino then after_write d ino s data x else block_at X d i x)"
proof -
  have clean: "clean X d" and stored: "stored_known X known d" and inj: "inj_on (calc_hash X) known"
    using p by (simp_all add: prepared_def)
  have stored': "stored_known X known d'" by (rule wrote_known [OF p wrote results])
  have sound: "blocks_sound X d" "blocks_sound X d'" and present: "blocks_present X d" "blocks_present X d'"
    and oks: "store_ok X d" "store_ok X d'" using clean clean' by (simp_all add: clean_def block_inv_def)
  have at: "block_at X d' i x = b" if h: "block_hash_at X d' \<lparr>ba_ino = i, ba_index = x\<rparr> = Some (calc_hash X b)"
    and b: "b \<in> known" for b
  proof -
    obtain b' where b': "block_data_of X d' (calc_hash X b) = Some b'" using present(2) h by (auto simp: blocks_present_def)
    then have "b' = b" using same_block [OF inj sound(2) stored' calc_hash_ok b' b] by simp
    then show ?thesis using h b' by (simp add: block_at_def)
  qed
  show ?thesis
  proof (cases "i = ino \<and> piece bsz s data (unat (block_raw x)) \<noteq> []")
    case True
    then show ?thesis using at results wrote_hashes [OF p wrote, of i x] by simp
  next
    case False
    then have same: "block_hash_at X d' \<lparr>ba_ino = i, ba_index = x\<rparr> = block_hash_at X d \<lparr>ba_ino = i, ba_index = x\<rparr>"
      using wrote_hashes [OF p wrote, of i x] by auto
    have "block_at X d' i x = block_at X d i x"
    proof (cases "block_hash_at X d \<lparr>ba_ino = i, ba_index = x\<rparr>")
      case None
      then show ?thesis using same by (simp add: block_at_def)
    next
      case (Some h)
      obtain b where b: "block_data_of X d h = Some b" using present(1) Some by (auto simp: blocks_present_def)
      have "hash_ok X h" using Some oks(1) by (simp add: store_ok_def)
      then have "calc_hash X b = h" "b \<in> known" using b sound(1) stored by (auto simp: blocks_sound_def stored_known_def)
      moreover have "block_at X d i x = b" using Some b by (simp add: block_at_def)
      ultimately show ?thesis using at [of b] same Some by simp
    qed
    then show ?thesis using False by (auto simp: written_block_def)
  qed
qed

text \<open>Reading the old block map of the write.\<close>

lemma read_prev:
  fixes start :: u64 and data :: bytes
  defines "w \<equiv> get_irregular_start_and_rest (cfg_block_size (tx_fs_config X)) start data"
  assumes ok: "store_ok X d" and data: "data \<noteq> []"
    and bound: "unat start + length data < 2 ^ 64" and last: "(unat start + length data) div bsz + 10241 < 2 ^ 64"
  shows "triple sok sdb (if_inode_read_block_hashes_block_range (txn_hash_fs Y) ino [get_range w])
    (\<lambda>r d'. d' = d \<and> (\<forall>m. r = Some m \<longrightarrow> map_ok m \<and>
        m = (\<lambda>x. if piece bsz (unat start) data (unat (block_raw x)) = [] then None else block_hash_at X d \<lparr>ba_ino = ino, ba_index = x\<rparr>))
      \<and> (r = None \<longrightarrow> False)) (\<lambda>d'. d' = d) d"
proof -
  let ?rs = "map (\<lambda>(a, b). (block_raw a, block_raw b)) [get_range w]"
  let ?s = "unat start" and ?q = "(unat start + length data - 1) div bsz"
  have bs0: "cfg_block_size (tx_fs_config X) \<noteq> 0" using bsz_pos by auto
  have range: "get_range w = (BlockIndex (start div cfg_block_size (tx_fs_config X)), BlockIndex (of_nat ?q + 1))"
    unfolding w_def by (rule split_write_range [OF bs0 bound data])
  have q: "?q \<le> (?s + length data) div bsz" by (intro div_le_mono) simp
  have hi: "unat (of_nat ?q + 1 :: u64) = Suc ?q"
    using q last unat_add_of_nat_u64 [of 1 ?q] by (simp add: add.commute)
  have mem: "in_ranges ?rs x \<longleftrightarrow> piece bsz ?s data (unat x) \<noteq> []" for x
  proof -
    have "in_ranges ?rs x \<longleftrightarrow> ?s div bsz \<le> unat x \<and> unat x \<le> ?q"
      unfolding range using hi by (simp add: in_ranges_def word_le_nat_alt word_less_nat_alt unat_div less_Suc_eq_le)
    also have "\<dots> \<longleftrightarrow> ?s < Suc (unat x) * bsz \<and> unat x * bsz < ?s + length data"
    proof -
      have "?s div bsz \<le> unat x \<longleftrightarrow> ?s < Suc (unat x) * bsz"
        using bsz_pos by (simp only: less_Suc_eq_le [symmetric] div_less_iff_less_mult)
      moreover have "unat x \<le> ?q \<longleftrightarrow> unat x * bsz \<le> ?s + length data - 1" using bsz_pos by (rule less_eq_div_iff_mult_less_eq)
      moreover have "0 < length data" using data by simp
      ultimately show ?thesis by linarith
    qed
    also have "\<dots> \<longleftrightarrow> piece bsz ?s data (unat x) \<noteq> []" using data bsz_pos by (auto simp: piece_empty_iff)
    finally show ?thesis .
  qed
  have "unat x + 10241 < 2 ^ 64" if "in_ranges ?rs x" for x
  proof -
    have "unat x * bsz \<le> ?s + length data" using that unfolding mem by (auto simp: piece_empty_iff)
    then have "unat x \<le> (?s + length data) div bsz" using bsz_pos by (simp add: less_eq_div_iff_mult_less_eq)
    then show ?thesis using last by simp
  qed
  then have "\<forall>x. in_ranges ?rs x \<longrightarrow> unat x + 10241 < 2 ^ 64" by blast
  note read = block_ranges [OF ok this, of ino]
  have "ranges_map d ino ?rs = (\<lambda>x. if piece bsz ?s data (unat (block_raw x)) = [] then None else block_hash_at X d \<lparr>ba_ino = ino, ba_index = x\<rparr>)"
    by (simp only: ranges_map_def mem) (simp add: fun_eq_iff)
  then show ?thesis
    by (intro triple_weaken [OF read]) (use ok in \<open>auto simp: store_ok_def split: if_splits\<close>)
qed

text \<open>One write, from the bytes before to the bytes after.\<close>

definition bytes_written :: "storage_ino \<Rightarrow> nat \<Rightarrow> bytes \<Rightarrow> kv \<Rightarrow> kv \<Rightarrow> bool" where
  "bytes_written ino s data d d' \<longleftrightarrow> (\<forall>i x. block_at X d' i x = (if i = ino then after_write d ino s data x else block_at X d i x))"

lemma single_write_twp:
  fixes start :: u64
  assumes clean: "clean X d" and chunked: "cfg_chunked_block_upload (tx_fs_config X)" and data: "data \<noteq> []"
    and bound: "unat start + length data < 2 ^ 64" and last: "(unat start + length data) div bsz + 10241 < 2 ^ 64"
    and inj: "inj_on (calc_hash X) known" and small: "\<forall>b \<in> known. length b \<le> bsz"
    and stored: "stored_known X known d" and results: "\<And>x. after_write d ino (unat start) data x \<in> known"
  shows "twp (hb_write_data Y env ino [\<lparr>wtd_data = data, wtd_start = start\<rparr>])
    (\<lambda>r d'. r \<noteq> None \<and> clean X d' \<and> stored_known X known d' \<and> bytes_written ino (unat start) data d d') (block_inv X) d"
proof -
  let ?w = "get_irregular_start_and_rest (cfg_block_size (tx_fs_config X)) start data"
  let ?P = "\<lambda>m. m = (\<lambda>x. if piece bsz (unat start) data (unat (block_raw x)) = [] then None else block_hash_at X d \<lparr>ba_ino = ino, ba_index = x\<rparr>)"
  have bs0: "cfg_block_size (tx_fs_config X) \<noteq> 0" using bsz_pos by auto
  have ok: "store_ok X d" using clean by (simp add: clean_def block_inv_def)
  have prep: "prepared d ino (unat start) data ?w prev pre" if "?P prev" "read_before [?w] prev pre d" for prev pre
    using that clean stored inj small bound split_write_ok [OF bs0 bound] by (simp add: prepared_def)
  have news: "b \<in> known" if "?P prev" "read_before [?w] prev pre d" "(h, b) \<in> set (fst (all_new_blocks (calc_hash X) bsz pre prev [?w]))" for prev pre h b
  proof -
    have "(h, b) \<in> (\<lambda>(x, c). (calc_hash X c, c)) ` set (new_content bsz pre prev ?w)"
      using subsetD [OF all_new_blocks_data that(3)] .
    then show ?thesis using results by (auto simp: new_content_prepared [OF prep [OF that(1,2)]])
  qed
  have eq: "map (\<lambda>j. get_irregular_start_and_rest (cfg_block_size (tx_fs_config X)) (wtd_start j) (wtd_data j))
      [\<lparr>wtd_data = data, wtd_start = start\<rparr>] = [?w]" by simp
  have "twp (hb_write_data Y env ino [\<lparr>wtd_data = data, wtd_start = start\<rparr>])
    (\<lambda>r d'. case r of None \<Rightarrow> d' = d \<and> False | Some _ \<Rightarrow> clean X d' \<and> (\<exists>prev pre. ?P prev \<and> map_ok prev \<and> read_before [?w] prev pre d
       \<and> wrote ino [?w] prev pre d d')) (block_inv X) d"
    using hb_write_data_twp [OF clean chunked _ stored, of "[\<lparr>wtd_data = data, wtd_start = start\<rparr>]" ?P ino False env]
      bound read_prev [OF ok data bound last, of ino] news unfolding eq by simp
  then show ?thesis
  proof (rule twp_weaken)
    fix r :: "bool option" and d'
    assume "case r of None \<Rightarrow> d' = d \<and> False | Some _ \<Rightarrow> clean X d' \<and> (\<exists>prev pre. ?P prev \<and> map_ok prev \<and> read_before [?w] prev pre d
       \<and> wrote ino [?w] prev pre d d')"
    then obtain prev pre where r: "r \<noteq> None" and c: "clean X d'" and p: "?P prev" "read_before [?w] prev pre d" and w: "wrote ino [?w] prev pre d d'"
      by (cases r) auto
    from wrote_blocks [OF prep [OF p] w c results] wrote_known [OF prep [OF p] w results] r c
    show "r \<noteq> None \<and> clean X d' \<and> stored_known X known d' \<and> bytes_written ino (unat start) data d d'"
      by (simp add: bytes_written_def)
  qed simp
qed

end

section \<open>Properties\<close>

text \<open>
  C1. A write changes exactly the bytes it is given. When \<open>hb_write_data\<close> succeeds on one job,
  every byte of the written range of the file is the byte of the data, and every other byte, of
  this file and of all others, is what it was; where a partial block had to be completed, the
  missing bytes are zero. The hypotheses are that the store is consistent, that the blocks in
  play (stored, cached, and the results of the write) are at most as long as a block and have
  different hashes, and that the block indices stay below the end of the index space. A failed
  write leaves the invariant of the block store intact.
\<close>

theorem write_changes_exactly_the_bytes:
  fixes start :: u64
  assumes "file_store T ok db view X Y holds snap" and "ok w" and "cache_ok X holds S c" and "clean X (db w)"
    and "cfg_chunked_block_upload (tx_fs_config X)" and "data \<noteq> []" and "unat start + length data < 2 ^ 64"
    and "(unat start + length data) div unat (cfg_block_size (tx_fs_config X)) + 10241 < 2 ^ 64"
    and "inj_on (calc_hash X) S" and "\<forall>b \<in> S. length b \<le> unat (cfg_block_size (tx_fs_config X))"
    and "stored_known X S (db w)"
    and "\<And>i. written_block (unat (cfg_block_size (tx_fs_config X))) (unat start) data (block_at X (db w) ino i) (unat (block_raw i)) \<in> S"
  shows "case hb_write_data Y env ino [\<lparr>wtd_data = data, wtd_start = start\<rparr>] (w, c) of
      (Inr r, (w', c')) \<Rightarrow> r \<noteq> None \<and> (\<forall>i p. p < 2 ^ 64 \<longrightarrow> byte_at X (db w') i p =
        (if i = ino \<and> unat start \<le> p \<and> p < unat start + length data then data ! (p - unat start) else byte_at X (db w) i p))
    | (Inl e, (w', c')) \<Rightarrow> block_inv X (db w')"
proof -
  note fs = file_store.contract [OF assms(1)]
  let ?b = "unat (cfg_block_size (tx_fs_config X))"
  obtain r w' c' where run: "hb_write_data Y env ino [\<lparr>wtd_data = data, wtd_start = start\<rparr>] (w, c) = (r, (w', c'))"
    by (cases "hb_write_data Y env ino [\<lparr>wtd_data = data, wtd_start = start\<rparr>] (w, c)") auto
  from file_contract.twpD [OF fs file_contract.single_write_twp [OF fs assms(4-8,9-12)] assms(2,3) run]
  have out: "case r of Inr r \<Rightarrow> r \<noteq> None \<and> clean X (db w') \<and> stored_known X S (db w')
      \<and> file_contract.bytes_written X ino (unat start) data (db w) (db w') | Inl e \<Rightarrow> block_inv X (db w')" by blast
  have pos: "0 < ?b" by (rule file_contract.bsz_pos [OF fs])
  have "byte_at X (db w') i p =
      (if i = ino \<and> unat start \<le> p \<and> p < unat start + length data then data ! (p - unat start) else byte_at X (db w) i p)"
    if "file_contract.bytes_written X ino (unat start) data (db w) (db w')" "p < 2 ^ 64" for i p
  proof -
    have "unat (of_nat (p div ?b) :: u64) = p div ?b"
      using le_less_trans [OF div_le_dividend that(2), of ?b] by (simp add: unat_of_nat)
    then show ?thesis
      using that(1) nth_written_block [OF pos, of "unat start" data _ p]
      unfolding file_contract.bytes_written_def [OF fs] by (simp add: byte_at_def Let_def)
  qed
  then show ?thesis using out run by (cases r) auto
qed

lemma sample_inode_blocks: "block_at sample_txn (mem_content (sample_inode_store faults)) ino i = []"
proof -
  have "block_hash_at sample_txn (mem_content (sample_inode_store faults)) a = None" for a
    using memfs.K_eq [of "LK_BlockHash a" "LK_Inode (StorageIno 10) Size"]
    by (simp add: sample_inode_store_def mem_with_content block_hash_at_def sample_txn_def)
  then show ?thesis by (simp add: block_at_def)
qed

lemma sample_block_size: "cfg_block_size (tx_fs_config sample_txn) = 4" "cfg_chunked_block_upload (tx_fs_config sample_txn)"
  by (simp_all add: sample_txn_def sample_config_def from_options_def config_defaults_def config_or_fail_def bind_result_def)

definition sample_blocks :: "bytes set" where
  "sample_blocks = {[], [0, 0, 1, 2], [3, 4, 5]}"

lemma sample_results: "written_block 4 2 [1, 2, 3, 4, 5] [] i \<in> sample_blocks"
proof -
  consider "i = 0" | "i = 1" | "2 \<le> i" by linarith
  then show ?thesis
  proof cases
    case 3
    then have "8 \<le> i * 4" by simp
    then have "piece 4 2 [1, 2, 3, 4, 5] i = []" by (simp add: piece_empty_iff)
    then show ?thesis by (simp add: written_block_def sample_blocks_def)
  qed (simp_all add: written_block_def piece_def sample_blocks_def update_data_range_in_vec_def copy_into_def resize_zero_def numeral_2_eq_2)
qed

lemma sample_blocks_distinct: "inj_on (calc_hash sample_txn) sample_blocks"
proof -
  have zeros: "replicate 32 (0 :: u8) = 0 # 0 # 0 # replicate 29 0" "replicate 29 (0 :: u8) = 0 # replicate 28 0"
    by (simp_all add: numeral_eq_Suc)
  show ?thesis
    by (simp add: sample_blocks_def inj_on_def sample_txn_def sample_ext_def sample_digest_def calculate_hash_def
        sample_config_def from_options_def config_defaults_def config_or_fail_def bind_result_def zeros)
qed

lemma sample_stored_known: "stored_known sample_txn S (mem_content (sample_inode_store faults))"
proof -
  have "block_data_of sample_txn (mem_content (sample_inode_store faults)) h = None" if "hash_ok sample_txn h" for h
    using memfs.K_eq [of "LK_HashedBlock h" "LK_Inode (StorageIno 10) Size"] that
    by (simp add: block_data_of_def sample_inode_store_def mem_with_content sample_txn_def)
  then show ?thesis by (simp add: stored_known_def)
qed

theorem write_changes_exactly_the_bytes_witness:
  "case hb_write_data sample_file_txn (\<lambda>_. \<lparr>env_now = (\<lambda>_. 0), env_uuid = 0, env_fuel = 0\<rparr>) (StorageIno 10)
      [\<lparr>wtd_data = [1, 2, 3, 4, 5], wtd_start = 2\<rparr>] (sample_inode_store [], []) of
    (Inr r, (w', c')) \<Rightarrow> r \<noteq> None \<and> byte_at sample_txn (mem_content w') (StorageIno 10) 3 = 2
      \<and> byte_at sample_txn (mem_content w') (StorageIno 10) 1 = 0
  | (Inl e, (w', c')) \<Rightarrow> block_inv sample_txn (mem_content w')"
proof -
  note sample_blocks_distinct
  moreover have "\<forall>b \<in> sample_blocks. length b \<le> 4" by (simp add: sample_blocks_def)
  moreover note sample_stored_known
  moreover have "mem_ok (sample_inode_store [])" by (simp add: sample_inode_store_def)
  moreover have "byte_at sample_txn (mem_content (sample_inode_store [])) (StorageIno 10) 1 = 0"
    by (simp add: byte_at_def sample_inode_blocks nth_or_zero_def)
  moreover obtain r w' c' where run: "hb_write_data sample_file_txn (\<lambda>_. \<lparr>env_now = (\<lambda>_. 0), env_uuid = 0, env_fuel = 0\<rparr>) (StorageIno 10)
      [\<lparr>wtd_data = [1, 2, 3, 4, 5], wtd_start = 2\<rparr>] (sample_inode_store [], []) = (r, (w', c'))" by (metis surj_pair)
  moreover note write_changes_exactly_the_bytes [OF memfile.file_store_axioms _ _ sample_inode_store_clean,
        of "[]" sample_blocks "[]" "[1, 2, 3, 4, 5]" 2 "StorageIno 10" "\<lambda>_. \<lparr>env_now = (\<lambda>_. 0), env_uuid = 0, env_fuel = 0\<rparr>",
        unfolded sample_inode_blocks sample_block_size(1), simplified run prod.case]
  ultimately show ?thesis
    using sample_results sample_block_size(2) by (cases r) (simp_all add: cache_ok_def)
qed

end
