(* ===== verification/File_Read.thy ===== *)
theory File_Read
  imports File_Content
begin

text \<open>
  Reading data: the hashes of the blocks of the range are read, their data comes from the cache
  or the store, and the requested part is cut out. A read returns the bytes of the file up to
  the end of the last block of the range; after a write it returns what was written.
\<close>

section \<open>A file from its blocks\<close>

definition blocks_joined :: "nat \<Rightarrow> (nat \<Rightarrow> bytes) \<Rightarrow> nat \<Rightarrow> nat \<Rightarrow> bytes" where
  "blocks_joined b f q k = replicate (q * b) 0 @ concat (map f [q..<Suc (q + k)])"

lemma drop_joined:
  assumes "\<forall>i. q \<le> i \<longrightarrow> i < q + k \<longrightarrow> length (f i) = b" and "m \<le> k"
  shows "drop (m * b) (concat (map f [q..<Suc (q + k)])) = concat (map f [q + m..<Suc (q + k)])"
  using assms(2)
proof (induction m)
  case (Suc m)
  have "drop (Suc m * b) (concat (map f [q..<Suc (q + k)])) = drop b (drop (m * b) (concat (map f [q..<Suc (q + k)])))"
    by (simp only: drop_drop mult_Suc)
  also have "\<dots> = drop b (concat (map f [q + m..<Suc (q + k)]))" using Suc by simp
  also have "[q + m..<Suc (q + k)] = (q + m) # [q + Suc m..<Suc (q + k)]" using Suc.prems by (subst upt_conv_Cons) simp_all
  also have "drop b (concat (map f \<dots>)) = concat (map f [q + Suc m..<Suc (q + k)])" using assms(1) Suc.prems by simp
  finally show ?case .
qed simp

lemma block_of_joined:
  assumes full: "\<forall>i. q \<le> i \<longrightarrow> i < q + k \<longrightarrow> length (f i) = b" and last: "length (f (q + k)) \<le> b" and m: "m \<le> k"
  shows "block_of (blocks_joined b f q k) b (q + m) = f (q + m)"
proof -
  have "drop ((q + m) * b) (blocks_joined b f q k) = drop (m * b) (concat (map f [q..<Suc (q + k)]))"
    by (simp add: blocks_joined_def add_mult_distrib del: upt_Suc)
  also have "\<dots> = f (q + m) @ concat (map f [q + Suc m..<Suc (q + k)])"
    unfolding drop_joined [OF full m] using m by (subst upt_conv_Cons) simp_all
  finally have "block_of (blocks_joined b f q k) b (q + m) = take b (f (q + m) @ concat (map f [q + Suc m..<Suc (q + k)]))"
    by (simp add: block_of_def)
  then show ?thesis using full last m by (cases "m = k") (simp_all del: upt_Suc)
qed

lemma length_joined:
  assumes "\<forall>i. q \<le> i \<longrightarrow> i < q + k \<longrightarrow> length (f i) = b"
  shows "length (blocks_joined b f q k) = (q + k) * b + length (f (q + k))"
proof -
  have "length (concat (map f [q..<q + m])) = m * b" if "m \<le> k" for m
    using that assms by (induction m) simp_all
  then show ?thesis by (simp add: blocks_joined_def algebra_simps)
qed

lemma nth_joined:
  assumes full: "\<forall>i. q \<le> i \<longrightarrow> i < q + k \<longrightarrow> length (f i) = b" and last: "length (f (q + k)) \<le> b" and pos: "0 < b"
    and p: "q * b \<le> p" "p < (q + k) * b + length (f (q + k))"
  shows "blocks_joined b f q k ! p = nth_or_zero (f (p div b)) (p mod b)"
proof -
  have "q \<le> p div b" using p(1) pos by (simp add: less_eq_div_iff_mult_less_eq)
  moreover have "p div b \<le> q + k"
  proof -
    have "p < Suc (q + k) * b" using p(2) last unfolding mult_Suc by linarith
    then show ?thesis using pos by (simp only: less_Suc_eq_le [symmetric] div_less_iff_less_mult)
  qed
  ultimately obtain m where m: "p div b = q + m" "m \<le> k" by (metis le_add_diff_inverse nat_add_left_cancel_le)
  have b: "take b (drop (p div b * b) (blocks_joined b f q k)) = f (p div b)"
    using block_of_joined [OF full last m(2)] unfolding m(1) block_of_def .
  have eq: "p div b * b + p mod b = p" and j: "p mod b < b" using pos by simp_all
  have "p < length (blocks_joined b f q k)" using p(2) length_joined [OF full] by simp
  then have jl: "p mod b < length (drop (p div b * b) (blocks_joined b f q k))" using eq unfolding length_drop by linarith
  then have "f (p div b) ! (p mod b) = blocks_joined b f q k ! p" using j eq unfolding b [symmetric] by simp
  moreover have "p mod b < length (f (p div b))" using jl j unfolding b [symmetric] by simp
  ultimately show ?thesis by (simp add: nth_or_zero_def)
qed

section \<open>Reading through the cache\<close>

lemma block_map_values_mem:
  assumes "lo \<le> i" and "i < hi" and "m (BlockIndex (of_nat i)) = Some h"
  shows "h \<in> set (block_map_values lo hi m)"
proof -
  have "i \<in> set (filter (\<lambda>i. m (BlockIndex (of_nat i)) \<noteq> None) [lo..<hi])" using assms by simp
  moreover have "h = the (m (BlockIndex (of_nat i)))" using assms(3) by simp
  ultimately show ?thesis
    unfolding block_map_values_def map_filter_def set_remdups set_map comp_def by blast
qed

context file_contract
begin

abbreviation file_block :: "kv \<Rightarrow> storage_ino \<Rightarrow> nat \<Rightarrow> bytes" where
  "file_block d ino i \<equiv> block_at X d ino (BlockIndex (of_nat i))"

text \<open>The blocks that are found are the blocks of the file.\<close>

lemma found_blocks:
  assumes clean: "clean X d" and stored: "stored_known X known d" and inj: "inj_on (calc_hash X) known"
    and found: "\<forall>h b. map_of r h = Some b \<longrightarrow> h \<in> set hs \<and> block_good X known h b"
      "\<forall>h \<in> set hs. block_data_of X d h \<noteq> None \<longrightarrow> map_of r h \<noteq> None"
    and hs: "\<And>h. m (BlockIndex (of_nat i)) = Some h \<Longrightarrow> h \<in> set hs"
    and m: "m (BlockIndex (of_nat i)) = block_hash_at X d \<lparr>ba_ino = ino, ba_index = BlockIndex (of_nat i)\<rparr>"
  shows "lookup_block m (map_of r) (of_nat i) = file_block d ino i"
proof (cases "m (BlockIndex (of_nat i))")
  case None
  then show ?thesis using m by (simp add: lookup_block_def block_at_def)
next
  case (Some h)
  have inv: "store_ok X d" "blocks_present X d" "blocks_sound X d" using clean by (simp_all add: clean_def block_inv_def)
  have hok: "hash_ok X h" using inv(1) Some m by (simp add: store_ok_def)
  obtain b where b: "block_data_of X d h = Some b" using inv(2) Some m by (auto simp: blocks_present_def)
  obtain b' where b': "map_of r h = Some b'" "block_good X known h b'" using found b hs [OF Some] by fastforce
  then have "b = b'" using same_block [OF inj inv(3) stored hok b] by blast
  then show ?thesis using Some m b b' by (simp add: lookup_block_def block_at_def)
qed

lemma div_ceil_last:
  fixes start n :: u64
  assumes "unat start + unat n < 2 ^ 64" and "n \<noteq> 0"
  shows "unat (div_ceil (start + n) (cfg_block_size (tx_fs_config X))) = Suc ((unat start + unat n - 1) div bsz)"
proof -
  have "0 < unat n" using assms(2) by (simp add: unat_gt_0)
  then have "unat start + unat n + bsz - 1 = unat start + unat n - 1 + bsz" by simp
  then have "(unat start + unat n + bsz - 1) div bsz = Suc ((unat start + unat n - 1) div bsz)"
    by (simp only:) (subst div_add_self2, use bsz_pos in auto)
  moreover have "cfg_block_size (tx_fs_config X) \<noteq> 0" using bsz_pos by auto
  moreover have "unat (start + n) = unat start + unat n" using assms(1) by (simp add: unat_word_ariths)
  ultimately show ?thesis by (simp add: unat_div_ceil)
qed

text \<open>What is cut out of the blocks of the file.\<close>

lemma read_from_file_blocks:
  fixes start n :: u64
  defines "s \<equiv> unat start" and "q \<equiv> (unat start + unat n - 1) div bsz"
  assumes small: "\<forall>i. length (file_block d ino i) \<le> bsz"
    and bound: "unat start + unat n < 2 ^ 64"
    and full: "\<forall>i. s div bsz \<le> i \<longrightarrow> i < q \<longrightarrow> length (file_block d ino i) = bsz"
    and sp: "block_splitter_read_new (cfg_block_size (tx_fs_config X)) start n = Some sp"
    and found: "\<And>i. s div bsz \<le> i \<Longrightarrow> i \<le> q \<Longrightarrow> n \<noteq> 0 \<Longrightarrow> lookup_block m bd (of_nat i) = file_block d ino i"
  shows "hb_read_from_blocks sp m bd = Inr (map (byte_at X d ino) [s..<min (s + unat n) (q * bsz + length (file_block d ino q))])"
proof -
  have "cfg_block_size (tx_fs_config X) \<noteq> 0" using bsz_pos by auto
  note spl = read_split_correct [OF this bound sp, folded s_def]
  show ?thesis
  proof (cases "n = 0")
    case True
    then show ?thesis using spl by (simp add: hb_read_from_blocks_def read_split_ok_def)
  next
    case False
    let ?f = "file_block d ino" and ?q0 = "s div bsz"
    let ?file = "blocks_joined bsz ?f ?q0 (q - ?q0)"
    have "0 < unat n" using False by (simp add: unat_gt_0)
    then have le: "?q0 \<le> q" unfolding s_def q_def by (intro div_le_mono) simp
    then have fl: "\<forall>i. ?q0 \<le> i \<longrightarrow> i < ?q0 + (q - ?q0) \<longrightarrow> length (?f i) = bsz" using full by simp
    have la: "length (?f (?q0 + (q - ?q0))) \<le> bsz" by (rule small [rule_format])
    have "lookup_block m bd (of_nat i) = block_of ?file bsz i" if "?q0 \<le> i" "i \<le> q" for i
      using block_of_joined [OF fl la, of "i - ?q0"] found that False by simp
    then have "hb_read_from_blocks sp m bd = Inr (take (unat n) (drop s ?file))"
      using read_from_blocks_of_file [OF spl bsz_pos] unfolding q_def s_def by blast
    moreover have "take (unat n) (drop s ?file) = map (byte_at X d ino) [s..<min (s + unat n) (q * bsz + length (?f q))]"
    proof (rule nth_equalityI)
      have len: "length ?file = q * bsz + length (?f q)" using length_joined [OF fl] le by simp
      have "min (l - s) m = min (s + m) l - s" for l m :: nat by arith
      then show "length (take (unat n) (drop s ?file)) = length (map (byte_at X d ino) [s..<min (s + unat n) (q * bsz + length (?f q))])"
        unfolding length_take length_drop length_map length_upt len by simp
      fix j assume j: "j < length (take (unat n) (drop s ?file))"
      then have p: "s + j < q * bsz + length (?f q)" using len unfolding length_take length_drop by linarith
      have idx: "j < min (s + unat n) (q * bsz + length (?f q)) - s" using j len unfolding length_take length_drop by linarith
      have "?q0 * bsz \<le> s + j" using div_times_less_eq_dividend [of s bsz] by linarith
      then have "?file ! (s + j) = byte_at X d ino (s + j)"
        using nth_joined [OF fl la bsz_pos] p le by (simp add: byte_at_def Let_def)
      then show "take (unat n) (drop s ?file) ! j = map (byte_at X d ino) [s..<min (s + unat n) (q * bsz + length (?f q))] ! j"
        using j p len idx nth_map_upt [of j "min (s + unat n) (q * bsz + length (?f q))" s "byte_at X d ino"] by simp
    qed
    ultimately show ?thesis by simp
  qed
qed

lemma read_data_twp:
  fixes start n :: u64
  defines "s \<equiv> unat start" and "q \<equiv> (unat start + unat n - 1) div bsz"
  assumes clean: "clean X d" and stored: "stored_known X known d" and inj: "inj_on (calc_hash X) known"
    and small: "\<forall>b \<in> known. length b \<le> bsz"
    and bound: "unat start + unat n < 2 ^ 64" and last: "(unat start + unat n) div bsz + 10241 < 2 ^ 64"
    and full: "\<forall>i. s div bsz \<le> i \<longrightarrow> i < q \<longrightarrow> length (file_block d ino i) = bsz"
  shows "twp (hb_read_data Y ino start (Some n))
    (\<lambda>r d'. d' = d \<and> r = Some (map (byte_at X d ino) [s..<min (s + unat n) (q * bsz + length (file_block d ino q))])) (\<lambda>d'. d' = d) d"
  (is "twp _ ?Q ?E d")
proof -
  let ?bs = "cfg_block_size (tx_fs_config X)"
  let ?lo = "start div ?bs" and ?hi = "div_ceil (start + n) ?bs"
  let ?m = "range_map X d ino (BlockIndex ?lo) (BlockIndex ?hi)"
  let ?hs = "block_map_values (unat ?lo) (unat ?hi) ?m"
  have bs0: "?bs \<noteq> 0" using bsz_pos by auto
  have inv: "store_ok X d" "blocks_sound X d" using clean by (simp_all add: clean_def block_inv_def)
  obtain sp where sp: "block_splitter_read_new ?bs start n = Some sp" using bs0 by (simp add: block_splitter_read_new_def Let_def)
  have m_ok: "\<forall>h \<in> set ?hs. hash_ok X h"
    using inv(1) by (auto simp: block_map_values_def map_filter_def range_map_def store_ok_def split: if_splits)
  have lens: "\<forall>i. length (file_block d ino i) \<le> bsz"
    using block_at_known [OF clean stored, of ino] small by (metis le0 list.size(3))
  have read: "twp (of_result (hb_read_from_blocks sp ?m (map_of r))) (\<lambda>result. twp (ret (Some result)) ?Q ?E) ?E d"
    if r: "\<forall>h b. map_of r h = Some b \<longrightarrow> h \<in> set ?hs \<and> block_good X known h b"
      "\<forall>h \<in> set ?hs. block_data_of X d h \<noteq> None \<longrightarrow> map_of r h \<noteq> None" for r
  proof -
    have "lookup_block ?m (map_of r) (of_nat i) = file_block d ino i" if i: "s div bsz \<le> i" "i \<le> q" and n: "n \<noteq> 0" for i
    proof (rule found_blocks [OF clean stored inj r])
      have hi: "unat ?hi = Suc q" unfolding q_def by (rule div_ceil_last [OF bound n])
      have lo: "unat ?lo = s div bsz" by (simp add: unat_div s_def)
      have "i < 2 ^ 64" using i(2) hi unsigned_less [of ?hi, where 'a = nat] by simp
      then have u: "unat (of_nat i :: u64) = i" by (simp add: unat_of_nat)
      show m: "?m (BlockIndex (of_nat i)) = block_hash_at X d \<lparr>ba_ino = ino, ba_index = BlockIndex (of_nat i)\<rparr>"
        using i hi lo u by (simp add: range_map_def less_eq_block_index_def less_block_index_def word_le_nat_alt word_less_nat_alt)
      show "h \<in> set ?hs" if "?m (BlockIndex (of_nat i)) = Some h" for h
        using that i hi lo by (intro block_map_values_mem [of _ i]) simp_all
    qed
    from read_from_file_blocks [OF lens bound full [unfolded s_def q_def] sp, folded s_def q_def, OF this]
    show ?thesis by (intro twp_of_result) (simp, intro twp_ret, simp)
  qed
  have cont: "twp (then_some (ret (Some sp)) (\<lambda>splitter. and_then (hb_get_block_data_by_hashes_cached Y ?hs) (\<lambda>blocks_data.
      and_then (of_result (hb_read_from_blocks splitter ?m (map_of blocks_data))) (\<lambda>result. ret (Some result))))) ?Q ?E d"
    by (rule twp_then_some, rule twp_ret, unfold option.case, rule twp_and_then, rule get_blocks_cached_twp [OF m_ok inv(2) stored])
      (intro twp_and_then read, simp_all)
  show ?thesis
    unfolding hb_read_data_def Let_def txn_cfg option.case sp
    by (rule twp_then_some, rule twp_fs_call, rule triple_weaken [OF data_range [OF inv(1) bound last]]) (auto intro: cont)
qed

end

section \<open>Reading what was written\<close>

lemma length_written_block:
  assumes "piece b s data i \<noteq> []"
  shows "length (written_block b s data old i) = max (length old) (min (s + length data) (Suc i * b) - i * b)"
proof -
  let ?lo = "max s (i * b)" and ?hi = "min (s + length data) (Suc i * b)"
  have len: "length (piece b s data i) = ?hi - ?lo" by (simp add: piece_def)
  then have "0 < ?hi - ?lo" using assms unfolding len [symmetric] by simp
  then have "?lo < ?hi" by (simp only: zero_less_diff)
  moreover have "lo < hi \<Longrightarrow> x \<le> lo \<Longrightarrow> lo - x + (hi - lo) = hi - x" for x lo hi :: nat by simp
  ultimately have "?lo - i * b + (?hi - ?lo) = ?hi - i * b" by (metis max.cobounded2)
  then show ?thesis using assms by (simp add: written_block_def length_update len)
qed

context file_contract
begin

lemma written_filled:
  fixes start :: u64 and data :: bytes
  defines "s \<equiv> unat start" and "q \<equiv> (unat start + length data - 1) div bsz"
  assumes bw: "bytes_written ino s data d d'" and data: "data \<noteq> []" and bound: "s + length data < 2 ^ 64"
    and clean: "clean X d'" and stored: "stored_known X known d'" and small: "\<forall>b \<in> known. length b \<le> bsz"
  shows "\<forall>i. s div bsz \<le> i \<longrightarrow> i < q \<longrightarrow> length (file_block d' ino i) = bsz"
    and "s + length data \<le> q * bsz + length (file_block d' ino q)"
proof -
  have n: "0 < length data" using data by simp
  have q: "q * bsz \<le> s + length data - 1" unfolding q_def s_def by simp
  have at: "length (file_block d' ino i) = max (length (file_block d ino i)) (min (s + length data) (Suc i * bsz) - i * bsz)"
    if i: "s div bsz \<le> i" "i \<le> q" for i
  proof -
    have "i \<le> i * bsz" using bsz_pos by simp
    also have ib: "i * bsz \<le> q * bsz" using i(2) by simp
    finally have "i < 2 ^ 64" using q bound by linarith
    then have u: "unat (of_nat i :: u64) = i" by (simp add: unat_of_nat)
    have "s < Suc i * bsz" using i(1) bsz_pos by (simp only: less_Suc_eq_le [symmetric] div_less_iff_less_mult)
    then have "piece bsz s data i \<noteq> []" using ib q n bsz_pos unfolding piece_empty_iff by linarith
    then show ?thesis using bw u length_written_block by (simp add: bytes_written_def)
  qed
  have lens: "length (file_block d' ino i) \<le> bsz" for i
    using block_at_known [OF clean stored, of ino] small by (metis le0 list.size(3))
  show "\<forall>i. s div bsz \<le> i \<longrightarrow> i < q \<longrightarrow> length (file_block d' ino i) = bsz"
  proof (intro allI impI)
    fix i assume i: "s div bsz \<le> i" "i < q"
    then have "Suc i * bsz \<le> q * bsz" by (intro mult_right_mono) simp_all
    then have "min (s + length data) (Suc i * bsz) - i * bsz = bsz" using q by simp
    then show "length (file_block d' ino i) = bsz" using at [OF i(1)] lens [of i] i(2) by simp
  qed
  have "s div bsz \<le> q" unfolding q_def s_def using n by (intro div_le_mono) linarith
  from at [OF this] have "min (s + length data) (Suc q * bsz) - q * bsz \<le> length (file_block d' ino q)" by simp
  moreover have "s + length data \<le> Suc q * bsz"
    using dividend_less_times_div [OF bsz_pos, of "s + length data - 1"] n unfolding q_def s_def by (simp add: mult.commute)
  ultimately show "s + length data \<le> q * bsz + length (file_block d' ino q)" by (simp add: min_absorb1)
qed

lemma bytes_written_map:
  assumes "bytes_written ino s data d d'" and "s + length data < 2 ^ 64"
  shows "map (byte_at X d' ino) [s..<s + length data] = data"
proof (rule nth_equalityI)
  fix j assume "j < length (map (byte_at X d' ino) [s..<s + length data])"
  then have j: "j < length data" by simp
  then have "unat (of_nat ((s + j) div bsz) :: u64) = (s + j) div bsz"
    using le_less_trans [OF div_le_dividend, of "s + j" "2 ^ 64" bsz] assms(2) by (simp add: unat_of_nat)
  then have "byte_at X d' ino (s + j) = data ! j"
    using assms(1) nth_written_block [OF bsz_pos, of s data _ "s + j"] j by (simp add: byte_at_def Let_def bytes_written_def)
  then show "map (byte_at X d' ino) [s..<s + length data] ! j = data ! j" using j by simp
qed simp

end

text \<open>A write that succeeds and a read of the same range after it.\<close>

lemma write_then_read:
  fixes start :: u64
  assumes "file_contract T ok db view X Y holds sok sdb" and "sok w" and "cache_ok X holds S c" and "clean X (sdb w)"
    and "cfg_chunked_block_upload (tx_fs_config X)" and "data \<noteq> []" and "unat start + length data < 2 ^ 64"
    and "(unat start + length data) div unat (cfg_block_size (tx_fs_config X)) + 10241 < 2 ^ 64"
    and "inj_on (calc_hash X) S" and "\<forall>b \<in> S. length b \<le> unat (cfg_block_size (tx_fs_config X))"
    and "stored_known X S (sdb w)"
    and "\<And>i. written_block (unat (cfg_block_size (tx_fs_config X))) (unat start) data (block_at X (sdb w) ino i) (unat (block_raw i)) \<in> S"
    and run: "hb_write_data Y env ino [\<lparr>wtd_data = data, wtd_start = start\<rparr>] (w, c) = (r, (w1, c1))"
    and read: "hb_read_data Y ino start (Some (of_nat (length data))) (w1, c1) = (result, (w2, c2))"
  shows "case r of Inr x \<Rightarrow> sdb w2 = sdb w1 \<and> (\<forall>y. result = Inr y \<longrightarrow> y = Some data) | Inl e \<Rightarrow> block_inv X (sdb w1)"
proof -
  note fs = assms(1)
  let ?n = "of_nat (length data) :: u64"
  have n: "unat ?n = length data" using assms(7) by (simp add: unat_of_nat)
  note out = file_contract.twpD [OF fs file_contract.single_write_twp [OF fs assms(4-12)] assms(2,3) run]
  show ?thesis
  proof (cases r)
    case (Inl e)
    then show ?thesis using out by simp
  next
    case (Inr x)
    then have w1: "sok w1" "cache_ok X holds S c1" "clean X (sdb w1)" "stored_known X S (sdb w1)"
      "file_contract.bytes_written X ino (unat start) data (sdb w) (sdb w1)" using out by simp_all
    note filled = file_contract.written_filled [OF fs w1(5) assms(6,7) w1(3,4) assms(10)]
    note map = file_contract.bytes_written_map [OF fs w1(5) assms(7)]
    have "unat start + unat ?n < 2 ^ 64" "(unat start + unat ?n) div unat (cfg_block_size (tx_fs_config X)) + 10241 < 2 ^ 64"
      using assms(7,8) n by simp_all
    note rd = file_contract.read_data_twp [OF fs w1(3,4) assms(9,10) this, unfolded n, OF filled(1), unfolded min_absorb1 [OF filled(2)] map]
    from file_contract.twpD [OF fs rd w1(1,2) read] show ?thesis using Inr by (cases result) simp_all
  qed
qed

section \<open>Properties\<close>



text \<open>
  C3. What is written can be read: after a successful \<open>hb_write_data\<close> of one job, \<open>hb_read_data\<close>
  of the same range with the cache and store that the write left returns, if no call fails,
  exactly the written data, under the hypotheses under which the write itself is exact.
\<close>

theorem read_after_write:
  fixes start :: u64
  assumes "file_store T ok db view X Y holds snap" and "ok w" and "cache_ok X holds S c" and "clean X (db w)"
    and "cfg_chunked_block_upload (tx_fs_config X)" and "data \<noteq> []" and "unat start + length data < 2 ^ 64"
    and "(unat start + length data) div unat (cfg_block_size (tx_fs_config X)) + 10241 < 2 ^ 64"
    and "inj_on (calc_hash X) S" and "\<forall>b \<in> S. length b \<le> unat (cfg_block_size (tx_fs_config X))"
    and "stored_known X S (db w)"
    and "\<And>i. written_block (unat (cfg_block_size (tx_fs_config X))) (unat start) data (block_at X (db w) ino i) (unat (block_raw i)) \<in> S"
  shows "case hb_write_data Y env ino [\<lparr>wtd_data = data, wtd_start = start\<rparr>] (w, c) of
      (Inr r, (w1, c1)) \<Rightarrow> (case hb_read_data Y ino start (Some (of_nat (length data))) (w1, c1) of
          (Inr result, (w2, c2)) \<Rightarrow> result = Some data \<and> db w2 = db w1
        | (Inl e, (w2, c2)) \<Rightarrow> db w2 = db w1)
    | (Inl e, (w1, c1)) \<Rightarrow> block_inv X (db w1)"
proof -
  let ?n = "of_nat (length data) :: u64"
  obtain r w1 c1 where run: "hb_write_data Y env ino [\<lparr>wtd_data = data, wtd_start = start\<rparr>] (w, c) = (r, (w1, c1))"
    by (metis surj_pair)
  obtain result w2 c2 where read: "hb_read_data Y ino start (Some ?n) (w1, c1) = (result, (w2, c2))" by (metis surj_pair)
  from write_then_read [OF file_store.contract [OF assms(1)] assms(2-) run read] show ?thesis using run read by (cases r; cases result) simp_all
qed

theorem read_after_write_witness:
  "case hb_write_data sample_file_txn (\<lambda>_. \<lparr>env_now = (\<lambda>_. 0), env_uuid = 0, env_fuel = 0\<rparr>) (StorageIno 10)
      [\<lparr>wtd_data = [1, 2, 3, 4, 5], wtd_start = 2\<rparr>] (sample_inode_store [], []) of
    (Inr r, (w1, c1)) \<Rightarrow> (case hb_read_data sample_file_txn (StorageIno 10) 2 (Some 5) (w1, c1) of
        (Inr result, (w2, c2)) \<Rightarrow> result = Some [1, 2, 3, 4, 5] \<and> mem_content w2 = mem_content w1
      | (Inl e, (w2, c2)) \<Rightarrow> mem_content w2 = mem_content w1)
  | (Inl e, (w1, c1)) \<Rightarrow> block_inv sample_txn (mem_content w1)"
proof -
  have "mem_ok (sample_inode_store [])" by (simp add: sample_inode_store_def)
  moreover have "cache_ok sample_txn set sample_blocks []" by (simp add: cache_ok_def)
  moreover have "\<forall>b \<in> sample_blocks. length b \<le> 4" by (simp add: sample_blocks_def)
  moreover have len: "of_nat (length [1, 2, 3, 4, 5 :: u8]) = (5 :: u64)" by simp
  ultimately show ?thesis
    using read_after_write [OF memfile.file_store_axioms _ _ sample_inode_store_clean sample_block_size(2) _ _ _ sample_blocks_distinct
        _ sample_stored_known, of "[]" "[]" "[1, 2, 3, 4, 5]" 2 "StorageIno 10"
          "\<lambda>_. \<lparr>env_now = (\<lambda>_. 0), env_uuid = 0, env_fuel = 0\<rparr>", unfolded sample_inode_blocks sample_block_size(1) len] sample_results
    by simp
qed

end
