(* ===== verification/Tikv_Fs.thy ===== *)
theory Tikv_Fs
  imports Fuse_To_Hashfs
begin

text \<open>
  The file system instance: \<open>tikv_fs.rs\<close>, the file handlers of \<open>file_handler.rs\<close>, the pipe
  stage of \<open>async_parallel_pipe_stage.rs\<close> and the handlers of \<open>tikv_fs_trait_impl.rs\<close> that
  answer FUSE requests, with the reply types of \<open>reply.rs\<close>.

  The state is the world of the hash file system, the block cache, and the tables of the
  instance. A spawned job runs when it is spawned, which is one of the schedules the program
  allows; its result is collected where the program collects it. An \<open>Arc<InoUse>\<close> is alive as
  long as a file handler holds it; when the last one goes, closing the inode is spawned and
  waits in \<open>tm_spawned_closes\<close> until it runs. Operations that may not return have an
  optional result. What the clock and the random generator give is an argument of each call.
  The sets of ranges of the read-ahead and the order of a hash set are parameters.
\<close>

section \<open>Replies\<close>

record file_attr =
  fa_ino :: u64
  fa_size :: u64
  fa_blocks :: u64
  fa_atime :: system_time
  fa_mtime :: system_time
  fa_ctime :: system_time
  fa_crtime :: system_time
  fa_kind :: file_type
  fa_perm :: u16
  fa_nlink :: u32
  fa_uid :: u32
  fa_gid :: u32
  fa_rdev :: u32
  fa_blksize :: u32
  fa_flags :: u32

record entry =
  entry_time :: system_time
  entry_stat :: file_attr
  entry_generation :: u64

record open_reply =
  open_fh :: u64
  open_flags :: u32

record create_reply =
  create_ttl :: system_time
  create_attr :: file_attr
  create_generation :: u64
  create_fh :: u64
  create_flags :: u32

record attr_reply =
  attr_time :: system_time
  attr_attr :: file_attr

datatype xattr = XattrData bytes | XattrSize u32

record dir_item =
  di_ino :: logical_ino
  di_name :: name
  di_typ :: file_type

record dir =
  dir_offset :: nat
  dir_items :: "dir_item list"

definition dir_offset_new :: "nat \<Rightarrow> dir" where
  "dir_offset_new offset = \<lparr>dir_offset = offset, dir_items = []\<rparr>"

definition dir_push :: "dir_item \<Rightarrow> dir \<Rightarrow> dir" where
  "dir_push item d = d\<lparr>dir_items := dir_items d @ [item]\<rparr>"

text \<open>
  \<open>reply_ok\<close> of a directory: entries are added to the buffer of the request, each with the
  offset at which the next request continues, until the buffer is full (\<open>add\<close> gives \<open>None\<close>).
\<close>

fun reply_dir_items ::
  "('b \<Rightarrow> u64 \<times> nat \<times> file_type \<times> name \<Rightarrow> 'b option) \<Rightarrow> nat \<Rightarrow> nat \<Rightarrow> dir_item list \<Rightarrow> 'b \<Rightarrow> 'b" where
  "reply_dir_items add offset index [] buf = buf"
| "reply_dir_items add offset index (item # items) buf =
     (case add buf (logical_ino_to_raw (di_ino item), index + 1 + offset, di_typ item, di_name item) of
        None \<Rightarrow> buf
      | Some buf' \<Rightarrow> reply_dir_items add offset (Suc index) items buf')"

definition reply_dir :: "('b \<Rightarrow> u64 \<times> nat \<times> file_type \<times> name \<Rightarrow> 'b option) \<Rightarrow> dir \<Rightarrow> 'b \<Rightarrow> 'b" where
  "reply_dir add d buf = reply_dir_items add (dir_offset d) 0 (dir_items d) buf"

text \<open>The listing with attributes continues at the offset of the entry itself.\<close>

record dir_plus =
  dp_offset :: nat
  dp_items :: "(dir_item \<times> entry) list"

definition dir_plus_offset_new :: "nat \<Rightarrow> dir_plus" where
  "dir_plus_offset_new offset = \<lparr>dp_offset = offset, dp_items = []\<rparr>"

fun reply_dir_plus_items ::
  "('b \<Rightarrow> u64 \<times> nat \<times> name \<times> entry \<Rightarrow> 'b option) \<Rightarrow> nat \<Rightarrow> nat \<Rightarrow> (dir_item \<times> entry) list \<Rightarrow> 'b \<Rightarrow> 'b" where
  "reply_dir_plus_items add offset index [] buf = buf"
| "reply_dir_plus_items add offset index ((item, entry) # items) buf =
     (case add buf (logical_ino_to_raw (di_ino item), offset + index, di_name item, entry) of
        None \<Rightarrow> buf
      | Some buf' \<Rightarrow> reply_dir_plus_items add offset (Suc index) items buf')"

definition reply_dir_plus :: "('b \<Rightarrow> u64 \<times> nat \<times> name \<times> entry \<Rightarrow> 'b option) \<Rightarrow> dir_plus \<Rightarrow> 'b \<Rightarrow> 'b" where
  "reply_dir_plus add d buf = reply_dir_plus_items add (dp_offset d) 0 (dp_items d) buf"

section \<open>Pipe stage\<close>

record 'r pipe_stage =
  ps_limit :: nat
  ps_in_progress :: "'r list"
  ps_results :: "'r list"
  ps_total :: nat

definition pipe_stage_new :: "nat \<Rightarrow> 'r pipe_stage" where
  "pipe_stage_new limit = \<lparr>ps_limit = limit, ps_in_progress = [], ps_results = [], ps_total = 0\<rparr>"

text \<open>\<open>push\<close>: the result of the new job joins the ones in progress; at the limit one is collected.\<close>

definition pipe_push :: "'r \<Rightarrow> 'r pipe_stage \<Rightarrow> 'r pipe_stage" where
  "pipe_push r p =
     (let p = p\<lparr>ps_total := ps_total p + 1, ps_in_progress := ps_in_progress p @ [r]\<rparr> in
      if ps_limit p \<le> length (ps_in_progress p)
      then p\<lparr>ps_in_progress := tl (ps_in_progress p), ps_results := ps_results p @ [hd (ps_in_progress p)]\<rparr>
      else p)"

definition wait_finish_all :: "'r pipe_stage \<Rightarrow> 'r pipe_stage" where
  "wait_finish_all p = p\<lparr>ps_in_progress := [], ps_results := ps_results p @ ps_in_progress p\<rparr>"

definition get_results_so_far :: "'r pipe_stage \<Rightarrow> 'r list \<times> 'r pipe_stage" where
  "get_results_so_far p = (ps_results p, p\<lparr>ps_results := []\<rparr>)"

text \<open>\<open>for r in results { r?; }\<close>\<close>

fun check_results :: "('e + 'a) list \<Rightarrow> 'e + unit" where
  "check_results [] = Inr ()"
| "check_results (Inl e # rs) = Inl e"
| "check_results (Inr _ # rs) = check_results rs"

section \<open>File handlers and tables\<close>

record ino_use =
  iu_ino :: storage_ino
  iu_use_id :: uuid

record file_handler =
  fh_ino_use :: ino_use
  fh_open_mode :: open_mode
  fh_cursor :: "(ino_kind \<times> u64) list"
  fh_write_cache :: "(fs_error + nat) pipe_stage"
  fh_write_accumulator :: "write_task_data list"
  fh_read_ahead :: "(fs_error + unit) pipe_stage"
  fh_cached_ranges :: "(u64 \<times> u64) list"

definition file_handler_new :: "ino_use \<Rightarrow> open_mode \<Rightarrow> tifs_config \<Rightarrow> file_handler" where
  "file_handler_new ino_use mode fs_config =
     \<lparr>fh_ino_use = ino_use, fh_open_mode = mode, fh_cursor = [],
      fh_write_cache = pipe_stage_new (unat (cfg_write_in_progress_limit fs_config)),
      fh_write_accumulator = [], fh_read_ahead = pipe_stage_new 2, fh_cached_ranges = []\<rparr>"

definition fh_ino :: "file_handler \<Rightarrow> storage_ino" where
  "fh_ino h = iu_ino (fh_ino_use h)"

record tifs_mutable =
  tm_freed_fhs :: "u64 list"
  tm_next_fh :: u64
  tm_opened_ino :: "(u64 \<times> ino_use) list"
  tm_file_handlers :: "(u64 \<times> file_handler) list"
  tm_spawned_closes :: "ino_use list"

text \<open>\<open>new\<close>: computing the size of the inode caches panics for blocks of less than 16 bytes.\<close>

definition tifs_mutable_new :: "tifs_config \<Rightarrow> tifs_mutable option" where
  "tifs_mutable_new fs_config =
     (if cfg_block_size fs_config div 16 = 0 then None
      else Some \<lparr>tm_freed_fhs = [], tm_next_fh = 0, tm_opened_ino = [], tm_file_handlers = [], tm_spawned_closes = []\<rparr>)"

text \<open>\<open>iter().next()\<close> on the set of freed handles: \<open>ord\<close> is the order of the set.\<close>

definition get_free_fh :: "(u64 list \<Rightarrow> u64 list) \<Rightarrow> tifs_mutable \<Rightarrow> u64 \<times> tifs_mutable" where
  "get_free_fh ord M = (case ord (tm_freed_fhs M) of
     reused # _ \<Rightarrow> (reused, M\<lparr>tm_freed_fhs := removeAll reused (tm_freed_fhs M)\<rparr>)
   | [] \<Rightarrow> (tm_next_fh M, M\<lparr>tm_next_fh := tm_next_fh M + 1\<rparr>))"

definition use_alive :: "tifs_mutable \<Rightarrow> ino_use \<Rightarrow> bool" where
  "use_alive M u \<longleftrightarrow> (\<exists>(fh, h) \<in> set (tm_file_handlers M). fh_ino_use h = u)"

definition get_ino_use :: "tifs_mutable \<Rightarrow> u64 \<Rightarrow> ino_use option" where
  "get_ino_use M ino = (case map_of (tm_opened_ino M) ino of
     Some u \<Rightarrow> if use_alive M u then Some u else None
   | None \<Rightarrow> None)"

definition mut_release_file_handler :: "u64 \<Rightarrow> tifs_mutable \<Rightarrow> file_handler option \<times> tifs_mutable" where
  "mut_release_file_handler fh M = (case map_of (tm_file_handlers M) fh of
     Some handler \<Rightarrow> (Some handler, M\<lparr>tm_file_handlers := map_remove fh (tm_file_handlers M),
       tm_freed_fhs := List.insert fh (tm_freed_fhs M)\<rparr>)
   | None \<Rightarrow> (None, M))"

text \<open>\<open>InoUse::drop\<close>, when a handler goes.\<close>

definition drop_ino_use :: "ino_use \<Rightarrow> tifs_mutable \<Rightarrow> tifs_mutable" where
  "drop_ino_use u M = (if use_alive M u then M else M\<lparr>tm_spawned_closes := tm_spawned_closes M @ [u]\<rparr>)"

definition heartbeat_clean_weak_ptrs :: "tifs_mutable \<Rightarrow> tifs_mutable" where
  "heartbeat_clean_weak_ptrs M = M\<lparr>tm_opened_ino := filter (\<lambda>(k, u). use_alive M u) (tm_opened_ino M)\<rparr>"

section \<open>The instance\<close>

record ('w, 'c) tifs =
  tf_hash_fs :: "'w hash_fs_interface"
  tf_fs_config :: tifs_config
  tf_direct_io :: bool
  tf_block_cache :: "'c block_cache"
  tf_order :: map_order
  tf_digests :: digests
  tf_fh_order :: "u64 list \<Rightarrow> u64 list"
  tf_range_difference :: "u64 \<times> u64 \<Rightarrow> (u64 \<times> u64) list \<Rightarrow> (u64 \<times> u64) list"
  tf_range_union :: "(u64 \<times> u64) list \<Rightarrow> u64 \<times> u64 \<Rightarrow> (u64 \<times> u64) list"

text \<open>
  \<open>construct_hash_fs_client\<close>, after the configuration of the client has been read from its file.
  \<open>None\<close> is a panic. The last arguments are the parameters of the model.
\<close>

definition construct_hash_fs_client ::
  "size_parser \<Rightarrow> mount_option list \<Rightarrow> 'w hash_fs_interface \<Rightarrow> 'c block_cache \<Rightarrow> map_order \<Rightarrow> digests
     \<Rightarrow> (u64 list \<Rightarrow> u64 list) \<Rightarrow> (u64 \<times> u64 \<Rightarrow> (u64 \<times> u64) list \<Rightarrow> (u64 \<times> u64) list)
     \<Rightarrow> ((u64 \<times> u64) list \<Rightarrow> u64 \<times> u64 \<Rightarrow> (u64 \<times> u64) list) \<Rightarrow> (('w, 'c) tifs \<times> tifs_mutable) option tifs_result" where
  "construct_hash_fs_client parse_size options hash_fs cache ord dig fh_order difference union_with =
     bind_result (from_options parse_size options) (\<lambda>fs_config. Inr
       (map_option (Pair \<lparr>tf_hash_fs = hash_fs, tf_fs_config = fs_config, tf_direct_io = cfg_direct_io fs_config,
          tf_block_cache = cache, tf_order = ord, tf_digests = dig, tf_fh_order = fh_order,
          tf_range_difference = difference, tf_range_union = union_with\<rparr>) (tifs_mutable_new fs_config)))"

type_synonym ('w, 'c) tifs_state = "('w \<times> 'c) \<times> tifs_mutable"
type_synonym ('w, 'c, 'a) tifs_comp = "(('w, 'c) tifs_state, fs_error, 'a option) comp"

text \<open>
  What one request takes from outside: the time of the reply, what each attempt gets from
  clock and random generator, and a bound on the attempts.
\<close>

record call_env =
  ce_now :: system_time
  ce_op :: "nat \<Rightarrow> nat \<Rightarrow> op_env"
  ce_fuel :: nat

definition total :: "('s, 'e, 'a) comp \<Rightarrow> ('s, 'e, 'a option) comp" where
  "total m = and_then m (\<lambda>x. ret (Some x))"

definition with_mut_data :: "(tifs_mutable \<Rightarrow> 'a \<times> tifs_mutable) \<Rightarrow> ('w, 'c, 'a) tifs_comp" where
  "with_mut_data f = (\<lambda>(w, M). case f M of (x, M') \<Rightarrow> (Inr (Some x), (w, M')))"

definition tifs_txn :: "('w, 'c) tifs \<Rightarrow> ('w, 'c) txn" where
  "tifs_txn F = begin_on_hash_fs_interface (tf_hash_fs F) (tf_fs_config F) (tf_block_cache F) (tf_order F) (tf_digests F)"

text \<open>
  \<open>spin\<close>: key errors are retried for ever, unknown errors three times, every other error ends
  the call. \<open>f i\<close> is attempt \<open>i\<close>; without fuel the call has not returned.
\<close>

fun spin :: "nat \<Rightarrow> nat \<Rightarrow> nat \<Rightarrow> (nat \<Rightarrow> ('s, fs_error, 'a option) comp) \<Rightarrow> ('s, fs_error, 'a option) comp" where
  "spin 0 i other_error_count f w = (Inr None, w)"
| "spin (Suc fuel) i other_error_count f w = (case f i w of
     (Inr v, w') \<Rightarrow> (Inr v, w')
   | (Inl (KeyError err), w') \<Rightarrow> spin fuel (Suc i) other_error_count f w'
   | (Inl (UnknownError err), w') \<Rightarrow>
       if 3 \<le> other_error_count then (Inl (UnknownError err), w')
       else spin fuel (Suc i) (Suc other_error_count) f w'
   | (Inl err, w') \<Rightarrow> (Inl err, w'))"

definition spin_no_delay ::
  "call_env \<Rightarrow> (nat \<Rightarrow> ('w, 'c, 'a option) txn_comp) \<Rightarrow> ('w, 'c, 'a) tifs_comp" where
  "spin_no_delay ce f = spin (ce_fuel ce) 0 0 (\<lambda>i. on_world (f i))"

section \<open>Attributes\<close>

definition map_storage_attr_to_fuser ::
  "tifs_config \<Rightarrow> ino_kind \<Rightarrow> ino_description \<Rightarrow> ino_size \<Rightarrow> ino_storage_file_attr \<Rightarrow> system_time option \<Rightarrow> file_attr" where
  "map_storage_attr_to_fuser cfg kind desc sz attr atime =
     (let hash_len = of_nat (cfg_hash_len cfg) :: u64 in
      \<lparr>fa_ino = logical_ino_to_raw \<lparr>li_storage_ino = desc_ino desc, li_kind = kind\<rparr>,
       fa_size = (case kind of Regular \<Rightarrow> isz_size sz | Hash \<Rightarrow> hash_len | Hashes \<Rightarrow> hash_len * isz_blocks sz),
       fa_blocks = (case kind of Regular \<Rightarrow> isz_blocks sz | Hash \<Rightarrow> 0
         | Hashes \<Rightarrow> div_ceil (hash_len * isz_blocks sz) (cfg_block_size cfg)),
       fa_atime = (case atime of Some t \<Rightarrow> t | None \<Rightarrow> isz_last_change sz),
       fa_mtime = max (isz_last_change sz) (attr_last_change attr),
       fa_ctime = attr_last_change attr,
       fa_crtime = desc_creation_time desc,
       fa_kind = map_storage_dir_item_kind_to_file_type (desc_typ desc),
       fa_perm = perm_raw (attr_perm attr),
       fa_nlink = 1,
       fa_uid = attr_uid attr,
       fa_gid = attr_gid attr,
       fa_rdev = attr_rdev attr,
       fa_blksize = ucast (cfg_block_size cfg),
       fa_flags = attr_flags attr\<rparr>)"

definition attr_of_all :: "tifs_config \<Rightarrow> ino_kind \<Rightarrow> all_attributes \<Rightarrow> file_attr" where
  "attr_of_all cfg kind = (\<lambda>(desc, attr, sz, atime). map_storage_attr_to_fuser cfg kind desc sz attr (Some (access_time atime)))"

definition lookup_all_info_logical ::
  "('w, 'c) tifs \<Rightarrow> call_env \<Rightarrow> parent_storage_ino \<Rightarrow> name \<Rightarrow> ino_kind \<Rightarrow> ('w, 'c, file_attr) tifs_comp" where
  "lookup_all_info_logical F ce parent nm kind =
     then_some (spin_no_delay ce (\<lambda>_. total (fs_call (if_directory_child_get_all_attributes (txn_hash_fs (tifs_txn F)) parent nm))))
       (\<lambda>all. ret (Some (attr_of_all (tf_fs_config F) kind all)))"

definition get_all_file_attributes_storage_ino ::
  "('w, 'c) tifs \<Rightarrow> call_env \<Rightarrow> storage_ino \<Rightarrow> ino_kind \<Rightarrow> ('w, 'c, file_attr) tifs_comp" where
  "get_all_file_attributes_storage_ino F ce ino kind =
     (let ino = (if ParentStorageIno ino = OPENED_INODE_PARENT_INODE \<or> ParentStorageIno ino = SNAPSHOT_PARENT_INODE
                 then parent_ino ROOT_INODE else ino) in
      then_some (spin_no_delay ce (\<lambda>_. total (get_all_ino_data (tifs_txn F) ino)))
        (\<lambda>all. ret (Some (attr_of_all (tf_fs_config F) kind all))))"

definition get_all_file_attributes_storage_ino_entry_reply ::
  "('w, 'c) tifs \<Rightarrow> call_env \<Rightarrow> storage_ino \<Rightarrow> ino_kind \<Rightarrow> ('w, 'c, entry) tifs_comp" where
  "get_all_file_attributes_storage_ino_entry_reply F ce ino kind =
     then_some (spin_no_delay ce (\<lambda>_. total (get_all_ino_data (tifs_txn F) ino)))
       (\<lambda>all. ret (Some \<lparr>entry_time = ce_now ce, entry_stat = attr_of_all (tf_fs_config F) kind all, entry_generation = 0\<rparr>))"

definition get_all_file_attributes :: "('w, 'c) tifs \<Rightarrow> call_env \<Rightarrow> logical_ino \<Rightarrow> ('w, 'c, file_attr) tifs_comp" where
  "get_all_file_attributes F ce l = get_all_file_attributes_storage_ino F ce (li_storage_ino l) (li_kind l)"

text \<open>\<open>check_metadata\<close>: a mismatch panics.\<close>

definition check_metadata :: "('w, 'c) tifs \<Rightarrow> call_env \<Rightarrow> ('w, 'c, unit) tifs_comp" where
  "check_metadata F ce =
     then_some (spin_no_delay ce (\<lambda>_. total (read_static_meta (tifs_txn F)))) (\<lambda>metadata.
       case metadata of
         Some cfg_flags \<Rightarrow>
           if ms_block_size cfg_flags \<noteq> cfg_block_size (tf_fs_config F)
             \<or> ms_hashed_blocks cfg_flags \<noteq> cfg_hashed_blocks (tf_fs_config F)
             \<or> ms_hash_algorithm cfg_flags \<noteq> algo_name (cfg_hash_algorithm (tf_fs_config F))
           then ret None else ret (Some ())
       | None \<Rightarrow> ret (Some ()))"

section \<open>Directories\<close>

definition dir_entries_of :: "directory_item \<Rightarrow> dir_item list" where
  "dir_entries_of it =
     (let entry = (\<lambda>kind nm typ. \<lparr>di_ino = \<lparr>li_storage_ino = dirit_ino it, li_kind = kind\<rparr>, di_name = nm, di_typ = typ\<rparr>) in
      (if dirit_typ it = File
       then [entry Hash (full_hash_entry_name (dirit_name it)) FT_RegularFile,
             entry Hashes (block_hashes_entry_name (dirit_name it)) FT_RegularFile]
       else [])
      @ [entry Regular (dirit_name it) (map_storage_dir_item_kind_to_file_type (dirit_typ it))])"

definition special_dir_entries :: "dir_item list" where
  "special_dir_entries =
     [\<lparr>di_ino = \<lparr>li_storage_ino = parent_ino OPENED_INODE_PARENT_INODE, li_kind = Regular\<rparr>,
       di_name = OPENED_INODE_PARENT_INODE_NAME, di_typ = FT_Directory\<rparr>,
      \<lparr>di_ino = \<lparr>li_storage_ino = parent_ino SNAPSHOT_PARENT_INODE, li_kind = Regular\<rparr>,
       di_name = SNAPSHOT_PARENT_INODE_NAME, di_typ = FT_Directory\<rparr>]"

definition read_dir1 :: "('w, 'c) tifs \<Rightarrow> call_env \<Rightarrow> storage_ino \<Rightarrow> ('w, 'c, dir_item list) tifs_comp" where
  "read_dir1 F ce dir_ino =
     then_some (spin_no_delay ce (\<lambda>_. total (txn_read_dir (tifs_txn F) dir_ino))) (\<lambda>items.
       ret (Some (concat (map dir_entries_of items) @ (if dir_ino = parent_ino ROOT_INODE then special_dir_entries else []))))"

section \<open>Handlers and jobs\<close>

definition get_file_handler_checked :: "u64 \<Rightarrow> ('w, 'c, file_handler) tifs_comp" where
  "get_file_handler_checked fh = (\<lambda>(w, M). case map_of (tm_file_handlers M) fh of
     Some h \<Rightarrow> (Inr (Some h), (w, M))
   | None \<Rightarrow> (Inl (FhNotFound fh), (w, M)))"

text \<open>A change of the handler with the given number.\<close>

definition with_handler :: "u64 \<Rightarrow> (file_handler \<Rightarrow> 'a \<times> file_handler) \<Rightarrow> ('w, 'c, 'a) tifs_comp" where
  "with_handler fh f = (\<lambda>(w, M). case map_of (tm_file_handlers M) fh of
     None \<Rightarrow> (Inr None, (w, M))
   | Some h \<Rightarrow> (case f h of (x, h') \<Rightarrow>
       (Inr (Some x), (w, M\<lparr>tm_file_handlers := map_insert fh h' (tm_file_handlers M)\<rparr>))))"

text \<open>A computation on the accumulator of a handler.\<close>

definition on_accumulator ::
  "u64 \<Rightarrow> (file_handler \<Rightarrow> (('w \<times> 'c) \<times> write_task_data list, fs_error, 'a option) comp) \<Rightarrow> ('w, 'c, 'a) tifs_comp" where
  "on_accumulator fh m = (\<lambda>(w, M). case map_of (tm_file_handlers M) fh of
     None \<Rightarrow> (Inr None, (w, M))
   | Some h \<Rightarrow> (case m h (w, fh_write_accumulator h) of (r, (w', acc)) \<Rightarrow>
       (r, (w', M\<lparr>tm_file_handlers := map_insert fh (h\<lparr>fh_write_accumulator := acc\<rparr>) (tm_file_handlers M)\<rparr>))))"

text \<open>A spawned job: its error is a value for whoever collects the result.\<close>

definition spawn_job :: "('s, 'e, 'a option) comp \<Rightarrow> ('s, 'f, ('e + 'a) option) comp" where
  "spawn_job m w = (case m w of
     (Inl e, w') \<Rightarrow> (Inr (Some (Inl e)), w')
   | (Inr None, w') \<Rightarrow> (Inr None, w')
   | (Inr (Some x), w') \<Rightarrow> (Inr (Some (Inr x)), w'))"

definition write_job :: "('w, 'c) tifs \<Rightarrow> call_env \<Rightarrow> u64 \<Rightarrow> u64 \<Rightarrow> bytes \<Rightarrow> bool \<Rightarrow> ('w, 'c, nat) tifs_comp" where
  "write_job F ce fh start data flush =
     spin (ce_fuel ce) 0 0 (\<lambda>i. on_accumulator fh (\<lambda>h. txn_write (tifs_txn F) (ce_op ce i) (fh_ino h) start data flush))"

section \<open>Reading\<close>

definition read_transaction :: "('w, 'c) tifs \<Rightarrow> call_env \<Rightarrow> storage_ino \<Rightarrow> u64 \<Rightarrow> u32 \<Rightarrow> ('w, 'c, bytes) tifs_comp" where
  "read_transaction F ce ino start sz =
     spin_no_delay ce (\<lambda>_. txn_read (tifs_txn F) ino start sz)"

definition finish_writes :: "file_handler \<Rightarrow> (fs_error + nat) list \<times> file_handler" where
  "finish_writes h = (case get_results_so_far (wait_finish_all (fh_write_cache h)) of
     (results, p) \<Rightarrow> (results, h\<lparr>fh_write_cache := p\<rparr>))"

definition read_ahead_step ::
  "('w, 'c) tifs \<Rightarrow> call_env \<Rightarrow> storage_ino \<Rightarrow> u64 \<Rightarrow> u64 \<Rightarrow> ('w, 'c, unit) tifs_comp" where
  "read_ahead_step F ce ino fh target =
     (let read_ahead_size = cfg_read_ahead_size (tf_fs_config F) in
      then_some (with_handler fh (\<lambda>h. (fh_cached_ranges h, h))) (\<lambda>cached.
        let remaining = tf_range_difference F (target, target + read_ahead_size) cached;
            count = fold (\<lambda>(a, b) x. x + (b - a)) remaining 0 in
        if count > read_ahead_size div 2
        then (case remaining of
            [] \<Rightarrow> ret None
          | fp # _ \<Rightarrow>
              then_some (with_handler fh (\<lambda>h. ((), h\<lparr>fh_cached_ranges := tf_range_union F (fh_cached_ranges h) fp\<rparr>))) (\<lambda>_.
              then_some (spawn_job (then_some (read_transaction F ce ino (fst fp) (ucast (snd fp - fst fp))) (\<lambda>_. ret (Some ())))) (\<lambda>r.
                with_handler fh (\<lambda>h. ((), h\<lparr>fh_read_ahead := pipe_push r (fh_read_ahead h)\<rparr>)))))
        else ret (Some ())))"

definition read_kind_regular ::
  "('w, 'c) tifs \<Rightarrow> call_env \<Rightarrow> storage_ino \<Rightarrow> u64 \<Rightarrow> u64 \<Rightarrow> u32 \<Rightarrow> ('w, 'c, bytes) tifs_comp" where
  "read_kind_regular F ce ino fh start sz =
     then_some (with_handler fh finish_writes) (\<lambda>_.
     then_some (read_transaction F ce ino start sz) (\<lambda>result.
       if cfg_read_ahead_size (tf_fs_config F) > 0 \<and> length result = unat sz
       then then_some (read_ahead_step F ce ino fh (start + ucast sz)) (\<lambda>_. ret (Some result))
       else ret (Some result)))"

definition read_kind_hash :: "('w, 'c) tifs \<Rightarrow> call_env \<Rightarrow> storage_ino \<Rightarrow> u64 \<Rightarrow> u32 \<Rightarrow> ('w, 'c, bytes) tifs_comp" where
  "read_kind_hash F ce ino start sz = spin_no_delay ce (\<lambda>_. read_hash_of_file (tifs_txn F) ino start (ucast sz))"

text \<open>
  A hash length of 0 would make the divisions panic; the configuration never has it. \<open>consume\<close>
  panics if fewer bytes are there than it is to skip.
\<close>

definition read_file_kind_hashes :: "('w, 'c) tifs \<Rightarrow> call_env \<Rightarrow> storage_ino \<Rightarrow> u64 \<Rightarrow> u32 \<Rightarrow> ('w, 'c, bytes) tifs_comp" where
  "read_file_kind_hashes F ce ino start sz =
     (let hash_size = of_nat (cfg_hash_len (tf_fs_config F)) :: u64;
          first_block = start div hash_size;
          first_block_offset = start mod hash_size;
          block_cnt = div_ceil (first_block_offset + ucast sz) hash_size in
      then_some (spin_no_delay ce (\<lambda>_. get_hashes_of_file (tifs_txn F) ino (BlockIndex first_block) (BlockIndex (first_block + block_cnt))))
        (\<lambda>data. if unat first_block_offset \<le> length data
                then ret (Some (take (unat sz) (drop (unat first_block_offset) data))) else ret None))"

section \<open>Requests\<close>

text \<open>\<open>init\<close>, after the capabilities of the kernel have been negotiated.\<close>

definition tf_init :: "('w, 'c) tifs \<Rightarrow> call_env \<Rightarrow> u32 \<Rightarrow> u32 \<Rightarrow> ('w, 'c, unit) tifs_comp" where
  "tf_init F ce gid uid =
     then_some (spin_no_delay ce (\<lambda>i. total (fs_call (if_init (txn_hash_fs (tifs_txn F)) (ce_op ce i 0) gid uid)))) (\<lambda>_.
       check_metadata F ce)"

definition tf_lookup :: "('w, 'c) tifs \<Rightarrow> call_env \<Rightarrow> u64 \<Rightarrow> name \<Rightarrow> ('w, 'c, entry) tifs_comp" where
  "tf_lookup F ce parent nm =
     (let p_ino = ParentStorageIno (li_storage_ino (logical_ino_from_raw parent));
          special = (\<lambda>dir. then_some (get_all_file_attributes_storage_ino F ce (parent_ino ROOT_INODE) Regular) (\<lambda>stat.
            ret (Some (stat\<lparr>fa_ino := logical_ino_to_raw \<lparr>li_storage_ino = parent_ino dir, li_kind = Regular\<rparr>\<rparr>)))) in
      then_some
        (if p_ino = ROOT_INODE \<and> nm = OPENED_INODE_PARENT_INODE_NAME then special OPENED_INODE_PARENT_INODE
         else if p_ino = ROOT_INODE \<and> nm = SNAPSHOT_PARENT_INODE_NAME then special SNAPSHOT_PARENT_INODE
         else (case parse_filename nm of
             None \<Rightarrow> ret None
           | Some (filename, kind) \<Rightarrow> and_then (of_result (check_file_name filename)) (\<lambda>_.
               lookup_all_info_logical F ce p_ino filename kind)))
        (\<lambda>attrs. ret (Some \<lparr>entry_time = 0, entry_stat = attrs, entry_generation = 0\<rparr>)))"

definition tf_getattr :: "('w, 'c) tifs \<Rightarrow> call_env \<Rightarrow> u64 \<Rightarrow> ('w, 'c, attr_reply) tifs_comp" where
  "tf_getattr F ce ino =
     then_some (get_all_file_attributes F ce (logical_ino_from_raw ino)) (\<lambda>stat.
       ret (Some \<lparr>attr_time = ce_now ce, attr_attr = stat\<rparr>))"

definition tf_setattr ::
  "('w, 'c) tifs \<Rightarrow> call_env \<Rightarrow> u64 \<Rightarrow> u32 option \<Rightarrow> u32 option \<Rightarrow> u32 option \<Rightarrow> u64 option \<Rightarrow> time_or_now option
     \<Rightarrow> time_or_now option \<Rightarrow> system_time option \<Rightarrow> u64 option \<Rightarrow> system_time option \<Rightarrow> system_time option
     \<Rightarrow> system_time option \<Rightarrow> u32 option \<Rightarrow> ('w, 'c, attr_reply) tifs_comp" where
  "tf_setattr F ce ino mode uid gid sz atime mtime ctime fh crtime chgtime bkuptime flags =
     (let l_ino = logical_ino_from_raw ino in
      if li_kind l_ino \<noteq> Regular then fail (InoKindNotSupported (li_kind l_ino))
      else then_some (spin_no_delay ce (\<lambda>i. total (set_attributes (tifs_txn F) (ce_op ce i 0) (li_storage_ino l_ino) mode uid gid sz
          atime mtime ctime fh crtime chgtime bkuptime flags))) (\<lambda>_.
        then_some (get_all_file_attributes F ce l_ino) (\<lambda>attr. ret (Some \<lparr>attr_time = ce_now ce, attr_attr = attr\<rparr>))))"

definition tf_readdir :: "('w, 'c) tifs \<Rightarrow> call_env \<Rightarrow> u64 \<Rightarrow> u64 \<Rightarrow> ('w, 'c, dir) tifs_comp" where
  "tf_readdir F ce ino offset =
     then_some (read_dir1 F ce (li_storage_ino (logical_ino_from_raw ino))) (\<lambda>directory.
       ret (Some (fold dir_push (drop (unat offset) directory) (dir_offset_new (unat offset)))))"

definition O_DIRECT :: u32 where "O_DIRECT = 0x4000"
definition FOPEN_DIRECT_IO :: u32 where "FOPEN_DIRECT_IO = 1"

definition open_mode_of :: "u32 \<Rightarrow> open_mode" where
  "open_mode_of flags = (let m = flags AND 3 in if m = 0 then ReadOnly else if m = 1 then WriteOnly else ReadWrite)"

text \<open>The use of the inode by this instance: the one that is still held, or a new one.\<close>

definition find_use :: "('w, 'c) tifs \<Rightarrow> call_env \<Rightarrow> u64 \<Rightarrow> ('w, 'c, ino_use) tifs_comp" where
  "find_use F ce ino =
     (let l_ino = logical_ino_from_raw ino in
      then_some (with_mut_data (\<lambda>M. (get_ino_use M ino, M))) (\<lambda>ino_use.
        case ino_use of
          Some u \<Rightarrow> ret (Some u)
        | None \<Rightarrow>
            then_some (spin_no_delay ce (\<lambda>i. total (txn_open (tifs_txn F) (ce_op ce i 0) (li_storage_ino l_ino)))) (\<lambda>new_use_id.
              let u = \<lparr>iu_ino = li_storage_ino l_ino, iu_use_id = new_use_id\<rparr> in
              then_some (with_mut_data (\<lambda>M. ((), M\<lparr>tm_opened_ino := map_insert ino u (tm_opened_ino M)\<rparr>))) (\<lambda>_. ret (Some u)))))"

definition tf_open :: "('w, 'c) tifs \<Rightarrow> call_env \<Rightarrow> u64 \<Rightarrow> u32 \<Rightarrow> ('w, 'c, open_reply) tifs_comp" where
  "tf_open F ce ino flags =
     (let mode = open_mode_of flags in
      then_some (find_use F ce ino) (\<lambda>u.
      then_some (with_mut_data (\<lambda>M. case get_free_fh (tf_fh_order F) M of (new_fh, M') \<Rightarrow>
          (new_fh, M'\<lparr>tm_file_handlers := map_insert new_fh (file_handler_new u mode (tf_fs_config F)) (tm_file_handlers M')\<rparr>))) (\<lambda>fh.
        ret (Some \<lparr>open_fh = fh,
          open_flags = (if tf_direct_io F \<or> flags AND O_DIRECT \<noteq> 0 then FOPEN_DIRECT_IO else 0)\<rparr>))))"

definition flush_write_cache :: "('w, 'c) tifs \<Rightarrow> call_env \<Rightarrow> u64 \<Rightarrow> ('w, 'c, unit) tifs_comp" where
  "flush_write_cache F ce fh =
     then_some (get_file_handler_checked fh) (\<lambda>_.
     then_some (with_handler fh finish_writes) (\<lambda>results.
     and_then (of_result (check_results results)) (\<lambda>_.
     then_some (write_job F ce fh 0 [] True) (\<lambda>_. ret (Some ())))))"

definition tf_fsync :: "('w, 'c) tifs \<Rightarrow> call_env \<Rightarrow> u64 \<Rightarrow> ('w, 'c, unit) tifs_comp" where
  "tf_fsync F ce fh = flush_write_cache F ce fh"

definition tf_flush :: "('w, 'c) tifs \<Rightarrow> call_env \<Rightarrow> u64 \<Rightarrow> ('w, 'c, unit) tifs_comp" where
  "tf_flush F ce fh = flush_write_cache F ce fh"

text \<open>Offsets are \<open>i64\<close>: words that are read as signed numbers.\<close>

definition cursor_offset :: "file_handler \<Rightarrow> ino_kind \<Rightarrow> 64 word \<Rightarrow> 64 word" where
  "cursor_offset h kind offset = (case map_of (fh_cursor h) kind of Some c \<Rightarrow> c | None \<Rightarrow> 0) + offset"

definition tf_read :: "('w, 'c) tifs \<Rightarrow> call_env \<Rightarrow> u64 \<Rightarrow> u64 \<Rightarrow> 64 word \<Rightarrow> u32 \<Rightarrow> ('w, 'c, bytes) tifs_comp" where
  "tf_read F ce ino fh offset sz =
     (let l_ino = logical_ino_from_raw ino in
      then_some (get_file_handler_checked fh) (\<lambda>h.
        let start = cursor_offset h (li_kind l_ino) offset in
        if sint start < 0 then fail (InvalidOffset ino (sint start))
        else (case li_kind l_ino of
            Regular \<Rightarrow> read_kind_regular F ce (li_storage_ino l_ino) fh start sz
          | Hash \<Rightarrow> read_kind_hash F ce (li_storage_ino l_ino) start sz
          | Hashes \<Rightarrow> read_file_kind_hashes F ce (li_storage_ino l_ino) start sz)))"

definition tf_write :: "('w, 'c) tifs \<Rightarrow> call_env \<Rightarrow> u64 \<Rightarrow> u64 \<Rightarrow> 64 word \<Rightarrow> bytes \<Rightarrow> ('w, 'c, u32) tifs_comp" where
  "tf_write F ce ino fh offset data =
     then_some (get_file_handler_checked fh) (\<lambda>h.
       if \<not> allows_write (fh_open_mode h) then fail WriteNotAllowed
       else let start = cursor_offset h (li_kind (logical_ino_from_raw ino)) offset in
         if sint start < 0 then fail (InvalidOffset ino (sint start))
         else then_some (spawn_job (write_job F ce fh start data False)) (\<lambda>r.
           then_some (with_handler fh (\<lambda>h. case get_results_so_far (pipe_push r (fh_write_cache h)) of
               (results, p) \<Rightarrow> (results, h\<lparr>fh_write_cache := p\<rparr>))) (\<lambda>results.
             and_then (of_result (check_results results)) (\<lambda>_. ret (Some (of_nat (length data)))))))"

definition tf_mkdir :: "('w, 'c) tifs \<Rightarrow> call_env \<Rightarrow> u64 \<Rightarrow> name \<Rightarrow> u32 \<Rightarrow> u32 \<Rightarrow> u32 \<Rightarrow> ('w, 'c, entry) tifs_comp" where
  "tf_mkdir F ce parent nm mode gid uid =
     (let p_ino = ParentStorageIno (li_storage_ino (logical_ino_from_raw parent)) in
      and_then (of_result (check_file_name nm)) (\<lambda>_.
      then_some (spin_no_delay ce (\<lambda>i. txn_mkdir (tifs_txn F) (ce_op ce i 0) p_ino nm
          (StorageFilePermission (as_file_perm mode)) gid uid)) (\<lambda>item.
        get_all_file_attributes_storage_ino_entry_reply F ce (sdi_ino item) Regular)))"

definition tf_rmdir :: "('w, 'c) tifs \<Rightarrow> call_env \<Rightarrow> u64 \<Rightarrow> name \<Rightarrow> ('w, 'c, unit) tifs_comp" where
  "tf_rmdir F ce parent nm =
     and_then (of_result (check_file_name nm)) (\<lambda>_.
       spin_no_delay ce (\<lambda>_. total (txn_rmdir (tifs_txn F) (ParentStorageIno (li_storage_ino (logical_ino_from_raw parent))) nm)))"

text \<open>\<open>as_file_kind\<close> panics for a type it does not know.\<close>

definition tf_mknod :: "('w, 'c) tifs \<Rightarrow> call_env \<Rightarrow> u64 \<Rightarrow> name \<Rightarrow> u32 \<Rightarrow> u32 \<Rightarrow> u32 \<Rightarrow> u32 \<Rightarrow> ('w, 'c, entry) tifs_comp" where
  "tf_mknod F ce parent nm mode gid uid rdev =
     (let p_ino = ParentStorageIno (li_storage_ino (logical_ino_from_raw parent)) in
      case as_file_kind mode of
        None \<Rightarrow> ret None
      | Some kind \<Rightarrow>
          and_then (of_result (map_file_type_to_storage_dir_item_kind kind)) (\<lambda>typ.
          and_then (of_result (check_file_name nm)) (\<lambda>_.
          then_some (spin_no_delay ce (\<lambda>i. total (txn_directory_add_child_checked_new_inode (tifs_txn F) (ce_op ce i 0) p_ino nm typ
              (StorageFilePermission (as_file_perm mode)) gid uid rdev None))) (\<lambda>item.
            if existed_before item then fail (FileExist nm)
            else get_all_file_attributes_storage_ino_entry_reply F ce (sdi_ino (got_or_made_value item)) Regular))))"

definition tf_create ::
  "('w, 'c) tifs \<Rightarrow> call_env \<Rightarrow> u32 \<Rightarrow> u32 \<Rightarrow> u64 \<Rightarrow> name \<Rightarrow> u32 \<Rightarrow> u32 \<Rightarrow> ('w, 'c, create_reply) tifs_comp" where
  "tf_create F ce uid gid parent nm mode flags =
     and_then (of_result (check_file_name nm)) (\<lambda>_.
     then_some (tf_mknod F ce parent nm mode gid uid 0) (\<lambda>entry.
     then_some (tf_open F ce (fa_ino (entry_stat entry)) flags) (\<lambda>opened.
       ret (Some \<lparr>create_ttl = ce_now ce, create_attr = entry_stat entry, create_generation = entry_generation entry,
         create_fh = open_fh opened, create_flags = open_flags opened\<rparr>))))"

text \<open>The handler goes at the end: its use of the inode is dropped.\<close>

definition release_file_handler :: "u64 \<Rightarrow> ('w, 'c, unit) tifs_comp" where
  "release_file_handler fh =
     then_some (with_mut_data (mut_release_file_handler fh)) (\<lambda>released_handler.
       case released_handler of
         None \<Rightarrow> ret (Some ())
       | Some handler \<Rightarrow> with_mut_data (\<lambda>M. ((), drop_ino_use (fh_ino_use handler) M)))"

definition tf_release :: "('w, 'c) tifs \<Rightarrow> call_env \<Rightarrow> u64 \<Rightarrow> ('w, 'c, unit) tifs_comp" where
  "tf_release F ce fh = then_some (flush_write_cache F ce fh) (\<lambda>_. release_file_handler fh)"

text \<open>A spawned close runs: \<open>release_inode_use\<close> logs an error and goes on.\<close>

definition release_inode_use :: "('w, 'c) tifs \<Rightarrow> call_env \<Rightarrow> ino_use \<Rightarrow> ('w, 'c, unit) tifs_comp" where
  "release_inode_use F ce u =
     then_some (spawn_job (spin_no_delay ce (\<lambda>_. total (txn_close (tifs_txn F) (iu_ino u) (iu_use_id u))))) (\<lambda>_. ret (Some ()))"

definition run_spawned_close :: "('w, 'c) tifs \<Rightarrow> call_env \<Rightarrow> ('w, 'c, unit) tifs_comp" where
  "run_spawned_close F ce =
     then_some (with_mut_data (\<lambda>M. case tm_spawned_closes M of
         [] \<Rightarrow> (None, M) | u # us \<Rightarrow> (Some u, M\<lparr>tm_spawned_closes := us\<rparr>))) (\<lambda>next_close.
       case next_close of None \<Rightarrow> ret (Some ()) | Some u \<Rightarrow> release_inode_use F ce u)"

definition tf_link :: "('w, 'c) tifs \<Rightarrow> call_env \<Rightarrow> u64 \<Rightarrow> u64 \<Rightarrow> name \<Rightarrow> ('w, 'c, entry) tifs_comp" where
  "tf_link F ce ino new_parent new_name =
     (let l_ino = logical_ino_from_raw ino; p_ino = logical_ino_from_raw new_parent in
      if \<not> (is_regular l_ino \<and> is_regular p_ino) then fail WrongFileType
      else and_then (of_result (check_file_name new_name)) (\<lambda>_.
        then_some (spin_no_delay ce (\<lambda>_. total (add_hard_link (tifs_txn F) (li_storage_ino l_ino)
            (ParentStorageIno (li_storage_ino p_ino)) new_name))) (\<lambda>_.
          get_all_file_attributes_storage_ino_entry_reply F ce (li_storage_ino l_ino) Regular)))"

definition tf_unlink :: "('w, 'c) tifs \<Rightarrow> call_env \<Rightarrow> u64 \<Rightarrow> name \<Rightarrow> ('w, 'c, unit) tifs_comp" where
  "tf_unlink F ce parent raw_name =
     spin_no_delay ce (\<lambda>i. total (txn_unlink (tifs_txn F) (ce_op ce i 0) (ParentStorageIno (li_storage_ino (logical_ino_from_raw parent))) raw_name))"

definition tf_rename :: "('w, 'c) tifs \<Rightarrow> call_env \<Rightarrow> u64 \<Rightarrow> name \<Rightarrow> u64 \<Rightarrow> name \<Rightarrow> ('w, 'c, unit) tifs_comp" where
  "tf_rename F ce parent raw_name new_parent new_raw_name =
     (let p_ino = logical_ino_from_raw parent; np_ino = logical_ino_from_raw new_parent in
      spin_no_delay ce (\<lambda>_. total (fs_call (if_directory_rename_child (txn_hash_fs (tifs_txn F))
        (ParentStorageIno (li_storage_ino p_ino)) raw_name (ParentStorageIno (li_storage_ino np_ino)) new_raw_name))))"

definition tf_symlink :: "('w, 'c) tifs \<Rightarrow> call_env \<Rightarrow> u32 \<Rightarrow> u32 \<Rightarrow> u64 \<Rightarrow> name \<Rightarrow> bytes \<Rightarrow> ('w, 'c, entry) tifs_comp" where
  "tf_symlink F ce gid uid parent nm link =
     (let p_ino = ParentStorageIno (li_storage_ino (logical_ino_from_raw parent)) in
      and_then (of_result (check_file_name nm)) (\<lambda>_.
      then_some (spin_no_delay ce (\<lambda>i. total (fs_call (if_directory_add_new_symlink (txn_hash_fs (tifs_txn F)) (ce_op ce i 0) gid uid p_ino nm link)))) (\<lambda>item.
        get_all_file_attributes_storage_ino_entry_reply F ce (sdi_ino item) Regular)))"

definition tf_readlink :: "('w, 'c) tifs \<Rightarrow> call_env \<Rightarrow> u64 \<Rightarrow> ('w, 'c, bytes) tifs_comp" where
  "tf_readlink F ce ino =
     spin_no_delay ce (\<lambda>_. total (read_link (tifs_txn F) (li_storage_ino (logical_ino_from_raw ino))))"

definition tf_fallocate :: "('w, 'c) tifs \<Rightarrow> call_env \<Rightarrow> u64 \<Rightarrow> u64 \<Rightarrow> 64 word \<Rightarrow> 64 word \<Rightarrow> ('w, 'c, unit) tifs_comp" where
  "tf_fallocate F ce ino fh offset len =
     (let l_ino = logical_ino_from_raw ino in
      if li_kind l_ino \<noteq> Regular then fail (InoKindNotSupported (li_kind l_ino))
      else then_some (get_file_handler_checked fh) (\<lambda>_.
        spin_no_delay ce (\<lambda>i. total (f_allocate (tifs_txn F) (ce_op ce i 0) (li_storage_ino l_ino) offset len))))"

definition tf_statfs :: "('w, 'c) tifs \<Rightarrow> call_env \<Rightarrow> ('w, 'c, stat_fs) tifs_comp" where
  "tf_statfs F ce = spin_no_delay ce (\<lambda>_. total (txn_statfs (tifs_txn F)))"

text \<open>Access checks and extended attributes are not implemented: every request succeeds.\<close>

definition tf_access :: "('w, 'c, unit) tifs_comp" where
  "tf_access = ret (Some ())"

definition tf_setxattr :: "('w, 'c, unit) tifs_comp" where
  "tf_setxattr = ret (Some ())"

definition tf_getxattr :: "u32 \<Rightarrow> ('w, 'c, xattr) tifs_comp" where
  "tf_getxattr sz = ret (Some (if sz = 0 then XattrSize 0 else XattrData []))"

definition tf_listxattr :: "u32 \<Rightarrow> ('w, 'c, xattr) tifs_comp" where
  "tf_listxattr sz = ret (Some (if sz = 0 then XattrSize 0 else XattrData []))"

definition tf_removexattr :: "('w, 'c, unit) tifs_comp" where
  "tf_removexattr = ret (Some ())"

end
