(* ===== verification/Async_Fs.thy ===== *)
theory Async_Fs
  imports Tikv_Fs
begin

text \<open>
  The FUSE side: the requests of \<open>async_fs/trait_impl.rs\<close>, with the default answers of
  \<open>async_fs/fs_trait.rs\<close> for what the instance does not implement, and the replies of
  \<open>reply.rs\<close>. A request is a value of \<open>fuse_request\<close>; its handler runs as one computation on
  the state of the instance. Names arrive as bytes and go through \<open>to_string_lossy\<close> of the
  standard library, which replaces what is not UTF-8.
\<close>

section \<open>Names\<close>

text \<open>
  The ranges that the bytes after a first byte must lie in; \<open>None\<close> for a byte that cannot
  start a character.
\<close>

definition utf8_tail :: "u8 \<Rightarrow> (u8 \<times> u8) list option" where
  "utf8_tail b =
     (let c = (0x80, 0xBF) in
      if b < 0x80 then Some []
      else if 0xC2 \<le> b \<and> b \<le> 0xDF then Some [c]
      else if b = 0xE0 then Some [(0xA0, 0xBF), c]
      else if b = 0xED then Some [(0x80, 0x9F), c]
      else if 0xE1 \<le> b \<and> b \<le> 0xEF then Some [c, c]
      else if b = 0xF0 then Some [(0x90, 0xBF), c, c]
      else if 0xF1 \<le> b \<and> b \<le> 0xF3 then Some [c, c, c]
      else if b = 0xF4 then Some [(0x80, 0x8F), c, c]
      else None)"

text \<open>How many of the following bytes fit.\<close>

fun utf8_match :: "(u8 \<times> u8) list \<Rightarrow> bytes \<Rightarrow> nat" where
  "utf8_match ((lo, hi) # rs) (b # bs) = (if lo \<le> b \<and> b \<le> hi then Suc (utf8_match rs bs) else 0)"
| "utf8_match _ _ = 0"

definition replacement :: bytes where
  "replacement = [0xEF, 0xBF, 0xBD]"

function to_string_lossy :: "bytes \<Rightarrow> bytes" where
  "to_string_lossy [] = []"
| "to_string_lossy (b # bs) = (case utf8_tail b of
     None \<Rightarrow> replacement @ to_string_lossy bs
   | Some rs \<Rightarrow> (let n = utf8_match rs bs in
       (if n = length rs then b # take n bs else replacement) @ to_string_lossy (drop n bs)))"
  by pat_completeness auto

termination to_string_lossy
  by (relation "measure length") auto

section \<open>Requests and replies\<close>

datatype (plugins only: code size) fuse_request =
    RLookup u64 bytes
  | RForget u64 u64
  | RGetattr u64
  | RSetattr u64 "u32 option" "u32 option" "u32 option" "u64 option" "time_or_now option" "time_or_now option"
      "system_time option" "u64 option" "system_time option" "system_time option" "system_time option" "u32 option"
  | RReadlink u64
  | RMknod u32 u32 u64 bytes u32 u32
  | RMkdir u32 u32 u64 bytes u32
  | RUnlink u64 bytes
  | RRmdir u64 bytes
  | RSymlink u32 u32 u64 bytes bytes
  | RRename u64 bytes u64 bytes
  | RLink u64 u64 bytes
  | ROpen u64 u32
  | RRead u64 u64 "64 word" u32
  | RWrite u64 u64 "64 word" bytes
  | RFlush u64
  | RRelease u64
  | RFsync u64
  | ROpendir u64 u32
  | RReaddir u64 u64
  | RReaddirplus u64 u64
  | RFsyncdir u64
  | RStatfs
  | RSetxattr u64 bytes bytes
  | RGetxattr u64 bytes u32
  | RListxattr u64 u32
  | RRemovexattr u64 bytes
  | RAccess u64 u32
  | RCreate u32 u32 u64 bytes u32 u32
  | RGetlk u64
  | RSetlk u64
  | RBmap u64 u32 u64
  | RFallocate u64 u64 "64 word" "64 word"
  | RCopyFileRange u64 u64 u64 u64

record lock_reply =
  lock_start :: u64
  lock_end :: u64
  lock_typ :: u32
  lock_pid :: u32

datatype fuse_reply =
    AEntry entry
  | AAttr attr_reply
  | AData bytes
  | AOpen open_reply
  | AWrite u32
  | ADir dir
  | ADirPlus dir_plus
  | ACreate create_reply
  | AStatfs stat_fs
  | AXattr xattr
  | ALock lock_reply
  | ABmap u64
  | ALseek "64 word"
  | AEmpty

definition answer :: "('a \<Rightarrow> fuse_reply) \<Rightarrow> ('w, 'c, 'a) tifs_comp \<Rightarrow> ('w, 'c, fuse_reply) tifs_comp" where
  "answer f m = then_some m (\<lambda>x. ret (Some (f x)))"

text \<open>The answers of the trait for what the instance does not override.\<close>

definition unimplemented :: "('w, 'c, 'a) tifs_comp" where
  "unimplemented = fail Unimplemented"

definition default_opendir :: "('w, 'c, open_reply) tifs_comp" where
  "default_opendir = ret (Some \<lparr>open_fh = 0, open_flags = 0\<rparr>)"

definition default_readdirplus :: "u64 \<Rightarrow> ('w, 'c, dir_plus) tifs_comp" where
  "default_readdirplus offset = ret (Some (dir_plus_offset_new (unat offset)))"

section \<open>The callbacks\<close>

text \<open>
  The file system the kernel talks to. Arguments that neither side looks at (locks, \<open>umask\<close>,
  flags of reads and writes) are left out; the user of a request is an argument. \<open>forget\<close> has
  no reply.
\<close>

definition afs_init :: "('w, 'c) tifs \<Rightarrow> call_env \<Rightarrow> u32 \<Rightarrow> u32 \<Rightarrow> (('w, 'c) tifs_state, int, unit option) comp" where
  "afs_init F ce uid gid = map_err errno_of (tf_init F ce gid uid)"

definition afs_lookup :: "('w, 'c) tifs \<Rightarrow> call_env \<Rightarrow> u64 \<Rightarrow> bytes \<Rightarrow> ('w, 'c, fuse_reply) tifs_comp" where
  "afs_lookup F ce parent nm = answer AEntry (tf_lookup F ce parent (to_string_lossy nm))"

definition afs_forget :: "u64 \<Rightarrow> u64 \<Rightarrow> ('w, 'c, fuse_reply) tifs_comp" where
  "afs_forget ino nlookup = ret (Some AEmpty)"

definition afs_getattr :: "('w, 'c) tifs \<Rightarrow> call_env \<Rightarrow> u64 \<Rightarrow> ('w, 'c, fuse_reply) tifs_comp" where
  "afs_getattr F ce ino = answer AAttr (tf_getattr F ce ino)"

definition afs_setattr :: "('w, 'c) tifs \<Rightarrow> call_env \<Rightarrow> u64 \<Rightarrow> u32 option \<Rightarrow> u32 option \<Rightarrow> u32 option \<Rightarrow> u64 option \<Rightarrow> time_or_now option \<Rightarrow> time_or_now option
     \<Rightarrow> system_time option \<Rightarrow> u64 option \<Rightarrow> system_time option \<Rightarrow> system_time option \<Rightarrow> system_time option \<Rightarrow> u32 option \<Rightarrow> ('w, 'c, fuse_reply) tifs_comp" where
  "afs_setattr F ce ino mode uid gid sz atime mtime ctime fh crtime chgtime bkuptime flags = answer AAttr (tf_setattr F ce ino mode uid gid sz atime mtime ctime fh crtime chgtime bkuptime flags)"

definition afs_readlink :: "('w, 'c) tifs \<Rightarrow> call_env \<Rightarrow> u64 \<Rightarrow> ('w, 'c, fuse_reply) tifs_comp" where
  "afs_readlink F ce ino = answer AData (tf_readlink F ce ino)"

definition afs_mknod :: "('w, 'c) tifs \<Rightarrow> call_env \<Rightarrow> u32 \<Rightarrow> u32 \<Rightarrow> u64 \<Rightarrow> bytes \<Rightarrow> u32 \<Rightarrow> u32 \<Rightarrow> ('w, 'c, fuse_reply) tifs_comp" where
  "afs_mknod F ce uid gid parent nm mode rdev = answer AEntry (tf_mknod F ce parent (to_string_lossy nm) mode gid uid rdev)"

definition afs_mkdir :: "('w, 'c) tifs \<Rightarrow> call_env \<Rightarrow> u32 \<Rightarrow> u32 \<Rightarrow> u64 \<Rightarrow> bytes \<Rightarrow> u32 \<Rightarrow> ('w, 'c, fuse_reply) tifs_comp" where
  "afs_mkdir F ce uid gid parent nm mode = answer AEntry (tf_mkdir F ce parent (to_string_lossy nm) mode gid uid)"

definition afs_unlink :: "('w, 'c) tifs \<Rightarrow> call_env \<Rightarrow> u64 \<Rightarrow> bytes \<Rightarrow> ('w, 'c, fuse_reply) tifs_comp" where
  "afs_unlink F ce parent nm = answer (\<lambda>_. AEmpty) (tf_unlink F ce parent (to_string_lossy nm))"

definition afs_rmdir :: "('w, 'c) tifs \<Rightarrow> call_env \<Rightarrow> u64 \<Rightarrow> bytes \<Rightarrow> ('w, 'c, fuse_reply) tifs_comp" where
  "afs_rmdir F ce parent nm = answer (\<lambda>_. AEmpty) (tf_rmdir F ce parent (to_string_lossy nm))"

definition afs_symlink :: "('w, 'c) tifs \<Rightarrow> call_env \<Rightarrow> u32 \<Rightarrow> u32 \<Rightarrow> u64 \<Rightarrow> bytes \<Rightarrow> bytes \<Rightarrow> ('w, 'c, fuse_reply) tifs_comp" where
  "afs_symlink F ce uid gid parent nm link = answer AEntry (tf_symlink F ce gid uid parent (to_string_lossy nm) (to_string_lossy link))"

definition afs_rename :: "('w, 'c) tifs \<Rightarrow> call_env \<Rightarrow> u64 \<Rightarrow> bytes \<Rightarrow> u64 \<Rightarrow> bytes \<Rightarrow> ('w, 'c, fuse_reply) tifs_comp" where
  "afs_rename F ce parent nm newparent newname = answer (\<lambda>_. AEmpty) (tf_rename F ce parent (to_string_lossy nm) newparent (to_string_lossy newname))"

definition afs_link :: "('w, 'c) tifs \<Rightarrow> call_env \<Rightarrow> u64 \<Rightarrow> u64 \<Rightarrow> bytes \<Rightarrow> ('w, 'c, fuse_reply) tifs_comp" where
  "afs_link F ce ino newparent newname = answer AEntry (tf_link F ce ino newparent (to_string_lossy newname))"

definition afs_open :: "('w, 'c) tifs \<Rightarrow> call_env \<Rightarrow> u64 \<Rightarrow> u32 \<Rightarrow> ('w, 'c, fuse_reply) tifs_comp" where
  "afs_open F ce ino flags = answer AOpen (tf_open F ce ino flags)"

definition afs_read :: "('w, 'c) tifs \<Rightarrow> call_env \<Rightarrow> u64 \<Rightarrow> u64 \<Rightarrow> 64 word \<Rightarrow> u32 \<Rightarrow> ('w, 'c, fuse_reply) tifs_comp" where
  "afs_read F ce ino fh offset sz = answer AData (tf_read F ce ino fh offset sz)"

definition afs_write :: "('w, 'c) tifs \<Rightarrow> call_env \<Rightarrow> u64 \<Rightarrow> u64 \<Rightarrow> 64 word \<Rightarrow> bytes \<Rightarrow> ('w, 'c, fuse_reply) tifs_comp" where
  "afs_write F ce ino fh offset data = answer AWrite (tf_write F ce ino fh offset data)"

definition afs_flush :: "('w, 'c) tifs \<Rightarrow> call_env \<Rightarrow> u64 \<Rightarrow> ('w, 'c, fuse_reply) tifs_comp" where
  "afs_flush F ce fh = answer (\<lambda>_. AEmpty) (tf_flush F ce fh)"

definition afs_release :: "('w, 'c) tifs \<Rightarrow> call_env \<Rightarrow> u64 \<Rightarrow> ('w, 'c, fuse_reply) tifs_comp" where
  "afs_release F ce fh = answer (\<lambda>_. AEmpty) (tf_release F ce fh)"

definition afs_fsync :: "('w, 'c) tifs \<Rightarrow> call_env \<Rightarrow> u64 \<Rightarrow> ('w, 'c, fuse_reply) tifs_comp" where
  "afs_fsync F ce fh = answer (\<lambda>_. AEmpty) (tf_fsync F ce fh)"

definition afs_opendir :: "u64 \<Rightarrow> u32 \<Rightarrow> ('w, 'c, fuse_reply) tifs_comp" where
  "afs_opendir ino flags = answer AOpen default_opendir"

definition afs_readdir :: "('w, 'c) tifs \<Rightarrow> call_env \<Rightarrow> u64 \<Rightarrow> u64 \<Rightarrow> ('w, 'c, fuse_reply) tifs_comp" where
  "afs_readdir F ce ino offset = answer ADir (tf_readdir F ce ino offset)"

definition afs_readdirplus :: "u64 \<Rightarrow> u64 \<Rightarrow> ('w, 'c, fuse_reply) tifs_comp" where
  "afs_readdirplus ino offset = answer ADirPlus (default_readdirplus offset)"

definition afs_fsyncdir :: "u64 \<Rightarrow> ('w, 'c, fuse_reply) tifs_comp" where
  "afs_fsyncdir ino = answer (\<lambda>_ :: unit. AEmpty) unimplemented"

definition afs_statfs :: "('w, 'c) tifs \<Rightarrow> call_env \<Rightarrow> ('w, 'c, fuse_reply) tifs_comp" where
  "afs_statfs F ce = answer AStatfs (tf_statfs F ce)"

definition afs_setxattr :: "u64 \<Rightarrow> bytes \<Rightarrow> bytes \<Rightarrow> ('w, 'c, fuse_reply) tifs_comp" where
  "afs_setxattr ino nm v = answer (\<lambda>_. AEmpty) tf_setxattr"

definition afs_getxattr :: "u64 \<Rightarrow> bytes \<Rightarrow> u32 \<Rightarrow> ('w, 'c, fuse_reply) tifs_comp" where
  "afs_getxattr ino nm sz = answer AXattr (tf_getxattr sz)"

definition afs_listxattr :: "u64 \<Rightarrow> u32 \<Rightarrow> ('w, 'c, fuse_reply) tifs_comp" where
  "afs_listxattr ino sz = answer AXattr (tf_listxattr sz)"

definition afs_removexattr :: "u64 \<Rightarrow> bytes \<Rightarrow> ('w, 'c, fuse_reply) tifs_comp" where
  "afs_removexattr ino nm = answer (\<lambda>_. AEmpty) tf_removexattr"

definition afs_access :: "u64 \<Rightarrow> u32 \<Rightarrow> ('w, 'c, fuse_reply) tifs_comp" where
  "afs_access ino access_mask = answer (\<lambda>_. AEmpty) tf_access"

definition afs_create :: "('w, 'c) tifs \<Rightarrow> call_env \<Rightarrow> u32 \<Rightarrow> u32 \<Rightarrow> u64 \<Rightarrow> bytes \<Rightarrow> u32 \<Rightarrow> u32 \<Rightarrow> ('w, 'c, fuse_reply) tifs_comp" where
  "afs_create F ce uid gid parent nm mode flags = answer ACreate (tf_create F ce uid gid parent (to_string_lossy nm) mode flags)"

definition afs_getlk :: "u64 \<Rightarrow> ('w, 'c, fuse_reply) tifs_comp" where
  "afs_getlk ino = answer ALock unimplemented"

definition afs_setlk :: "u64 \<Rightarrow> ('w, 'c, fuse_reply) tifs_comp" where
  "afs_setlk ino = answer (\<lambda>_ :: unit. AEmpty) unimplemented"

definition afs_bmap :: "u64 \<Rightarrow> u32 \<Rightarrow> u64 \<Rightarrow> ('w, 'c, fuse_reply) tifs_comp" where
  "afs_bmap ino blocksize idx = answer ABmap unimplemented"

definition afs_fallocate :: "('w, 'c) tifs \<Rightarrow> call_env \<Rightarrow> u64 \<Rightarrow> u64 \<Rightarrow> 64 word \<Rightarrow> 64 word \<Rightarrow> ('w, 'c, fuse_reply) tifs_comp" where
  "afs_fallocate F ce ino fh offset len = answer (\<lambda>_. AEmpty) (tf_fallocate F ce ino fh offset len)"

definition afs_copy_file_range :: "u64 \<Rightarrow> u64 \<Rightarrow> u64 \<Rightarrow> u64 \<Rightarrow> ('w, 'c, fuse_reply) tifs_comp" where
  "afs_copy_file_range ino_in fh_in ino_out fh_out = answer AWrite unimplemented"

fun handle_request :: "('w, 'c) tifs \<Rightarrow> call_env \<Rightarrow> fuse_request \<Rightarrow> ('w, 'c, fuse_reply) tifs_comp" where
  "handle_request F ce (RLookup parent nm) = afs_lookup F ce parent nm"
| "handle_request F ce (RForget ino nlookup) = afs_forget ino nlookup"
| "handle_request F ce (RGetattr ino) = afs_getattr F ce ino"
| "handle_request F ce (RSetattr ino mode uid gid sz atime mtime ctime fh crtime chgtime bkuptime flags) = afs_setattr F ce ino mode uid gid sz atime mtime ctime fh crtime chgtime bkuptime flags"
| "handle_request F ce (RReadlink ino) = afs_readlink F ce ino"
| "handle_request F ce (RMknod uid gid parent nm mode rdev) = afs_mknod F ce uid gid parent nm mode rdev"
| "handle_request F ce (RMkdir uid gid parent nm mode) = afs_mkdir F ce uid gid parent nm mode"
| "handle_request F ce (RUnlink parent nm) = afs_unlink F ce parent nm"
| "handle_request F ce (RRmdir parent nm) = afs_rmdir F ce parent nm"
| "handle_request F ce (RSymlink uid gid parent nm link) = afs_symlink F ce uid gid parent nm link"
| "handle_request F ce (RRename parent nm newparent newname) = afs_rename F ce parent nm newparent newname"
| "handle_request F ce (RLink ino newparent newname) = afs_link F ce ino newparent newname"
| "handle_request F ce (ROpen ino flags) = afs_open F ce ino flags"
| "handle_request F ce (RRead ino fh offset sz) = afs_read F ce ino fh offset sz"
| "handle_request F ce (RWrite ino fh offset data) = afs_write F ce ino fh offset data"
| "handle_request F ce (RFlush fh) = afs_flush F ce fh"
| "handle_request F ce (RRelease fh) = afs_release F ce fh"
| "handle_request F ce (RFsync fh) = afs_fsync F ce fh"
| "handle_request F ce (ROpendir ino flags) = afs_opendir ino flags"
| "handle_request F ce (RReaddir ino offset) = afs_readdir F ce ino offset"
| "handle_request F ce (RReaddirplus ino offset) = afs_readdirplus ino offset"
| "handle_request F ce (RFsyncdir ino) = afs_fsyncdir ino"
| "handle_request F ce RStatfs = afs_statfs F ce"
| "handle_request F ce (RSetxattr ino nm v) = afs_setxattr ino nm v"
| "handle_request F ce (RGetxattr ino nm sz) = afs_getxattr ino nm sz"
| "handle_request F ce (RListxattr ino sz) = afs_listxattr ino sz"
| "handle_request F ce (RRemovexattr ino nm) = afs_removexattr ino nm"
| "handle_request F ce (RAccess ino access_mask) = afs_access ino access_mask"
| "handle_request F ce (RCreate uid gid parent nm mode flags) = afs_create F ce uid gid parent nm mode flags"
| "handle_request F ce (RGetlk ino) = afs_getlk ino"
| "handle_request F ce (RSetlk ino) = afs_setlk ino"
| "handle_request F ce (RBmap ino blocksize idx) = afs_bmap ino blocksize idx"
| "handle_request F ce (RFallocate ino fh offset len) = afs_fallocate F ce ino fh offset len"
| "handle_request F ce (RCopyFileRange ino_in fh_in ino_out fh_out) = afs_copy_file_range ino_in fh_in ino_out fh_out"

lemmas afs_defs = afs_lookup_def afs_forget_def afs_getattr_def afs_setattr_def afs_readlink_def
  afs_mknod_def afs_mkdir_def afs_unlink_def afs_rmdir_def afs_symlink_def afs_rename_def afs_link_def
  afs_open_def afs_read_def afs_write_def afs_flush_def afs_release_def afs_fsync_def afs_opendir_def
  afs_readdir_def afs_readdirplus_def afs_fsyncdir_def afs_statfs_def afs_setxattr_def
  afs_getxattr_def afs_listxattr_def afs_removexattr_def afs_access_def afs_create_def afs_getlk_def
  afs_setlk_def afs_bmap_def afs_fallocate_def afs_copy_file_range_def

section \<open>Replies to the kernel\<close>

text \<open>
  What is sent to the kernel. \<open>reply_ok\<close> unpacks the answer; the directory buffer of the
  request is a parameter. \<open>reply\<close> sends the answer or the error number; a handler that does
  not return, or panics, never replies.
\<close>

datatype 'b kernel_reply =
    KEntry system_time file_attr u64
  | KOpened u64 u32
  | KAttr system_time file_attr
  | KData bytes
  | KDirectory 'b
  | KStatfs u64 u64 u64 u64 u64 u32 u32 u32
  | KWritten u32
  | KCreated system_time file_attr u64 u64 u32
  | KXattrSize u32
  | KLocked u64 u64 u32 u32
  | KBmap u64
  | KOffset "64 word"
  | KOk
  | KError int

record 'b dir_buffer =
  db_empty :: 'b
  db_add :: "'b \<Rightarrow> u64 \<times> nat \<times> file_type \<times> name \<Rightarrow> 'b option"
  db_add_plus :: "'b \<Rightarrow> u64 \<times> nat \<times> name \<times> entry \<Rightarrow> 'b option"

fun reply_ok :: "'b dir_buffer \<Rightarrow> fuse_reply \<Rightarrow> 'b kernel_reply" where
  "reply_ok B (AEntry item) = KEntry (entry_time item) (entry_stat item) (entry_generation item)"
| "reply_ok B (AOpen item) = KOpened (open_fh item) (open_flags item)"
| "reply_ok B (AAttr item) = KAttr (attr_time item) (attr_attr item)"
| "reply_ok B (AData item) = KData item"
| "reply_ok B (ADir d) = KDirectory (reply_dir (db_add B) d (db_empty B))"
| "reply_ok B (ADirPlus d) = KDirectory (reply_dir_plus (db_add_plus B) d (db_empty B))"
| "reply_ok B (AStatfs item) = KStatfs (stat_blocks item) (stat_bfree item) (stat_bavail item) (stat_files item)
     (stat_ffree item) (stat_bsize item) (stat_namelen item) (stat_frsize item)"
| "reply_ok B (AWrite sz) = KWritten sz"
| "reply_ok B (ACreate item) = KCreated (create_ttl item) (create_attr item) (create_generation item) (create_fh item)
     (create_flags item)"
| "reply_ok B (AXattr (XattrData data)) = KData data"
| "reply_ok B (AXattr (XattrSize sz)) = KXattrSize sz"
| "reply_ok B (ALock item) = KLocked (lock_start item) (lock_end item) (lock_typ item) (lock_pid item)"
| "reply_ok B (ABmap block) = KBmap block"
| "reply_ok B (ALseek offset) = KOffset offset"
| "reply_ok B AEmpty = KOk"

definition reply :: "'b dir_buffer \<Rightarrow> fs_error + fuse_reply option \<Rightarrow> 'b kernel_reply option" where
  "reply B r = (case r of
     Inr None \<Rightarrow> None
   | Inr (Some item) \<Rightarrow> Some (reply_ok B item)
   | Inl err \<Rightarrow> Some (KError (errno_of err)))"

text \<open>A sequence of requests, each with its surroundings; between them spawned closes run and the heartbeat cleans.\<close>

datatype tifs_event = Request call_env fuse_request | RunClose call_env | Heartbeat

fun run_event :: "('w, 'c) tifs \<Rightarrow> tifs_event \<Rightarrow> ('w, 'c) tifs_state \<Rightarrow> ('w, 'c) tifs_state" where
  "run_event F (Request ce req) s = snd (handle_request F ce req s)"
| "run_event F (RunClose ce) s = snd (run_spawned_close F ce s)"
| "run_event F Heartbeat s = (fst s, heartbeat_clean_weak_ptrs (snd s))"

definition run_events :: "('w, 'c) tifs \<Rightarrow> tifs_event list \<Rightarrow> ('w, 'c) tifs_state \<Rightarrow> ('w, 'c) tifs_state" where
  "run_events F evs s = fold (run_event F) evs s"

end
