(* ===== verification/Handle_Facts.thy ===== *)
theory Handle_Facts
  imports Async_Fs Txn_Facts
begin

text \<open>
  The table of file handles. Its abstract state is the binding of handles to the use of an inode
  and an open mode. Every request leaves the bindings as they are, apart from \<open>open\<close> and
  \<open>create\<close>, which add one for a handle that was free, and \<open>release\<close>, which removes its own.
\<close>

section \<open>Computations and relations on the tables\<close>

definition follows :: "(tifs_mutable \<Rightarrow> tifs_mutable \<Rightarrow> bool) \<Rightarrow> (('w, 'c) tifs_state, 'e, 'a) comp \<Rightarrow> bool" where
  "follows R m \<longleftrightarrow> (\<forall>w M. R M (snd (snd (m (w, M)))))"

lemma followsD: "follows R m \<Longrightarrow> m (w, M) = (r, (w', M')) \<Longrightarrow> R M M'"
  by (metis follows_def snd_conv)

lemma followsI: "(\<And>w M r w' M'. m (w, M) = (r, (w', M')) \<Longrightarrow> R M M') \<Longrightarrow> follows R m"
  unfolding follows_def by (metis prod.collapse)

text \<open>Relations that compose: what every part of a computation follows, the whole follows.\<close>

locale table_order =
  fixes R :: "tifs_mutable \<Rightarrow> tifs_mutable \<Rightarrow> bool"
  assumes table_refl: "R M M"
    and table_trans: "R M M' \<Longrightarrow> R M' M'' \<Longrightarrow> R M M''"
begin

lemma follows_pure: "follows R (ret x)" "follows R (fail e)" "follows R (of_result r)"
  by (auto intro!: followsI simp: table_refl ret_def fail_def of_result_def split: sum.splits)

lemma follows_on_world: "follows R (on_world m)"
  by (auto intro!: followsI simp: on_world_def table_refl split: prod.splits)

lemma follows_checked: "follows R (get_file_handler_checked fh)"
  by (auto intro!: followsI simp: get_file_handler_checked_def table_refl split: option.splits)

lemma follows_and_then:
  assumes "follows R m" and "\<And>x. follows R (k x)"
  shows "follows R (and_then m k)"
proof (rule followsI)
  fix w M r w' M' assume "and_then m k (w, M) = (r, (w', M'))"
  then show "R M M'"
  proof (cases rule: and_then_cases)
    case (1 e)
    then show ?thesis using followsD [OF assms(1)] by blast
  next
    case (2 x s)
    obtain w1 M1 where s: "s = (w1, M1)" by (cases s)
    have "R M M1" using 2(1) followsD [OF assms(1)] by (simp add: s)
    moreover have "R M1 M'" using 2(2) followsD [OF assms(2)] by (simp add: s)
    ultimately show ?thesis by (rule table_trans)
  qed
qed

lemma follows_then_some:
  assumes "follows R m" and "\<And>x. follows R (k x)"
  shows "follows R (then_some m k)"
  unfolding then_some_def using assms by (intro follows_and_then) (auto simp: follows_pure split: option.splits)

lemma follows_answer: "follows R m \<Longrightarrow> follows R (answer f m)"
  unfolding answer_def by (intro follows_then_some follows_pure)

lemma follows_spawn_job:
  assumes "follows R m"
  shows "follows R (spawn_job m)"
proof (rule followsI)
  fix w M r w' M' assume "spawn_job m (w, M) = (r, (w', M'))"
  then obtain r1 where "m (w, M) = (r1, (w', M'))"
    by (auto simp: spawn_job_def split: prod.splits sum.splits option.splits)
  then show "R M M'" by (rule followsD [OF assms])
qed

lemma follows_spin:
  assumes "\<And>i. follows R (f i)"
  shows "follows R (spin n i k f)"
proof (induction n arbitrary: i k)
  case 0
  show ?case by (auto intro!: followsI simp: table_refl)
next
  case (Suc n)
  have step: "R M M1 \<Longrightarrow> spin n i' k' f (w1, M1) = (r, (w', M')) \<Longrightarrow> R M M'" for i' k' M M1 w1 r w' M'
    by (rule table_trans, assumption) (rule followsD [OF Suc])
  show ?case
  proof (rule followsI)
    fix w M r w' M' assume run: "spin (Suc n) i k f (w, M) = (r, (w', M'))"
    obtain r1 w1 M1 where one: "f i (w, M) = (r1, (w1, M1))" by (metis prod.collapse)
    have "R M M1" by (rule followsD [OF assms one])
    with run one show "R M M'" by (auto split: sum.splits fs_error.splits if_splits intro: step)
  qed
qed

lemma follows_spin_no_delay: "follows R (spin_no_delay ce f)"
  unfolding spin_no_delay_def by (intro follows_spin follows_on_world)

lemmas follows_rules = follows_pure follows_on_world follows_checked follows_and_then follows_then_some follows_answer
  follows_spawn_job follows_spin follows_spin_no_delay

end

section \<open>Bindings\<close>

definition bound :: "tifs_mutable \<Rightarrow> u64 \<Rightarrow> (ino_use \<times> open_mode) option" where
  "bound M fh = map_option (\<lambda>h. (fh_ino_use h, fh_open_mode h)) (map_of (tm_file_handlers M) fh)"

definition same_table :: "tifs_mutable \<Rightarrow> tifs_mutable \<Rightarrow> bool" where
  "same_table M M' \<longleftrightarrow> bound M' = bound M \<and> tm_freed_fhs M' = tm_freed_fhs M \<and> tm_next_fh M' = tm_next_fh M
     \<and> tm_opened_ino M' = tm_opened_ino M"

interpretation same: table_order same_table
  by unfold_locales (auto simp: same_table_def)

lemma bound_insert:
  "bound (M\<lparr>tm_file_handlers := map_insert fh h (tm_file_handlers M)\<rparr>) = (bound M)(fh \<mapsto> (fh_ino_use h, fh_open_mode h))"
  by (auto simp: bound_def map_of_map_insert)

lemma same_with_handler:
  assumes "\<And>h. fh_ino_use (snd (f h)) = fh_ino_use h \<and> fh_open_mode (snd (f h)) = fh_open_mode h"
  shows "follows same_table (with_handler fh f)"
proof (rule followsI)
  fix w M r w' M' assume run: "with_handler fh f (w, M) = (r, (w', M'))"
  show "same_table M M'"
  proof (cases "map_of (tm_file_handlers M) fh")
    case None
    with run show ?thesis by (simp add: with_handler_def same.table_refl)
  next
    case (Some h)
    obtain x h' where f: "f h = (x, h')" by (cases "f h")
    with assms [of h] have "bound M fh = Some (fh_ino_use h', fh_open_mode h')" using Some by (simp add: bound_def)
    moreover have "M' = M\<lparr>tm_file_handlers := map_insert fh h' (tm_file_handlers M)\<rparr>"
      using run Some f by (simp add: with_handler_def)
    ultimately show ?thesis by (simp add: same_table_def bound_insert fun_upd_idem)
  qed
qed

lemma same_on_accumulator: "follows same_table (on_accumulator fh m)"
proof (rule followsI)
  fix w M r w' M' assume run: "on_accumulator fh m (w, M) = (r, (w', M'))"
  show "same_table M M'"
  proof (cases "map_of (tm_file_handlers M) fh")
    case None
    with run show ?thesis by (simp add: on_accumulator_def same.table_refl)
  next
    case (Some h)
    then have "bound M fh = Some (fh_ino_use h, fh_open_mode h)" by (simp add: bound_def)
    moreover obtain acc where "M' = M\<lparr>tm_file_handlers := map_insert fh (h\<lparr>fh_write_accumulator := acc\<rparr>) (tm_file_handlers M)\<rparr>"
      using run Some by (auto simp: on_accumulator_def split: prod.splits)
    ultimately show ?thesis by (simp add: same_table_def bound_insert fun_upd_idem)
  qed
qed

section \<open>Requests that leave the table alone\<close>

lemmas same_rules = same.follows_rules same_with_handler same_on_accumulator

lemma same_write_job: "follows same_table (write_job F ce fh start data flush)"
  unfolding write_job_def by (intro same_rules)

lemma same_finish_writes: "follows same_table (with_handler fh finish_writes)"
  by (rule same_with_handler) (simp add: finish_writes_def split: prod.splits)

lemma same_flush_write_cache: "follows same_table (flush_write_cache F ce fh)"
  unfolding flush_write_cache_def by (intro same_rules same_write_job same_finish_writes)

lemma same_attributes:
  "follows same_table (lookup_all_info_logical F ce p nm kind)"
  "follows same_table (get_all_file_attributes_storage_ino F ce ino kind)"
  "follows same_table (get_all_file_attributes_storage_ino_entry_reply F ce ino kind)"
  "follows same_table (get_all_file_attributes F ce l)"
  "follows same_table (read_dir1 F ce ino)"
  unfolding lookup_all_info_logical_def get_all_file_attributes_storage_ino_def get_all_file_attributes_def
    get_all_file_attributes_storage_ino_entry_reply_def read_dir1_def Let_def
  by (intro same_rules)+

lemma same_read_ahead_step: "follows same_table (read_ahead_step F ce ino fh target)"
  unfolding read_ahead_step_def read_transaction_def Let_def
  by (intro same_rules) (auto intro!: same_rules split: list.splits)

lemma same_reads:
  "follows same_table (read_kind_regular F ce ino fh start sz)"
  "follows same_table (read_kind_hash F ce ino start sz)"
  "follows same_table (read_file_kind_hashes F ce ino start sz)"
  unfolding read_kind_regular_def read_kind_hash_def read_file_kind_hashes_def read_transaction_def Let_def
  by (auto intro!: same_rules same_finish_writes same_read_ahead_step)

lemma same_read: "follows same_table (tf_read F ce ino fh offset sz)"
  unfolding tf_read_def Let_def by (auto intro!: same_rules same_reads split: ino_kind.splits)

lemma same_write: "follows same_table (tf_write F ce ino fh offset data)"
  unfolding tf_write_def Let_def by (auto intro!: same_rules same_write_job split: prod.splits)

lemma same_lookup: "follows same_table (tf_lookup F ce parent nm)"
  unfolding tf_lookup_def Let_def by (auto intro!: same_rules same_attributes split: option.splits)

lemma same_mknod: "follows same_table (tf_mknod F ce parent nm mode gid uid rdev)"
  unfolding tf_mknod_def Let_def by (auto intro!: same_rules same_attributes split: option.splits)

lemma same_metadata:
  "follows same_table (tf_getattr F ce ino)"
  "follows same_table (tf_setattr F ce ino mode uid gid sz atime mtime ctime fh crtime chgtime bkuptime flags)"
  "follows same_table (tf_readlink F ce ino)" "follows same_table (tf_mkdir F ce parent nm m g u)"
  "follows same_table (tf_unlink F ce parent nm)" "follows same_table (tf_rmdir F ce parent nm)"
  "follows same_table (tf_symlink F ce g u parent nm link)" "follows same_table (tf_rename F ce parent nm newparent newname)"
  "follows same_table (tf_link F ce ino newparent newname)" "follows same_table (tf_readdir F ce ino off)"
  "follows same_table (tf_statfs F ce)" "follows same_table (tf_fallocate F ce ino fh' offset len)"
  unfolding tf_getattr_def tf_setattr_def tf_readlink_def tf_mkdir_def tf_unlink_def tf_rmdir_def tf_symlink_def
    tf_rename_def tf_link_def tf_readdir_def tf_statfs_def tf_fallocate_def Let_def
  by (auto intro!: same_rules same_attributes)

lemma same_constants:
  "follows same_table tf_access" "follows same_table tf_setxattr" "follows same_table (tf_getxattr sz)"
  "follows same_table (tf_listxattr sz)" "follows same_table tf_removexattr" "follows same_table unimplemented"
  "follows same_table default_opendir" "follows same_table (default_readdirplus off)"
  unfolding tf_access_def tf_setxattr_def tf_getxattr_def tf_listxattr_def tf_removexattr_def unimplemented_def
    default_opendir_def default_readdirplus_def
  by (intro same_rules)+

text \<open>Which requests open or release a handle.\<close>

fun changes_table :: "fuse_request \<Rightarrow> bool" where
  "changes_table (ROpen ino flags) = True"
| "changes_table (RCreate uid gid parent nm mode flags) = True"
| "changes_table (RRelease fh) = True"
| "changes_table _ = False"

lemma same_request: "\<not> changes_table req \<Longrightarrow> follows same_table (handle_request F ce req)"
  by (cases req) (auto simp only: handle_request.simps afs_defs changes_table.simps tf_flush_def tf_fsync_def
      intro!: same.follows_answer same.follows_pure same_read same_write same_lookup same_mknod same_metadata same_constants
        same_flush_write_cache)

section \<open>Opening and releasing\<close>

text \<open>
  The invariant: a freed handle is not bound, bound and freed handles lie below the next new
  one, and a remembered use belongs to the inode it is remembered for.
\<close>

definition uses_ok :: "tifs_mutable \<Rightarrow> bool" where
  "uses_ok M \<longleftrightarrow> (\<forall>(ino, u) \<in> set (tm_opened_ino M). iu_ino u = li_storage_ino (logical_ino_from_raw ino))"

definition handles_ok :: "tifs_mutable \<Rightarrow> bool" where
  "handles_ok M \<longleftrightarrow> (\<forall>fh \<in> set (tm_freed_fhs M). bound M fh = None \<and> fh < tm_next_fh M)
     \<and> (\<forall>fh b. bound M fh = Some b \<longrightarrow> fh < tm_next_fh M)
     \<and> uses_ok M"

lemma handles_ok_same: "same_table M M' \<Longrightarrow> handles_ok M' = handles_ok M"
  by (simp add: same_table_def handles_ok_def uses_ok_def)

lemma set_map_insert_subset: "set (map_insert k v xs) \<subseteq> insert (k, v) (set xs)"
  by (induction k v xs rule: map_insert.induct) auto

lemma unat_next: "Suc (unat x) < 2 ^ 64 \<Longrightarrow> unat (x + 1) = Suc (unat x)" for x :: u64
  using unat_succ_bound [of x] by simp

lemma get_free_fh_fresh:
  assumes "handles_ok M" and "Suc (unat (tm_next_fh M)) < 2 ^ 64" and "\<And>xs. set (ord xs) = set xs" and "get_free_fh ord M = (fh, M')"
  shows "bound M fh = None" and "bound M' = bound M" and "fh < tm_next_fh M'" and "fh \<notin> set (tm_freed_fhs M')"
    and "handles_ok M'" and "tm_opened_ino M' = tm_opened_ino M" and "unat (tm_next_fh M') \<le> Suc (unat (tm_next_fh M))"
proof -
  have next_gt: "tm_next_fh M < tm_next_fh M + 1" using unat_next [OF assms(2)] by (simp add: word_less_nat_alt)
  have "bound M fh = None \<and> bound M' = bound M \<and> fh < tm_next_fh M' \<and> fh \<notin> set (tm_freed_fhs M')
      \<and> handles_ok M' \<and> tm_opened_ino M' = tm_opened_ino M \<and> unat (tm_next_fh M') \<le> Suc (unat (tm_next_fh M))"
  proof (cases "ord (tm_freed_fhs M)")
    case Nil
    then have "set (tm_freed_fhs M) = {}" using assms(3) [of "tm_freed_fhs M"] by simp
    moreover have "bound M (tm_next_fh M) = None"
      using assms(1) by (cases "bound M (tm_next_fh M)") (auto simp: handles_ok_def)
    moreover have "M' = M\<lparr>tm_next_fh := tm_next_fh M + 1\<rparr>" "fh = tm_next_fh M"
      using assms(4) Nil by (auto simp: get_free_fh_def)
    ultimately show ?thesis using assms(1) next_gt unat_next [OF assms(2)] by (auto simp: handles_ok_def uses_ok_def bound_def)
  next
    case (Cons a as)
    then have "a \<in> set (tm_freed_fhs M)" using assms(3) [of "tm_freed_fhs M"] by auto
    moreover have "M' = M\<lparr>tm_freed_fhs := removeAll a (tm_freed_fhs M)\<rparr>" "fh = a"
      using assms(4) Cons by (auto simp: get_free_fh_def)
    ultimately show ?thesis using assms(1) by (auto simp: handles_ok_def uses_ok_def bound_def)
  qed
  then show "bound M fh = None" "bound M' = bound M" "fh < tm_next_fh M'" "fh \<notin> set (tm_freed_fhs M')"
    "handles_ok M'" "tm_opened_ino M' = tm_opened_ino M" "unat (tm_next_fh M') \<le> Suc (unat (tm_next_fh M))" by auto
qed

text \<open>Getting the use of an inode may only remember a new one.\<close>

definition use_table :: "tifs_mutable \<Rightarrow> tifs_mutable \<Rightarrow> bool" where
  "use_table M M' \<longleftrightarrow> bound M' = bound M \<and> tm_freed_fhs M' = tm_freed_fhs M \<and> tm_next_fh M' = tm_next_fh M
     \<and> (uses_ok M \<longrightarrow> uses_ok M')"

interpretation use: table_order use_table
  by unfold_locales (auto simp: use_table_def)

lemma handles_ok_use: "use_table M M' \<Longrightarrow> handles_ok M \<Longrightarrow> handles_ok M'"
  by (simp add: use_table_def handles_ok_def)

lemma remember_use_follows:
  assumes "iu_ino u = li_storage_ino (logical_ino_from_raw ino)"
  shows "follows use_table (with_mut_data (\<lambda>M. ((), M\<lparr>tm_opened_ino := map_insert ino u (tm_opened_ino M)\<rparr>)))"
  using assms set_map_insert_subset [of ino u]
  by (fastforce intro!: followsI simp: with_mut_data_def use_table_def uses_ok_def bound_def fun_eq_iff)

lemma get_use_follows: "follows use_table (with_mut_data (\<lambda>M. (f M, M)))"
  by (auto intro!: followsI simp: with_mut_data_def use.table_refl)

lemma find_use_follows: "follows use_table (find_use F ce ino)"
  unfolding find_use_def Let_def
  by (intro use.follows_then_some get_use_follows) (auto intro!: use.follows_rules remember_use_follows split: option.splits)

lemma find_use_ino:
  assumes "find_use F ce ino (w, M) = (Inr (Some u), s')" and "uses_ok M"
  shows "iu_ino u = li_storage_ino (logical_ino_from_raw ino)"
proof (cases "get_ino_use M ino")
  case (Some v)
  then have "(ino, v) \<in> set (tm_opened_ino M)" by (auto simp: get_ino_use_def split: option.splits if_splits dest: map_of_SomeD)
  moreover have "u = v" using assms(1) Some by (simp add: find_use_def Let_def with_mut_data_def then_some_def and_then_def ret_def)
  ultimately show ?thesis using assms(2) by (auto simp: uses_ok_def)
next
  case None
  then show ?thesis using assms(1)
    by (auto simp: find_use_def with_mut_data_def then_some_def and_then_def ret_def Let_def
        split: prod.splits sum.splits option.splits)
qed

lemma open_cases:
  assumes "tf_open F ce ino flags (w, M) = (r, (w', M'))"
  obtains (failed) "use_table M M'" "\<And>x. r \<noteq> Inr (Some x)"
  | (opened) u M1 fh M2 h where "use_table M M1" "uses_ok M \<Longrightarrow> iu_ino u = li_storage_ino (logical_ino_from_raw ino)"
      "get_free_fh (tf_fh_order F) M1 = (fh, M2)" "h = file_handler_new u (open_mode_of flags) (tf_fs_config F)"
      "M' = M2\<lparr>tm_file_handlers := map_insert fh h (tm_file_handlers M2)\<rparr>"
      "\<And>x. r = Inr (Some x) \<Longrightarrow> open_fh x = fh"
proof -
  obtain r1 w1 M1 where one: "find_use F ce ino (w, M) = (r1, (w1, M1))" by (metis prod.collapse)
  have step: "use_table M M1" by (rule followsD [OF find_use_follows one])
  consider e where "r1 = Inl e" | "r1 = Inr None" | u where "r1 = Inr (Some u)" by (metis obj_sumE option.exhaust)
  then show thesis
  proof cases
    case 1
    with assms one step show ?thesis by (intro failed) (auto simp: tf_open_def then_some_def and_then_def)
  next
    case 2
    with assms one step show ?thesis by (intro failed) (auto simp: tf_open_def then_some_def and_then_def ret_def)
  next
    case 3
    obtain fh M2 where fh: "get_free_fh (tf_fh_order F) M1 = (fh, M2)" by fastforce
    have "uses_ok M \<Longrightarrow> iu_ino u = li_storage_ino (logical_ino_from_raw ino)"
      using find_use_ino [of F ce ino w M u] one 3 by simp
    then show ?thesis using assms one step 3 fh
      by (intro opened [of M1 u fh M2 "file_handler_new u (open_mode_of flags) (tf_fs_config F)"])
        (auto simp: tf_open_def then_some_def and_then_def ret_def with_mut_data_def)
  qed
qed

text \<open>Opening binds a free handle to the inode, and changes no other binding.\<close>

lemma open_step:
  assumes ok: "handles_ok M" "Suc (unat (tm_next_fh M)) < 2 ^ 64" and ord: "\<And>xs. set (tf_fh_order F xs) = set xs"
    and run: "tf_open F ce ino flags (w, M) = (r, (w', M'))"
  shows "handles_ok M'" and "unat (tm_next_fh M') \<le> Suc (unat (tm_next_fh M))"
    and "bound M fh = Some b \<Longrightarrow> bound M' fh = Some b"
    and "r = Inr (Some x) \<Longrightarrow> bound M (open_fh x) = None \<and> (\<exists>u. iu_ino u = li_storage_ino (logical_ino_from_raw ino)
      \<and> bound M' = (bound M)(open_fh x \<mapsto> (u, open_mode_of flags)))"
proof -
  have "handles_ok M' \<and> unat (tm_next_fh M') \<le> Suc (unat (tm_next_fh M)) \<and> (bound M fh = Some b \<longrightarrow> bound M' fh = Some b)
    \<and> (r = Inr (Some x) \<longrightarrow> bound M (open_fh x) = None \<and> (\<exists>u. iu_ino u = li_storage_ino (logical_ino_from_raw ino)
      \<and> bound M' = (bound M)(open_fh x \<mapsto> (u, open_mode_of flags))))"
    using run
  proof (cases rule: open_cases)
    case failed
    with ok show ?thesis using handles_ok_use [OF failed(1) ok(1)] by (auto simp: use_table_def)
  next
    case (opened u M1 fh' M2 h)
    have ok1: "handles_ok M1" by (rule handles_ok_use [OF opened(1) ok(1)])
    have eq: "bound M1 = bound M" "tm_next_fh M1 = tm_next_fh M" using opened(1) by (simp_all add: use_table_def)
    note fresh = get_free_fh_fresh [OF ok1 _ ord opened(3)]
    have b': "bound M' = (bound M)(fh' \<mapsto> (u, open_mode_of flags))"
      using fresh ok(2) eq by (simp add: opened(4,5) bound_insert file_handler_new_def)
    have "uses_ok M" using ok(1) by (simp add: handles_ok_def)
    then have "iu_ino u = li_storage_ino (logical_ino_from_raw ino)" by (rule opened(2))
    moreover have "handles_ok M'"
      using fresh ok(2) b' eq by (auto simp: handles_ok_def uses_ok_def opened(5))
    ultimately show ?thesis using fresh ok(2) b' eq opened(6) by (auto simp: opened(5))
  qed
  then show "handles_ok M'" "unat (tm_next_fh M') \<le> Suc (unat (tm_next_fh M))" "bound M fh = Some b \<Longrightarrow> bound M' fh = Some b"
    "r = Inr (Some x) \<Longrightarrow> bound M (open_fh x) = None \<and> (\<exists>u. iu_ino u = li_storage_ino (logical_ino_from_raw ino)
      \<and> bound M' = (bound M)(open_fh x \<mapsto> (u, open_mode_of flags)))" by auto
qed

section \<open>Every event\<close>

text \<open>One event: the invariant stays, at most one new handle is made, and the binding of a handle stays.\<close>

definition keeps_handle :: "u64 \<Rightarrow> tifs_mutable \<Rightarrow> tifs_mutable \<Rightarrow> bool" where
  "keeps_handle fh M M' \<longleftrightarrow> (handles_ok M \<and> Suc (unat (tm_next_fh M)) < 2 ^ 64 \<longrightarrow>
     handles_ok M' \<and> unat (tm_next_fh M') \<le> Suc (unat (tm_next_fh M)) \<and> (\<forall>b. bound M fh = Some b \<longrightarrow> bound M' fh = Some b))"

lemma keeps_handle_same: "same_table M M' \<Longrightarrow> keeps_handle fh M M'"
  using handles_ok_same [of M M'] by (simp add: keeps_handle_def same_table_def)

lemma keeps_handle_trans_same:
  "same_table M M1 \<Longrightarrow> keeps_handle fh M1 M' \<Longrightarrow> keeps_handle fh M M'"
  "keeps_handle fh M M1 \<Longrightarrow> same_table M1 M' \<Longrightarrow> keeps_handle fh M M'"
  using handles_ok_same [of M M1] handles_ok_same [of M1 M'] by (auto simp: keeps_handle_def same_table_def)

lemma follows_same_then:
  assumes "follows same_table m" and "\<And>x. follows (keeps_handle fh) (k x)"
  shows "follows (keeps_handle fh) (and_then m k)"
proof (rule followsI)
  fix w M r w' M' assume "and_then m k (w, M) = (r, (w', M'))"
  then show "keeps_handle fh M M'"
  proof (cases rule: and_then_cases)
    case (1 e)
    then show ?thesis using followsD [OF assms(1)] keeps_handle_same by blast
  next
    case (2 x s)
    then show ?thesis
      using followsD [OF assms(1), of w M "Inr x" "fst s" "snd s"] followsD [OF assms(2), of x "fst s" "snd s"]
        keeps_handle_trans_same(1) by simp
  qed
qed

lemma follows_then_same:
  assumes "follows (keeps_handle fh) m" and "\<And>x. follows same_table (k x)"
  shows "follows (keeps_handle fh) (and_then m k)"
proof (rule followsI)
  fix w M r w' M' assume "and_then m k (w, M) = (r, (w', M'))"
  then show "keeps_handle fh M M'"
  proof (cases rule: and_then_cases)
    case (1 e)
    then show ?thesis using followsD [OF assms(1)] by blast
  next
    case (2 x s)
    then show ?thesis
      using followsD [OF assms(1), of w M "Inr x" "fst s" "snd s"] followsD [OF assms(2), of x "fst s" "snd s"]
        keeps_handle_trans_same(2) by simp
  qed
qed

lemma keeps_answer: "follows (keeps_handle fh) m \<Longrightarrow> follows (keeps_handle fh) (answer f m)"
  unfolding answer_def then_some_def by (rule follows_then_same) (auto intro!: same_rules split: option.splits)

lemma keeps_open:
  assumes "\<And>xs. set (tf_fh_order F xs) = set xs"
  shows "follows (keeps_handle fh) (tf_open F ce ino flags)"
proof (rule followsI)
  fix w M r w' M' assume run: "tf_open F ce ino flags (w, M) = (r, (w', M'))"
  then show "keeps_handle fh M M'" unfolding keeps_handle_def
    using open_step(1,2) [OF _ _ assms run] open_step(3) [OF _ _ assms run, of fh] by blast
qed

lemma keeps_create:
  assumes "\<And>xs. set (tf_fh_order F xs) = set xs"
  shows "follows (keeps_handle fh) (tf_create F ce uid gid parent nm mode flags)"
proof -
  have "follows (keeps_handle fh) (then_some (tf_open F ce ino flags) (\<lambda>x. ret (Some (f x))))" for ino and f :: "open_reply \<Rightarrow> create_reply"
    unfolding then_some_def using keeps_open [OF assms]
    by (intro follows_then_same) (auto intro!: same_rules split: option.splits)
  moreover have "follows (keeps_handle fh) (ret None)"
    by (auto intro!: followsI keeps_handle_same simp: ret_def same.table_refl)
  ultimately have "follows (keeps_handle fh) (case r of None \<Rightarrow> ret None
      | Some entry \<Rightarrow> then_some (tf_open F ce (ino entry) flags) (\<lambda>x. ret (Some (f entry x))))"
    for r :: "entry option" and ino and f :: "entry \<Rightarrow> open_reply \<Rightarrow> create_reply"
    by (cases r) auto
  then show ?thesis unfolding tf_create_def then_some_def [of "tf_mknod F ce parent nm mode gid uid 0"]
    by (intro follows_same_then same_rules same_mknod)
qed

lemma handles_ok_release:
  assumes "handles_ok M" and "map_of (tm_file_handlers M) fh = Some h"
    and "M' = M\<lparr>tm_file_handlers := map_remove fh (tm_file_handlers M), tm_freed_fhs := List.insert fh (tm_freed_fhs M)\<rparr>"
  shows "handles_ok M'" and "bound M' = (bound M)(fh := None)"
proof -
  show b: "bound M' = (bound M)(fh := None)" by (auto simp: assms(3) bound_def map_of_map_remove)
  have "bound M fh = Some (fh_ino_use h, fh_open_mode h)" by (simp add: bound_def assms(2))
  then have "fh < tm_next_fh M" using assms(1) by (auto simp: handles_ok_def)
  then show "handles_ok M'" using assms(1) b by (auto simp: handles_ok_def uses_ok_def assms(3) split: if_splits)
qed

lemma release_table:
  assumes "release_file_handler fh (w, M) = (r, (w', M'))"
  shows "M' = M \<and> bound M fh = None \<or> (\<exists>h M1. map_of (tm_file_handlers M) fh = Some h \<and> same_table M1 M'
    \<and> M1 = M\<lparr>tm_file_handlers := map_remove fh (tm_file_handlers M), tm_freed_fhs := List.insert fh (tm_freed_fhs M)\<rparr>)"
proof (cases "map_of (tm_file_handlers M) fh")
  case None
  with assms show ?thesis
    by (simp add: release_file_handler_def mut_release_file_handler_def with_mut_data_def then_some_def and_then_def ret_def bound_def)
next
  case (Some h)
  with assms show ?thesis
    by (auto simp: release_file_handler_def mut_release_file_handler_def with_mut_data_def then_some_def and_then_def
        drop_ino_use_def same_table_def bound_def fun_eq_iff)
qed

lemma keeps_release:
  assumes "fh \<noteq> fh'"
  shows "follows (keeps_handle fh) (tf_release F ce fh')"
proof -
  have "follows (keeps_handle fh) (release_file_handler fh')"
  proof (rule followsI)
    fix w M r w' M' assume run: "release_file_handler fh' (w, M) = (r, (w', M'))"
    from release_table [OF run] show "keeps_handle fh M M'"
    proof (elim disjE exE conjE)
      fix h M1 assume h: "map_of (tm_file_handlers M) fh' = Some h" and M1: "same_table M1 M'"
        and M1_def: "M1 = M\<lparr>tm_file_handlers := map_remove fh' (tm_file_handlers M), tm_freed_fhs := List.insert fh' (tm_freed_fhs M)\<rparr>"
      have "keeps_handle fh M M1"
        using handles_ok_release [OF _ h M1_def] handles_ok_release(2) [OF _ h M1_def] assms
        by (auto simp: keeps_handle_def) (simp add: M1_def)
      then show ?thesis using M1 by (rule keeps_handle_trans_same(2))
    qed (simp add: keeps_handle_same same.table_refl)
  qed
  moreover have "follows (keeps_handle fh) (ret None)"
    by (auto intro!: followsI keeps_handle_same simp: ret_def same.table_refl)
  ultimately show ?thesis unfolding tf_release_def then_some_def
    by (intro follows_same_then same_flush_write_cache) (auto split: option.splits)
qed

lemma keeps_request:
  assumes "\<And>xs. set (tf_fh_order F xs) = set xs" and "req \<noteq> RRelease fh"
  shows "follows (keeps_handle fh) (handle_request F ce req)"
proof (cases "changes_table req")
  case False
  then show ?thesis using same_request [of req F ce] keeps_handle_same by (auto simp: follows_def)
next
  case True
  then show ?thesis using assms
    by (cases req) (auto simp: afs_defs intro!: keeps_answer keeps_open keeps_create keeps_release)
qed

lemma same_run_close: "follows same_table (run_spawned_close F ce)"
proof -
  have "follows same_table (with_mut_data (\<lambda>M. case tm_spawned_closes M of
      [] \<Rightarrow> (None, M) | u # us \<Rightarrow> (Some u, M\<lparr>tm_spawned_closes := us\<rparr>)))"
    by (auto intro!: followsI simp: with_mut_data_def same_table_def bound_def fun_eq_iff split: list.splits)
  then show ?thesis unfolding run_spawned_close_def release_inode_use_def
    by (intro same.follows_then_some) (auto intro!: same_rules split: option.splits)
qed

lemma use_heartbeat: "use_table M (heartbeat_clean_weak_ptrs M)"
  by (auto simp: use_table_def heartbeat_clean_weak_ptrs_def uses_ok_def bound_def fun_eq_iff)

lemma keeps_event:
  assumes "\<And>xs. set (tf_fh_order F xs) = set xs" and "\<And>ce. ev \<noteq> Request ce (RRelease fh)"
  shows "keeps_handle fh M (snd (run_event F ev (w, M)))"
proof (cases ev)
  case (Request ce req)
  then show ?thesis using keeps_request [OF assms(1), where req = req and fh = fh and ce = ce] assms(2)
    by (cases w) (auto simp: follows_def)
next
  case (RunClose ce)
  then show ?thesis using same_run_close [of F ce] keeps_handle_same by (cases w) (auto simp: follows_def)
next
  case Heartbeat
  then show ?thesis using use_heartbeat [of M] handles_ok_use [OF use_heartbeat [of M]]
    by (simp add: keeps_handle_def use_table_def)
qed

lemma other_handle: "\<exists>fh'. fh' \<noteq> (fh :: u64)"
  by (metis zero_neq_one)

text \<open>The invariant needs no care about released handles: look at another one.\<close>

lemma event_ok:
  assumes "\<And>xs. set (tf_fh_order F xs) = set xs" and "handles_ok M" and "Suc (unat (tm_next_fh M)) < 2 ^ 64"
    and "run_event F ev (w, M) = (w', M')"
  shows "handles_ok M'" and "unat (tm_next_fh M') \<le> Suc (unat (tm_next_fh M))"
proof -
  obtain fh where "\<And>ce. ev \<noteq> Request ce (RRelease fh)"
    using other_handle by (metis fuse_request.inject(17) tifs_event.inject(1))
  then have "keeps_handle fh M M'" using keeps_event [OF assms(1), where ev = ev and fh = fh and M = M and w = w] assms(4) by simp
  then show "handles_ok M'" "unat (tm_next_fh M') \<le> Suc (unat (tm_next_fh M))" using assms(2,3) by (auto simp: keeps_handle_def)
qed

lemma events_ok:
  assumes "\<And>xs. set (tf_fh_order F xs) = set xs" and "handles_ok M" and "unat (tm_next_fh M) + length evs < 2 ^ 64"
    and "run_events F evs (w, M) = (w', M')"
  shows "handles_ok M' \<and> unat (tm_next_fh M') \<le> unat (tm_next_fh M) + length evs
    \<and> ((\<forall>ce. Request ce (RRelease fh) \<notin> set evs) \<longrightarrow> bound M fh = Some b \<longrightarrow> bound M' fh = Some b)"
  using assms(2,3,4)
proof (induction evs arbitrary: w M)
  case Nil
  then show ?case by (simp add: run_events_def)
next
  case (Cons ev evs)
  obtain w1 M1 where one: "run_event F ev (w, M) = (w1, M1)" by fastforce
  have small: "Suc (unat (tm_next_fh M)) < 2 ^ 64" using Cons.prems(2) by simp
  note ok1 = event_ok [OF assms(1) Cons.prems(1) small one]
  have rest: "run_events F evs (w1, M1) = (w', M')" using Cons.prems(3) one by (simp add: run_events_def)
  have IH: "handles_ok M' \<and> unat (tm_next_fh M') \<le> unat (tm_next_fh M1) + length evs
    \<and> ((\<forall>ce. Request ce (RRelease fh) \<notin> set evs) \<longrightarrow> bound M1 fh = Some b \<longrightarrow> bound M' fh = Some b)"
    by (rule Cons.IH [OF ok1(1) _ rest]) (use ok1(2) Cons.prems(2) in simp)
  have "bound M1 fh = Some b" if "\<forall>ce. Request ce (RRelease fh) \<notin> set (ev # evs)" and "bound M fh = Some b"
    using keeps_event [OF assms(1), where ev = ev and fh = fh and M = M and w = w] that one Cons.prems(1) small
    by (auto simp: keeps_handle_def)
  then show ?case using IH ok1(2) by auto
qed

lemma new_table_ok: "tifs_mutable_new cfg = Some M \<Longrightarrow> handles_ok M \<and> tm_next_fh M = 0"
  by (auto simp: tifs_mutable_new_def handles_ok_def uses_ok_def bound_def split: if_splits)

section \<open>Handles are never shared\<close>

text \<open>
  C13. Whatever requests an instance has served (fewer than \<open>2 ^ 64 - 1\<close> of them), with closes and
  heartbeats in between: \<open>open\<close> returns a handle that is not in use, binds it to the inode of the
  request and the mode of the flags, and changes no other binding. The order of the set of freed
  handles is arbitrary.
\<close>

theorem open_returns_free_handle:
  assumes "tifs_mutable_new cfg = Some M0" and "\<And>xs. set (tf_fh_order F xs) = set xs" and "length evs < 2 ^ 64 - 1"
    and "run_events F evs (w0, M0) = (w, M)" and "tf_open F ce ino flags (w, M) = (Inr (Some x), (w', M'))"
  shows "bound M (open_fh x) = None \<and> (\<exists>u. iu_ino u = li_storage_ino (logical_ino_from_raw ino)
    \<and> bound M' = (bound M)(open_fh x \<mapsto> (u, open_mode_of flags)))"
proof -
  have new: "handles_ok M0" "tm_next_fh M0 = 0" using new_table_ok [OF assms(1)] by auto
  have "handles_ok M \<and> unat (tm_next_fh M) \<le> unat (tm_next_fh M0) + length evs"
    using events_ok [OF assms(2) new(1) _ assms(4)] assms(3) new(2) by simp
  then show ?thesis using open_step(4) [OF _ _ assms(2) assms(5)] new(2) assms(3) by simp
qed

text \<open>
  C14. A handle stays bound to the inode and the mode it was opened with until it is released,
  whatever other requests are served in between.
\<close>

theorem handle_stays_bound:
  assumes "tifs_mutable_new cfg = Some M0" and "\<And>xs. set (tf_fh_order F xs) = set xs"
    and "length evs + length evs' < 2 ^ 64" and "run_events F evs (w0, M0) = (w, M)"
    and "\<And>ce. Request ce (RRelease fh) \<notin> set evs'" and "bound M fh = Some b"
  shows "bound (snd (run_events F evs' (w, M))) fh = Some b"
proof -
  have new: "handles_ok M0" "tm_next_fh M0 = 0" using new_table_ok [OF assms(1)] by auto
  have "handles_ok M \<and> unat (tm_next_fh M) \<le> unat (tm_next_fh M0) + length evs"
    using events_ok [OF assms(2) new(1) _ assms(4)] assms(3) new(2) by simp
  then show ?thesis
    using events_ok [OF assms(2), of M evs' w "fst (run_events F evs' (w, M))" "snd (run_events F evs' (w, M))" fh b]
      new(2) assms(3,5,6) by simp
qed

section \<open>An instance\<close>

text \<open>An instance on the in-memory store; opening an inode hands out the identifier of the call.\<close>

definition sample_tifs :: "(mem_store, (tifs_hash \<times> bytes) list) tifs" where
  "sample_tifs = \<lparr>tf_hash_fs = (tikv_hash_fs_interface (hfs sample_txn) (fail (UnknownError '''')))
       \<lparr>if_inode_open := \<lambda>env ino. ret (env_uuid env)\<rparr>,
     tf_fs_config = sample_config\<lparr>cfg_block_size := 16\<rparr>, tf_direct_io = False, tf_block_cache = list_cache 3,
     tf_order = insertion_order, tf_digests = ext_digests (tx_ext sample_txn), tf_fh_order = \<lambda>xs. xs,
     tf_range_difference = \<lambda>r rs. [r], tf_range_union = \<lambda>rs r. r # rs\<rparr>"

definition sample_call :: "uuid \<Rightarrow> call_env" where
  "sample_call n = \<lparr>ce_now = 0, ce_op = \<lambda>i j. \<lparr>env_now = \<lambda>_. 0, env_uuid = n, env_fuel = 0\<rparr>, ce_fuel = 4\<rparr>"

definition sample_table :: tifs_mutable where
  "sample_table = \<lparr>tm_freed_fhs = [], tm_next_fh = 0, tm_opened_ino = [], tm_file_handlers = [], tm_spawned_closes = []\<rparr>"

lemma sample_table_new: "tifs_mutable_new (tf_fs_config sample_tifs) = Some sample_table"
  by (simp add: tifs_mutable_new_def sample_tifs_def sample_table_def)

lemma sample_attempt: "spin_no_delay (sample_call n) (\<lambda>i. total (txn_open (tifs_txn sample_tifs) (ce_op (sample_call n) i 0) ino)) s
    = (Inr (Some n), s)"
  by (cases s; cases "fst s") (simp add: spin_no_delay_def sample_call_def total_def txn_open_def tifs_txn_def sample_tifs_def
      begin_on_hash_fs_interface_def fs_call_def on_world_def map_err_def and_then_def ret_def eval_nat_numeral)

lemma sample_open_first:
  "tf_open sample_tifs (sample_call 7) 73 2 (w, sample_table) = (Inr (Some \<lparr>open_fh = 0, open_flags = 0\<rparr>), (w,
     \<lparr>tm_freed_fhs = [], tm_next_fh = 1, tm_opened_ino = [(73, \<lparr>iu_ino = StorageIno 10, iu_use_id = 7\<rparr>)],
      tm_file_handlers = [(0, file_handler_new \<lparr>iu_ino = StorageIno 10, iu_use_id = 7\<rparr> ReadWrite (tf_fs_config sample_tifs))],
      tm_spawned_closes = []\<rparr>))"
  by (simp add: tf_open_def find_use_def with_mut_data_def then_some_def and_then_def ret_def Let_def sample_attempt get_ino_use_def
      sample_table_def get_free_fh_def logical_ino_from_raw_def open_mode_of_def O_DIRECT_def ROOT_INODE_def FUSE_ROOT_ID_def
      LOGICAL_INO_FACTOR_def)
    (simp add: sample_tifs_def)

lemma sample_order: "set (tf_fh_order sample_tifs xs) = set xs"
  by (simp add: sample_tifs_def)

lemma sample_first_event:
  "run_events sample_tifs [Request (sample_call 7) (ROpen 73 2)] (w, sample_table)
    = snd (tf_open sample_tifs (sample_call 7) 73 2 (w, sample_table))"
  by (simp add: run_events_def afs_open_def answer_def then_some_def and_then_def ret_def sample_open_first)

text \<open>A second open of the same inode shares the use, and gets a handle of its own.\<close>

lemma sample_open_second:
  assumes "run_events sample_tifs [Request (sample_call 7) (ROpen 73 2)] (w, sample_table) = (w', M)"
  shows "\<exists>M'. tf_open sample_tifs (sample_call 8) 73 0 (w', M) = (Inr (Some \<lparr>open_fh = 1, open_flags = 0\<rparr>), (w', M'))"
proof -
  have "w' = w" and M: "M = \<lparr>tm_freed_fhs = [], tm_next_fh = 1, tm_opened_ino = [(73, \<lparr>iu_ino = StorageIno 10, iu_use_id = 7\<rparr>)],
      tm_file_handlers = [(0, file_handler_new \<lparr>iu_ino = StorageIno 10, iu_use_id = 7\<rparr> ReadWrite (tf_fs_config sample_tifs))],
      tm_spawned_closes = []\<rparr>"
    using assms by (simp_all add: sample_first_event sample_open_first)
  have "get_ino_use M 73 = Some \<lparr>iu_ino = StorageIno 10, iu_use_id = 7\<rparr>"
    by (simp add: M get_ino_use_def use_alive_def file_handler_new_def)
  moreover have "fst (get_free_fh (tf_fh_order sample_tifs) M) = 1" by (simp add: M get_free_fh_def sample_tifs_def)
  moreover have "\<not> tf_direct_io sample_tifs" by (simp add: sample_tifs_def)
  ultimately show ?thesis
    by (auto simp: tf_open_def find_use_def with_mut_data_def then_some_def and_then_def ret_def Let_def O_DIRECT_def split: prod.split)
qed

theorem open_returns_free_handle_witness:
  "\<exists>M M'. run_events sample_tifs [Request (sample_call 7) (ROpen 73 2)] ((mem_with [] [], []), sample_table) = ((mem_with [] [], []), M)
    \<and> tf_open sample_tifs (sample_call 8) 73 0 ((mem_with [] [], []), M)
        = (Inr (Some \<lparr>open_fh = 1, open_flags = 0\<rparr>), ((mem_with [] [], []), M'))
    \<and> bound M 1 = None \<and> (\<exists>u. bound M' = (bound M)(1 \<mapsto> (u, ReadOnly)))"
proof -
  obtain M where run: "run_events sample_tifs [Request (sample_call 7) (ROpen 73 2)] ((mem_with [] [], []), sample_table)
      = ((mem_with [] [], []), M)" by (simp add: sample_first_event sample_open_first)
  obtain M' where op: "tf_open sample_tifs (sample_call 8) 73 0 ((mem_with [] [], []), M)
      = (Inr (Some \<lparr>open_fh = 1, open_flags = 0\<rparr>), ((mem_with [] [], []), M'))" using sample_open_second [OF run] by blast
  have mode: "open_mode_of 0 = ReadOnly" by (simp add: open_mode_of_def)
  from open_returns_free_handle [OF sample_table_new sample_order _ run op] show ?thesis using run op mode by auto
qed

theorem handle_stays_bound_witness:
  "\<exists>M u. run_events sample_tifs [Request (sample_call 7) (ROpen 73 2)] ((mem_with [] [], []), sample_table) = ((mem_with [] [], []), M)
    \<and> bound M 0 = Some (u, ReadWrite)
    \<and> bound (snd (run_events sample_tifs [Request (sample_call 8) (ROpen 73 0), Request (sample_call 9) (RRelease 1), Heartbeat]
        ((mem_with [] [], []), M))) 0 = Some (u, ReadWrite)"
proof -
  obtain M where run: "run_events sample_tifs [Request (sample_call 7) (ROpen 73 2)] ((mem_with [] [], []), sample_table)
      = ((mem_with [] [], []), M)" and b: "bound M 0 = Some (\<lparr>iu_ino = StorageIno 10, iu_use_id = 7\<rparr>, ReadWrite)"
    by (simp add: sample_first_event sample_open_first bound_def file_handler_new_def)
  from handle_stays_bound [OF sample_table_new sample_order _ run _ b,
      of "[Request (sample_call 8) (ROpen 73 0), Request (sample_call 9) (RRelease 1), Heartbeat]"]
  show ?thesis using run b by auto
qed

end
