(* ===== verification/Tikv_Fs_Facts.thy ===== *)
theory Tikv_Fs_Facts
  imports Tikv_Fs File_Read
begin

text \<open>
  Facts on the requests of the file system instance that several theories use: errors that cross
  the interface of the hash file system are never key errors, so the retry loop of a request ends
  after at most four attempts, and more fuel than that changes nothing.
\<close>

section \<open>Attempts\<close>

text \<open>Errors that cross the interface of the hash file system are never key errors.\<close>

definition no_key_error :: "('s, fs_error, 'a) comp \<Rightarrow> bool" where
  "no_key_error m \<longleftrightarrow> (\<forall>w e w'. m w \<noteq> (Inl (KeyError e), w'))"

lemma no_key_errorI: "(\<And>w e w'. m w = (Inl (KeyError e), w') \<Longrightarrow> False) \<Longrightarrow> no_key_error m"
  by (auto simp: no_key_error_def)

lemma no_key_error_fs_call [intro!]: "no_key_error (fs_call m)"
proof (rule no_key_errorI)
  fix w e w' assume "fs_call m w = (Inl (KeyError e), w')"
  then obtain h where "fs_error_of_hash h = KeyError e"
    by (cases w) (auto simp: fs_call_def on_world_def map_err_apply split: sum.splits prod.splits)
  then show False by (cases h) simp_all
qed

lemma no_key_error_basic [intro!]:
  "no_key_error (ret x)" "no_key_error (on_cache f)" "(\<And>m. e \<noteq> KeyError m) \<Longrightarrow> no_key_error (fail e)"
  "(\<And>m. r \<noteq> Inl (KeyError m)) \<Longrightarrow> no_key_error (of_result r)"
  by (auto simp: no_key_error_def on_cache_def split: prod.splits)

lemma no_key_error_and_then [intro!]:
  assumes "no_key_error m" and "\<And>x. no_key_error (k x)"
  shows "no_key_error (and_then m k)"
proof (rule no_key_errorI)
  fix w e w' assume "and_then m k w = (Inl (KeyError e), w')"
  then show False
    by (cases rule: and_then_cases) (use assms in \<open>auto simp: no_key_error_def\<close>)
qed

lemma no_key_error_then_some [intro!]:
  assumes "no_key_error m" and "\<And>x. no_key_error (k x)"
  shows "no_key_error (then_some m k)"
  unfolding then_some_def using assms by (intro no_key_error_and_then) (auto split: option.splits)

lemma no_key_error_total [intro!]: "no_key_error m \<Longrightarrow> no_key_error (total m)"
  unfolding total_def by auto

lemma no_key_error_on_world [intro!]: "no_key_error m \<Longrightarrow> no_key_error (on_world m)"
  by (auto simp: no_key_error_def on_world_def split: prod.splits)

text \<open>Without key errors four attempts are enough: more fuel changes nothing.\<close>

lemma spin_enough:
  assumes "\<And>i. no_key_error (f i)" and "4 \<le> n + k" and "0 < n"
  shows "spin n i k f w = spin (n + m) i k f w"
  using assms(2,3)
proof (induction n arbitrary: i k w)
  case (Suc n)
  have none: "f i w \<noteq> (Inl (KeyError e), w')" for e w' using assms(1) by (auto simp: no_key_error_def)
  have "spin n (Suc i) (Suc k) f w' = spin (n + m) (Suc i) (Suc k) f w'" if "\<not> 3 \<le> k" for w'
    using Suc that by (intro Suc.IH) simp_all
  then show ?case using none by (auto split: prod.splits sum.splits fs_error.splits)
qed simp

lemma spin_no_delay_fuel:
  assumes "\<And>i. no_key_error (f i)" and "4 < n"
  shows "spin_no_delay (ce\<lparr>ce_fuel := n\<rparr>) f = spin_no_delay (ce\<lparr>ce_fuel := 4\<rparr>) f"
proof (rule ext)
  fix s :: "('a, 'b) tifs_state"
  have "spin 4 0 0 (\<lambda>i. on_world (f i)) s = spin (4 + (n - 4)) 0 0 (\<lambda>i. on_world (f i)) s"
    by (rule spin_enough) (use assms in auto)
  with assms(2) show "spin_no_delay (ce\<lparr>ce_fuel := n\<rparr>) f s = spin_no_delay (ce\<lparr>ce_fuel := 4\<rparr>) f s"
    by (simp add: spin_no_delay_def)
qed

lemma validate_blocks_no_key_error: "validate_blocks calc blocks \<noteq> Inl (KeyError m)"
  by (induction calc blocks rule: validate_blocks.induct) auto

lemma no_key_error_lookup_cached [intro!]: "no_key_error (lookup_cached X hashes result uncached)"
  by (induction hashes arbitrary: result uncached) (auto split: option.splits)

lemma no_key_error_blocks [intro!]: "no_key_error (hb_get_block_data_by_hashes_cached X hashes)"
  unfolding hb_get_block_data_by_hashes_cached_def cache_all_def
  by (auto simp: validate_blocks_no_key_error split: prod.splits)

lemma no_key_error_write_single_blocks [intro!]: "no_key_error (write_single_blocks X env ino new_blocks mm)"
  by (simp add: no_key_error_def write_single_blocks_def)

lemma no_key_error_write [intro!]: "no_key_error (hb_write_data X env ino jobs)"
  unfolding hb_write_data_def write_chunked_def Let_def cache_all_def
  by (auto split: prod.splits)

lemma no_key_error_txn_write [intro!]: "no_key_error (txn_write X env ino start data flush)"
proof -
  have "no_key_error (then_some (on_world (hb_write_data X env ino acc)) (\<lambda>_. ret (Some sz))
      :: (_ \<times> write_task_data list, fs_error, nat option) comp)" for acc sz
    by auto
  then show ?thesis by (auto simp: no_key_error_def txn_write_def Let_def)
qed

lemma no_key_error_read [simp, intro!]: "no_key_error (txn_read X ino start sz)"
  unfolding txn_read_def read_data_def hb_read_data_def Let_def
  by (auto simp: hb_read_from_blocks_def)

lemma no_key_error_ops [simp, intro!]:
  "no_key_error (get_all_ino_data X ino)" "no_key_error (read_static_meta X)" "no_key_error (txn_read_dir X ino)"
  "no_key_error (read_hash_of_file X ino start len)" "no_key_error (get_hashes_of_file X ino b e)"
  "no_key_error (set_attributes X env ino mode uid gid szo atime mtime ctime fh crtime chgtime bkuptime flags)"
  "no_key_error (txn_open X env ino)" "no_key_error (txn_close X ino use_id)" "no_key_error (txn_mkdir X env p nm perm g u)"
  "no_key_error (txn_rmdir X p nm)" "no_key_error (add_hard_link X ino p nm)" "no_key_error (txn_unlink X env p nm)"
  "no_key_error (txn_directory_add_child_checked_new_inode X env p nm typ perm g u rdev inline)"
  "no_key_error (read_link X ino)" "no_key_error (f_allocate X env ino off len')" "no_key_error (txn_statfs X)"
  "no_key_error (fs_call m)"
  unfolding get_all_ino_data_def read_static_meta_def txn_read_dir_def read_hash_of_file_def get_hashes_of_file_def
    set_attributes_def txn_open_def txn_close_def txn_mkdir_def txn_rmdir_def add_hard_link_def txn_unlink_def
    txn_directory_remove_child_def txn_directory_add_child_checked_new_inode_def read_link_def f_allocate_def
    txn_statfs_def Let_def
  by (auto split: got_or_made.splits if_splits)

lemma no_key_error_on_accumulator [intro!]:
  assumes "\<And>h. no_key_error (m h)"
  shows "no_key_error (on_accumulator fh m)"
  using assms by (auto simp: no_key_error_def on_accumulator_def split: prod.splits option.splits)

lemma write_job_fuel:
  assumes "4 < n"
  shows "write_job F (ce\<lparr>ce_fuel := n\<rparr>) fh start data flush = write_job F (ce\<lparr>ce_fuel := 4\<rparr>) fh start data flush"
proof (rule ext)
  fix s :: "('a, 'b) tifs_state"
  define f where "f = (\<lambda>i. on_accumulator fh (\<lambda>h. txn_write (tifs_txn F) (ce_op ce i) (fh_ino h) start data flush))"
  have "spin 4 0 0 f s = spin (4 + (n - 4)) 0 0 f s"
    by (rule spin_enough) (auto simp: f_def)
  with assms show "write_job F (ce\<lparr>ce_fuel := n\<rparr>) fh start data flush s
      = write_job F (ce\<lparr>ce_fuel := 4\<rparr>) fh start data flush s"
    by (simp add: write_job_def f_def)
qed

lemmas spin_fuel = spin_no_delay_fuel write_job_fuel

lemma no_key_error_total_simp [simp]: "no_key_error m \<Longrightarrow> no_key_error (total m)"
  by (rule no_key_error_total)

lemma read_fuel:
  assumes "4 < n"
  shows "read_transaction F (ce\<lparr>ce_fuel := n\<rparr>) ino start sz = read_transaction F (ce\<lparr>ce_fuel := 4\<rparr>) ino start sz"
    and "read_ahead_step F (ce\<lparr>ce_fuel := n\<rparr>) ino fh target = read_ahead_step F (ce\<lparr>ce_fuel := 4\<rparr>) ino fh target"
    and "read_kind_regular F (ce\<lparr>ce_fuel := n\<rparr>) ino fh start sz = read_kind_regular F (ce\<lparr>ce_fuel := 4\<rparr>) ino fh start sz"
    and "read_kind_hash F (ce\<lparr>ce_fuel := n\<rparr>) ino start sz = read_kind_hash F (ce\<lparr>ce_fuel := 4\<rparr>) ino start sz"
    and "read_file_kind_hashes F (ce\<lparr>ce_fuel := n\<rparr>) ino start sz = read_file_kind_hashes F (ce\<lparr>ce_fuel := 4\<rparr>) ino start sz"
proof -
  show t: "read_transaction F (ce\<lparr>ce_fuel := n\<rparr>) ino start sz = read_transaction F (ce\<lparr>ce_fuel := 4\<rparr>) ino start sz"
    for ino start sz using assms by (simp add: read_transaction_def spin_fuel)
  show a: "read_ahead_step F (ce\<lparr>ce_fuel := n\<rparr>) ino fh target = read_ahead_step F (ce\<lparr>ce_fuel := 4\<rparr>) ino fh target"
    for target by (simp only: read_ahead_step_def t)
  show "read_kind_regular F (ce\<lparr>ce_fuel := n\<rparr>) ino fh start sz = read_kind_regular F (ce\<lparr>ce_fuel := 4\<rparr>) ino fh start sz"
    by (simp only: read_kind_regular_def t a)
  show "read_kind_hash F (ce\<lparr>ce_fuel := n\<rparr>) ino start sz = read_kind_hash F (ce\<lparr>ce_fuel := 4\<rparr>) ino start sz"
    "read_file_kind_hashes F (ce\<lparr>ce_fuel := n\<rparr>) ino start sz = read_file_kind_hashes F (ce\<lparr>ce_fuel := 4\<rparr>) ino start sz"
    using assms by (simp_all add: read_kind_hash_def read_file_kind_hashes_def spin_fuel Let_def)
qed

lemma attributes_fuel:
  assumes "4 < n"
  shows "lookup_all_info_logical F (ce\<lparr>ce_fuel := n\<rparr>) p nm kind = lookup_all_info_logical F (ce\<lparr>ce_fuel := 4\<rparr>) p nm kind"
    and "get_all_file_attributes_storage_ino F (ce\<lparr>ce_fuel := n\<rparr>) ino kind
      = get_all_file_attributes_storage_ino F (ce\<lparr>ce_fuel := 4\<rparr>) ino kind"
    and "get_all_file_attributes_storage_ino_entry_reply F (ce\<lparr>ce_fuel := n\<rparr>) ino kind
      = get_all_file_attributes_storage_ino_entry_reply F (ce\<lparr>ce_fuel := 4\<rparr>) ino kind"
    and "read_dir1 F (ce\<lparr>ce_fuel := n\<rparr>) ino = read_dir1 F (ce\<lparr>ce_fuel := 4\<rparr>) ino"
    and "flush_write_cache F (ce\<lparr>ce_fuel := n\<rparr>) fh = flush_write_cache F (ce\<lparr>ce_fuel := 4\<rparr>) fh"
  using assms by (simp_all add: lookup_all_info_logical_def get_all_file_attributes_storage_ino_def
      get_all_file_attributes_storage_ino_entry_reply_def read_dir1_def flush_write_cache_def spin_fuel Let_def)

end
