(* ===== verification/Request_Facts.thy ===== *)
theory Request_Facts
  imports Handle_Facts Tikv_Fs_Facts
begin

text \<open>
  What the requests promise: each ends after at most four attempts, a directory that is listed in
  pieces is listed completely, and the names that reach the handlers are well-formed UTF-8.
\<close>

section \<open>Every request ends\<close>

lemmas fuel_facts = spin_fuel read_fuel attributes_fuel get_all_file_attributes_def Let_def

lemma tf_lookup_fuel: "4 < n \<Longrightarrow> tf_lookup F (ce\<lparr>ce_fuel := n\<rparr>) parent nm = tf_lookup F (ce\<lparr>ce_fuel := 4\<rparr>) parent nm"
  by (simp add: tf_lookup_def fuel_facts cong: if_cong option.case_cong split del: if_split)

lemma tf_getattr_fuel: "4 < n \<Longrightarrow> tf_getattr F (ce\<lparr>ce_fuel := n\<rparr>) ino = tf_getattr F (ce\<lparr>ce_fuel := 4\<rparr>) ino"
  by (simp add: tf_getattr_def fuel_facts)

lemma tf_setattr_fuel: "4 < n \<Longrightarrow> tf_setattr F (ce\<lparr>ce_fuel := n\<rparr>) ino mode uid gid sz atime mtime ctime fh crtime chgtime bkuptime flags = tf_setattr F (ce\<lparr>ce_fuel := 4\<rparr>) ino mode uid gid sz atime mtime ctime fh crtime chgtime bkuptime flags"
  by (simp add: tf_setattr_def fuel_facts)

lemma tf_readlink_fuel: "4 < n \<Longrightarrow> tf_readlink F (ce\<lparr>ce_fuel := n\<rparr>) ino = tf_readlink F (ce\<lparr>ce_fuel := 4\<rparr>) ino"
  by (simp add: tf_readlink_def fuel_facts)

lemma tf_mknod_fuel: "4 < n \<Longrightarrow> tf_mknod F (ce\<lparr>ce_fuel := n\<rparr>) parent nm mode gid uid rdev = tf_mknod F (ce\<lparr>ce_fuel := 4\<rparr>) parent nm mode gid uid rdev"
  by (simp add: tf_mknod_def fuel_facts cong: if_cong option.case_cong)

lemma tf_mkdir_fuel: "4 < n \<Longrightarrow> tf_mkdir F (ce\<lparr>ce_fuel := n\<rparr>) parent nm mode gid uid = tf_mkdir F (ce\<lparr>ce_fuel := 4\<rparr>) parent nm mode gid uid"
  by (simp add: tf_mkdir_def fuel_facts)

lemma tf_unlink_fuel: "4 < n \<Longrightarrow> tf_unlink F (ce\<lparr>ce_fuel := n\<rparr>) parent nm = tf_unlink F (ce\<lparr>ce_fuel := 4\<rparr>) parent nm"
  by (simp add: tf_unlink_def fuel_facts)

lemma tf_rmdir_fuel: "4 < n \<Longrightarrow> tf_rmdir F (ce\<lparr>ce_fuel := n\<rparr>) parent nm = tf_rmdir F (ce\<lparr>ce_fuel := 4\<rparr>) parent nm"
  by (simp add: tf_rmdir_def fuel_facts)

lemma tf_symlink_fuel: "4 < n \<Longrightarrow> tf_symlink F (ce\<lparr>ce_fuel := n\<rparr>) gid uid parent nm link = tf_symlink F (ce\<lparr>ce_fuel := 4\<rparr>) gid uid parent nm link"
  by (simp add: tf_symlink_def fuel_facts)

lemma tf_rename_fuel: "4 < n \<Longrightarrow> tf_rename F (ce\<lparr>ce_fuel := n\<rparr>) parent nm newparent newname = tf_rename F (ce\<lparr>ce_fuel := 4\<rparr>) parent nm newparent newname"
  by (simp add: tf_rename_def fuel_facts)

lemma tf_link_fuel: "4 < n \<Longrightarrow> tf_link F (ce\<lparr>ce_fuel := n\<rparr>) ino newparent newname = tf_link F (ce\<lparr>ce_fuel := 4\<rparr>) ino newparent newname"
  by (simp add: tf_link_def fuel_facts)

lemma tf_open_fuel: "4 < n \<Longrightarrow> tf_open F (ce\<lparr>ce_fuel := n\<rparr>) ino flags = tf_open F (ce\<lparr>ce_fuel := 4\<rparr>) ino flags"
  by (simp add: tf_open_def find_use_def fuel_facts cong: if_cong option.case_cong)

lemma tf_read_fuel: "4 < n \<Longrightarrow> tf_read F (ce\<lparr>ce_fuel := n\<rparr>) ino fh offset sz = tf_read F (ce\<lparr>ce_fuel := 4\<rparr>) ino fh offset sz"
  by (simp add: tf_read_def fuel_facts cong: if_cong ino_kind.case_cong)

lemma tf_write_fuel: "4 < n \<Longrightarrow> tf_write F (ce\<lparr>ce_fuel := n\<rparr>) ino fh offset data = tf_write F (ce\<lparr>ce_fuel := 4\<rparr>) ino fh offset data"
  by (simp add: tf_write_def fuel_facts cong: if_cong option.case_cong)

lemma tf_flush_fuel: "4 < n \<Longrightarrow> tf_flush F (ce\<lparr>ce_fuel := n\<rparr>) fh = tf_flush F (ce\<lparr>ce_fuel := 4\<rparr>) fh"
  by (simp add: tf_flush_def fuel_facts)

lemma tf_release_fuel: "4 < n \<Longrightarrow> tf_release F (ce\<lparr>ce_fuel := n\<rparr>) fh = tf_release F (ce\<lparr>ce_fuel := 4\<rparr>) fh"
  by (simp add: tf_release_def fuel_facts)

lemma tf_fsync_fuel: "4 < n \<Longrightarrow> tf_fsync F (ce\<lparr>ce_fuel := n\<rparr>) fh = tf_fsync F (ce\<lparr>ce_fuel := 4\<rparr>) fh"
  by (simp add: tf_fsync_def fuel_facts)

lemma tf_readdir_fuel: "4 < n \<Longrightarrow> tf_readdir F (ce\<lparr>ce_fuel := n\<rparr>) ino offset = tf_readdir F (ce\<lparr>ce_fuel := 4\<rparr>) ino offset"
  by (simp add: tf_readdir_def fuel_facts)

lemma tf_statfs_fuel: "4 < n \<Longrightarrow> tf_statfs F (ce\<lparr>ce_fuel := n\<rparr>) = tf_statfs F (ce\<lparr>ce_fuel := 4\<rparr>)"
  by (simp add: tf_statfs_def fuel_facts)

lemma tf_fallocate_fuel: "4 < n \<Longrightarrow> tf_fallocate F (ce\<lparr>ce_fuel := n\<rparr>) ino fh offset len = tf_fallocate F (ce\<lparr>ce_fuel := 4\<rparr>) ino fh offset len"
  by (simp add: tf_fallocate_def fuel_facts)

lemma tf_create_fuel: "4 < n \<Longrightarrow> tf_create F (ce\<lparr>ce_fuel := n\<rparr>) uid gid parent nm mode flags
    = tf_create F (ce\<lparr>ce_fuel := 4\<rparr>) uid gid parent nm mode flags"
  by (simp add: tf_create_def tf_mknod_fuel tf_open_fuel)

lemma request_fuel:
  assumes "4 < n"
  shows "handle_request F (ce\<lparr>ce_fuel := n\<rparr>) req = handle_request F (ce\<lparr>ce_fuel := 4\<rparr>) req"
  using assms
  by (cases req; simp only: handle_request.simps afs_defs tf_lookup_fuel tf_getattr_fuel tf_setattr_fuel tf_readlink_fuel
      tf_mknod_fuel tf_mkdir_fuel tf_unlink_fuel tf_rmdir_fuel tf_symlink_fuel tf_rename_fuel tf_link_fuel tf_open_fuel
      tf_read_fuel tf_write_fuel tf_flush_fuel tf_release_fuel tf_fsync_fuel tf_readdir_fuel tf_statfs_fuel
      tf_create_fuel tf_fallocate_fuel)

text \<open>
  C16. Every request ends: no handler makes more than four attempts, so a bound of four attempts
  gives the same answer and the same state as any larger bound, whatever the hash file system
  answers. (The branch of \<open>spin\<close> that would retry for ever is never taken: an error that crosses
  the interface is no key error any more.)
\<close>

theorem requests_end_after_four_attempts:
  assumes "4 \<le> n"
  shows "handle_request F (ce\<lparr>ce_fuel := n\<rparr>) req s = handle_request F (ce\<lparr>ce_fuel := 4\<rparr>) req s"
  using assms request_fuel [of n F ce req] by (cases "n = 4") simp_all

theorem requests_end_after_four_attempts_witness:
  "\<forall>F ce req s. handle_request F (ce\<lparr>ce_fuel := 1000\<rparr>) req s = handle_request F (ce\<lparr>ce_fuel := 4\<rparr>) req s"
  using requests_end_after_four_attempts [of 1000] by auto

section \<open>Listing a directory in pieces\<close>

text \<open>
  What the program relies on in the directory buffer of the kernel (\<open>ReplyDirectory\<close> of \<open>fuser\<close>):
  an entry is appended or refused, and an empty buffer takes any entry.
\<close>

type_synonym dir_entry = "u64 \<times> nat \<times> file_type \<times> name"

text \<open>The entry with index \<open>k\<close>: its offset is where the listing continues.\<close>

definition entry_at :: "nat \<Rightarrow> dir_item \<Rightarrow> dir_entry" where
  "entry_at k item = (logical_ino_to_raw (di_ino item), k + 1, di_typ item, di_name item)"

locale directory_buffer =
  fixes B :: "'b dir_buffer" and entries :: "'b \<Rightarrow> dir_entry list"
  assumes empty_entries: "entries (db_empty B) = []"
    and add_entries: "db_add B buf e = Some buf' \<Longrightarrow> entries buf' = entries buf @ [e]"
    and empty_takes: "db_add B (db_empty B) e \<noteq> None"
begin

lemma reply_items:
  "\<exists>n \<le> length items. entries (reply_dir_items (db_add B) off i items buf)
     = entries buf @ map (\<lambda>(k, item). entry_at k item) (List.enumerate (off + i) (take n items))"
proof (induction items arbitrary: i buf)
  case (Cons item items)
  show ?case
  proof (cases "db_add B buf (logical_ino_to_raw (di_ino item), i + 1 + off, di_typ item, di_name item)")
    case None
    then show ?thesis by (intro exI [of _ 0]) simp
  next
    case (Some buf')
    from Cons.IH [of "Suc i" buf'] obtain n where "n \<le> length items" and
      "entries (reply_dir_items (db_add B) off (Suc i) items buf')
        = entries buf' @ map (\<lambda>(k, item). entry_at k item) (List.enumerate (off + Suc i) (take n items))" by auto
    then show ?thesis using Some add_entries [OF Some]
      by (intro exI [of _ "Suc n"]) (simp add: entry_at_def)
  qed
qed simp

lemma reply_first:
  "entries (reply_dir_items (db_add B) off i (item # items) (db_empty B)) \<noteq> []"
proof -
  obtain buf where b: "db_add B (db_empty B) (logical_ino_to_raw (di_ino item), i + 1 + off, di_typ item, di_name item) = Some buf"
    using empty_takes by (metis option.exhaust)
  show ?thesis using reply_items [of items off "Suc i" buf] add_entries [OF b] b by auto
qed

end

text \<open>The reply to \<open>readdir\<close>, and a client that asks on at the offset of the last entry until nothing comes.\<close>

fun list_directory ::
  "'b dir_buffer \<Rightarrow> ('b \<Rightarrow> dir_entry list) \<Rightarrow> nat \<Rightarrow> ('w, 'c) tifs \<Rightarrow> call_env \<Rightarrow> u64 \<Rightarrow> u64 \<Rightarrow> ('w, 'c) tifs_state
     \<Rightarrow> dir_entry list option" where
  "list_directory B entries 0 F ce ino offset s = None"
| "list_directory B entries (Suc n) F ce ino offset s = (case handle_request F ce (RReaddir ino offset) s of (r, s') \<Rightarrow>
     (case reply B r of
        Some (KDirectory buf) \<Rightarrow>
          if entries buf = [] then Some []
          else map_option ((@) (entries buf)) (list_directory B entries n F ce ino (of_nat (fst (snd (last (entries buf))))) s')
      | _ \<Rightarrow> None))"

lemma fold_dir_push: "fold dir_push items d = d\<lparr>dir_items := dir_items d @ items\<rparr>"
  by (induction items arbitrary: d) (simp_all add: dir_push_def)

lemma readdir_reply:
  assumes "read_dir1 F ce (li_storage_ino (logical_ino_from_raw ino)) s = (Inr (Some directory), s)"
  shows "handle_request F ce (RReaddir ino offset) s
    = (Inr (Some (ADir \<lparr>dir_offset = unat offset, dir_items = drop (unat offset) directory\<rparr>)), s)"
  using assms by (simp add: afs_readdir_def answer_def tf_readdir_def then_some_def and_then_def ret_def fold_dir_push
      dir_offset_new_def)

context directory_buffer
begin

lemma list_directory_from:
  assumes read: "read_dir1 F ce (li_storage_ino (logical_ino_from_raw ino)) s = (Inr (Some directory), s)"
    and "length directory < 2 ^ 64" and "unat offset \<le> length directory" and "length directory - unat offset < n"
  shows "list_directory B entries n F ce ino offset s
    = Some (map (\<lambda>(k, item). entry_at k item) (List.enumerate (unat offset) (drop (unat offset) directory)))"
  using assms(3,4)
proof (induction n arbitrary: offset)
  case (Suc n)
  define items where "items = drop (unat offset) directory"
  define es where "es = entries (reply_dir_items (db_add B) (unat offset) 0 items (db_empty B))"
  obtain m where m: "m \<le> length items"
    and es: "es = map (\<lambda>(k, item). entry_at k item) (List.enumerate (unat offset) (take m items))"
    using reply_items [of items "unat offset" 0 "db_empty B"] by (auto simp: es_def empty_entries)
  have step: "list_directory B entries (Suc n) F ce ino offset s = (if es = [] then Some []
      else map_option ((@) es) (list_directory B entries n F ce ino (of_nat (fst (snd (last es)))) s))"
    by (simp add: readdir_reply [OF read] reply_def reply_dir_def items_def es_def del: handle_request.simps)
  show ?case
  proof (cases items)
    case Nil
    then show ?thesis using step es by (simp add: items_def)
  next
    case (Cons item rest)
    then have "es \<noteq> []" using reply_first [of "unat offset" 0 item rest] by (simp add: es_def del: reply_dir_items.simps)
    then have "0 < m" using es by (cases m) auto
    have "length es = m" using m by (simp add: es)
    then have "last es = entry_at (unat offset + (m - 1)) (items ! (m - 1))"
      using \<open>0 < m\<close> m last_conv_nth [OF \<open>es \<noteq> []\<close>] by (simp add: es nth_enumerate_eq)
    then have last_off: "fst (snd (last es)) = unat offset + m" using \<open>0 < m\<close> by (simp add: entry_at_def)
    have le: "unat offset + m \<le> length directory" using m Suc.prems(1) by (simp add: items_def)
    then have u: "unat (of_nat (unat offset + m) :: u64) = unat offset + m"
      using assms(2) by (simp add: unat_of_nat del: of_nat_add)
    have rest_items: "drop m items = drop (unat offset + m) directory" by (simp add: items_def add.commute)
    have rest: "list_directory B entries n F ce ino (of_nat (unat offset + m)) s
        = Some (map (\<lambda>(k, item). entry_at k item) (List.enumerate (unat offset + m) (drop m items)))"
      using Suc.IH [of "of_nat (unat offset + m)"] le Suc.prems \<open>0 < m\<close>
      by (simp add: u rest_items del: of_nat_add)
    have "List.enumerate (unat offset) items
        = List.enumerate (unat offset) (take m items) @ List.enumerate (unat offset + m) (drop m items)"
      using m enumerate_append_eq [of "unat offset" "take m items" "drop m items"] by simp
    then have "es @ map (\<lambda>(k, item). entry_at k item) (List.enumerate (unat offset + m) (drop m items))
        = map (\<lambda>(k, item). entry_at k item) (List.enumerate (unat offset) items)"
      by (simp only: es map_append)
    then show ?thesis unfolding step last_off rest items_def [symmetric] using \<open>es \<noteq> []\<close> by simp
  qed
qed simp

end

text \<open>A buffer for a fixed number of entries.\<close>

definition counted_buffer :: "nat \<Rightarrow> dir_entry list dir_buffer" where
  "counted_buffer n = \<lparr>db_empty = [], db_add = \<lambda>buf e. if length buf < n then Some (buf @ [e]) else None,
     db_add_plus = \<lambda>buf e. None\<rparr>"

interpretation counted: directory_buffer "counted_buffer (Suc n)" "\<lambda>buf. buf" for n
  by unfold_locales (auto simp: counted_buffer_def split: if_splits)

text \<open>
  C17. Listing a directory in pieces gives every entry exactly once and in order, whatever the
  size of the buffer, and ends: a client that continues each time at the offset of the last entry
  receives entry \<open>k\<close> of \<open>read_dir1\<close> with offset \<open>k + 1\<close>, for all \<open>k\<close>, provided the directory
  does not change in between.
\<close>

theorem listing_in_pieces_is_complete:
  assumes "directory_buffer B entries"
    and "read_dir1 F ce (li_storage_ino (logical_ino_from_raw ino)) s = (Inr (Some directory), s)"
    and "length directory < 2 ^ 64" and "length directory < n"
  shows "list_directory B entries n F ce ino 0 s
    = Some (map (\<lambda>(k, item). entry_at k item) (List.enumerate 0 directory))"
  using directory_buffer.list_directory_from [OF assms(1,2,3), of 0 n] assms(4) by simp

text \<open>The root directory of an empty file system, on an interface that lists nothing.\<close>

theorem listing_in_pieces_is_complete_witness:
  "list_directory (counted_buffer 1) (\<lambda>buf. buf) 3
      (sample_tifs\<lparr>tf_hash_fs := (tf_hash_fs sample_tifs)\<lparr>if_directory_read_children := \<lambda>ino. ret []\<rparr>\<rparr>) (sample_call 1) 1 0
      ((mem_with [] [], []), sample_table)
    = Some (map (\<lambda>(k, item). entry_at k item) (List.enumerate 0 special_dir_entries))"
proof -
  have "read_dir1 (sample_tifs\<lparr>tf_hash_fs := (tf_hash_fs sample_tifs)\<lparr>if_directory_read_children := \<lambda>ino. ret []\<rparr>\<rparr>) (sample_call 1)
      (li_storage_ino (logical_ino_from_raw 1)) ((mem_with [] [], []), sample_table)
    = (Inr (Some special_dir_entries), ((mem_with [] [], []), sample_table))"
    by (simp add: read_dir1_def spin_no_delay_def sample_call_def total_def txn_read_dir_def tifs_txn_def fs_call_def on_world_def
        begin_on_hash_fs_interface_def map_err_def then_some_def and_then_def ret_def eval_nat_numeral logical_ino_from_raw_def
        ROOT_INODE_def FUSE_ROOT_ID_def LOGICAL_INO_FACTOR_def)
  then show ?thesis
    using listing_in_pieces_is_complete [OF counted.directory_buffer_axioms [of 0], where n = 3 and directory = special_dir_entries]
    by (simp add: special_dir_entries_def del: list_directory.simps)
qed

section \<open>Names\<close>

text \<open>Well-formed UTF-8: a sequence of characters, each a first byte and what must follow it.\<close>

definition byte_in_range :: "u8 \<times> u8 \<Rightarrow> u8 \<Rightarrow> bool" where
  "byte_in_range r b \<longleftrightarrow> fst r \<le> b \<and> b \<le> snd r"

inductive utf8_valid :: "bytes \<Rightarrow> bool" where
  utf8_empty: "utf8_valid []"
| utf8_char: "utf8_tail b = Some rs \<Longrightarrow> list_all2 byte_in_range rs xs \<Longrightarrow> utf8_valid bs \<Longrightarrow> utf8_valid (b # xs @ bs)"

lemma utf8_match_take: "list_all2 byte_in_range (take (utf8_match rs bs) rs) (take (utf8_match rs bs) bs)"
  by (induction rs bs rule: utf8_match.induct) (auto simp: byte_in_range_def)

lemma utf8_match_all: "list_all2 byte_in_range rs xs \<Longrightarrow> utf8_match rs (xs @ bs) = length rs"
  by (induction rs xs rule: list_all2_induct) (auto simp: byte_in_range_def split: prod.splits)

lemma utf8_match_char: "utf8_match rs bs = length rs \<Longrightarrow> list_all2 byte_in_range rs (take (length rs) bs)"
  using utf8_match_take [of rs bs] by simp

lemma utf8_replacement: "utf8_valid bs \<Longrightarrow> utf8_valid (replacement @ bs)"
  using utf8_char [of "0xEF" "[(0x80, 0xBF), (0x80, 0xBF)]" "[0xBF, 0xBD]" bs]
  by (simp add: replacement_def utf8_tail_def byte_in_range_def Let_def)

lemma to_string_lossy_valid: "utf8_valid (to_string_lossy bs)"
proof (induction bs rule: to_string_lossy.induct)
  case (2 b bs)
  show ?case
  proof (cases "utf8_tail b")
    case None
    with 2(1) show ?thesis by (simp add: utf8_replacement)
  next
    case (Some rs)
    have IH: "utf8_valid (to_string_lossy (drop (utf8_match rs bs) bs))" by (rule 2(2) [OF Some refl])
    then show ?thesis
      using Some utf8_match_char [of rs bs] utf8_char [OF Some _ IH] by (auto simp: Let_def utf8_replacement)
  qed
qed (simp add: utf8_empty)

lemma to_string_lossy_id: "utf8_valid bs \<Longrightarrow> to_string_lossy bs = bs"
proof (induction rule: utf8_valid.induct)
  case (utf8_char b rs xs bs)
  have "utf8_match rs (xs @ bs) = length rs" by (rule utf8_match_all [OF utf8_char(2)])
  moreover have "length xs = length rs" using utf8_char(2) by (simp add: list_all2_lengthD)
  ultimately show ?case using utf8_char by (simp add: Let_def)
qed simp


text \<open>Different names that are not UTF-8 reach the same entry.\<close>

lemma invalid_names_collide:
  "handle_request F ce (RLookup parent [0xFF]) = handle_request F ce (RLookup parent [0xFE])"
  "handle_request F ce (RUnlink parent [0xFF]) = handle_request F ce (RUnlink parent [0xFE])"
proof -
  have "to_string_lossy [0xFF] = to_string_lossy [0xFE]" by (simp add: utf8_tail_def)
  then show "handle_request F ce (RLookup parent [0xFF]) = handle_request F ce (RLookup parent [0xFE])"
    "handle_request F ce (RUnlink parent [0xFF]) = handle_request F ce (RUnlink parent [0xFE])"
    by (simp_all only: handle_request.simps afs_lookup_def afs_unlink_def)
qed

end
