(* ===== verification/Write_Path.thy ===== *)
theory Write_Path
  imports Handle_Facts Tikv_Fs_Facts
begin

text \<open>
  Writes through a file handle. They are collected in the accumulator of the handler and written
  when it is flushed or has grown beyond its limit. If no attempt has to be repeated, what was
  written and synchronised is read back; if the first attempt to flush fails, the accumulated
  writes are lost and the retry reports success.
\<close>

section \<open>One attempt\<close>

lemma spin_once: "spin (Suc 0) i k f s = (case f i s of
    (Inr v, s') \<Rightarrow> (Inr v, s')
  | (Inl e, s') \<Rightarrow> ((case e of KeyError _ \<Rightarrow> Inr None | UnknownError _ \<Rightarrow> if 3 \<le> k then Inl e else Inr None | _ \<Rightarrow> Inl e), s'))"
  by (simp split: prod.splits sum.splits fs_error.splits)

text \<open>A handler with nothing pending.\<close>

definition idle :: "file_handler \<Rightarrow> bool" where
  "idle h \<longleftrightarrow> ps_in_progress (fh_write_cache h) = [] \<and> ps_results (fh_write_cache h) = []"

abbreviation set_handler :: "u64 \<Rightarrow> file_handler \<Rightarrow> tifs_mutable \<Rightarrow> tifs_mutable" where
  "set_handler fh h M \<equiv> M\<lparr>tm_file_handlers := map_insert fh h (tm_file_handlers M)\<rparr>"

lemma map_insert_twice [simp]: "map_insert k v (map_insert k v' xs) = map_insert k v xs"
  by (induction k v' xs rule: map_insert.induct) auto

lemma write_job_attempt:
  assumes "map_of (tm_file_handlers M) fh = Some h"
  shows "on_accumulator fh (\<lambda>h. txn_write Y env (fh_ino h) start data flush) (w, M)
    = (case txn_write Y env (fh_ino h) start data flush (w, fh_write_accumulator h) of
        (r, (w', acc)) \<Rightarrow> (r, (w', set_handler fh (h\<lparr>fh_write_accumulator := acc\<rparr>) M)))"
  using assms by (simp add: on_accumulator_def)

lemma flush_start:
  assumes "map_of (tm_file_handlers M) fh = Some h" and "idle h"
  shows "flush_write_cache F ce fh (w, M) = then_some (write_job F ce fh 0 [] True) (\<lambda>_. ret (Some ())) (w, set_handler fh h M)"
proof -
  have "finish_writes h = ([], h)" using assms(2) by (simp add: finish_writes_def get_results_so_far_def wait_finish_all_def idle_def)
  then show ?thesis using assms(1)
    by (simp add: flush_write_cache_def get_file_handler_checked_def with_handler_def then_some_def and_then_def of_result_def)
qed

lemma txn_write_flush:
  assumes "acc \<noteq> []" and "hb_write_data Y env ino acc w = (r, w')"
  shows "txn_write Y env ino start [] True (w, acc)
    = ((case r of Inl e \<Rightarrow> Inl e | Inr None \<Rightarrow> Inr None | Inr (Some _) \<Rightarrow> Inr (Some 0)), (w', []))"
  using assms by (auto simp: txn_write_def then_some_def and_then_def on_world_def ret_def split: sum.splits option.splits)

lemma txn_write_flush_empty: "txn_write Y env ino start [] True (w, []) = (Inr (Some 0), (w, []))"
  by (simp add: txn_write_def)

section \<open>A flush that is retried\<close>

text \<open>
  C39. A failed flush loses the accumulated writes and reports success: if writing the
  accumulated data fails with an error that is retried, \<open>fsync\<close> (and \<open>flush\<close> and \<open>release\<close>, which
  do the same) finds the accumulator empty at the second attempt, returns success, and the world
  is as the failed attempt left it.
\<close>

theorem fsync_hides_failed_write:
  assumes "map_of (tm_file_handlers M) fh = Some h" and "idle h" and "fh_write_accumulator h \<noteq> []" and "2 \<le> ce_fuel ce"
    and "hb_write_data (tifs_txn F) (ce_op ce 0) (fh_ino h) (fh_write_accumulator h) w = (Inl (UnknownError e), w')"
  shows "tf_fsync F ce fh (w, M) = (Inr (Some ()), (w', set_handler fh (h\<lparr>fh_write_accumulator := []\<rparr>) M))"
proof -
  obtain n where fuel: "ce_fuel ce = Suc (Suc n)" using assms(4) by (metis Suc_le_D numeral_2_eq_2 Suc_le_mono)
  define M1 where "M1 = set_handler fh h M"
  have M1: "map_of (tm_file_handlers M1) fh = Some h" by (simp add: M1_def map_of_map_insert)
  have "write_job F ce fh 0 [] True (w, M1)
      = (Inr (Some 0), (w', set_handler fh (h\<lparr>fh_write_accumulator := []\<rparr>) M1))"
    using write_job_attempt [OF M1, of "tifs_txn F" "ce_op ce 0" 0 "[]" True w] txn_write_flush [OF assms(3,5), of 0]
      write_job_attempt [of "set_handler fh (h\<lparr>fh_write_accumulator := []\<rparr>) M1" fh "h\<lparr>fh_write_accumulator := []\<rparr>"
        "tifs_txn F" "ce_op ce (Suc 0)" 0 "[]" True w']
    by (simp add: write_job_def fuel map_of_map_insert txn_write_flush_empty fh_ino_def)
  then show ?thesis using flush_start [OF assms(1,2), of F ce w]
    by (simp add: tf_fsync_def then_some_def and_then_def ret_def M1_def)
qed

text \<open>An interface that cannot read the block map.\<close>

definition broken_tifs :: "(mem_store, (tifs_hash \<times> bytes) list) tifs" where
  "broken_tifs = sample_tifs\<lparr>tf_hash_fs := (tf_hash_fs sample_tifs)
     \<lparr>if_inode_read_block_hashes_block_range := \<lambda>ino rs. fail (H_Unspecific ''timeout'')\<rparr>\<rparr>"

definition pending_handler :: file_handler where
  "pending_handler = (file_handler_new \<lparr>iu_ino = StorageIno 10, iu_use_id = 7\<rparr> ReadWrite (tf_fs_config sample_tifs))
     \<lparr>fh_write_accumulator := [\<lparr>wtd_data = [1, 2, 3], wtd_start = 5\<rparr>]\<rparr>"

theorem fsync_hides_failed_write_witness:
  "tf_fsync broken_tifs (sample_call 1) 0 ((mem_with [] [], []), set_handler 0 pending_handler sample_table)
    = (Inr (Some ()), ((mem_with [] [], []), set_handler 0 (pending_handler\<lparr>fh_write_accumulator := []\<rparr>) sample_table))"
proof -
  have "hb_write_data (tifs_txn broken_tifs) (ce_op (sample_call 1) 0) (fh_ino pending_handler) (fh_write_accumulator pending_handler)
      (mem_with [] [], []) = (Inl (UnknownError ''timeout''), (mem_with [] [], []))"
    by (simp add: hb_write_data_def pending_handler_def split_jobs_def tifs_txn_def broken_tifs_def sample_tifs_def
        begin_on_hash_fs_interface_def fs_call_def map_err_def on_world_def fail_def then_some_def and_then_def ret_def)
  then show ?thesis
    using fsync_hides_failed_write [of "set_handler 0 pending_handler sample_table" 0 pending_handler "sample_call 1" broken_tifs
        "(mem_with [] [], [])" "''timeout''" "(mem_with [] [], [])"]
    by (simp add: map_of_map_insert idle_def pending_handler_def file_handler_new_def pipe_stage_new_def sample_call_def)
qed

section \<open>Write, synchronise, read\<close>

lemma write_job_once:
  assumes "ce_fuel ce = 1" and "map_of (tm_file_handlers M) fh = Some h"
  shows "write_job F ce fh start data flush (w, M) =
    (case txn_write (tifs_txn F) (ce_op ce 0) (fh_ino h) start data flush (w, fh_write_accumulator h) of
      (r, (w', acc)) \<Rightarrow> ((case r of Inl (KeyError _) \<Rightarrow> Inr None | Inl (UnknownError _) \<Rightarrow> Inr None | r \<Rightarrow> r),
        (w', set_handler fh (h\<lparr>fh_write_accumulator := acc\<rparr>) M)))"
  using assms(1) write_job_attempt [OF assms(2), of "tifs_txn F" "ce_op ce 0" start data flush w]
  by (auto simp: write_job_def spin_once split: prod.splits sum.splits fs_error.splits)

lemma txn_write_one:
  assumes "data \<noteq> []" and "hb_write_data Y env ino [\<lparr>wtd_data = data, wtd_start = start\<rparr>] w = (r, w')"
  shows "txn_write Y env ino start data False (w, []) = (Inr (Some (length data)), (w, [\<lparr>wtd_data = data, wtd_start = start\<rparr>]))
    \<or> txn_write Y env ino start data False (w, [])
        = ((case r of Inl e \<Rightarrow> Inl e | Inr None \<Rightarrow> Inr None | Inr (Some _) \<Rightarrow> Inr (Some (length data))), (w', []))"
  using assms by (auto simp: txn_write_def Let_def then_some_def and_then_def on_world_def ret_def split: sum.splits option.splits)

text \<open>The pipe stage hands every result on: to this call, or to the next one that waits.\<close>

lemma push_collect:
  assumes "ps_in_progress p = []" and "ps_results p = []" and "get_results_so_far (pipe_push r p) = (results, p')"
  shows "results = [r] \<and> ps_in_progress p' = [] \<or> results = [] \<and> ps_in_progress p' = [r]" and "ps_results p' = []"
  using assms by (auto simp: get_results_so_far_def pipe_push_def Let_def split: if_splits)

lemma flush_collect:
  assumes "map_of (tm_file_handlers M) fh = Some h" and "ps_results (fh_write_cache h) = []"
  shows "\<exists>p. flush_write_cache F ce fh (w, M) = (case check_results (ps_in_progress (fh_write_cache h)) of
      Inl e \<Rightarrow> (Inl e, (w, set_handler fh (h\<lparr>fh_write_cache := p\<rparr>) M))
    | Inr _ \<Rightarrow> then_some (write_job F ce fh 0 [] True) (\<lambda>_. ret (Some ())) (w, set_handler fh (h\<lparr>fh_write_cache := p\<rparr>) M))"
  using assms by (auto simp: finish_writes_def get_results_so_far_def wait_finish_all_def flush_write_cache_def
      get_file_handler_checked_def with_handler_def then_some_def and_then_def of_result_def split: sum.split)

lemma tf_write_run:
  assumes h: "map_of (tm_file_handlers M) fh = Some h" "allows_write (fh_open_mode h)" "fh_cursor h = []" "idle h"
    and "0 \<le> sint offset" and job: "write_job F ce fh offset data False (w, M) = (r, (w1, set_handler fh h1 M))"
    and cache: "fh_write_cache h1 = fh_write_cache h"
    and run: "tf_write F ce ino fh offset data (w, M) = (Inr (Some n), s1)"
  obtains x p where "spawn_job (\<lambda>s. (r, s)) () = (Inr (Some x) :: fs_error + _, ())" "s1 = (w1, set_handler fh (h1\<lparr>fh_write_cache := p\<rparr>) M)"
    "ps_results p = []" "check_results (ps_in_progress p) = Inr () \<longrightarrow> (\<exists>v. x = Inr v)"
proof -
  have start: "cursor_offset h (li_kind (logical_ino_from_raw ino)) offset = offset" by (simp add: cursor_offset_def h(3))
  have wr: "tf_write F ce ino fh offset data (w, M) = then_some (spawn_job (write_job F ce fh offset data False)) (\<lambda>r.
      then_some (with_handler fh (\<lambda>h. case get_results_so_far (pipe_push r (fh_write_cache h)) of
          (results, p) \<Rightarrow> (results, h\<lparr>fh_write_cache := p\<rparr>))) (\<lambda>results.
        and_then (of_result (check_results results)) (\<lambda>_. ret (Some (of_nat (length data)))))) (w, M)"
    using h assms(5) start by (simp add: tf_write_def get_file_handler_checked_def then_some_def and_then_def)
  obtain x where x: "spawn_job (\<lambda>s. (r, s)) () = (Inr (Some x) :: fs_error + _, ())"
    and spawned: "spawn_job (write_job F ce fh offset data False) (w, M)
      = (Inr (Some x) :: fs_error + _, (w1, set_handler fh h1 M))"
    using run job by (auto simp: wr spawn_job_def then_some_def and_then_def ret_def split: sum.splits option.splits)
  obtain results p where push: "get_results_so_far (pipe_push x (fh_write_cache h1)) = (results, p)" by fastforce
  have p: "results = [x] \<and> ps_in_progress p = [] \<or> results = [] \<and> ps_in_progress p = [x]" "ps_results p = []"
    using push_collect [OF _ _ push] h(4) by (simp_all add: cache idle_def)
  have s1: "s1 = (w1, set_handler fh (h1\<lparr>fh_write_cache := p\<rparr>) M)" and "check_results results = Inr ()"
    using run spawned push
    by (auto simp: wr then_some_def and_then_def with_handler_def map_of_map_insert of_result_def ret_def split: sum.splits)
  then have "check_results (ps_in_progress p) = Inr () \<longrightarrow> (\<exists>v. x = Inr v)" using p(1) by (cases x) auto
  then show thesis using that [OF x s1 p(2)] by blast
qed

lemma write_fsync_once:
  assumes fuel: "ce_fuel ce = 1" and h: "map_of (tm_file_handlers M) fh = Some h" "allows_write (fh_open_mode h)" "fh_cursor h = []"
    and idle: "idle h" "fh_write_accumulator h = []" and data: "data \<noteq> []" "0 \<le> sint offset"
    and wr: "tf_write F ce ino fh offset data (w, M) = (Inr (Some n), s1)"
    and sync: "tf_fsync F ce fh s1 = (Inr (Some ()), (w2, M2))"
  shows "\<exists>x. hb_write_data (tifs_txn F) (ce_op ce 0) (fh_ino h) [\<lparr>wtd_data = data, wtd_start = offset\<rparr>] w = (Inr (Some x), w2)"
    and "\<exists>h2. map_of (tm_file_handlers M2) fh = Some h2 \<and> fh_cursor h2 = []"
proof -
  obtain r w' where hb: "hb_write_data (tifs_txn F) (ce_op ce 0) (fh_ino h) [\<lparr>wtd_data = data, wtd_start = offset\<rparr>] w = (r, w')"
    by (metis surj_pair)
  have "(\<exists>x. hb_write_data (tifs_txn F) (ce_op ce 0) (fh_ino h) [\<lparr>wtd_data = data, wtd_start = offset\<rparr>] w = (Inr (Some x), w2))
      \<and> (\<exists>h2. map_of (tm_file_handlers M2) fh = Some h2 \<and> fh_cursor h2 = [])"
    using txn_write_one [OF data(1) hb]
  proof
    assume acc: "txn_write (tifs_txn F) (ce_op ce 0) (fh_ino h) offset data False (w, [])
      = (Inr (Some (length data)), (w, [\<lparr>wtd_data = data, wtd_start = offset\<rparr>]))"
    let ?h1 = "h\<lparr>fh_write_accumulator := [\<lparr>wtd_data = data, wtd_start = offset\<rparr>]\<rparr>"
    have job: "write_job F ce fh offset data False (w, M) = (Inr (Some (length data)), (w, set_handler fh ?h1 M))"
      using write_job_once [OF fuel h(1), of F offset data False w] acc idle(2) by simp
    from tf_write_run [OF h idle(1) data(2) job _ wr] obtain x p where
      s1: "s1 = (w, set_handler fh (?h1\<lparr>fh_write_cache := p\<rparr>) M)" and p: "ps_results p = []" by auto
    from flush_collect [of "snd s1" fh "?h1\<lparr>fh_write_cache := p\<rparr>" F ce w] p sync s1 obtain q where
      fl: "then_some (write_job F ce fh 0 [] True) (\<lambda>_. ret (Some ())) (w, set_handler fh (?h1\<lparr>fh_write_cache := q\<rparr>) M)
        = (Inr (Some ()), (w2, M2))"
      by (cases "check_results (ps_in_progress p)") (auto simp: tf_fsync_def map_of_map_insert)
    have "map_of (tm_file_handlers (set_handler fh (?h1\<lparr>fh_write_cache := q\<rparr>) M)) fh = Some (?h1\<lparr>fh_write_cache := q\<rparr>)"
      by (simp add: map_of_map_insert)
    from fl write_job_once [OF fuel this, of F 0 "[]" True w] txn_write_flush [OF _ hb, of 0]
    show ?thesis using hb
      by (auto simp: then_some_def and_then_def ret_def fh_ino_def map_of_map_insert h(3)
          split: sum.splits option.splits fs_error.splits)
  next
    assume acc: "txn_write (tifs_txn F) (ce_op ce 0) (fh_ino h) offset data False (w, [])
      = ((case r of Inl e \<Rightarrow> Inl e | Inr None \<Rightarrow> Inr None | Inr (Some _) \<Rightarrow> Inr (Some (length data))), (w', []))"
    let ?h1 = "h\<lparr>fh_write_accumulator := []\<rparr>"
    obtain r' where job: "write_job F ce fh offset data False (w, M) = (r', (w', set_handler fh ?h1 M))"
      and r': "r' = (case r of Inl (KeyError _) \<Rightarrow> Inr None | Inl (UnknownError _) \<Rightarrow> Inr None | Inl e \<Rightarrow> Inl e
        | Inr None \<Rightarrow> Inr None | Inr (Some _) \<Rightarrow> Inr (Some (length data)))"
      using write_job_once [OF fuel h(1), of F offset data False w] acc idle(2)
      by (auto split: sum.splits option.splits fs_error.splits)
    from tf_write_run [OF h idle(1) data(2) job _ wr] obtain x p where x: "spawn_job (\<lambda>s. (r', s)) () = (Inr (Some x) :: fs_error + _, ())" and
      s1: "s1 = (w', set_handler fh (?h1\<lparr>fh_write_cache := p\<rparr>) M)" and p: "ps_results p = []"
        "check_results (ps_in_progress p) = Inr () \<longrightarrow> (\<exists>v. x = Inr v)" by auto
    from flush_collect [of "snd s1" fh "?h1\<lparr>fh_write_cache := p\<rparr>" F ce w'] p(1) sync s1 obtain q where
      fl: "then_some (write_job F ce fh 0 [] True) (\<lambda>_. ret (Some ())) (w', set_handler fh (?h1\<lparr>fh_write_cache := q\<rparr>) M)
        = (Inr (Some ()), (w2, M2))" and "check_results (ps_in_progress p) = Inr ()"
      by (cases "check_results (ps_in_progress p)") (auto simp: tf_fsync_def map_of_map_insert)
    with p(2) x r' have r: "\<exists>y. r = Inr (Some y)"
      by (auto simp: spawn_job_def split: sum.splits option.splits fs_error.splits)
    have "map_of (tm_file_handlers (set_handler fh (?h1\<lparr>fh_write_cache := q\<rparr>) M)) fh = Some (?h1\<lparr>fh_write_cache := q\<rparr>)"
      by (simp add: map_of_map_insert)
    from fl write_job_once [OF fuel this, of F 0 "[]" True w']
    show ?thesis using hb r
      by (auto simp: then_some_def and_then_def ret_def txn_write_flush_empty map_of_map_insert h(3))
  qed
  then show "\<exists>x. hb_write_data (tifs_txn F) (ce_op ce 0) (fh_ino h) [\<lparr>wtd_data = data, wtd_start = offset\<rparr>] w = (Inr (Some x), w2)"
    "\<exists>h2. map_of (tm_file_handlers M2) fh = Some h2 \<and> fh_cursor h2 = []" by auto
qed

lemma read_kind_regular_result:
  assumes "read_kind_regular F ce ino fh start sz (w, M) = (Inr (Some result), s')" and "ce_fuel ce = 1"
    and "map_of (tm_file_handlers M) fh = Some h"
  shows "\<exists>w'. txn_read (tifs_txn F) ino start sz w = (Inr (Some result), w')"
proof -
  obtain M1 where "with_handler fh finish_writes (w, M) = (Inr (Some (fst (finish_writes h))), (w, M1))"
    using assms(3) by (cases "finish_writes h") (auto simp: with_handler_def)
  then have "\<exists>s''. read_transaction F ce ino start sz (w, M1) = (Inr (Some result), s'')"
    using assms(1)
    by (auto simp: read_kind_regular_def then_some_def and_then_def ret_def split: prod.splits sum.splits option.splits if_splits)
  then show ?thesis using assms(2)
    by (auto simp: read_transaction_def spin_no_delay_def spin_once on_world_def split: prod.splits sum.splits fs_error.splits if_splits)
qed

text \<open>Over any hash file system that keeps the contract.\<close>

lemma write_fsync_read_contract:
  fixes offset :: "64 word"
  assumes "file_contract T ok db view X (tifs_txn F) holds sok sdb" and "sok w" and "cache_ok X holds S c" and "clean X (sdb w)"
    and "cfg_chunked_block_upload (tx_fs_config X)" and "data \<noteq> []" and "unat offset + length data < 2 ^ 64"
    and "(unat offset + length data) div unat (cfg_block_size (tx_fs_config X)) + 10241 < 2 ^ 64"
    and "inj_on (calc_hash X) S" and "\<forall>b \<in> S. length b \<le> unat (cfg_block_size (tx_fs_config X))"
    and "stored_known X S (sdb w)"
    and "\<And>i. written_block (unat (cfg_block_size (tx_fs_config X))) (unat offset) data
        (block_at X (sdb w) (fh_ino h) i) (unat (block_raw i)) \<in> S"
    and h: "map_of (tm_file_handlers M) fh = Some h" "allows_write (fh_open_mode h)" "fh_cursor h = []" "idle h"
      "fh_write_accumulator h = []"
    and l: "logical_ino_from_raw ino = \<lparr>li_storage_ino = fh_ino h, li_kind = Regular\<rparr>"
    and "0 \<le> sint offset" and "length data < 2 ^ 32" and fuel: "ce_fuel ce = 1"
  shows "case tf_write F ce ino fh offset data ((w, c), M) of
      (Inr (Some n), s1) \<Rightarrow> (case tf_fsync F ce fh s1 of
          (Inr (Some _), s2) \<Rightarrow> (case tf_read F ce ino fh offset (of_nat (length data)) s2 of
              (Inr (Some result), s3) \<Rightarrow> result = data | _ \<Rightarrow> True)
        | _ \<Rightarrow> True)
    | _ \<Rightarrow> True"
proof -
  have "result = data"
    if wr: "tf_write F ce ino fh offset data ((w, c), M) = (Inr (Some n), s1)"
    and sync: "tf_fsync F ce fh s1 = (Inr (Some ()), s2)"
    and rd: "tf_read F ce ino fh offset (of_nat (length data)) s2 = (Inr (Some result), s3)" for n s1 s2 result s3
  proof -
    obtain w2 c2 M2 where s2: "s2 = ((w2, c2), M2)" by (metis surj_pair)
    note once = write_fsync_once [OF fuel h assms(6) assms(19) wr sync [unfolded s2]]
    obtain x where hb: "hb_write_data (tifs_txn F) (ce_op ce 0) (fh_ino h) [\<lparr>wtd_data = data, wtd_start = offset\<rparr>] (w, c)
        = (Inr (Some x), (w2, c2))" using once(1) by blast
    obtain h2 where h2: "map_of (tm_file_handlers M2) fh = Some h2" "fh_cursor h2 = []" using once(2) by blast
    have "read_kind_regular F ce (fh_ino h) fh offset (of_nat (length data)) ((w2, c2), M2) = (Inr (Some result), s3)"
      using rd h2 l assms(19) s2
      by (simp add: tf_read_def get_file_handler_checked_def then_some_def and_then_def cursor_offset_def Let_def)
    from read_kind_regular_result [OF this fuel h2(1)] obtain w3 c3 where
      "txn_read (tifs_txn F) (fh_ino h) offset (of_nat (length data)) (w2, c2) = (Inr (Some result), (w3, c3))" by (metis surj_pair)
    moreover have "ucast (of_nat (length data) :: u32) = (of_nat (length data) :: u64)"
      using assms(20) by (intro of_nat_eq_wordI [symmetric]) (simp add: unsigned_ucast_eq unat_of_nat take_bit_nat_eq_self)
    ultimately have "hb_read_data (tifs_txn F) (fh_ino h) offset (Some (of_nat (length data))) (w2, c2) = (Inr (Some result), (w3, c3))"
      by (simp add: txn_read_def read_data_def)
    from write_then_read [OF assms(1-12) hb this] show ?thesis by simp
  qed
  then show ?thesis by (auto split: prod.splits sum.splits option.splits)
qed


definition sample_file_tifs :: "(mem_store, (tifs_hash \<times> bytes) list) tifs" where
  "sample_file_tifs = sample_tifs\<lparr>tf_hash_fs := tikv_hash_fs_interface (hfs sample_txn) (fail (UnknownError '''')),
     tf_fs_config := sample_config\<rparr>"

definition fresh_handler :: file_handler where
  "fresh_handler = file_handler_new \<lparr>iu_ino = StorageIno 10, iu_use_id = 7\<rparr> ReadWrite sample_config"

lemma fresh_handler_facts:
  "logical_ino_from_raw 73 = \<lparr>li_storage_ino = fh_ino fresh_handler, li_kind = Regular\<rparr>" "idle fresh_handler"
  "fh_cursor fresh_handler = []" "allows_write (fh_open_mode fresh_handler)" "fh_write_accumulator fresh_handler = []"
  by (simp_all add: logical_ino_from_raw_def fresh_handler_def fh_ino_def file_handler_new_def ROOT_INODE_def FUSE_ROOT_ID_def
      LOGICAL_INO_FACTOR_def idle_def pipe_stage_new_def allows_write_def)


end
