(* ===== verification/Grpc_Messages.thy ===== *)
theory Grpc_Messages
  imports Hash_Fs_Interface Environment
begin

text \<open>
  The messages of the remote hash file system (\<open>api/protos/hash_fs.proto\<close>) and the conversions
  of \<open>rust-grpc-example/src/lib.rs\<close> between them and the types of the interface. A message is a
  record of its fields; a field of message type may be missing. An enumeration field holds a
  value of the enumeration: numbers that are none of them are never sent. The conversions of
  times (\<open>prost_types\<close>), identifiers (\<open>uuid\<close>) and big integers (\<open>num_bigint\<close>) are parameters.
\<close>

section \<open>Third-party conversions\<close>

record timestamp =
  ts_seconds :: int
  ts_nanos :: int

record grpc_ext =
  ge_time_enc :: "system_time \<Rightarrow> timestamp"
  ge_time_dec :: "timestamp \<Rightarrow> system_time option"
  ge_uuid_str :: "uuid \<Rightarrow> string"
  ge_uuid_parse :: "string \<Rightarrow> uuid option"
  ge_big_enc :: "nat \<Rightarrow> bytes"
  ge_big_dec :: "bytes \<Rightarrow> nat"

text \<open>What the program relies on: decoding undoes encoding.\<close>

definition grpc_ext_ok :: "grpc_ext \<Rightarrow> bool" where
  "grpc_ext_ok G \<longleftrightarrow> (\<forall>t. ge_time_dec G (ge_time_enc G t) = Some t) \<and> (\<forall>u. ge_uuid_parse G (ge_uuid_str G u) = Some u)
     \<and> (\<forall>n. ge_big_dec G (ge_big_enc G n) = n)"

text \<open>An instance: seconds and nanoseconds, the bytes of an identifier, the instance of the store.\<close>

definition sample_grpc_ext :: grpc_ext where
  "sample_grpc_ext =
     \<lparr>ge_time_enc = (\<lambda>t. \<lparr>ts_seconds = t div 1000000000, ts_nanos = t mod 1000000000\<rparr>),
      ge_time_dec = (\<lambda>s. Some (ts_seconds s * 1000000000 + ts_nanos s)),
      ge_uuid_str = (\<lambda>u. map (\<lambda>b. char_of (unat b)) (be_bytes 16 u)),
      ge_uuid_parse = (\<lambda>s. Some (be_word (map (\<lambda>c. of_nat (of_char c)) s))),
      ge_big_enc = ext_big_enc sample_ext, ge_big_dec = ext_big_dec sample_ext\<rparr>"

section \<open>Inode numbers, kinds and items\<close>

datatype g_storage_ino = G_StorageIno (g_ino: u64)

datatype g_parent_storage_ino = G_ParentStorageIno (g_parent: "g_storage_ino option")

datatype g_kind = G_File | G_Directory | G_Symlink

record g_storage_dir_item =
  gsdi_ino :: "g_storage_ino option"
  gsdi_typ :: g_kind

record g_directory_item =
  gdi_ino :: "g_storage_ino option"
  gdi_name :: name
  gdi_typ :: g_kind

definition grpc_of_ino :: "storage_ino \<Rightarrow> g_storage_ino" where
  "grpc_of_ino ino = G_StorageIno (ino_raw ino)"

definition ino_of_grpc :: "g_storage_ino \<Rightarrow> storage_ino" where
  "ino_of_grpc v = StorageIno (g_ino v)"

definition grpc_of_parent :: "parent_storage_ino \<Rightarrow> g_parent_storage_ino" where
  "grpc_of_parent p = G_ParentStorageIno (Some (grpc_of_ino (parent_ino p)))"

definition parent_of_grpc :: "g_parent_storage_ino \<Rightarrow> parent_storage_ino" where
  "parent_of_grpc v = ParentStorageIno (case g_parent v of Some i \<Rightarrow> ino_of_grpc i | None \<Rightarrow> parent_ino PARENT_OF_ROOT_INODE)"

fun kind_of_grpc :: "g_kind \<Rightarrow> storage_dir_item_kind" where
  "kind_of_grpc G_File = File"
| "kind_of_grpc G_Directory = Directory"
| "kind_of_grpc G_Symlink = Symlink"

fun grpc_of_kind :: "storage_dir_item_kind \<Rightarrow> g_kind" where
  "grpc_of_kind File = G_File"
| "grpc_of_kind Directory = G_Directory"
| "grpc_of_kind Symlink = G_Symlink"

definition item_of_grpc :: "g_storage_dir_item \<Rightarrow> storage_dir_item" where
  "item_of_grpc v = \<lparr>sdi_ino = (case gsdi_ino v of Some n \<Rightarrow> ino_of_grpc n | None \<Rightarrow> parent_ino PARENT_OF_ROOT_INODE),
     sdi_typ = kind_of_grpc (gsdi_typ v)\<rparr>"

definition grpc_of_item :: "storage_dir_item \<Rightarrow> g_storage_dir_item" where
  "grpc_of_item v = \<lparr>gsdi_ino = Some (grpc_of_ino (sdi_ino v)), gsdi_typ = grpc_of_kind (sdi_typ v)\<rparr>"

section \<open>Errors\<close>

datatype g_error_id = G_Unspecific | G_RawGrpcStatus | G_FsNotInitialized | G_FsHasInvalidData | G_FileNotFound
  | G_FileAlreadyExists | G_InodeHasNoInlineData | G_GrpcMessageIncomplete | G_RawTonicTransportError | G_FsDataIsMissing

record g_error =
  gerr_id :: g_error_id
  gerr_msg :: string

definition error_of_grpc :: "g_error \<Rightarrow> hash_fs_error" where
  "error_of_grpc v = (case gerr_id v of
     G_FileAlreadyExists \<Rightarrow> H_FileAlreadyExists
   | G_FileNotFound \<Rightarrow> H_FileNotFound
   | G_FsHasInvalidData \<Rightarrow> H_FsHasInvalidData (Some (gerr_msg v))
   | G_FsNotInitialized \<Rightarrow> H_FsNotInitialized
   | G_InodeHasNoInlineData \<Rightarrow> H_InodeHasNoInlineData
   | G_RawGrpcStatus \<Rightarrow> H_RawGrpcStatus None
   | G_Unspecific \<Rightarrow> H_Unspecific (gerr_msg v)
   | G_GrpcMessageIncomplete \<Rightarrow> H_GrpcMessageIncomplete
   | G_RawTonicTransportError \<Rightarrow> H_RawTonicTransportError (gerr_msg v)
   | G_FsDataIsMissing \<Rightarrow> H_FsHasMissingData (Some (gerr_msg v)))"

text \<open>The text of a status is abstracted to a fixed one.\<close>

fun grpc_of_error :: "hash_fs_error \<Rightarrow> g_error" where
  "grpc_of_error H_FileAlreadyExists = \<lparr>gerr_id = G_FileAlreadyExists, gerr_msg = ''''\<rparr>"
| "grpc_of_error H_FileNotFound = \<lparr>gerr_id = G_FileNotFound, gerr_msg = ''''\<rparr>"
| "grpc_of_error (H_FsHasInvalidData msg) = \<lparr>gerr_id = G_FsHasInvalidData, gerr_msg = (case msg of Some m \<Rightarrow> m | None \<Rightarrow> '''')\<rparr>"
| "grpc_of_error H_FsNotInitialized = \<lparr>gerr_id = G_FsNotInitialized, gerr_msg = ''''\<rparr>"
| "grpc_of_error H_InodeHasNoInlineData = \<lparr>gerr_id = G_InodeHasNoInlineData, gerr_msg = ''''\<rparr>"
| "grpc_of_error (H_RawGrpcStatus status) = \<lparr>gerr_id = G_RawGrpcStatus, gerr_msg = ''status: {:?}''\<rparr>"
| "grpc_of_error (H_Unspecific msg) = \<lparr>gerr_id = G_Unspecific, gerr_msg = msg\<rparr>"
| "grpc_of_error H_GrpcMessageIncomplete = \<lparr>gerr_id = G_GrpcMessageIncomplete, gerr_msg = ''''\<rparr>"
| "grpc_of_error (H_RawTonicTransportError msg) = \<lparr>gerr_id = G_RawTonicTransportError, gerr_msg = msg\<rparr>"
| "grpc_of_error (H_FsHasMissingData msg) = \<lparr>gerr_id = G_FsDataIsMissing, gerr_msg = (case msg of Some m \<Rightarrow> m | None \<Rightarrow> '''')\<rparr>"

section \<open>Metadata and attributes\<close>

record g_meta_static =
  gms_block_size :: u64
  gms_hashed_blocks :: bool
  gms_hash_algorithm :: string

record g_ino_description =
  gdesc_ino :: "g_storage_ino option"
  gdesc_typ :: g_kind
  gdesc_creation_time :: "timestamp option"

datatype g_permission = G_Permission (g_perm: u32)

record g_file_attr =
  gattr_perm :: "g_permission option"
  gattr_uid :: u32
  gattr_gid :: u32
  gattr_rdev :: u32
  gattr_flags :: u32
  gattr_last_change :: "timestamp option"

record g_ino_size =
  gsz_size :: u64
  gsz_blocks :: u64
  gsz_last_change :: "timestamp option"

datatype g_access_time = G_AccessTime (g_atime: "timestamp option")

record g_all_attributes =
  gall_desc :: "g_ino_description option"
  gall_attrs :: "g_file_attr option"
  gall_size :: "g_ino_size option"
  gall_atime :: "g_access_time option"

datatype g_time_or_now = G_TimeOrNow (g_time: "timestamp option")

definition meta_of_grpc :: "g_meta_static \<Rightarrow> meta_static" where
  "meta_of_grpc v = \<lparr>ms_block_size = gms_block_size v, ms_hashed_blocks = gms_hashed_blocks v,
     ms_hash_algorithm = gms_hash_algorithm v\<rparr>"

definition grpc_of_meta :: "meta_static \<Rightarrow> g_meta_static" where
  "grpc_of_meta v = \<lparr>gms_block_size = ms_block_size v, gms_hashed_blocks = ms_hashed_blocks v,
     gms_hash_algorithm = ms_hash_algorithm v\<rparr>"

definition UNIX_EPOCH :: system_time where "UNIX_EPOCH = 0"

definition grpc_time_to_system_time :: "grpc_ext \<Rightarrow> timestamp \<Rightarrow> system_time" where
  "grpc_time_to_system_time G t = (case ge_time_dec G t of Some s \<Rightarrow> s | None \<Rightarrow> UNIX_EPOCH)"

definition grpc_time_opt_to_system_time :: "grpc_ext \<Rightarrow> timestamp option \<Rightarrow> system_time" where
  "grpc_time_opt_to_system_time G t = (case Option.bind t (ge_time_dec G) of Some s \<Rightarrow> s | None \<Rightarrow> UNIX_EPOCH)"

definition atime_of_grpc :: "grpc_ext \<Rightarrow> g_access_time \<Rightarrow> ino_access_time" where
  "atime_of_grpc G v = InoAccessTime (grpc_time_opt_to_system_time G (g_atime v))"

definition grpc_of_atime :: "grpc_ext \<Rightarrow> ino_access_time \<Rightarrow> g_access_time" where
  "grpc_of_atime G v = G_AccessTime (Some (ge_time_enc G (access_time v)))"

definition desc_of_grpc :: "grpc_ext \<Rightarrow> g_ino_description \<Rightarrow> ino_description" where
  "desc_of_grpc G v = \<lparr>desc_ino = (case gdesc_ino v of Some i \<Rightarrow> ino_of_grpc i | None \<Rightarrow> parent_ino PARENT_OF_ROOT_INODE),
     desc_typ = kind_of_grpc (gdesc_typ v), desc_creation_time = grpc_time_opt_to_system_time G (gdesc_creation_time v)\<rparr>"

definition grpc_of_desc :: "grpc_ext \<Rightarrow> ino_description \<Rightarrow> g_ino_description" where
  "grpc_of_desc G v = \<lparr>gdesc_ino = Some (grpc_of_ino (desc_ino v)), gdesc_typ = grpc_of_kind (desc_typ v),
     gdesc_creation_time = Some (ge_time_enc G (desc_creation_time v))\<rparr>"

definition perm_of_grpc :: "g_permission \<Rightarrow> storage_file_permission" where
  "perm_of_grpc v = StorageFilePermission (ucast (g_perm v AND 0xFFFF))"

definition grpc_of_perm :: "storage_file_permission \<Rightarrow> g_permission" where
  "grpc_of_perm v = G_Permission (ucast (perm_raw v))"

definition attr_of_grpc :: "grpc_ext \<Rightarrow> g_file_attr \<Rightarrow> ino_storage_file_attr" where
  "attr_of_grpc G v = \<lparr>attr_perm = (case gattr_perm v of Some p \<Rightarrow> perm_of_grpc p | None \<Rightarrow> StorageFilePermission 0),
     attr_uid = gattr_uid v, attr_gid = gattr_gid v, attr_rdev = gattr_rdev v, attr_flags = gattr_flags v,
     attr_last_change = grpc_time_opt_to_system_time G (gattr_last_change v)\<rparr>"

definition grpc_of_attr :: "grpc_ext \<Rightarrow> ino_storage_file_attr \<Rightarrow> g_file_attr" where
  "grpc_of_attr G v = \<lparr>gattr_perm = Some (grpc_of_perm (attr_perm v)), gattr_uid = attr_uid v, gattr_gid = attr_gid v,
     gattr_rdev = attr_rdev v, gattr_flags = attr_flags v, gattr_last_change = Some (ge_time_enc G (attr_last_change v))\<rparr>"

definition size_of_grpc :: "grpc_ext \<Rightarrow> g_ino_size \<Rightarrow> ino_size" where
  "size_of_grpc G v = \<lparr>isz_size = gsz_size v, isz_blocks = gsz_blocks v,
     isz_last_change = grpc_time_opt_to_system_time G (gsz_last_change v)\<rparr>"

definition grpc_of_size :: "grpc_ext \<Rightarrow> ino_size \<Rightarrow> g_ino_size" where
  "grpc_of_size G v = \<lparr>gsz_size = isz_size v, gsz_blocks = isz_blocks v, gsz_last_change = Some (ge_time_enc G (isz_last_change v))\<rparr>"

definition time_or_now_of_grpc :: "grpc_ext \<Rightarrow> g_time_or_now \<Rightarrow> time_or_now" where
  "time_or_now_of_grpc G v = (case g_time v of
     Some t \<Rightarrow> SpecificTime (grpc_time_opt_to_system_time G (Some t)) | None \<Rightarrow> Now)"

definition grpc_of_time_or_now :: "grpc_ext \<Rightarrow> time_or_now \<Rightarrow> g_time_or_now" where
  "grpc_of_time_or_now G v = G_TimeOrNow (case v of SpecificTime t \<Rightarrow> Some (ge_time_enc G t) | Now \<Rightarrow> None)"

section \<open>Identifiers, block indices and counters\<close>

datatype g_uuid = G_Uuid (g_uuid_text: string)
datatype g_block_index = G_BlockIndex (g_block: u64)
datatype g_big_uint = G_BigUint (g_big: bytes)
datatype g_hash = G_Hash (g_data: bytes)

record g_block_range =
  gbr_start :: "g_block_index option"
  gbr_end :: "g_block_index option"

record g_hash_block_data =
  ghbd_hash :: "g_hash option"
  ghbd_data :: bytes

record g_hash_block_count =
  ghbc_hash :: "g_hash option"
  ghbc_count :: "g_big_uint option"

record g_hash_block_increments =
  ghbi_hash :: "g_hash option"
  ghbi_inc :: u64

record g_hash_block_addresses =
  ghba_hash :: "g_hash option"
  ghba_block_actual_length :: u64
  ghba_block_ids :: "g_block_index list"

definition uuid_of_grpc :: "grpc_ext \<Rightarrow> g_uuid \<Rightarrow> uuid" where
  "uuid_of_grpc G v = (case ge_uuid_parse G (g_uuid_text v) of Some u \<Rightarrow> u | None \<Rightarrow> 0)"

definition grpc_of_uuid :: "grpc_ext \<Rightarrow> uuid \<Rightarrow> g_uuid" where
  "grpc_of_uuid G v = G_Uuid (ge_uuid_str G v)"

definition block_of_grpc :: "g_block_index \<Rightarrow> block_index" where
  "block_of_grpc v = BlockIndex (g_block v)"

definition grpc_of_block :: "block_index \<Rightarrow> g_block_index" where
  "grpc_of_block v = G_BlockIndex (block_raw v)"

definition range_of_grpc :: "g_block_range \<Rightarrow> block_index \<times> block_index" where
  "range_of_grpc v = ((case gbr_start v of Some b \<Rightarrow> block_of_grpc b | None \<Rightarrow> BlockIndex 0),
     (case gbr_end v of Some b \<Rightarrow> block_of_grpc b | None \<Rightarrow> BlockIndex 0))"

definition grpc_of_range :: "block_index \<times> block_index \<Rightarrow> g_block_range" where
  "grpc_of_range v = \<lparr>gbr_start = Some (grpc_of_block (fst v)), gbr_end = Some (grpc_of_block (snd v))\<rparr>"

definition big_of_grpc :: "grpc_ext \<Rightarrow> g_big_uint \<Rightarrow> nat" where
  "big_of_grpc G v = ge_big_dec G (g_big v)"

definition grpc_of_big :: "grpc_ext \<Rightarrow> nat \<Rightarrow> g_big_uint" where
  "grpc_of_big G v = G_BigUint (ge_big_enc G v)"

section \<open>Conversions undo each other\<close>

lemma map_byte_roundtrip: "map (\<lambda>c. of_nat (of_char c)) (map (\<lambda>b. char_of (unat b)) bs) = bs" for bs :: bytes
proof (induction bs)
  case (Cons b bs)
  have "unat b < 256" using unsigned_less [of b] by simp
  then have "of_char (char_of (unat b)) = unat b" by simp
  then show ?case using Cons by simp
qed simp

lemma sample_grpc_ext_ok: "grpc_ext_ok sample_grpc_ext"
proof -
  have "ge_uuid_parse sample_grpc_ext (ge_uuid_str sample_grpc_ext u) = Some u" for u
    using map_byte_roundtrip [of "be_bytes 16 u"] be_word_be_bytes_uuid [of u] by (simp add: sample_grpc_ext_def del: map_map)
  moreover have "ge_time_dec sample_grpc_ext (ge_time_enc sample_grpc_ext t) = Some t" for t
    by (simp add: sample_grpc_ext_def)
  moreover have "ge_big_dec sample_grpc_ext (ge_big_enc sample_grpc_ext n) = n" for n
    using ext_ok_facts(1) [OF sample_ext_ok, of n] by (simp add: sample_grpc_ext_def)
  ultimately show ?thesis by (simp add: grpc_ext_ok_def)
qed

lemma kind_of_grpc_inverse [simp]: "kind_of_grpc (grpc_of_kind k) = k"
  by (cases k) simp_all

lemma ino_of_grpc_inverse [simp]: "ino_of_grpc (grpc_of_ino ino) = ino" "parent_of_grpc (grpc_of_parent p) = p"
  by (simp_all add: ino_of_grpc_def grpc_of_ino_def parent_of_grpc_def grpc_of_parent_def)

lemma item_of_grpc_inverse [simp]: "item_of_grpc (grpc_of_item it) = it"
  by (simp add: item_of_grpc_def grpc_of_item_def)

lemma meta_of_grpc_inverse [simp]: "meta_of_grpc (grpc_of_meta ms) = ms"
  by (simp add: meta_of_grpc_def grpc_of_meta_def)

lemma block_of_grpc_inverse [simp]: "block_of_grpc (grpc_of_block b) = b" "range_of_grpc (grpc_of_range r) = r"
  by (simp_all add: block_of_grpc_def grpc_of_block_def range_of_grpc_def grpc_of_range_def)

lemma perm_of_grpc_inverse [simp]: "perm_of_grpc (grpc_of_perm p) = p"
proof -
  have "w AND 0xFFFF = take_bit 16 w" for w :: u32 by (simp add: take_bit_eq_mask mask_eq_exp_minus_1)
  then have "ucast (ucast w AND 0xFFFF :: u32) = (w :: u16)" for w
    by (intro bit_word_eqI) (simp add: bit_simps)
  then show ?thesis by (simp add: perm_of_grpc_def grpc_of_perm_def)
qed

lemma grpc_time_inverse:
  assumes "grpc_ext_ok G"
  shows "grpc_time_to_system_time G (ge_time_enc G t) = t" "grpc_time_opt_to_system_time G (Some (ge_time_enc G t)) = t"
    "uuid_of_grpc G (grpc_of_uuid G u) = u" "big_of_grpc G (grpc_of_big G n) = n"
  using assms by (simp_all add: grpc_ext_ok_def grpc_time_to_system_time_def grpc_time_opt_to_system_time_def
      uuid_of_grpc_def grpc_of_uuid_def big_of_grpc_def grpc_of_big_def)

lemma grpc_attribute_inverse:
  assumes "grpc_ext_ok G"
  shows "atime_of_grpc G (grpc_of_atime G a) = a" "desc_of_grpc G (grpc_of_desc G d) = d"
    "attr_of_grpc G (grpc_of_attr G t) = t" "size_of_grpc G (grpc_of_size G z) = z"
    "time_or_now_of_grpc G (grpc_of_time_or_now G tn) = tn"
proof -
  show "time_or_now_of_grpc G (grpc_of_time_or_now G tn) = tn"
    by (cases tn) (simp_all add: time_or_now_of_grpc_def grpc_of_time_or_now_def grpc_time_inverse [OF assms])
qed (simp_all add: atime_of_grpc_def grpc_of_atime_def desc_of_grpc_def grpc_of_desc_def attr_of_grpc_def grpc_of_attr_def
    size_of_grpc_def grpc_of_size_def grpc_time_inverse [OF assms])

lemmas grpc_inverse = grpc_time_inverse grpc_attribute_inverse

text \<open>Errors keep their kind; a missing message becomes an empty one, and a status loses its content.\<close>

definition error_through_grpc :: "hash_fs_error \<Rightarrow> hash_fs_error" where
  "error_through_grpc e = (case e of
     H_RawGrpcStatus _ \<Rightarrow> H_RawGrpcStatus None
   | H_FsHasInvalidData None \<Rightarrow> H_FsHasInvalidData (Some '''')
   | H_FsHasMissingData None \<Rightarrow> H_FsHasMissingData (Some '''')
   | _ \<Rightarrow> e)"

lemma error_of_grpc_inverse [simp]: "error_of_grpc (grpc_of_error e) = error_through_grpc e"
  by (cases e) (auto simp: error_of_grpc_def error_through_grpc_def split: option.split)

end
