(* ===== verification/Grpc_Fs.thy ===== *)
theory Grpc_Fs
  imports Grpc_Messages
begin

text \<open>
  The server of the remote hash file system (\<open>hash_fs/server.rs\<close>): one handler for each
  operation, which calls an implementation of the interface.

  A request is given by its fields in the order of the \<open>.proto\<close> file, a response by its error
  and its remaining fields. A handler answers with a response or with a status; what a handler
  takes from its surroundings is its first argument. A call that does not return has the value
  \<open>None\<close>.
\<close>

section \<open>The service\<close>

record 'v rs =
  rs_error :: "g_error option"
  rs_value :: 'v

type_synonym status = string
type_synonym ('w, 'v) served = "('w, status, 'v rs) comp"
type_synonym ('w, 'v) served_opt = "('w, status, 'v rs option) comp"

record 'w hash_fs_service =
  sv_init :: "op_env \<Rightarrow> u32 \<Rightarrow> u32 \<Rightarrow> ('w, g_storage_dir_item option) served"
  sv_meta_static_read :: "('w, g_meta_static option) served"
  sv_directory_read_children :: "g_storage_ino option \<Rightarrow> ('w, g_directory_item list) served"
  sv_directory_add_child_checked_existing_inode ::
    "g_parent_storage_ino option \<Rightarrow> name \<Rightarrow> g_storage_ino option \<Rightarrow> ('w, unit) served"
  sv_directory_add_child_checked_new_inode ::
    "op_env \<Rightarrow> g_parent_storage_ino option \<Rightarrow> name \<Rightarrow> g_kind \<Rightarrow> g_permission option \<Rightarrow> u32 \<Rightarrow> u32 \<Rightarrow> u32 \<Rightarrow> bytes
      \<Rightarrow> ('w, bool \<times> g_storage_dir_item option) served"
  sv_directory_remove_child_file :: "op_env \<Rightarrow> g_parent_storage_ino option \<Rightarrow> name \<Rightarrow> ('w, unit) served"
  sv_directory_remove_child_directory :: "g_parent_storage_ino option \<Rightarrow> name \<Rightarrow> ('w, unit) served"
  sv_directory_rename_child ::
    "g_parent_storage_ino option \<Rightarrow> name \<Rightarrow> g_parent_storage_ino option \<Rightarrow> name \<Rightarrow> ('w, unit) served"
  sv_directory_child_get_all_attributes :: "g_parent_storage_ino option \<Rightarrow> name \<Rightarrow> ('w, g_all_attributes option) served"
  sv_directory_add_new_symlink ::
    "op_env \<Rightarrow> g_parent_storage_ino option \<Rightarrow> name \<Rightarrow> bytes \<Rightarrow> u32 \<Rightarrow> u32 \<Rightarrow> ('w, g_storage_dir_item option) served"
  sv_inode_get_all_attributes :: "g_storage_ino option \<Rightarrow> ('w, g_all_attributes option) served"
  sv_inode_set_all_attributes ::
    "op_env \<Rightarrow> g_storage_ino option \<Rightarrow> g_permission option \<Rightarrow> u32 option \<Rightarrow> u32 option \<Rightarrow> u64 option \<Rightarrow> g_time_or_now option
      \<Rightarrow> g_time_or_now option \<Rightarrow> timestamp option \<Rightarrow> timestamp option \<Rightarrow> timestamp option \<Rightarrow> timestamp option \<Rightarrow> u32 option
      \<Rightarrow> ('w, unit) served"
  sv_inode_open :: "op_env \<Rightarrow> g_storage_ino option \<Rightarrow> ('w, g_uuid option) served"
  sv_inode_close :: "g_storage_ino option \<Rightarrow> g_uuid option \<Rightarrow> ('w, unit) served"
  sv_inode_allocate_size :: "op_env \<Rightarrow> g_storage_ino option \<Rightarrow> 64 word \<Rightarrow> 64 word \<Rightarrow> ('w, unit) served"
  sv_inode_read_inline_data :: "g_storage_ino option \<Rightarrow> ('w, bytes) served"
  sv_inode_read_block_hashes_data_range :: "g_storage_ino option \<Rightarrow> u64 \<Rightarrow> u64 \<Rightarrow> ('w, u64 \<rightharpoonup> g_hash) served_opt"
  sv_inode_read_block_hashes_block_range :: "g_storage_ino option \<Rightarrow> g_block_range list \<Rightarrow> ('w, u64 \<rightharpoonup> g_hash) served_opt"
  sv_hb_get_block_data_by_hashes :: "g_hash list \<Rightarrow> ('w, g_hash_block_data list) served"
  sv_file_get_hash :: "g_storage_ino option \<Rightarrow> ('w, g_hash option) served_opt"
  sv_file_read_block_hashes :: "g_storage_ino option \<Rightarrow> g_block_range option \<Rightarrow> ('w, bytes) served_opt"
  sv_hb_increment_reference_count :: "g_hash_block_increments list \<Rightarrow> ('w, g_hash_block_count list) served"
  sv_hb_upload_new_block :: "g_hash_block_data list \<Rightarrow> ('w, unit) served"
  sv_inode_write_hash_block_to_addresses :: "op_env \<Rightarrow> g_storage_ino option \<Rightarrow> g_hash_block_addresses list \<Rightarrow> ('w, unit) served"
  sv_snapshot_create :: "op_env \<Rightarrow> name \<Rightarrow> ('w, bool \<times> g_storage_dir_item option) served_opt"

section \<open>The server\<close>

text \<open>The response: the error, or the fields for the result; the other fields have their defaults.\<close>

definition respond :: "'v \<Rightarrow> ('a \<Rightarrow> 'v) \<Rightarrow> ('w, hash_fs_error, 'a) comp \<Rightarrow> ('w, 'v) served" where
  "respond dflt f m w = (case m w of
     (Inl e, w') \<Rightarrow> (Inr \<lparr>rs_error = Some (grpc_of_error e), rs_value = dflt\<rparr>, w')
   | (Inr x, w') \<Rightarrow> (Inr \<lparr>rs_error = None, rs_value = f x\<rparr>, w'))"

definition respond_opt :: "'v \<Rightarrow> ('a \<Rightarrow> 'v) \<Rightarrow> ('w, hash_fs_error, 'a option) comp \<Rightarrow> ('w, 'v) served_opt" where
  "respond_opt dflt f m w = (case m w of
     (Inl e, w') \<Rightarrow> (Inr (Some \<lparr>rs_error = Some (grpc_of_error e), rs_value = dflt\<rparr>), w')
   | (Inr r, w') \<Rightarrow> (Inr (map_option (\<lambda>x. \<lparr>rs_error = None, rs_value = f x\<rparr>) r), w'))"

definition required :: "string \<Rightarrow> 'a option \<Rightarrow> ('a \<Rightarrow> ('w, status, 'b) comp) \<Rightarrow> ('w, status, 'b) comp" where
  "required what v k = (case v of None \<Rightarrow> fail (what @ '' is required!'') | Some x \<Rightarrow> k x)"

abbreviation nothing :: "'a \<Rightarrow> unit" where "nothing \<equiv> \<lambda>_. ()"

definition grpc_of_all :: "grpc_ext \<Rightarrow> all_attributes \<Rightarrow> g_all_attributes" where
  "grpc_of_all G = (\<lambda>(desc, attr, sz, atime). \<lparr>gall_desc = Some (grpc_of_desc G desc), gall_attrs = Some (grpc_of_attr G attr),
     gall_size = Some (grpc_of_size G sz), gall_atime = Some (grpc_of_atime G atime)\<rparr>)"

definition srv_init :: "'w hash_fs_interface \<Rightarrow> op_env \<Rightarrow> u32 \<Rightarrow> u32 \<Rightarrow> ('w, g_storage_dir_item option) served" where
  "srv_init I env gid uid = respond None (\<lambda>item. Some (grpc_of_item item)) (if_init I env gid uid)"

definition srv_meta_static_read :: "'w hash_fs_interface \<Rightarrow> ('w, g_meta_static option) served" where
  "srv_meta_static_read I = respond None (\<lambda>val. Some (grpc_of_meta val)) (if_meta_static_read I)"

definition srv_directory_read_children :: "'w hash_fs_interface \<Rightarrow> g_storage_ino option \<Rightarrow> ('w, g_directory_item list) served" where
  "srv_directory_read_children I dir_ino = required ''dir_ino parameter'' dir_ino (\<lambda>dir_ino.
     respond [] (map (\<lambda>i. \<lparr>gdi_ino = Some (grpc_of_ino (dirit_ino i)), gdi_name = dirit_name i, gdi_typ = grpc_of_kind (dirit_typ i)\<rparr>))
       (if_directory_read_children I (ino_of_grpc dir_ino)))"

definition srv_directory_add_child_checked_new_inode ::
  "'w hash_fs_interface \<Rightarrow> op_env \<Rightarrow> g_parent_storage_ino option \<Rightarrow> name \<Rightarrow> g_kind \<Rightarrow> g_permission option \<Rightarrow> u32 \<Rightarrow> u32 \<Rightarrow> u32 \<Rightarrow> bytes
     \<Rightarrow> ('w, bool \<times> g_storage_dir_item option) served" where
  "srv_directory_add_child_checked_new_inode I env parent nm typ perm gid uid rdev inline_data =
     required ''parent parameter'' parent (\<lambda>parent. required ''perm parameter'' perm (\<lambda>perm.
       respond (False, None) (\<lambda>val. (existed_before val, Some (grpc_of_item (got_or_made_value val))))
         (if_directory_add_child_checked_new_inode I env (parent_of_grpc parent) nm (kind_of_grpc typ) (perm_of_grpc perm) gid uid rdev
           (if length inline_data > 0 then Some inline_data else None))))"

definition srv_directory_add_child_checked_existing_inode ::
  "'w hash_fs_interface \<Rightarrow> g_parent_storage_ino option \<Rightarrow> name \<Rightarrow> g_storage_ino option \<Rightarrow> ('w, unit) served" where
  "srv_directory_add_child_checked_existing_inode I parent nm ino =
     required ''parent'' parent (\<lambda>parent. required ''ino'' ino (\<lambda>ino.
       respond () nothing (if_directory_add_child_checked_existing_inode I (parent_of_grpc parent) nm (ino_of_grpc ino))))"

definition srv_directory_remove_child_file ::
  "'w hash_fs_interface \<Rightarrow> op_env \<Rightarrow> g_parent_storage_ino option \<Rightarrow> name \<Rightarrow> ('w, unit) served" where
  "srv_directory_remove_child_file I env parent nm = required ''parent'' parent (\<lambda>parent.
     respond () nothing (if_directory_remove_child_file I env (parent_of_grpc parent) nm))"

definition srv_directory_remove_child_directory ::
  "'w hash_fs_interface \<Rightarrow> g_parent_storage_ino option \<Rightarrow> name \<Rightarrow> ('w, unit) served" where
  "srv_directory_remove_child_directory I parent nm = required ''parent'' parent (\<lambda>parent.
     respond () nothing (if_directory_remove_child_directory I (parent_of_grpc parent) nm))"

definition srv_directory_rename_child ::
  "'w hash_fs_interface \<Rightarrow> g_parent_storage_ino option \<Rightarrow> name \<Rightarrow> g_parent_storage_ino option \<Rightarrow> name \<Rightarrow> ('w, unit) served" where
  "srv_directory_rename_child I parent child_name new_parent new_child_name =
     required ''parent'' parent (\<lambda>parent. required ''new_parent'' new_parent (\<lambda>new_parent.
       respond () nothing (if_directory_rename_child I (parent_of_grpc parent) child_name (parent_of_grpc new_parent) new_child_name)))"

definition srv_directory_child_get_all_attributes ::
  "grpc_ext \<Rightarrow> 'w hash_fs_interface \<Rightarrow> g_parent_storage_ino option \<Rightarrow> name \<Rightarrow> ('w, g_all_attributes option) served" where
  "srv_directory_child_get_all_attributes G I parent nm = required ''parent'' parent (\<lambda>parent.
     respond None (\<lambda>all. Some (grpc_of_all G all)) (if_directory_child_get_all_attributes I (parent_of_grpc parent) nm))"

definition srv_directory_add_new_symlink ::
  "'w hash_fs_interface \<Rightarrow> op_env \<Rightarrow> g_parent_storage_ino option \<Rightarrow> name \<Rightarrow> bytes \<Rightarrow> u32 \<Rightarrow> u32 \<Rightarrow> ('w, g_storage_dir_item option) served" where
  "srv_directory_add_new_symlink I env parent nm link gid uid = required ''parent'' parent (\<lambda>parent.
     respond None (\<lambda>item. Some (grpc_of_item item)) (if_directory_add_new_symlink I env gid uid (parent_of_grpc parent) nm link))"

definition srv_inode_get_all_attributes ::
  "grpc_ext \<Rightarrow> 'w hash_fs_interface \<Rightarrow> g_storage_ino option \<Rightarrow> ('w, g_all_attributes option) served" where
  "srv_inode_get_all_attributes G I ino = required ''ino parameter'' ino (\<lambda>ino.
     respond None (\<lambda>all. Some (grpc_of_all G all)) (if_inode_get_all_attributes I (ino_of_grpc ino)))"

definition srv_inode_set_all_attributes ::
  "grpc_ext \<Rightarrow> 'w hash_fs_interface \<Rightarrow> op_env \<Rightarrow> g_storage_ino option \<Rightarrow> g_permission option \<Rightarrow> u32 option \<Rightarrow> u32 option \<Rightarrow> u64 option
     \<Rightarrow> g_time_or_now option \<Rightarrow> g_time_or_now option \<Rightarrow> timestamp option \<Rightarrow> timestamp option \<Rightarrow> timestamp option
     \<Rightarrow> timestamp option \<Rightarrow> u32 option \<Rightarrow> ('w, unit) served" where
  "srv_inode_set_all_attributes G I env ino mode uid gid sz atime mtime ctime crtime chgtime bkuptime flags =
     required ''ino parameter'' ino (\<lambda>ino. respond () nothing (if_inode_set_all_attributes I env (ino_of_grpc ino)
       (map_option perm_of_grpc mode) uid gid sz (map_option (time_or_now_of_grpc G) atime) (map_option (time_or_now_of_grpc G) mtime)
       (map_option (grpc_time_to_system_time G) ctime) (map_option (grpc_time_to_system_time G) crtime)
       (map_option (grpc_time_to_system_time G) chgtime) (map_option (grpc_time_to_system_time G) bkuptime) flags))"

definition srv_inode_open :: "grpc_ext \<Rightarrow> 'w hash_fs_interface \<Rightarrow> op_env \<Rightarrow> g_storage_ino option \<Rightarrow> ('w, g_uuid option) served" where
  "srv_inode_open G I env ino = required ''ino parameter'' ino (\<lambda>ino.
     respond None (\<lambda>use_id. Some (grpc_of_uuid G use_id)) (if_inode_open I env (ino_of_grpc ino)))"

definition srv_inode_close ::
  "grpc_ext \<Rightarrow> 'w hash_fs_interface \<Rightarrow> g_storage_ino option \<Rightarrow> g_uuid option \<Rightarrow> ('w, unit) served" where
  "srv_inode_close G I ino use_id = required ''ino parameter'' ino (\<lambda>ino. required ''use_id parameter'' use_id (\<lambda>use_id.
     respond () nothing (if_inode_close I (ino_of_grpc ino) (uuid_of_grpc G use_id))))"

definition srv_inode_allocate_size ::
  "'w hash_fs_interface \<Rightarrow> op_env \<Rightarrow> g_storage_ino option \<Rightarrow> 64 word \<Rightarrow> 64 word \<Rightarrow> ('w, unit) served" where
  "srv_inode_allocate_size I env ino offset len = required ''ino parameter'' ino (\<lambda>ino.
     respond () nothing (if_inode_allocate_size I env (ino_of_grpc ino) offset len))"

definition srv_inode_read_inline_data :: "'w hash_fs_interface \<Rightarrow> g_storage_ino option \<Rightarrow> ('w, bytes) served" where
  "srv_inode_read_inline_data I ino = required ''ino parameter'' ino (\<lambda>ino.
     respond [] (\<lambda>data. data) (if_inode_read_inline_data I (ino_of_grpc ino)))"

definition grpc_of_block_hashes :: "(block_index \<rightharpoonup> tifs_hash) \<Rightarrow> u64 \<rightharpoonup> g_hash" where
  "grpc_of_block_hashes data = (\<lambda>k. map_option G_Hash (data (BlockIndex k)))"

definition srv_inode_read_block_hashes_data_range ::
  "'w hash_fs_interface \<Rightarrow> g_storage_ino option \<Rightarrow> u64 \<Rightarrow> u64 \<Rightarrow> ('w, u64 \<rightharpoonup> g_hash) served_opt" where
  "srv_inode_read_block_hashes_data_range I ino start read_size = required ''ino parameter'' ino (\<lambda>ino.
     respond_opt Map.empty grpc_of_block_hashes (if_inode_read_block_hashes_data_range I (ino_of_grpc ino) start read_size))"

definition srv_inode_read_block_hashes_block_range ::
  "'w hash_fs_interface \<Rightarrow> g_storage_ino option \<Rightarrow> g_block_range list \<Rightarrow> ('w, u64 \<rightharpoonup> g_hash) served_opt" where
  "srv_inode_read_block_hashes_block_range I ino ranges = required ''ino parameter'' ino (\<lambda>ino.
     if length ranges = 0 then fail ''block_ranges parameter is required!''
     else respond_opt Map.empty grpc_of_block_hashes
       (if_inode_read_block_hashes_block_range I (ino_of_grpc ino) (map range_of_grpc ranges)))"

definition srv_hb_get_block_data_by_hashes :: "'w hash_fs_interface \<Rightarrow> g_hash list \<Rightarrow> ('w, g_hash_block_data list) served" where
  "srv_hb_get_block_data_by_hashes I hashes =
     respond [] (map (\<lambda>(k, v). \<lparr>ghbd_hash = Some (G_Hash k), ghbd_data = v\<rparr>))
       (if_hb_get_block_data_by_hashes I (remdups (map g_data hashes)))"

definition srv_file_get_hash :: "'w hash_fs_interface \<Rightarrow> g_storage_ino option \<Rightarrow> ('w, g_hash option) served_opt" where
  "srv_file_get_hash I ino = required ''ino parameter'' ino (\<lambda>ino.
     respond_opt None (\<lambda>data. Some (G_Hash data)) (if_file_get_hash I (ino_of_grpc ino)))"

definition srv_file_read_block_hashes ::
  "'w hash_fs_interface \<Rightarrow> g_storage_ino option \<Rightarrow> g_block_range option \<Rightarrow> ('w, bytes) served_opt" where
  "srv_file_read_block_hashes I ino rng = required ''ino parameter'' ino (\<lambda>ino. required ''block_range parameter'' rng (\<lambda>r.
     respond_opt [] (\<lambda>data. data) (case range_of_grpc r of (s, e) \<Rightarrow> if_file_read_block_hashes I (ino_of_grpc ino) s e)))"

text \<open>Entries without a hash are dropped.\<close>

definition srv_hb_increment_reference_count ::
  "grpc_ext \<Rightarrow> 'w hash_fs_interface \<Rightarrow> g_hash_block_increments list \<Rightarrow> ('w, g_hash_block_count list) served" where
  "srv_hb_increment_reference_count G I increments =
     (if length increments = 0 then fail ''increments parameter is required!''
      else respond [] (map (\<lambda>(h, c). \<lparr>ghbc_hash = Some (G_Hash h), ghbc_count = Some (grpc_of_big G c)\<rparr>))
        (if_hb_increment_reference_count I
          (List.map_filter (\<lambda>e. map_option (\<lambda>h. (g_data h, ghbi_inc e)) (ghbi_hash e)) increments)))"

definition srv_hb_upload_new_block :: "'w hash_fs_interface \<Rightarrow> g_hash_block_data list \<Rightarrow> ('w, unit) served" where
  "srv_hb_upload_new_block I blocks =
     (if length blocks = 0 then fail ''blocks parameter is required!''
      else respond () nothing (if_hb_upload_new_block I
        (List.map_filter (\<lambda>d. map_option (\<lambda>h. (g_data h, ghbd_data d)) (ghbd_hash d)) blocks)))"

definition srv_inode_write_hash_block_to_addresses ::
  "'w hash_fs_interface \<Rightarrow> op_env \<Rightarrow> g_storage_ino option \<Rightarrow> g_hash_block_addresses list \<Rightarrow> ('w, unit) served" where
  "srv_inode_write_hash_block_to_addresses I env ino blocks = required ''ino parameter'' ino (\<lambda>ino.
     if length blocks = 0 then fail ''blocks parameter is required!''
     else respond () nothing (if_inode_write_hash_block_to_addresses I env (ino_of_grpc ino)
       (List.map_filter (\<lambda>d. map_option (\<lambda>h. (g_data h, ghba_block_actual_length d, map block_of_grpc (ghba_block_ids d))) (ghba_hash d))
         blocks)))"

definition srv_snapshot_create ::
  "'w hash_fs_interface \<Rightarrow> op_env \<Rightarrow> name \<Rightarrow> ('w, bool \<times> g_storage_dir_item option) served_opt" where
  "srv_snapshot_create I env nm =
     respond_opt (False, None) (\<lambda>gom. (existed_before gom, Some (grpc_of_item (got_or_made_value gom)))) (if_snapshot_create I env nm)"

definition hash_fs_grpc_server :: "grpc_ext \<Rightarrow> 'w hash_fs_interface \<Rightarrow> 'w hash_fs_service" where
  "hash_fs_grpc_server G I =
     \<lparr>sv_init = srv_init I,
      sv_meta_static_read = srv_meta_static_read I,
      sv_directory_read_children = srv_directory_read_children I,
      sv_directory_add_child_checked_existing_inode = srv_directory_add_child_checked_existing_inode I,
      sv_directory_add_child_checked_new_inode = srv_directory_add_child_checked_new_inode I,
      sv_directory_remove_child_file = srv_directory_remove_child_file I,
      sv_directory_remove_child_directory = srv_directory_remove_child_directory I,
      sv_directory_rename_child = srv_directory_rename_child I,
      sv_directory_child_get_all_attributes = srv_directory_child_get_all_attributes G I,
      sv_directory_add_new_symlink = srv_directory_add_new_symlink I,
      sv_inode_get_all_attributes = srv_inode_get_all_attributes G I,
      sv_inode_set_all_attributes = srv_inode_set_all_attributes G I,
      sv_inode_open = srv_inode_open G I,
      sv_inode_close = srv_inode_close G I,
      sv_inode_allocate_size = srv_inode_allocate_size I,
      sv_inode_read_inline_data = srv_inode_read_inline_data I,
      sv_inode_read_block_hashes_data_range = srv_inode_read_block_hashes_data_range I,
      sv_inode_read_block_hashes_block_range = srv_inode_read_block_hashes_block_range I,
      sv_hb_get_block_data_by_hashes = srv_hb_get_block_data_by_hashes I,
      sv_file_get_hash = srv_file_get_hash I,
      sv_file_read_block_hashes = srv_file_read_block_hashes I,
      sv_hb_increment_reference_count = srv_hb_increment_reference_count G I,
      sv_hb_upload_new_block = srv_hb_upload_new_block I,
      sv_inode_write_hash_block_to_addresses = srv_inode_write_hash_block_to_addresses I,
      sv_snapshot_create = srv_snapshot_create I\<rparr>"

end
