(* ===== verification/Grpc_Client.thy ===== *)
theory Grpc_Client
  imports Grpc_Fs
begin

text \<open>
  The client of the remote hash file system (\<open>hash_fs/client.rs\<close>) with its pool of connections
  (\<open>utils/object_pool.rs\<close>), and what it implements when its connections reach the server of
  \<open>hash_fs/server.rs\<close>: the interface that the server serves, with the differences that
  \<open>remote_interface\<close> names.

  Connecting and the service behind a connection belong to the library (\<open>tonic\<close>) and are
  parameters: attempt number \<open>i\<close> to connect has a result, and \<open>hc_extra\<close> is what has passed by
  then, in milliseconds, beyond the second of sleep after each earlier attempt. The state is that
  of the file system together with the pool; one call runs at a time.
\<close>

section \<open>The pool of connections\<close>

record 'k pool =
  pool_free :: "'k list"
  pool_counter :: u64

definition pool_new :: "'k pool" where
  "pool_new = \<lparr>pool_free = [], pool_counter = 0\<rparr>"

definition add_new_busy_to_pool :: "'k \<Rightarrow> 'k pool \<Rightarrow> 'k \<times> 'k pool" where
  "add_new_busy_to_pool k p = (k, p\<lparr>pool_counter := pool_counter p + 1\<rparr>)"

definition get_one_free :: "'k pool \<Rightarrow> ('k \<times> 'k pool) option" where
  "get_one_free p = (case pool_free p of [] \<Rightarrow> None | k # ks \<Rightarrow> Some (k, p\<lparr>pool_free := ks\<rparr>))"

text \<open>An element that is dropped goes to the end of the queue.\<close>

definition pool_drop :: "'k \<Rightarrow> 'k pool \<Rightarrow> 'k pool" where
  "pool_drop k p = p\<lparr>pool_free := pool_free p @ [k]\<rparr>"

section \<open>Connecting\<close>

record ('w, 'k) hash_fs_client =
  hc_service :: "'k \<Rightarrow> 'w hash_fs_service"
  hc_connect :: "nat \<Rightarrow> string + 'k"
  hc_extra :: "nat \<Rightarrow> nat"
  hc_ext :: grpc_ext

definition CONNECT_TIMEOUT_MS :: nat where
  "CONNECT_TIMEOUT_MS = 10 * 60 * 1000"

function connect_with_retries :: "('w, 'k) hash_fs_client \<Rightarrow> nat \<Rightarrow> string + 'k" where
  "connect_with_retries C i = (case hc_connect C i of
     Inr k \<Rightarrow> Inr k
   | Inl e \<Rightarrow> if CONNECT_TIMEOUT_MS < i * 1000 + hc_extra C i then Inl e else connect_with_retries C (i + 1))"
  by pat_completeness auto
termination
  by (relation "measure (\<lambda>(C, i). 601 - i)") (auto simp: CONNECT_TIMEOUT_MS_def)

declare connect_with_retries.simps [simp del]

type_synonym ('w, 'k, 'a) client_comp = "('w \<times> 'k pool, hash_fs_error, 'a) comp"

definition lock_grpc :: "('w, 'k) hash_fs_client \<Rightarrow> 'k pool \<Rightarrow> string + 'k \<times> 'k pool" where
  "lock_grpc C p = (case get_one_free p of
     Some next \<Rightarrow> Inr next
   | None \<Rightarrow> bind_result (connect_with_retries C 0) (\<lambda>new_one. Inr (add_new_busy_to_pool new_one p)))"

text \<open>A call on a locked connection, which is dropped at the end of the statement or by \<open>?\<close>.\<close>

definition with_client ::
  "('w, 'k) hash_fs_client \<Rightarrow> ('w hash_fs_service \<Rightarrow> ('w, status, 'v) comp) \<Rightarrow> ('w, 'k, 'v) client_comp" where
  "with_client C f = (\<lambda>(w, p). case lock_grpc C p of
     Inl e \<Rightarrow> (Inl (H_RawTonicTransportError e), (w, p))
   | Inr (k, p') \<Rightarrow> (case f (hc_service C k) w of
       (Inl st, w') \<Rightarrow> (Inl (H_RawGrpcStatus (Some st)), (w', pool_drop k p'))
     | (Inr v, w') \<Rightarrow> (Inr v, (w', pool_drop k p'))))"

definition handle_error :: "g_error option \<Rightarrow> hash_fs_error + unit" where
  "handle_error err_opt = (case err_opt of Some err \<Rightarrow> Inl (error_of_grpc err) | None \<Rightarrow> Inr ())"

definition present :: "'a option \<Rightarrow> hash_fs_error + 'a" where
  "present v = (case v of Some x \<Rightarrow> Inr x | None \<Rightarrow> Inl H_GrpcMessageIncomplete)"

definition parse_all_attrs :: "grpc_ext \<Rightarrow> g_all_attributes option \<Rightarrow> hash_fs_error + all_attributes" where
  "parse_all_attrs G all_opt = bind_result (present all_opt) (\<lambda>all. bind_result (present (gall_desc all)) (\<lambda>desc.
     bind_result (present (gall_attrs all)) (\<lambda>attr. bind_result (present (gall_size all)) (\<lambda>sz.
     bind_result (present (gall_atime all)) (\<lambda>atime.
       Inr (desc_of_grpc G desc, attr_of_grpc G attr, size_of_grpc G sz, atime_of_grpc G atime))))))"

text \<open>A call, the check of the error of the response, and the result from the other fields.\<close>

definition call ::
  "('w, 'k) hash_fs_client \<Rightarrow> ('w hash_fs_service \<Rightarrow> ('w, 'v) served) \<Rightarrow> ('v \<Rightarrow> hash_fs_error + 'a) \<Rightarrow> ('w, 'k, 'a) client_comp" where
  "call C f parse = and_then (with_client C f) (\<lambda>rs.
     of_result (bind_result (handle_error (rs_error rs)) (\<lambda>_. parse (rs_value rs))))"

definition call_opt ::
  "('w, 'k) hash_fs_client \<Rightarrow> ('w hash_fs_service \<Rightarrow> ('w, 'v) served_opt) \<Rightarrow> ('v \<Rightarrow> hash_fs_error + 'a) \<Rightarrow> ('w, 'k, 'a option) client_comp" where
  "call_opt C f parse = and_then (with_client C f) (\<lambda>r. case r of None \<Rightarrow> ret None | Some rs \<Rightarrow>
     of_result (bind_result (handle_error (rs_error rs)) (\<lambda>_. bind_result (parse (rs_value rs)) (\<lambda>x. Inr (Some x)))))"

section \<open>The operations\<close>

definition cl_init :: "('w, 'k) hash_fs_client \<Rightarrow> op_env \<Rightarrow> u32 \<Rightarrow> u32 \<Rightarrow> ('w, 'k, storage_dir_item) client_comp" where
  "cl_init C env gid uid = call C (\<lambda>s. sv_init s env gid uid) (\<lambda>v. bind_result (present v) (\<lambda>item. Inr (item_of_grpc item)))"

definition cl_meta_static_read :: "('w, 'k) hash_fs_client \<Rightarrow> ('w, 'k, meta_static) client_comp" where
  "cl_meta_static_read C = call C sv_meta_static_read (\<lambda>v. bind_result (present v) (\<lambda>v. Inr (meta_of_grpc v)))"

text \<open>The error of the response is not looked at.\<close>

definition cl_directory_read_children :: "('w, 'k) hash_fs_client \<Rightarrow> storage_ino \<Rightarrow> ('w, 'k, directory_item list) client_comp" where
  "cl_directory_read_children C dir_ino =
     and_then (with_client C (\<lambda>s. sv_directory_read_children s (Some (grpc_of_ino dir_ino)))) (\<lambda>rs.
       ret (List.map_filter (\<lambda>item. map_option (\<lambda>ino. \<lparr>dirit_ino = ino_of_grpc ino, dirit_name = gdi_name item,
         dirit_typ = kind_of_grpc (gdi_typ item)\<rparr>) (gdi_ino item)) (rs_value rs)))"

definition cl_directory_add_child_checked_existing_inode ::
  "('w, 'k) hash_fs_client \<Rightarrow> parent_storage_ino \<Rightarrow> name \<Rightarrow> storage_ino \<Rightarrow> ('w, 'k, unit) client_comp" where
  "cl_directory_add_child_checked_existing_inode C parent nm ino =
     call C (\<lambda>s. sv_directory_add_child_checked_existing_inode s (Some (grpc_of_parent parent)) nm (Some (grpc_of_ino ino))) Inr"

definition got_or_made_of_grpc :: "bool \<times> g_storage_dir_item option \<Rightarrow> hash_fs_error + storage_dir_item got_or_made" where
  "got_or_made_of_grpc v = (case v of (existed, item) \<Rightarrow> bind_result (present item) (\<lambda>item.
     Inr (if existed then ExistedAlready (item_of_grpc item) else NewlyCreated (item_of_grpc item))))"

definition cl_directory_add_child_checked_new_inode ::
  "('w, 'k) hash_fs_client \<Rightarrow> op_env \<Rightarrow> parent_storage_ino \<Rightarrow> name \<Rightarrow> storage_dir_item_kind \<Rightarrow> storage_file_permission \<Rightarrow> u32 \<Rightarrow> u32
     \<Rightarrow> u32 \<Rightarrow> bytes option \<Rightarrow> ('w, 'k, storage_dir_item got_or_made) client_comp" where
  "cl_directory_add_child_checked_new_inode C env parent nm typ perm gid uid rdev inline_data =
     call C (\<lambda>s. sv_directory_add_child_checked_new_inode s env (Some (grpc_of_parent parent)) nm (grpc_of_kind typ)
       (Some (G_Permission (ucast (perm_raw perm)))) gid uid rdev (case inline_data of Some data \<Rightarrow> data | None \<Rightarrow> []))
       got_or_made_of_grpc"

definition cl_directory_remove_child_file ::
  "('w, 'k) hash_fs_client \<Rightarrow> op_env \<Rightarrow> parent_storage_ino \<Rightarrow> name \<Rightarrow> ('w, 'k, unit) client_comp" where
  "cl_directory_remove_child_file C env parent nm =
     call C (\<lambda>s. sv_directory_remove_child_file s env (Some (grpc_of_parent parent)) nm) Inr"

definition cl_directory_remove_child_directory ::
  "('w, 'k) hash_fs_client \<Rightarrow> parent_storage_ino \<Rightarrow> name \<Rightarrow> ('w, 'k, unit) client_comp" where
  "cl_directory_remove_child_directory C parent nm =
     call C (\<lambda>s. sv_directory_remove_child_directory s (Some (grpc_of_parent parent)) nm) Inr"

definition cl_directory_rename_child ::
  "('w, 'k) hash_fs_client \<Rightarrow> parent_storage_ino \<Rightarrow> name \<Rightarrow> parent_storage_ino \<Rightarrow> name \<Rightarrow> ('w, 'k, unit) client_comp" where
  "cl_directory_rename_child C parent child_name new_parent new_child_name =
     call C (\<lambda>s. sv_directory_rename_child s (Some (grpc_of_parent parent)) child_name (Some (grpc_of_parent new_parent)) new_child_name) Inr"

definition cl_directory_child_get_all_attributes ::
  "('w, 'k) hash_fs_client \<Rightarrow> parent_storage_ino \<Rightarrow> name \<Rightarrow> ('w, 'k, all_attributes) client_comp" where
  "cl_directory_child_get_all_attributes C parent nm =
     call C (\<lambda>s. sv_directory_child_get_all_attributes s (Some (grpc_of_parent parent)) nm) (parse_all_attrs (hc_ext C))"

definition cl_directory_add_new_symlink ::
  "('w, 'k) hash_fs_client \<Rightarrow> op_env \<Rightarrow> u32 \<Rightarrow> u32 \<Rightarrow> parent_storage_ino \<Rightarrow> name \<Rightarrow> bytes \<Rightarrow> ('w, 'k, storage_dir_item) client_comp" where
  "cl_directory_add_new_symlink C env gid uid parent nm link =
     call C (\<lambda>s. sv_directory_add_new_symlink s env (Some (grpc_of_parent parent)) nm link gid uid)
       (\<lambda>v. bind_result (present v) (\<lambda>item. Inr (item_of_grpc item)))"

definition cl_inode_get_all_attributes :: "('w, 'k) hash_fs_client \<Rightarrow> storage_ino \<Rightarrow> ('w, 'k, all_attributes) client_comp" where
  "cl_inode_get_all_attributes C ino =
     call C (\<lambda>s. sv_inode_get_all_attributes s (Some (grpc_of_ino ino))) (parse_all_attrs (hc_ext C))"

definition cl_inode_set_all_attributes ::
  "('w, 'k) hash_fs_client \<Rightarrow> op_env \<Rightarrow> storage_ino \<Rightarrow> storage_file_permission option \<Rightarrow> u32 option \<Rightarrow> u32 option \<Rightarrow> u64 option
     \<Rightarrow> time_or_now option \<Rightarrow> time_or_now option \<Rightarrow> system_time option \<Rightarrow> system_time option \<Rightarrow> system_time option
     \<Rightarrow> system_time option \<Rightarrow> u32 option \<Rightarrow> ('w, 'k, unit) client_comp" where
  "cl_inode_set_all_attributes C env ino mode uid gid sz atime mtime ctime crtime chgtime bkuptime flags =
     (let G = hc_ext C; time = map_option (ge_time_enc G) in
      call C (\<lambda>s. sv_inode_set_all_attributes s env (Some (grpc_of_ino ino)) (map_option grpc_of_perm mode) uid gid sz
        (map_option (grpc_of_time_or_now G) atime) (map_option (grpc_of_time_or_now G) mtime)
        (time ctime) (time crtime) (time chgtime) (time bkuptime) flags) Inr)"

definition cl_inode_open :: "('w, 'k) hash_fs_client \<Rightarrow> op_env \<Rightarrow> storage_ino \<Rightarrow> ('w, 'k, uuid) client_comp" where
  "cl_inode_open C env ino = call C (\<lambda>s. sv_inode_open s env (Some (grpc_of_ino ino)))
     (\<lambda>v. bind_result (present v) (\<lambda>use_id. Inr (uuid_of_grpc (hc_ext C) use_id)))"

definition cl_inode_close :: "('w, 'k) hash_fs_client \<Rightarrow> storage_ino \<Rightarrow> uuid \<Rightarrow> ('w, 'k, unit) client_comp" where
  "cl_inode_close C ino use_id =
     call C (\<lambda>s. sv_inode_close s (Some (grpc_of_ino ino)) (Some (grpc_of_uuid (hc_ext C) use_id))) Inr"

definition cl_inode_allocate_size ::
  "('w, 'k) hash_fs_client \<Rightarrow> op_env \<Rightarrow> storage_ino \<Rightarrow> 64 word \<Rightarrow> 64 word \<Rightarrow> ('w, 'k, unit) client_comp" where
  "cl_inode_allocate_size C env ino offset len =
     call C (\<lambda>s. sv_inode_allocate_size s env (Some (grpc_of_ino ino)) offset len) Inr"

definition cl_inode_read_inline_data :: "('w, 'k) hash_fs_client \<Rightarrow> storage_ino \<Rightarrow> ('w, 'k, bytes) client_comp" where
  "cl_inode_read_inline_data C ino = call C (\<lambda>s. sv_inode_read_inline_data s (Some (grpc_of_ino ino))) Inr"

definition block_hashes_of_grpc :: "(u64 \<rightharpoonup> g_hash) \<Rightarrow> block_index \<rightharpoonup> tifs_hash" where
  "block_hashes_of_grpc m = (\<lambda>b. map_option g_data (m (block_raw b)))"

definition cl_inode_read_block_hashes_data_range ::
  "('w, 'k) hash_fs_client \<Rightarrow> storage_ino \<Rightarrow> u64 \<Rightarrow> u64 \<Rightarrow> ('w, 'k, (block_index \<rightharpoonup> tifs_hash) option) client_comp" where
  "cl_inode_read_block_hashes_data_range C ino start read_size =
     call_opt C (\<lambda>s. sv_inode_read_block_hashes_data_range s (Some (grpc_of_ino ino)) start read_size)
       (\<lambda>v. Inr (block_hashes_of_grpc v))"

definition cl_inode_read_block_hashes_block_range ::
  "('w, 'k) hash_fs_client \<Rightarrow> storage_ino \<Rightarrow> (block_index \<times> block_index) list
     \<Rightarrow> ('w, 'k, (block_index \<rightharpoonup> tifs_hash) option) client_comp" where
  "cl_inode_read_block_hashes_block_range C ino block_ranges =
     call_opt C (\<lambda>s. sv_inode_read_block_hashes_block_range s (Some (grpc_of_ino ino)) (map grpc_of_range block_ranges))
       (\<lambda>v. Inr (block_hashes_of_grpc v))"

definition cl_hb_get_block_data_by_hashes ::
  "('w, 'k) hash_fs_client \<Rightarrow> tifs_hash list \<Rightarrow> ('w, 'k, (tifs_hash \<times> bytes) list) client_comp" where
  "cl_hb_get_block_data_by_hashes C hashes =
     call C (\<lambda>s. sv_hb_get_block_data_by_hashes s (map G_Hash hashes))
       (\<lambda>v. Inr (map_collect (List.map_filter (\<lambda>d. map_option (\<lambda>h. (g_data h, ghbd_data d)) (ghbd_hash d)) v)))"

definition cl_file_get_hash :: "('w, 'k) hash_fs_client \<Rightarrow> storage_ino \<Rightarrow> ('w, 'k, bytes option) client_comp" where
  "cl_file_get_hash C ino = call_opt C (\<lambda>s. sv_file_get_hash s (Some (grpc_of_ino ino)))
     (\<lambda>v. bind_result (present v) (\<lambda>h. Inr (g_data h)))"

definition cl_file_read_block_hashes ::
  "('w, 'k) hash_fs_client \<Rightarrow> storage_ino \<Rightarrow> block_index \<Rightarrow> block_index \<Rightarrow> ('w, 'k, bytes option) client_comp" where
  "cl_file_read_block_hashes C ino s e =
     call_opt C (\<lambda>sv. sv_file_read_block_hashes sv (Some (grpc_of_ino ino)) (Some (grpc_of_range (s, e)))) Inr"

definition cl_hb_increment_reference_count ::
  "('w, 'k) hash_fs_client \<Rightarrow> (tifs_hash \<times> u64) list \<Rightarrow> ('w, 'k, (tifs_hash \<times> nat) list) client_comp" where
  "cl_hb_increment_reference_count C blocks = (if length blocks = 0 then ret [] else
     call C (\<lambda>s. sv_hb_increment_reference_count s (map (\<lambda>(h, c). \<lparr>ghbi_hash = Some (G_Hash h), ghbi_inc = c\<rparr>) blocks))
       (\<lambda>v. Inr (map_collect (List.map_filter (\<lambda>e. Option.bind (ghbc_hash e) (\<lambda>h.
         map_option (\<lambda>c. (g_data h, big_of_grpc (hc_ext C) c)) (ghbc_count e))) v))))"

definition cl_hb_upload_new_block :: "('w, 'k) hash_fs_client \<Rightarrow> (tifs_hash \<times> bytes) list \<Rightarrow> ('w, 'k, unit) client_comp" where
  "cl_hb_upload_new_block C blocks = (if length blocks = 0 then ret () else
     call C (\<lambda>s. sv_hb_upload_new_block s (map (\<lambda>(h, d). \<lparr>ghbd_hash = Some (G_Hash h), ghbd_data = d\<rparr>) blocks)) Inr)"

definition cl_inode_write_hash_block_to_addresses ::
  "('w, 'k) hash_fs_client \<Rightarrow> op_env \<Rightarrow> storage_ino \<Rightarrow> (tifs_hash \<times> u64 \<times> block_index list) list \<Rightarrow> ('w, 'k, unit) client_comp" where
  "cl_inode_write_hash_block_to_addresses C env ino blocks = (if length blocks = 0 then ret () else
     call C (\<lambda>s. sv_inode_write_hash_block_to_addresses s env (Some (grpc_of_ino ino))
       (map (\<lambda>(h, l, ids). \<lparr>ghba_hash = Some (G_Hash h), ghba_block_actual_length = l, ghba_block_ids = map grpc_of_block ids\<rparr>) blocks)) Inr)"

definition cl_snapshot_create ::
  "('w, 'k) hash_fs_client \<Rightarrow> op_env \<Rightarrow> name \<Rightarrow> ('w, 'k, storage_dir_item got_or_made option) client_comp" where
  "cl_snapshot_create C env nm = call_opt C (\<lambda>s. sv_snapshot_create s env nm) got_or_made_of_grpc"

definition hash_fs_client_interface :: "('w, 'k) hash_fs_client \<Rightarrow> ('w \<times> 'k pool) hash_fs_interface" where
  "hash_fs_client_interface C =
     \<lparr>if_init = cl_init C,
      if_meta_static_read = cl_meta_static_read C,
      if_directory_read_children = cl_directory_read_children C,
      if_directory_add_child_checked_new_inode = cl_directory_add_child_checked_new_inode C,
      if_directory_add_child_checked_existing_inode = cl_directory_add_child_checked_existing_inode C,
      if_directory_remove_child_file = cl_directory_remove_child_file C,
      if_directory_remove_child_directory = cl_directory_remove_child_directory C,
      if_directory_rename_child = cl_directory_rename_child C,
      if_directory_child_get_all_attributes = cl_directory_child_get_all_attributes C,
      if_directory_add_new_symlink = cl_directory_add_new_symlink C,
      if_inode_get_all_attributes = cl_inode_get_all_attributes C,
      if_inode_set_all_attributes = cl_inode_set_all_attributes C,
      if_inode_open = cl_inode_open C,
      if_inode_close = cl_inode_close C,
      if_inode_allocate_size = cl_inode_allocate_size C,
      if_inode_read_inline_data = cl_inode_read_inline_data C,
      if_inode_read_block_hashes_data_range = cl_inode_read_block_hashes_data_range C,
      if_inode_read_block_hashes_block_range = cl_inode_read_block_hashes_block_range C,
      if_hb_get_block_data_by_hashes = cl_hb_get_block_data_by_hashes C,
      if_file_get_hash = cl_file_get_hash C,
      if_file_read_block_hashes = cl_file_read_block_hashes C,
      if_hb_increment_reference_count = cl_hb_increment_reference_count C,
      if_hb_upload_new_block = cl_hb_upload_new_block C,
      if_inode_write_hash_block_to_addresses = cl_inode_write_hash_block_to_addresses C,
      if_snapshot_create = cl_snapshot_create C\<rparr>"

end
