(* ===== verification/Grpc_Facts.thy ===== *)
theory Grpc_Facts
  imports Grpc_Client Write_Facts
begin

text \<open>
  The client of the remote hash file system against the server: calling an operation of the
  client is calling the operation of the implementation behind the server, through a connection
  of the pool.
\<close>

section \<open>What a remote call is\<close>

text \<open>
  The operation runs on the state of the file system, its errors as they arrive through the
  messages; the connection it used goes to the end of the pool. Without a connection nothing runs.
\<close>

definition remote :: "('w, 'k) hash_fs_client \<Rightarrow> ('w, hash_fs_error, 'a) comp \<Rightarrow> ('w, 'k, 'a) client_comp" where
  "remote C m = (\<lambda>(w, p). case lock_grpc C p of
     Inl e \<Rightarrow> (Inl (H_RawTonicTransportError e), (w, p))
   | Inr (k, p') \<Rightarrow> (case map_err error_through_grpc m w of (r, w') \<Rightarrow> (r, (w', pool_drop k p'))))"

text \<open>
  The interface that a client offers for the interface \<open>I\<close> behind the server. It differs from
  \<open>I\<close> in this: listing a directory never reports an error of \<open>I\<close> but an empty directory; a new
  inode with empty inline data gets none; empty lists of increments, blocks and addresses are not
  sent; an empty list of block ranges is refused with a status.
\<close>

definition no_error :: "'a \<Rightarrow> ('w, 'e, 'a) comp \<Rightarrow> ('w, 'f, 'a) comp" where
  "no_error x m = (\<lambda>w. case m w of (Inl _, w') \<Rightarrow> (Inr x, w') | (Inr y, w') \<Rightarrow> (Inr y, w'))"

definition refused :: "('w, 'k) hash_fs_client \<Rightarrow> status \<Rightarrow> ('w, 'k, 'a) client_comp" where
  "refused C st = (\<lambda>(w, p). case lock_grpc C p of
     Inl e \<Rightarrow> (Inl (H_RawTonicTransportError e), (w, p))
   | Inr (k, p') \<Rightarrow> (Inl (H_RawGrpcStatus (Some st)), (w, pool_drop k p')))"

definition remote_interface :: "('w, 'k) hash_fs_client \<Rightarrow> 'w hash_fs_interface \<Rightarrow> ('w \<times> 'k pool) hash_fs_interface" where
  "remote_interface C I =
     \<lparr>if_init = (\<lambda>env gid uid. remote C (if_init I env gid uid)),
      if_meta_static_read = remote C (if_meta_static_read I),
      if_directory_read_children = (\<lambda>dir. remote C (no_error [] (if_directory_read_children I dir))),
      if_directory_add_child_checked_new_inode = (\<lambda>env p nm typ perm gid uid rdev inl.
        remote C (if_directory_add_child_checked_new_inode I env p nm typ perm gid uid rdev (if inl = Some [] then None else inl))),
      if_directory_add_child_checked_existing_inode = (\<lambda>p nm ino. remote C (if_directory_add_child_checked_existing_inode I p nm ino)),
      if_directory_remove_child_file = (\<lambda>env p nm. remote C (if_directory_remove_child_file I env p nm)),
      if_directory_remove_child_directory = (\<lambda>p nm. remote C (if_directory_remove_child_directory I p nm)),
      if_directory_rename_child = (\<lambda>p nm np nn. remote C (if_directory_rename_child I p nm np nn)),
      if_directory_child_get_all_attributes = (\<lambda>p nm. remote C (if_directory_child_get_all_attributes I p nm)),
      if_directory_add_new_symlink = (\<lambda>env gid uid p nm l. remote C (if_directory_add_new_symlink I env gid uid p nm l)),
      if_inode_get_all_attributes = (\<lambda>ino. remote C (if_inode_get_all_attributes I ino)),
      if_inode_set_all_attributes = (\<lambda>env ino mode uid gid sz at mt ct crt cht bkt flags.
        remote C (if_inode_set_all_attributes I env ino mode uid gid sz at mt ct crt cht bkt flags)),
      if_inode_open = (\<lambda>env ino. remote C (if_inode_open I env ino)),
      if_inode_close = (\<lambda>ino u. remote C (if_inode_close I ino u)),
      if_inode_allocate_size = (\<lambda>env ino off len. remote C (if_inode_allocate_size I env ino off len)),
      if_inode_read_inline_data = (\<lambda>ino. remote C (if_inode_read_inline_data I ino)),
      if_inode_read_block_hashes_data_range = (\<lambda>ino s n. remote C (if_inode_read_block_hashes_data_range I ino s n)),
      if_inode_read_block_hashes_block_range = (\<lambda>ino rs. if rs = [] then refused C ''block_ranges parameter is required!''
        else remote C (if_inode_read_block_hashes_block_range I ino rs)),
      if_hb_get_block_data_by_hashes = (\<lambda>hs.
        remote C (and_then (if_hb_get_block_data_by_hashes I (remdups hs)) (\<lambda>r. ret (map_collect r)))),
      if_file_get_hash = (\<lambda>ino. remote C (if_file_get_hash I ino)),
      if_file_read_block_hashes = (\<lambda>ino s e. remote C (if_file_read_block_hashes I ino s e)),
      if_hb_increment_reference_count = (\<lambda>bs. if bs = [] then ret [] else
        remote C (and_then (if_hb_increment_reference_count I bs) (\<lambda>r. ret (map_collect r)))),
      if_hb_upload_new_block = (\<lambda>bs. if bs = [] then ret () else remote C (if_hb_upload_new_block I bs)),
      if_inode_write_hash_block_to_addresses = (\<lambda>env ino bs. if bs = [] then ret ()
        else remote C (if_inode_write_hash_block_to_addresses I env ino bs)),
      if_snapshot_create = (\<lambda>env nm. remote C (if_snapshot_create I env nm))\<rparr>"

section \<open>One call\<close>

lemma with_client_apply:
  "with_client C f (w, p) = (case lock_grpc C p of
     Inl e \<Rightarrow> (Inl (H_RawTonicTransportError e), (w, p))
   | Inr (k, p') \<Rightarrow> (case f (hc_service C k) w of
       (Inl st, w') \<Rightarrow> (Inl (H_RawGrpcStatus (Some st)), (w', pool_drop k p'))
     | (Inr v, w') \<Rightarrow> (Inr v, (w', pool_drop k p'))))"
  by (simp add: with_client_def)

text \<open>A call whose handler responds with the outcome of \<open>m\<close>, encoded, is the remote call of \<open>m\<close>, decoded.\<close>

lemma call_respond:
  assumes handler: "\<And>k. f (hc_service C k) = respond dflt encode m"
    and decode: "\<And>x. parse (encode x) = Inr (g x)"
  shows "call C f parse = remote C (and_then m (\<lambda>x. ret (g x)))"
proof (rule ext)
  fix s
  show "call C f parse s = remote C (and_then m (\<lambda>x. ret (g x))) s"
    unfolding call_def remote_def
    by (cases s) (auto simp: and_then_apply with_client_apply handler respond_def map_err_apply handle_error_def decode
        split: sum.split prod.split)
qed

lemma remote_ret [simp]: "and_then m (\<lambda>x. ret x) = m"
  by (rule ext) (auto simp: and_then_apply split: sum.split prod.split)

lemma call_respond_same:
  assumes "\<And>k. f (hc_service C k) = respond dflt encode m" "\<And>x. parse (encode x) = Inr x"
  shows "call C f parse = remote C m"
  using call_respond [of f C dflt encode m parse "\<lambda>x. x"] assms by simp

lemma call_respond_opt:
  assumes handler: "\<And>k. f (hc_service C k) = respond_opt dflt encode m"
    and decode: "\<And>x. parse (encode x) = Inr x"
  shows "call_opt C f parse = remote C m"
proof (rule ext)
  fix s
  show "call_opt C f parse s = remote C m s"
    unfolding call_opt_def remote_def
    by (cases s) (auto simp: and_then_apply with_client_apply handler respond_opt_def map_err_apply handle_error_def decode
        split: sum.split prod.split option.split)
qed

lemma call_opt_refused:
  assumes "\<And>k. f (hc_service C k) = fail st"
  shows "call_opt C f parse = refused C st"
proof (rule ext)
  fix s
  show "call_opt C f parse s = refused C st s"
    by (cases s) (auto simp: call_opt_def refused_def and_then_apply with_client_apply assms split: sum.split prod.split)
qed

lemma present_Some [simp]: "present (Some x) = Inr x"
  by (simp add: present_def)

lemma map_filter_Some [simp]: "List.map_filter (\<lambda>x. Some (f x)) xs = map f xs"
  by (induction xs) (simp_all add: List.map_filter_def)

lemma map_filter_map [simp]: "List.map_filter f (map g xs) = List.map_filter (\<lambda>x. f (g x)) xs"
  by (induction xs) (simp_all add: List.map_filter_def)

lemma parse_all_attrs_inverse [simp]: "grpc_ext_ok G \<Longrightarrow> parse_all_attrs G (Some (grpc_of_all G all)) = Inr all"
  by (cases all) (simp add: parse_all_attrs_def grpc_of_all_def grpc_inverse)

lemma got_or_made_inverse [simp]:
  "got_or_made_of_grpc (existed_before v, Some (grpc_of_item (got_or_made_value v))) = Inr v"
  by (cases v) (simp_all add: got_or_made_of_grpc_def existed_before_def)

lemma block_hashes_inverse [simp]: "block_hashes_of_grpc (grpc_of_block_hashes m) = m"
  by (rule ext) (simp add: block_hashes_of_grpc_def grpc_of_block_hashes_def option.map_comp comp_def option.map_ident)

lemma directory_item_eta [simp]: "\<lparr>dirit_ino = dirit_ino x, dirit_name = dirit_name x, dirit_typ = dirit_typ x\<rparr> = x"
  by (cases x) simp

lemma required_Some [simp]: "required what (Some x) k = k x"
  by (simp add: required_def)

section \<open>The interface of the client\<close>

lemmas client_ops = cl_init_def cl_meta_static_read_def cl_directory_add_child_checked_existing_inode_def
  cl_directory_add_child_checked_new_inode_def cl_directory_remove_child_file_def cl_directory_remove_child_directory_def
  cl_directory_rename_child_def cl_directory_child_get_all_attributes_def cl_directory_add_new_symlink_def
  cl_inode_get_all_attributes_def cl_inode_set_all_attributes_def cl_inode_open_def cl_inode_close_def
  cl_inode_allocate_size_def cl_inode_read_inline_data_def cl_hb_upload_new_block_def cl_inode_write_hash_block_to_addresses_def
  cl_inode_read_block_hashes_data_range_def cl_inode_read_block_hashes_block_range_def cl_file_get_hash_def
  cl_file_read_block_hashes_def cl_snapshot_create_def cl_hb_get_block_data_by_hashes_def cl_hb_increment_reference_count_def

lemmas server_ops = hash_fs_grpc_server_def srv_init_def srv_meta_static_read_def srv_directory_add_child_checked_existing_inode_def
  srv_directory_add_child_checked_new_inode_def srv_directory_remove_child_file_def srv_directory_remove_child_directory_def
  srv_directory_rename_child_def srv_directory_child_get_all_attributes_def srv_directory_add_new_symlink_def
  srv_inode_get_all_attributes_def srv_inode_set_all_attributes_def srv_inode_open_def srv_inode_close_def
  srv_inode_allocate_size_def srv_inode_read_inline_data_def srv_hb_upload_new_block_def srv_inode_write_hash_block_to_addresses_def
  srv_inode_read_block_hashes_data_range_def srv_inode_read_block_hashes_block_range_def srv_file_get_hash_def
  srv_file_read_block_hashes_def srv_snapshot_create_def srv_hb_get_block_data_by_hashes_def srv_hb_increment_reference_count_def

text \<open>The clients whose connections all reach a server of \<open>I\<close>.\<close>

definition connected_to :: "('w, 'k) hash_fs_client \<Rightarrow> 'w hash_fs_interface \<Rightarrow> bool" where
  "connected_to C I \<longleftrightarrow> grpc_ext_ok (hc_ext C) \<and> (\<forall>k. hc_service C k = hash_fs_grpc_server (hc_ext C) I)"

lemma connected_toD:
  assumes "connected_to C I"
  shows "grpc_ext_ok (hc_ext C)" "hc_service C k = hash_fs_grpc_server (hc_ext C) I"
  using assms by (simp_all add: connected_to_def)

text \<open>What a client relies on: its connections reach a server, and messages can be decoded.\<close>

locale connected_client =
  fixes C :: "('w, 'k) hash_fs_client" and I :: "'w hash_fs_interface"
  assumes connected: "connected_to C I"
begin

text \<open>Operations without a result.\<close>

lemma remote_unit_ops:
  "cl_directory_add_child_checked_existing_inode C pa nm ino = remote C (if_directory_add_child_checked_existing_inode I pa nm ino)"
    "cl_directory_remove_child_file C env pa nm = remote C (if_directory_remove_child_file I env pa nm)"
    "cl_directory_remove_child_directory C pa nm = remote C (if_directory_remove_child_directory I pa nm)"
    "cl_directory_rename_child C pa nm np nn = remote C (if_directory_rename_child I pa nm np nn)"
    "cl_inode_close C ino u = remote C (if_inode_close I ino u)"
    "cl_inode_allocate_size C env ino off len = remote C (if_inode_allocate_size I env ino off len)"
  unfolding client_ops
  by (rule call_respond_same [where dflt = "()" and encode = nothing],
      simp add: connected_toD [OF connected] server_ops grpc_inverse [OF connected_toD(1) [OF connected]], simp)+

lemma remote_set_attributes:
  "cl_inode_set_all_attributes C env ino mode uid gid sz at mt ct crt cht bkt flags
    = remote C (if_inode_set_all_attributes I env ino mode uid gid sz at mt ct crt cht bkt flags)"
  unfolding cl_inode_set_all_attributes_def Let_def
  by (rule call_respond_same [where dflt = "()" and encode = nothing])
    (simp_all add: connected_toD [OF connected] server_ops grpc_inverse [OF connected_toD(1) [OF connected]] option.map_comp comp_def option.map_ident)

text \<open>Operations with an item, attributes or an identifier as their result.\<close>

lemma remote_item_ops:
  "cl_init C env gid uid = remote C (if_init I env gid uid)"
    "cl_meta_static_read C = remote C (if_meta_static_read I)"
    "cl_directory_add_new_symlink C env gid uid pa nm l = remote C (if_directory_add_new_symlink I env gid uid pa nm l)"
    "cl_directory_child_get_all_attributes C pa nm = remote C (if_directory_child_get_all_attributes I pa nm)"
    "cl_inode_get_all_attributes C ino = remote C (if_inode_get_all_attributes I ino)"
    "cl_inode_open C env ino = remote C (if_inode_open I env ino)"
    "cl_inode_read_inline_data C ino = remote C (if_inode_read_inline_data I ino)"
  unfolding client_ops
  by (rule call_respond_same, simp add: connected_toD [OF connected] server_ops,
      simp add: grpc_inverse connected_toD(1) [OF connected])+

lemma remote_new_inode:
  "cl_directory_add_child_checked_new_inode C env pa nm typ perm gid uid rdev inl
    = remote C (if_directory_add_child_checked_new_inode I env pa nm typ perm gid uid rdev (if inl = Some [] then None else inl))"
  unfolding cl_directory_add_child_checked_new_inode_def
  by (rule call_respond_same) (auto simp: connected_toD [OF connected] server_ops grpc_of_perm_def [symmetric] split: option.split)


text \<open>Operations whose loops may not end.\<close>

lemma remote_opt_ops:
  "cl_inode_read_block_hashes_data_range C ino s n = remote C (if_inode_read_block_hashes_data_range I ino s n)"
    "cl_file_get_hash C ino = remote C (if_file_get_hash I ino)"
    "cl_file_read_block_hashes C ino s' e = remote C (if_file_read_block_hashes I ino s' e)"
    "cl_snapshot_create C env nm = remote C (if_snapshot_create I env nm)"
  unfolding client_ops
  by (rule call_respond_opt, simp add: connected_toD [OF connected] server_ops, simp)+

lemma remote_block_range:
  "cl_inode_read_block_hashes_block_range C ino rs = (if rs = [] then refused C ''block_ranges parameter is required!''
    else remote C (if_inode_read_block_hashes_block_range I ino rs))"
proof (cases "rs = []")
  case True
  then show ?thesis unfolding client_ops
    by (simp, intro call_opt_refused) (simp add: connected_toD [OF connected] server_ops fail_def)
next
  case False
  then show ?thesis unfolding client_ops
    by (simp, intro call_respond_opt, simp add: connected_toD [OF connected] server_ops comp_def, simp)
qed

text \<open>Operations on lists of blocks.\<close>

lemma remote_list_ops:
  "cl_hb_get_block_data_by_hashes C hs
      = remote C (and_then (if_hb_get_block_data_by_hashes I (remdups hs)) (\<lambda>r. ret (map_collect r)))"
    "cl_hb_increment_reference_count C incs = (if incs = [] then ret [] else
       remote C (and_then (if_hb_increment_reference_count I incs) (\<lambda>r. ret (map_collect r))))"
    "cl_hb_upload_new_block C bs = (if bs = [] then ret () else remote C (if_hb_upload_new_block I bs))"
    "cl_inode_write_hash_block_to_addresses C env ino as = (if as = [] then ret () else
       remote C (if_inode_write_hash_block_to_addresses I env ino as))"
proof -
  note here = connected_toD [OF connected] server_ops case_prod_beta grpc_inverse comp_def
  show "cl_hb_get_block_data_by_hashes C hs
      = remote C (and_then (if_hb_get_block_data_by_hashes I (remdups hs)) (\<lambda>r. ret (map_collect r)))"
    unfolding client_ops by (rule call_respond, simp add: here, simp add: here)
  show "cl_hb_increment_reference_count C incs = (if incs = [] then ret [] else
       remote C (and_then (if_hb_increment_reference_count I incs) (\<lambda>r. ret (map_collect r))))"
    unfolding client_ops by (simp, intro impI call_respond, simp add: here, simp add: here)
  show "cl_hb_upload_new_block C bs = (if bs = [] then ret () else remote C (if_hb_upload_new_block I bs))"
    unfolding client_ops by (simp, intro impI call_respond_same, simp add: here, simp)
  show "cl_inode_write_hash_block_to_addresses C env ino as = (if as = [] then ret () else
       remote C (if_inode_write_hash_block_to_addresses I env ino as))"
    unfolding client_ops by (simp, intro impI call_respond_same, simp add: here, simp)
qed

lemma remote_read_children:
  "cl_directory_read_children C dir = remote C (no_error [] (if_directory_read_children I dir))"
proof (rule ext)
  fix s
  show "cl_directory_read_children C dir s = remote C (no_error [] (if_directory_read_children I dir)) s"
    unfolding cl_directory_read_children_def remote_def
    by (cases s) (auto simp: and_then_apply with_client_apply connected_toD [OF connected] hash_fs_grpc_server_def srv_directory_read_children_def
        respond_def map_err_apply no_error_def comp_def List.map_filter_def split: sum.split prod.split)
qed

lemmas remote_ops = remote_unit_ops remote_set_attributes remote_item_ops remote_new_inode remote_opt_ops remote_block_range
  remote_list_ops remote_read_children

lemma client_interface: "hash_fs_client_interface C = remote_interface C I"
  by (simp add: hash_fs_client_interface_def remote_interface_def fun_eq_iff remote_ops)

end


section \<open>The client implements the served interface\<close>

text \<open>
  C12. A client whose connections reach a server of \<open>I\<close> implements the interface of \<open>I\<close>: each of its
  operations has the result and the effect of the operation of \<open>I\<close> on the same arguments, errors
  arriving with their kind, or reports that it could not connect and has no effect. The
  differences that are part of the specification \<open>remote_interface\<close> are those named there.
\<close>

theorem client_implements_served_interface:
  assumes "connected_to C I"
  shows "hash_fs_client_interface C = remote_interface C I"
proof -
  have "connected_client C I" using assms by unfold_locales
  then show ?thesis by (rule connected_client.client_interface)
qed

text \<open>A client of a server on the file system of the sample store; the third attempt to connect succeeds.\<close>

definition sample_server_fs :: "mem_store hash_fs_interface" where
  "sample_server_fs = tikv_hash_fs_interface (hfs sample_txn) (fail (UnknownError ''''))"

definition sample_client :: "(mem_store, nat) hash_fs_client" where
  "sample_client = \<lparr>hc_service = (\<lambda>_. hash_fs_grpc_server sample_grpc_ext sample_server_fs),
     hc_connect = (\<lambda>i. if i < 2 then Inl ''refused'' else Inr i), hc_extra = (\<lambda>_. 20), hc_ext = sample_grpc_ext\<rparr>"

lemma sample_client_fields:
  "hc_service sample_client k = hash_fs_grpc_server sample_grpc_ext sample_server_fs" "hc_ext sample_client = sample_grpc_ext"
  "hc_connect sample_client i = (if i < 2 then Inl ''refused'' else Inr i)" "hc_extra sample_client i = 20"
  by (simp_all add: sample_client_def)

interpretation remote_sample: connected_client sample_client sample_server_fs
  by unfold_locales (simp add: connected_to_def sample_client_fields sample_grpc_ext_ok)

lemma sample_client_connects: "connect_with_retries sample_client 0 = Inr 2"
  by (simp add: connect_with_retries.simps [of sample_client] sample_client_fields CONNECT_TIMEOUT_MS_def)

theorem client_implements_served_interface_witness:
  "connected_to sample_client sample_server_fs
   \<and> hash_fs_client_interface sample_client = remote_interface sample_client sample_server_fs
   \<and> lock_grpc sample_client pool_new = Inr (2, \<lparr>pool_free = [], pool_counter = 1\<rparr>)"
proof -
  have "lock_grpc sample_client pool_new = Inr (2, \<lparr>pool_free = [], pool_counter = 1\<rparr>)"
    by (simp add: lock_grpc_def get_one_free_def pool_new_def sample_client_connects add_new_busy_to_pool_def)
  then show ?thesis using client_implements_served_interface [OF remote_sample.connected] remote_sample.connected by blast
qed

text \<open>Listing a directory whose reading fails on the server gives an empty listing.\<close>

lemma failed_listing_is_empty:
  assumes "connected_to C I" "if_directory_read_children I dir w = (Inl e, w')" "lock_grpc C p = Inr (k, p')"
  shows "cl_directory_read_children C dir (w, p) = (Inr [], (w', pool_drop k p'))"
proof -
  have "connected_client C I" using assms(1) by unfold_locales
  from connected_client.remote_read_children [OF this] show ?thesis
    using assms(2,3) by (simp add: remote_def map_err_apply no_error_def)
qed

section \<open>Connecting ends\<close>

lemma connect_from:
  "\<exists>n\<ge>i. n \<le> max i 601 \<and> connect_with_retries C i = hc_connect C n
     \<and> (\<forall>j. i \<le> j \<longrightarrow> j < n \<longrightarrow> isl (hc_connect C j) \<and> j * 1000 + hc_extra C j \<le> CONNECT_TIMEOUT_MS)
     \<and> (\<not> isl (hc_connect C n) \<or> CONNECT_TIMEOUT_MS < n * 1000 + hc_extra C n)"
proof (induction C i rule: connect_with_retries.induct)
  case (1 C i)
  show ?case
  proof (cases "isl (hc_connect C i) \<and> i * 1000 + hc_extra C i \<le> CONNECT_TIMEOUT_MS")
    case True
    then obtain e where e: "hc_connect C i = Inl e" by (cases "hc_connect C i") auto
    have small: "max (i + 1) 601 = max i 601" using True by (simp add: CONNECT_TIMEOUT_MS_def max_def)
    have step: "connect_with_retries C i = connect_with_retries C (i + 1)"
      using True e by (simp add: connect_with_retries.simps [of C i])
    obtain n where n: "i + 1 \<le> n" "n \<le> max (i + 1) 601" "connect_with_retries C (i + 1) = hc_connect C n"
        "\<forall>j. i + 1 \<le> j \<longrightarrow> j < n \<longrightarrow> isl (hc_connect C j) \<and> j * 1000 + hc_extra C j \<le> CONNECT_TIMEOUT_MS"
        "\<not> isl (hc_connect C n) \<or> CONNECT_TIMEOUT_MS < n * 1000 + hc_extra C n"
      using "1.IH" [OF e] True by force
    have "isl (hc_connect C j) \<and> j * 1000 + hc_extra C j \<le> CONNECT_TIMEOUT_MS" if "i \<le> j" "j < n" for j
      using n(4) True that by (cases "j = i") auto
    then show ?thesis using n small step by (intro exI [of _ n]) simp
  next
    case False
    then have "connect_with_retries C i = hc_connect C i"
      by (cases "hc_connect C i") (auto simp: connect_with_retries.simps [of C i])
    then show ?thesis using False by (intro exI [of _ i]) auto
  qed
qed

text \<open>
  C31. Connecting ends: there is a first attempt, at most the 602nd, that succeeds or fails after
  ten minutes have passed; no attempt before it succeeded and none was late; and its outcome is the
  outcome of connecting.
\<close>

theorem connecting_ends:
  "\<exists>n\<le>601. connect_with_retries C 0 = hc_connect C n
     \<and> (\<forall>j<n. isl (hc_connect C j) \<and> j * 1000 + hc_extra C j \<le> CONNECT_TIMEOUT_MS)
     \<and> (\<not> isl (hc_connect C n) \<or> CONNECT_TIMEOUT_MS < n * 1000 + hc_extra C n)"
  using connect_from [of 0 C] by auto

theorem connecting_ends_witness:
  "(\<exists>n\<le>601. connect_with_retries sample_client 0 = hc_connect sample_client n
     \<and> (\<forall>j<n. isl (hc_connect sample_client j) \<and> j * 1000 + hc_extra sample_client j \<le> CONNECT_TIMEOUT_MS)
     \<and> (\<not> isl (hc_connect sample_client n) \<or> CONNECT_TIMEOUT_MS < n * 1000 + hc_extra sample_client n))
   \<and> connect_with_retries sample_client 0 = Inr 2"
  using connecting_ends [of sample_client] sample_client_connects by blast

end
