(* ===== verification/Remote_Txn.thy ===== *)
theory Remote_Txn
  imports Grpc_Facts Write_Path
begin

text \<open>
  The file operations on the remote hash file system. The client keeps the contract that the file
  operations rely on, with the content of the store behind the server as its content: a call that
  reaches the server has the effect of the operation there, one that does not has none. So what
  was shown for files on TiKV holds for files on a client of it.
\<close>

section \<open>Remote calls\<close>

text \<open>The state of a client is that of the server with the pool of connections.\<close>

definition behind :: "('w \<Rightarrow> 'a) \<Rightarrow> 'w \<times> 'k pool \<Rightarrow> 'a" where
  "behind f = (\<lambda>(w, p). f w)"

lemma behind_simp [simp]: "behind f (w, p) = f w"
  by (simp add: behind_def)

lemma remote_triple:
  assumes m: "triple ok db m Q E d" and E: "E d"
  shows "triple (behind ok) (behind db) (remote C m) Q E d"
proof (rule tripleI)
  fix s r s' assume s: "behind ok s" "behind db s = d" and run: "remote C m s = (r, s')"
  obtain w p where wp: "s = (w, p)" by (cases s)
  show "behind ok s' \<and> (case r of Inr x \<Rightarrow> Q x (behind db s') | Inl e \<Rightarrow> E (behind db s'))"
  proof (cases "lock_grpc C p")
    case (Inl e)
    then show ?thesis using s run E by (auto simp: wp remote_def)
  next
    case (Inr kp)
    obtain r1 w1 where m1: "m w = (r1, w1)" by (cases "m w")
    with Inr run have "behind ok s' = ok w1" "behind db s' = db w1" "case r of Inr x \<Rightarrow> r1 = Inr x | Inl e \<Rightarrow> \<exists>e'. r1 = Inl e'"
      by (auto simp: wp remote_def map_err_apply split: prod.splits sum.splits)
    with tripleD [of ok db m Q E w r1 w1] m m1 s show ?thesis by (auto simp: wp split: sum.splits)
  qed
qed

lemma refused_triple: "E d \<Longrightarrow> triple (behind ok) (behind db) (refused C st) Q E d"
  by (rule tripleI) (auto simp: refused_def split: prod.splits sum.splits)

lemma triple_then_ret: "triple sok sdb m (\<lambda>x. Q (f x)) E d \<Longrightarrow> triple sok sdb (and_then m (\<lambda>x. ret (f x))) Q E d"
  by (force simp: triple_def and_then_apply split: prod.splits sum.splits)

lemma triple_if:
  "\<lbrakk>b \<Longrightarrow> triple sok sdb m Q E d; \<not> b \<Longrightarrow> triple sok sdb n Q E d\<rbrakk> \<Longrightarrow> triple sok sdb (if b then m else n) Q E d"
  by simp

lemma map_of_collect_distinct: "distinct (map fst m) \<Longrightarrow> map_of (map_collect m) = map_of m"
  by (metis map_of_map_collect distinct_rev map_of_inject_set rev_map set_rev)

section \<open>The contract\<close>

context fs_store
begin

lemma remote_block_ranges:
  assumes "triple ok db (inode_read_block_hashes_block_range (hfs X) ino rs) Q (\<lambda>d'. d' = d) d"
  shows "triple (behind ok) (behind db) (if rs = [] then refused C st
    else remote C (inode_read_block_hashes_block_range (hfs X) ino rs)) Q (\<lambda>d'. d' = d) d"
  by (simp add: refused_triple remote_triple [OF assms])

lemma remote_get_blocks:
  assumes "\<forall>h \<in> set hs. hash_ok X h"
  shows "triple (behind ok) (behind db) (remote C (and_then (hb_get_block_data_by_hashes (hfs X) (remdups hs))
    (\<lambda>r. ret (map_collect r)))) (blocks_read d hs) (\<lambda>d'. d' = d) d"
proof (rule remote_triple, rule triple_then_ret, rule triple_weaken, rule get_blocks_triple)
  fix m d' assume "blocks_read d (remdups hs) m d'"
  then show "blocks_read d hs (map_collect m) d'" by (simp add: map_of_collect_distinct)
qed (use assms in simp_all)

lemma remote_increment:
  assumes "\<forall>(h, c) \<in> set incs. hash_ok X h"
  shows "triple (behind ok) (behind db) (if incs = [] then ret [] else
    remote C (and_then (hb_increment_reference_count (hfs X) incs) (\<lambda>r. ret (map_collect r)))) (counters_read d incs) (\<lambda>d'. d' = d) d"
proof (cases "incs = []")
  case True
  have "counters_read d [] [] d" by (simp add: incremented_def set_counters_def counter_or_zero_def)
  then have "triple (behind ok) (behind db) (ret []) (counters_read d []) E d" for E by (intro triple_ret)
  with True show ?thesis by simp
next
  case False
  have "triple (behind ok) (behind db) (remote C (and_then (hb_increment_reference_count (hfs X) incs) (\<lambda>r. ret (map_collect r))))
      (counters_read d incs) (\<lambda>d'. d' = d) d"
  proof (rule remote_triple, rule triple_then_ret, rule triple_weaken, rule increment_triple [OF assms])
    fix prev d' assume "counters_read d incs prev d'"
    then show "counters_read d incs (map_collect prev) d'" by (simp add: map_of_collect_distinct)
  qed simp_all
  with False show ?thesis by simp
qed

lemma remote_upload:
  "triple (behind ok) (behind db) (if ups = [] then ret () else remote C (hb_upload_new_block (hfs X) ups))
    (\<lambda>_ d'. d' = with_blocks X ups d) (\<lambda>d'. d' = d) d"
  using remote_triple [OF upload_triple [of ups d] refl, of C] by (simp add: triple_ret)

lemma remote_write_addresses:
  assumes "addressable d (addresses_to_modify ino blocks)"
  shows "triple (behind ok) (behind db) (if blocks = [] then ret ()
      else remote C (inode_write_hash_block_to_addresses_update_ino_size_and_cleaning_previous_block_hashes (hfs X) now cid ino blocks))
    (addressed d ino blocks) (interrupted d (addresses_to_modify ino blocks)) d"
proof (rule triple_if)
  have inv: "block_inv X d" using assms by blast
  then have none: "addressed d ino [] () d" by (simp add: addresses_to_modify_def redirected_def blocks_kept_def replaced_def)
  show "triple (behind ok) (behind db) (ret ()) (addressed d ino blocks) (interrupted d (addresses_to_modify ino blocks)) d"
    if "blocks = []" unfolding that by (rule triple_ret, rule none)
  have "redirected X [] d d" by (simp add: redirected_def)
  with inv have "interrupted d (addresses_to_modify ino blocks) d" by blast
  then show "triple (behind ok) (behind db)
      (remote C (inode_write_hash_block_to_addresses_update_ino_size_and_cleaning_previous_block_hashes (hfs X) now cid ino blocks))
      (addressed d ino blocks) (interrupted d (addresses_to_modify ino blocks)) d"
    by (rule remote_triple [OF write_addresses_triple [OF assms]])
qed

lemmas remote_triples = remote_block_ranges [OF tikv_triples(1)] remote_block_ranges [OF tikv_triples(2)]
  remote_triple [OF tikv_triples(3) refl] remote_get_blocks remote_increment remote_upload remote_write_addresses

end

locale remote_store = file_txn T ok db view X Y holds known + connected_client C "tikv_hash_fs_interface (hfs X) snap"
  for T :: "'w tikv" and ok :: "'w \<Rightarrow> bool" and db :: "'w \<Rightarrow> kv" and view :: "'w \<Rightarrow> kv" and X :: "'w txn_with_config"
    and Y :: "('w \<times> 'k pool, 'c) txn" and holds :: "'c \<Rightarrow> (tifs_hash \<times> bytes) set" and known :: "bytes set"
    and C :: "('w, 'k) hash_fs_client" and snap :: "('w, fs_error, 'w tikv) comp" +
  assumes client: "txn_hash_fs Y = hash_fs_client_interface C"

sublocale remote_store \<subseteq> file_contract T ok db view X Y holds known "behind ok" "behind db"
  by (intro file_contract.intro file_contract_axioms.intro file_txn_axioms,
    unfold client client_interface remote_interface_def hash_fs_interface.simps tikv_hash_fs_interface_def)
    (rule remote_triples | assumption)+

context remote_store
begin

lemma remote_contract: "file_contract T ok db view X Y holds (behind ok) (behind db)"
  by (rule file_contract_axioms)

end

text \<open>A file on the sample client, whose third attempt to connect succeeds.\<close>

definition sample_remote_tifs :: "(mem_store \<times> nat pool, (tifs_hash \<times> bytes) list) tifs" where
  "sample_remote_tifs = \<lparr>tf_hash_fs = hash_fs_client_interface sample_client, tf_fs_config = sample_config,
     tf_direct_io = False, tf_block_cache = list_cache 3, tf_order = insertion_order,
     tf_digests = ext_digests (tx_ext sample_txn), tf_fh_order = \<lambda>xs. xs, tf_range_difference = \<lambda>r rs. [r],
     tf_range_union = \<lambda>rs r. r # rs\<rparr>"

interpretation memremote: remote_store mem_tikv mem_ok mem_content "\<lambda>s. map_of (mem_view s)" sample_txn
  "tifs_txn sample_remote_tifs" set known sample_client "fail (UnknownError '''')"
  for known
proof -
  have eq: "txn_block_cache (tifs_txn sample_remote_tifs) = list_cache 3"
    by (simp add: sample_remote_tifs_def tifs_txn_def begin_on_hash_fs_interface_def)
  have cache: "block_cache_laws (txn_block_cache (tifs_txn sample_remote_tifs)) set"
    unfolding eq by (rule list_cache.block_cache_laws_axioms)
  show "remote_store mem_tikv mem_ok mem_content (\<lambda>s. map_of (mem_view s)) sample_txn (tifs_txn sample_remote_tifs) set
      sample_client (fail (UnknownError ''''))"
    by (intro remote_store.intro file_txn.intro file_txn_axioms.intro remote_store_axioms.intro memfs.fs_store_axioms cache
        remote_sample.connected_client_axioms [unfolded sample_server_fs_def])
      (simp_all add: sample_remote_tifs_def tifs_txn_def begin_on_hash_fs_interface_def insertion_order_ok sample_txn_def)
qed

section \<open>Properties\<close>





end
