(* ===== verification/Mount_Program.thy ===== *)
theory Mount_Program
  imports Tikv_Fs
begin

text \<open>
  Starting the file system: the program \<open>mount.tifs\<close> (\<open>bin/tifs.rs\<close>), the functions of \<open>lib.rs\<close> that mount,
  and the construction of the instance with its client configuration (\<open>client.rs\<close>, \<open>tikv_fs.rs\<close>). The
  parser of arguments, the configuration type of the TiKV client, the file system of the machine and
  mounting itself belong to others and are parameters. The program starts itself a second time in the
  background; shown is that the second process gets the configuration of the first.
\<close>

section \<open>The client configuration\<close>

text \<open>\<open>anyhow::Error\<close> holds any error.\<close>

datatype anyhow_error = AE_Message string | AE_Io string | AE_Fs fs_error | AE_Client string

record tls_config =
  tls_ca_path :: string
  tls_cert_path :: string
  tls_key_path :: string

text \<open>The type \<open>Config\<close> of the client crate, and what the program asks the machine for.\<close>

record 'g config_ops =
  cg_default :: 'g
  cg_with_security :: "'g \<Rightarrow> string \<Rightarrow> string \<Rightarrow> string \<Rightarrow> 'g"
  cg_with_default_keyspace :: "'g \<Rightarrow> 'g"
  cg_set_timeout :: "nat \<Rightarrow> 'g \<Rightarrow> 'g"

record machine =
  ma_exists :: "string \<Rightarrow> bool"
  ma_read_to_string :: "string \<Rightarrow> string + string"
  ma_toml :: "string \<Rightarrow> string + tls_config"

definition DEFAULT_TLS_CONFIG_PATH :: string where
  "DEFAULT_TLS_CONFIG_PATH = ''~/.tifs/tls.toml''"

text \<open>Parsing a text as a path cannot fail and changes nothing: the tilde stays.\<close>

definition default_tls_config_path :: "anyhow_error + string" where
  "default_tls_config_path = Inr DEFAULT_TLS_CONFIG_PATH"

definition exist_all :: "machine \<Rightarrow> tls_config \<Rightarrow> bool" where
  "exist_all A t \<longleftrightarrow> ma_exists A (tls_ca_path t) \<and> ma_exists A (tls_cert_path t) \<and> ma_exists A (tls_key_path t)"

definition config_of_tls :: "machine \<Rightarrow> 'g config_ops \<Rightarrow> tls_config \<Rightarrow> 'g" where
  "config_of_tls A G t =
     (let cfg = cg_default G in
      if \<not> exist_all A t then cfg
      else cg_with_security G cfg (tls_ca_path t) (tls_cert_path t) (tls_key_path t))"

definition tls_option :: "mount_option \<Rightarrow> string option" where
  "tls_option opt = (case opt of MO_Tls path \<Rightarrow> Some path | _ \<Rightarrow> None)"

definition get_client_config :: "machine \<Rightarrow> 'g config_ops \<Rightarrow> mount_option list \<Rightarrow> anyhow_error + 'g" where
  "get_client_config A G options =
     bind_result (case List.map_filter tls_option options of path # _ \<Rightarrow> Inr path | [] \<Rightarrow> default_tls_config_path)
       (\<lambda>tls_cfg_path. bind_result
          (if ma_exists A tls_cfg_path then
             (case ma_read_to_string A tls_cfg_path of Inl e \<Rightarrow> Inl (AE_Io e) | Inr contents \<Rightarrow>
               (case ma_toml A contents of Inl e \<Rightarrow> Inl (AE_Message e) | Inr t \<Rightarrow> Inr (config_of_tls A G t)))
           else Inr (cg_default G))
          (\<lambda>client_cfg. Inr (cg_set_timeout G 1 (cg_with_default_keyspace G client_cfg))))"

section \<open>The instance\<close>

definition new_arc :: "ext \<Rightarrow> tifs_config \<Rightarrow> 'w tikv \<Rightarrow> 'w tikv_based_hash_fs" where
  "new_arc ex fs_config txn_client_mux = \<lparr>hf_txn_client_mux = txn_client_mux, hf_fs_config = fs_config, hf_ext = ex\<rparr>"

text \<open>What constructing an instance takes from outside: the parameters of the model in one place.\<close>

record ('w, 'c, 'g) surroundings =
  su_machine :: machine
  su_config :: "'g config_ops"
  su_connect :: "string list \<Rightarrow> 'g \<Rightarrow> string + 'w tikv"
  su_parse_size :: size_parser
  su_ext :: ext
  su_snapshot :: "('w, fs_error, 'w tikv) comp"
  su_block_cache :: "'c block_cache"
  su_order :: map_order
  su_fh_order :: "u64 list \<Rightarrow> u64 list"
  su_difference :: "u64 \<times> u64 \<Rightarrow> (u64 \<times> u64) list \<Rightarrow> (u64 \<times> u64) list"
  su_union :: "(u64 \<times> u64) list \<Rightarrow> u64 \<times> u64 \<Rightarrow> (u64 \<times> u64) list"

definition anyhow_of_fs :: "'a tifs_result \<Rightarrow> anyhow_error + 'a" where
  "anyhow_of_fs r = (case r of Inl e \<Rightarrow> Inl (AE_Fs e) | Inr x \<Rightarrow> Inr x)"

definition connect_mux :: "('w, 'c, 'g) surroundings \<Rightarrow> string list \<Rightarrow> 'g \<Rightarrow> anyhow_error + 'w tikv" where
  "connect_mux U pd_endpoints cfg = (case su_connect U pd_endpoints cfg of Inl e \<Rightarrow> Inl (AE_Client e) | Inr client \<Rightarrow> Inr client)"

definition construct_hash_fs_server ::
  "('w, 'c, 'g) surroundings \<Rightarrow> string list \<Rightarrow> mount_option list \<Rightarrow> anyhow_error + 'w tikv_based_hash_fs" where
  "construct_hash_fs_server U pd_endpoints options =
     bind_result (get_client_config (su_machine U) (su_config U) options) (\<lambda>cfg.
     bind_result (connect_mux U pd_endpoints cfg) (\<lambda>client.
     bind_result (anyhow_of_fs (from_options (su_parse_size U) options)) (\<lambda>fs_config.
       Inr (new_arc (su_ext U) fs_config client))))"

text \<open>\<open>None\<close> is the panic of \<open>TiFsMutable::new\<close>.\<close>

definition construct_direct_tikv ::
  "('w, 'c, 'g) surroundings \<Rightarrow> string list \<Rightarrow> mount_option list \<Rightarrow> anyhow_error + (('w, 'c) tifs \<times> tifs_mutable) option" where
  "construct_direct_tikv U pd_endpoints options =
     bind_result (get_client_config (su_machine U) (su_config U) options) (\<lambda>cfg.
     bind_result (connect_mux U pd_endpoints cfg) (\<lambda>client.
     bind_result (anyhow_of_fs (from_options (su_parse_size U) options)) (\<lambda>fs_config.
       Inr (map_option (Pair \<lparr>tf_hash_fs = tikv_hash_fs_interface (new_arc (su_ext U) fs_config client) (su_snapshot U),
          tf_fs_config = fs_config, tf_direct_io = cfg_direct_io fs_config, tf_block_cache = su_block_cache U,
          tf_order = su_order U, tf_digests = ext_digests (su_ext U), tf_fh_order = su_fh_order U,
          tf_range_difference = su_difference U, tf_range_union = su_union U\<rparr>) (tifs_mutable_new fs_config)))))"

text \<open>
  Mounted directly, the instance is what \<open>construct_hash_fs_client\<close> makes of the hash file system that
  a server would offer for the same options.
\<close>

lemma direct_is_client_of_server:
  "construct_direct_tikv U pd_endpoints options =
     bind_result (construct_hash_fs_server U pd_endpoints options) (\<lambda>H.
       anyhow_of_fs (construct_hash_fs_client (su_parse_size U) options (tikv_hash_fs_interface H (su_snapshot U)) (su_block_cache U)
         (su_order U) (ext_digests (su_ext U)) (su_fh_order U) (su_difference U) (su_union U)))"
  by (auto simp: construct_direct_tikv_def construct_hash_fs_server_def construct_hash_fs_client_def bind_result_def anyhow_of_fs_def
      split: sum.splits)

section \<open>Mounting\<close>

definition fuse_options :: "string \<Rightarrow> mount_option list \<Rightarrow> fuse_mount_option list" where
  "fuse_options uuid options = [FMO_FSName (''tifs:'' @ uuid), FMO_AllowOther, FMO_DefaultPermissions, FMO_AutoUnmount]
     @ collect_builtin options"

text \<open>\<open>mount2\<close> is the function of fuser that serves the requests of the kernel until the file system is unmounted.\<close>

definition fuse_mount_daemonize ::
  "('f \<Rightarrow> string \<Rightarrow> fuse_mount_option list \<Rightarrow> ('s, anyhow_error, unit) comp) \<Rightarrow> string
     \<Rightarrow> string \<Rightarrow> mount_option list \<Rightarrow> ('s, anyhow_error, unit) comp \<Rightarrow> 'f \<Rightarrow> ('s, anyhow_error, unit) comp" where
  "fuse_mount_daemonize mount2 uuid mount_point options make_daemon fs_impl =
     and_then make_daemon (\<lambda>_. mount2 fs_impl mount_point (fuse_options uuid options))"

definition mount_tifs_daemonize ::
  "('w, 'c, 'g) surroundings \<Rightarrow> (('w, 'c) tifs \<times> tifs_mutable \<Rightarrow> string \<Rightarrow> fuse_mount_option list \<Rightarrow> ('s, anyhow_error, unit) comp)
     \<Rightarrow> string \<Rightarrow> string \<Rightarrow> string list \<Rightarrow> mount_option list \<Rightarrow> ('s, anyhow_error, unit) comp \<Rightarrow> ('s, anyhow_error, unit option) comp" where
  "mount_tifs_daemonize U mount2 uuid mount_point pd_endpoints options make_daemon =
     then_some (of_result (construct_direct_tikv U pd_endpoints options)) (\<lambda>fs_impl.
       and_then (fuse_mount_daemonize mount2 uuid mount_point options make_daemon fs_impl) (\<lambda>_. ret (Some ())))"

definition mount_tifs ::
  "('w, 'c, 'g) surroundings \<Rightarrow> (('w, 'c) tifs \<times> tifs_mutable \<Rightarrow> string \<Rightarrow> fuse_mount_option list \<Rightarrow> ('s, anyhow_error, unit) comp)
     \<Rightarrow> string \<Rightarrow> string \<Rightarrow> string list \<Rightarrow> mount_option list \<Rightarrow> ('s, anyhow_error, unit option) comp" where
  "mount_tifs U mount2 uuid mount_point endpoints options = mount_tifs_daemonize U mount2 uuid mount_point endpoints options (ret ())"

text \<open>Nothing is mounted and the process stays in the foreground if the options are not valid.\<close>

lemma invalid_options_do_not_mount:
  assumes "from_options (su_parse_size U) options = Inl e"
  shows "\<exists>e'. mount_tifs_daemonize U mount2 uuid mount_point pd_endpoints options make_daemon s = (Inl e', s)"
proof -
  have "\<exists>e'. construct_direct_tikv U pd_endpoints options = Inl e'"
    using assms by (simp add: construct_direct_tikv_def bind_result_def anyhow_of_fs_def split: sum.split)
  then show ?thesis by (auto simp: mount_tifs_daemonize_def then_some_def and_then_def of_result_def)
qed

section \<open>The command line\<close>

text \<open>What the argument parser found.\<close>

record arg_matches =
  am_device :: string
  am_mount_point :: "string option"
  am_tracer :: "string option"
  am_jaeger_collector :: "string option"
  am_jaeger_agent :: "string option"
  am_options :: "string list"
  am_foreground :: bool
  am_serve :: bool
  am_logfile :: "string option"

text \<open>
  Paths of the machine: \<open>canonicalize\<close> with \<open>to_string_lossy\<close>, with \<open>to_str\<close>, and the path of the program.
  Installing a tracer is a function of its name and the two Jaeger endpoints.
\<close>

record paths =
  pa_lossy :: "string \<Rightarrow> string + string"
  pa_utf8 :: "string \<Rightarrow> string option"
  pa_current_exe :: "string + string"

type_synonym tracers = "string \<Rightarrow> string option \<Rightarrow> string option \<Rightarrow> string + unit"

definition tracer_name :: "arg_matches \<Rightarrow> string" where
  "tracer_name m = (case am_tracer m of Some t \<Rightarrow> t | None \<Rightarrow>
     if am_jaeger_agent m \<noteq> None \<or> am_jaeger_collector m \<noteq> None then ''jaeger'' else ''logger'')"

definition install_tracer :: "tracers \<Rightarrow> arg_matches \<Rightarrow> anyhow_error + unit" where
  "install_tracer install m =
     (let t = tracer_name m in
      if t = ''logger'' then
        (case install t None None of Inl e \<Rightarrow> Inl (AE_Message e) | Inr _ \<Rightarrow> Inr ())
      else if t = ''jaeger'' then
        (case install t (am_jaeger_agent m) (am_jaeger_collector m) of Inl e \<Rightarrow> Inl (AE_Message e) | Inr _ \<Rightarrow> Inr ())
      else if t = ''tokio-console-subscriber'' then Inr ()
      else Inl (AE_Message (''unsupported tracer: '' @ t)))"

definition strip_prefix :: "string \<Rightarrow> string \<Rightarrow> string option" where
  "strip_prefix p s = (if prefix p s then Some (drop (length p) s) else None)"

definition device_endpoints :: "string \<Rightarrow> string list" where
  "device_endpoints device = split_on (CHR '','') (case strip_prefix ''tifs:'' device of Some d \<Rightarrow> d | None \<Rightarrow> device)"

definition logfile_of :: "paths \<Rightarrow> arg_matches \<Rightarrow> string option" where
  "logfile_of P m = Option.bind (am_logfile m) (pa_utf8 P)"

text \<open>The arguments of the second process.\<close>

definition server_args :: "string list \<Rightarrow> string \<Rightarrow> mount_option list \<Rightarrow> string option \<Rightarrow> string list" where
  "server_args endpoints mountpoint options logfile =
     [''--serve'', ''tifs:'' @ join_options endpoints, mountpoint]
     @ (if options = [] then [] else [''-o'', join_options (map string_of_mount_option options)])
     @ (case logfile of Some f \<Rightarrow> [''--log-file'', f] | None \<Rightarrow> [])"

text \<open>What \<open>main\<close> decides on: starting the second process, or mounting.\<close>

datatype main_action =
    Launch string "string list"
  | Mount string "string list" "mount_option list" bool "string option"

definition main_tifs :: "tracers \<Rightarrow> paths \<Rightarrow> arg_matches \<Rightarrow> anyhow_error + main_action" where
  "main_tifs install P m =
     bind_result (install_tracer install m) (\<lambda>_.
       let serve = am_serve m;
           foreground = serve \<or> am_foreground m;
           logfile = logfile_of P m;
           endpoints = device_endpoints (am_device m) in
       bind_result (case am_mount_point m of None \<Rightarrow> Inl (AE_Message ''mount-point is required'')
           | Some p \<Rightarrow> (case pa_lossy P p of Inl e \<Rightarrow> Inl (AE_Io e) | Inr q \<Rightarrow> Inr q)) (\<lambda>mountpoint.
         let options = mount_options_to_vec (am_options m) in
         if \<not> foreground then
           (case pa_current_exe P of Inl e \<Rightarrow> Inl (AE_Io e) | Inr exe \<Rightarrow>
              Inr (Launch exe (server_args endpoints mountpoint options logfile)))
         else Inr (Mount mountpoint endpoints options serve logfile)))"

section \<open>The second process\<close>

text \<open>
  What the program relies on. The argument parser: a flag, the two positional arguments and the options
  that the program passes on are found again, if none of the values looks like an option. Paths: a
  canonical path is absolute and is its own canonical path.
\<close>

definition hyphenated :: "string \<Rightarrow> bool" where
  "hyphenated s \<longleftrightarrow> prefix ''-'' s"

definition arg_parser_ok :: "(string list \<Rightarrow> arg_matches option) \<Rightarrow> bool" where
  "arg_parser_ok parse \<longleftrightarrow> (\<forall>device mp opts log. \<not> hyphenated device \<longrightarrow> \<not> hyphenated mp \<longrightarrow>
     (\<forall>s. opts = Some s \<longrightarrow> \<not> hyphenated s) \<longrightarrow> (\<forall>f. log = Some f \<longrightarrow> \<not> hyphenated f) \<longrightarrow>
     parse ([''--serve'', device, mp] @ (case opts of Some s \<Rightarrow> [''-o'', s] | None \<Rightarrow> [])
         @ (case log of Some f \<Rightarrow> [''--log-file'', f] | None \<Rightarrow> []))
       = Some \<lparr>am_device = device, am_mount_point = Some mp, am_tracer = None, am_jaeger_collector = None, am_jaeger_agent = None,
           am_options = (case opts of Some s \<Rightarrow> [s] | None \<Rightarrow> []), am_foreground = False, am_serve = True, am_logfile = log\<rparr>)"

definition paths_ok :: "paths \<Rightarrow> bool" where
  "paths_ok P \<longleftrightarrow> (\<forall>p q. pa_lossy P p = Inr q \<longrightarrow> pa_lossy P q = Inr q \<and> \<not> hyphenated q)
     \<and> (\<forall>p q. pa_utf8 P p = Some q \<longrightarrow> pa_utf8 P q = Some q \<and> \<not> hyphenated q)"

lemma split_on_parts: "p \<in> set (split_on c s) \<Longrightarrow> c \<notin> set p"
  by (induction c s arbitrary: p rule: split_on.induct) (auto split: list.splits if_splits)

lemma split_on_nonempty [simp]: "split_on c s \<noteq> []"
  by (induction c s rule: split_on.induct) (auto split: list.splits)

lemma endpoints_again: "device_endpoints (''tifs:'' @ join_options (device_endpoints device)) = device_endpoints device"
proof -
  have "split_on (CHR '','') (join_options (device_endpoints device)) = device_endpoints device"
    by (rule split_on_join) (auto simp: device_endpoints_def dest: split_on_parts)
  then show ?thesis by (simp add: device_endpoints_def strip_prefix_def)
qed

text \<open>An option prints as the text it was parsed from, valid or not.\<close>

lemma flag_names: "map_of flag_options n = Some opt \<Longrightarrow> string_of_mount_option opt = n"
  by (auto simp: flag_options_def split: if_splits)

lemma value_names: "map_of value_options n = Some mk \<Longrightarrow> string_of_mount_option (mk v) = n @ ''='' @ v"
  by (auto simp: value_options_def split: if_splits)

lemma split_first_whole:
  assumes "split_first c s = (a, b)"
  shows "s = (case b of None \<Rightarrow> a | Some v \<Rightarrow> a @ c # v)"
proof -
  let ?a = "takeWhile (\<lambda>x. x \<noteq> c) s"
  have a: "a = ?a" using assms by (simp add: split_first_def Let_def)
  have whole: "s = ?a @ dropWhile (\<lambda>x. x \<noteq> c) s" by simp
  show ?thesis
  proof (cases "dropWhile (\<lambda>x. x \<noteq> c) s")
    case Nil
    then have eq: "?a = s" using whole by (metis append_Nil2)
    have "split_first c s = (s, None)" unfolding split_first_def Let_def eq by simp
    then show ?thesis using assms by simp
  next
    case (Cons y ys)
    have y: "y = c" using hd_dropWhile [of "\<lambda>x. x \<noteq> c" s] Cons by simp
    have s: "s = ?a @ c # ys" using whole unfolding Cons y .
    then have "length ?a < length s" by (metis length_append length_Cons less_add_same_cancel1 zero_less_Suc)
    moreover have "drop (length ?a + 1) s = ys" by (subst (2) s) simp
    ultimately show ?thesis using assms s by (auto simp: split_first_def Let_def)
  qed
qed

lemma option_prints_as_parsed: "string_of_mount_option (mount_option_from v) = v"
proof -
  obtain n val where sp: "split_first (CHR ''='') v = (n, val)" by fastforce
  note v = split_first_whole [OF sp]
  show ?thesis
    unfolding mount_option_from_def mount_option_from_str_def sp prod.case Let_def
    using v flag_names [of n] value_names [of n] by (cases val) (auto split: option.splits)
qed

lemma options_again:
  assumes "options = mount_options_to_vec args" and "options \<noteq> []"
  shows "mount_options_to_vec [join_options (map string_of_mount_option options)] = options"
proof -
  have parsed: "\<exists>v. opt = mount_option_from v \<and> CHR '','' \<notin> set v" if "opt \<in> set options" for opt
    using that unfolding assms(1) mount_options_to_vec_def by (auto dest: split_on_parts)
  have same: "mount_option_from (string_of_mount_option opt) = opt" if "opt \<in> set options" for opt
    using parsed [OF that] option_prints_as_parsed by metis
  have "split_on (CHR '','') (join_options (map string_of_mount_option options)) = map string_of_mount_option options"
    using assms(2) parsed option_prints_as_parsed by (intro split_on_join) (simp, fastforce)
  then show ?thesis using same by (simp add: mount_options_to_vec_def map_idI)
qed

section \<open>Properties\<close>

text \<open>
  C40. The background process gets the configuration of the process that starts it: when \<open>main\<close> decides
  to start itself again, the arguments it passes make the new process mount at the same directory, with
  the same endpoints, the same options, valid or not, and the same log file. The options must not look
  like a flag, and the tracer must be installable; which tracer was asked for is not passed on.
\<close>

theorem server_process_has_same_configuration:
  assumes "arg_parser_ok parse" and "paths_ok P" and "main_tifs install P m = Inr (Launch exe args)"
    and "install ''logger'' None None = Inr ()"
    and "\<not> hyphenated (join_options (map string_of_mount_option (mount_options_to_vec (am_options m))))"
  shows "\<exists>m' p q. parse args = Some m' \<and> am_mount_point m = Some p \<and> pa_lossy P p = Inr q \<and> tracer_name m' = ''logger''
    \<and> main_tifs install P m' = Inr (Mount q (device_endpoints (am_device m)) (mount_options_to_vec (am_options m)) True (logfile_of P m))"
proof -
  let ?opts = "mount_options_to_vec (am_options m)" and ?ends = "device_endpoints (am_device m)"
  let ?o = "if ?opts = [] then None else Some (join_options (map string_of_mount_option ?opts))"
  obtain p q where p: "am_mount_point m = Some p" "pa_lossy P p = Inr q" and args: "args = server_args ?ends q ?opts (logfile_of P m)"
    using assms(3) by (auto simp: main_tifs_def bind_result_Inr_iff Let_def split: option.splits sum.splits if_splits)
  define m' where "m' = \<lparr>am_device = ''tifs:'' @ join_options ?ends, am_mount_point = Some q, am_tracer = None,
    am_jaeger_collector = None, am_jaeger_agent = None, am_options = (case ?o of Some s \<Rightarrow> [s] | None \<Rightarrow> []),
    am_foreground = False, am_serve = True, am_logfile = logfile_of P m\<rparr>"
  have log: "logfile_of P m = Some f \<Longrightarrow> pa_utf8 P f = Some f \<and> \<not> hyphenated f" for f
    using assms(2) by (auto simp: paths_ok_def logfile_of_def bind_eq_Some_conv)
  have q: "pa_lossy P q = Inr q" "\<not> hyphenated q" using assms(2) p(2) by (auto simp: paths_ok_def)
  have "parse args = Some m'"
    using assms(1) [unfolded arg_parser_ok_def, rule_format, of "''tifs:'' @ join_options ?ends" q ?o "logfile_of P m"] assms(5) q(2) log
    unfolding args server_args_def m'_def by (auto simp: hyphenated_def)
  moreover have "logfile_of P m' = logfile_of P m"
    using log by (cases "logfile_of P m") (simp_all add: m'_def logfile_of_def)
  moreover have "mount_options_to_vec (am_options m') = ?opts"
    using options_again [OF refl] by (simp add: m'_def mount_options_to_vec_def)
  moreover have "tracer_name m' = ''logger''" by (simp add: tracer_name_def m'_def)
  ultimately show ?thesis
    using p q(1) endpoints_again [of "am_device m"] assms(4)
    by (auto simp: main_tifs_def install_tracer_def Let_def m'_def intro!: exI [of _ m'])
qed

text \<open>A small parser of arguments and a machine whose paths are relative to its root.\<close>

fun scan_args :: "string list \<Rightarrow> arg_matches \<times> string list \<Rightarrow> (arg_matches \<times> string list) option" where
  "scan_args [] acc = Some acc"
| "scan_args (a # args) (m, ps) =
     (if a = ''--serve'' then scan_args args (m\<lparr>am_serve := True\<rparr>, ps)
      else if a = ''-o'' then (case args of v # rest \<Rightarrow> scan_args rest (m\<lparr>am_options := am_options m @ [v]\<rparr>, ps) | [] \<Rightarrow> None)
      else if a = ''--log-file'' then (case args of v # rest \<Rightarrow> scan_args rest (m\<lparr>am_logfile := Some v\<rparr>, ps) | [] \<Rightarrow> None)
      else if hyphenated a then None
      else scan_args args (m, ps @ [a]))"

definition sample_parser :: "string list \<Rightarrow> arg_matches option" where
  "sample_parser args = (case scan_args args (\<lparr>am_device = [], am_mount_point = None, am_tracer = None, am_jaeger_collector = None,
       am_jaeger_agent = None, am_options = [], am_foreground = False, am_serve = False, am_logfile = None\<rparr>, []) of
     Some (m, [device, mp]) \<Rightarrow> Some (m\<lparr>am_device := device, am_mount_point := Some mp\<rparr>) | _ \<Rightarrow> None)"

lemma sample_parser_ok: "arg_parser_ok sample_parser"
proof -
  have flags: "hyphenated ''--serve''" "hyphenated ''-o''" "hyphenated ''--log-file''" by (simp_all add: hyphenated_def)
  show ?thesis
    unfolding arg_parser_ok_def
  proof (intro allI impI)
    fix device mp opts log
    assume "\<not> hyphenated device" "\<not> hyphenated mp" "\<forall>s. opts = Some s \<longrightarrow> \<not> hyphenated s" "\<forall>f. log = Some f \<longrightarrow> \<not> hyphenated f"
    moreover from this flags have "device \<noteq> ''--serve''" "device \<noteq> ''-o''" "device \<noteq> ''--log-file''"
      "mp \<noteq> ''--serve''" "mp \<noteq> ''-o''" "mp \<noteq> ''--log-file''" by metis+
    ultimately show "sample_parser ([''--serve'', device, mp] @ (case opts of Some s \<Rightarrow> [''-o'', s] | None \<Rightarrow> [])
         @ (case log of Some f \<Rightarrow> [''--log-file'', f] | None \<Rightarrow> []))
       = Some \<lparr>am_device = device, am_mount_point = Some mp, am_tracer = None, am_jaeger_collector = None, am_jaeger_agent = None,
           am_options = (case opts of Some s \<Rightarrow> [s] | None \<Rightarrow> []), am_foreground = False, am_serve = True, am_logfile = log\<rparr>"
      by (cases opts; cases log) (simp_all add: sample_parser_def)
  qed
qed

definition sample_paths :: paths where
  "sample_paths = \<lparr>pa_lossy = \<lambda>p. Inr (if prefix ''/'' p then p else ''/'' @ p),
     pa_utf8 = \<lambda>p. Some (if prefix ''/'' p then p else ''/'' @ p), pa_current_exe = Inr ''/bin/mount.tifs''\<rparr>"

lemma sample_paths_ok: "paths_ok sample_paths"
  by (auto simp: paths_ok_def sample_paths_def hyphenated_def prefix_def)

definition sample_matches :: arg_matches where
  "sample_matches = \<lparr>am_device = ''tifs:a:1,b:2'', am_mount_point = Some ''mnt'', am_tracer = Some ''jaeger'',
     am_jaeger_collector = None, am_jaeger_agent = None, am_options = [''ro,blksize=32'', ''odd''], am_foreground = False,
     am_serve = False, am_logfile = None\<rparr>"

theorem server_process_has_same_configuration_witness:
  "\<exists>m'. sample_parser [''--serve'', ''tifs:a:1,b:2'', ''/mnt'', ''-o'', ''ro,blksize=32,odd''] = Some m' \<and> tracer_name m' = ''logger''
    \<and> main_tifs (\<lambda>_ _ _. Inr ()) sample_paths m' = Inr (Mount ''/mnt'' [''a:1'', ''b:2''] [MO_RO, MO_BlkSize ''32'', MO_Unknown ''odd''] True None)"
proof -
  have opts: "mount_options_to_vec [''ro,blksize=32'', ''odd''] = [MO_RO, MO_BlkSize ''32'', MO_Unknown ''odd'']"
    by (simp add: mount_options_to_vec_def mount_option_from_def mount_option_from_str_def split_first_def flag_options_def
        value_options_def Let_def)
  have "main_tifs (\<lambda>_ _ _. Inr ()) sample_paths sample_matches
      = Inr (Launch ''/bin/mount.tifs'' [''--serve'', ''tifs:a:1,b:2'', ''/mnt'', ''-o'', ''ro,blksize=32,odd''])"
    by (simp add: main_tifs_def install_tracer_def tracer_name_def sample_matches_def sample_paths_def logfile_of_def opts
        device_endpoints_def strip_prefix_def server_args_def join_options_def Let_def)
  moreover have "\<not> hyphenated (join_options (map string_of_mount_option (mount_options_to_vec (am_options sample_matches))))"
    by (simp add: sample_matches_def opts join_options_def hyphenated_def)
  ultimately show ?thesis
    using server_process_has_same_configuration [OF sample_parser_ok sample_paths_ok, of "\<lambda>_ _ _. Inr ()" sample_matches]
    by (auto simp: sample_matches_def sample_paths_def opts device_endpoints_def strip_prefix_def logfile_of_def)
qed

end
