(* ===== verification/Data_Cache.thy ===== *)
theory Data_Cache
  imports Fuse_To_Hashfs
begin

text \<open>
  The caches of \<open>utils/txn_data_cache.rs\<close>: values of one kind, fetched and written through a
  transaction (\<open>TxnDataCache\<close>), and raw values of the store (\<open>GenericDataCache\<close>). The concurrent map
  behind them belongs to the crate moka and is a parameter, as is the clock. Shown: as long as every
  call succeeds, a cached read returns what a read of the store would return; what is served from the
  cache is younger than the limit; and that a write that fails leaves its value in the cache.
\<close>

section \<open>The operations\<close>

record ('k, 'v, 'c) moka =
  mk_get :: "'k \<Rightarrow> 'c \<Rightarrow> 'v option \<times> 'c"
  mk_insert :: "'k \<Rightarrow> 'v \<Rightarrow> 'c \<Rightarrow> 'c"
  mk_remove :: "'k \<Rightarrow> 'c \<Rightarrow> 'c"

text \<open>Entries carry the time at which they were made.\<close>

record ('k, 'v, 'c) txn_data_cache =
  dc_cache :: "('k, nat \<times> 'v, 'c) moka"
  dc_time_limit :: nat

definition cache_insert :: "('k, 'v, 'c) txn_data_cache \<Rightarrow> 'k \<Rightarrow> nat \<times> 'v \<Rightarrow> ('w, 'c, unit) txn_comp" where
  "cache_insert D key entry = on_cache (\<lambda>c. ((), mk_insert (dc_cache D) key entry c))"

definition cache_remove :: "('k, 'v, 'c) txn_data_cache \<Rightarrow> 'k \<Rightarrow> ('w, 'c, unit) txn_comp" where
  "cache_remove D key = on_cache (\<lambda>c. ((), mk_remove (dc_cache D) key c))"

text \<open>\<open>now\<close> is the time at which the entry is looked at, \<open>t\<close> the time at which one is made.\<close>

definition read_uncached ::
  "('k, 'v, 'c) txn_data_cache \<Rightarrow> nat \<Rightarrow> 'k \<Rightarrow> ('k \<Rightarrow> ('w, fs_error, 'v) comp) \<Rightarrow> ('w, 'c, 'v) txn_comp" where
  "read_uncached D t key fetcher =
     and_then (on_world (fetcher key)) (\<lambda>value. and_then (cache_insert D key (t, value)) (\<lambda>_. ret value))"

definition read_cached ::
  "('k, 'v, 'c) txn_data_cache \<Rightarrow> nat \<Rightarrow> nat \<Rightarrow> 'k \<Rightarrow> ('k \<Rightarrow> ('w, fs_error, 'v) comp) \<Rightarrow> ('w, 'c, 'v) txn_comp" where
  "read_cached D now t key fetcher =
     and_then (on_cache (mk_get (dc_cache D) key)) (\<lambda>found. case found of
       Some (time, value) \<Rightarrow>
         if now - time < dc_time_limit D then ret value
         else and_then (cache_remove D key) (\<lambda>_. read_uncached D t key fetcher)
     | None \<Rightarrow> read_uncached D t key fetcher)"

definition write_cached ::
  "('k, 'v, 'c) txn_data_cache \<Rightarrow> nat \<Rightarrow> 'k \<Rightarrow> 'v \<Rightarrow> ('k \<Rightarrow> 'v \<Rightarrow> ('w, fs_error, unit) comp) \<Rightarrow> ('w, 'c, unit) txn_comp" where
  "write_cached D t key value putter = and_then (cache_insert D key (t, value)) (\<lambda>_. on_world (putter key value))"

definition delete_with_cache ::
  "('k, 'v, 'c) txn_data_cache \<Rightarrow> 'k \<Rightarrow> ('k \<Rightarrow> ('w, fs_error, unit) comp) \<Rightarrow> ('w, 'c, unit) txn_comp" where
  "delete_with_cache D key deleter = and_then (cache_remove D key) (\<lambda>_. on_world (deleter key))"

text \<open>The same for raw values; a key without a value is cached too.\<close>

type_synonym 'c generic_data_cache = "(bytes, bytes option, 'c) txn_data_cache"

definition gdc_read_uncached :: "'c generic_data_cache \<Rightarrow> nat \<Rightarrow> bytes \<Rightarrow> 'w tikv \<Rightarrow> ('w, 'c, bytes option) txn_comp" where
  "gdc_read_uncached D t key T =
     and_then (on_world (lift_tikv (tk_get T key))) (\<lambda>value. and_then (cache_insert D key (t, value)) (\<lambda>_. ret value))"

definition gdc_read_cached :: "'c generic_data_cache \<Rightarrow> nat \<Rightarrow> nat \<Rightarrow> bytes \<Rightarrow> 'w tikv \<Rightarrow> ('w, 'c, bytes option) txn_comp" where
  "gdc_read_cached D now t key T =
     and_then (on_cache (mk_get (dc_cache D) key)) (\<lambda>found. case found of
       Some (time, value) \<Rightarrow>
         if now - time < dc_time_limit D then ret value
         else and_then (cache_remove D key) (\<lambda>_. gdc_read_uncached D t key T)
     | None \<Rightarrow> gdc_read_uncached D t key T)"

definition gdc_write_cached :: "'c generic_data_cache \<Rightarrow> nat \<Rightarrow> bytes \<Rightarrow> bytes \<Rightarrow> 'w tikv \<Rightarrow> ('w, 'c, unit) txn_comp" where
  "gdc_write_cached D t key value T = and_then (cache_insert D key (t, Some value)) (\<lambda>_. on_world (lift_tikv (tk_put T key value)))"

definition gdc_delete_with_cache :: "'c generic_data_cache \<Rightarrow> bytes \<Rightarrow> 'w tikv \<Rightarrow> ('w, 'c, unit) txn_comp" where
  "gdc_delete_with_cache D key T = and_then (cache_remove D key) (\<lambda>_. on_world (lift_tikv (tk_delete T key)))"

section \<open>Coherence\<close>

text \<open>A map that may forget entries and never returns an older entry of a key.\<close>

locale moka_laws =
  fixes K :: "('k, 'e, 'c) moka" and holds :: "'c \<Rightarrow> ('k \<times> 'e) set"
  assumes found_law: "mk_get K k c = (r, c') \<Longrightarrow> holds c' \<subseteq> holds c \<and> (\<forall>e. r = Some e \<longrightarrow> (k, e) \<in> holds c)"
    and inserted_law: "holds (mk_insert K k e c) \<subseteq> insert (k, e) {x \<in> holds c. fst x \<noteq> k}"
    and removed_law: "holds (mk_remove K k c) \<subseteq> {x \<in> holds c. fst x \<noteq> k}"

text \<open>Where the values come from: \<open>src w\<close> is what fetching answers with.\<close>

locale data_source =
  fixes src :: "'w \<Rightarrow> 'k \<rightharpoonup> 'v" and fetcher :: "'k \<Rightarrow> ('w, fs_error, 'v) comp" and ok :: "'w \<Rightarrow> bool"
  assumes fetch_law: "ok w \<Longrightarrow> fetcher k w = (Inr v, w') \<Longrightarrow> ok w' \<and> src w' = src w \<and> src w k = Some v"

definition coherent :: "('c \<Rightarrow> ('k \<times> nat \<times> 'v) set) \<Rightarrow> ('k \<rightharpoonup> 'v) \<Rightarrow> 'c \<Rightarrow> bool" where
  "coherent holds m c \<longleftrightarrow> (\<forall>(k, t, v) \<in> holds c. m k = Some v)"

locale cached_source = moka_laws "dc_cache D" holds + data_source src fetcher ok
  for D :: "('k, 'v, 'c) txn_data_cache" and holds :: "'c \<Rightarrow> ('k \<times> nat \<times> 'v) set"
    and src :: "'w \<Rightarrow> 'k \<rightharpoonup> 'v" and fetcher :: "'k \<Rightarrow> ('w, fs_error, 'v) comp" and ok :: "'w \<Rightarrow> bool"
begin

lemma coherent_insert: "coherent holds (src w) c \<Longrightarrow> coherent holds ((src w)(k \<mapsto> v)) (mk_insert (dc_cache D) k (t, v) c)"
  using inserted_law [of k "(t, v)" c] unfolding coherent_def by fastforce

lemma coherent_remove:
  assumes "coherent holds m c" and "\<forall>k'. k' \<noteq> k \<longrightarrow> m' k' = m k'"
  shows "coherent holds m' (mk_remove (dc_cache D) k c)"
  using assms removed_law [of k c] unfolding coherent_def by fastforce

lemma uncached_read:
  assumes "ok w" and "coherent holds (src w) c" and "read_uncached D t k fetcher (w, c) = (Inr v, (w', c'))"
  shows "ok w' \<and> src w' = src w \<and> src w k = Some v \<and> coherent holds (src w') c'"
proof -
  obtain w1 where f: "fetcher k w = (Inr v, w1)" and "w' = w1" "c' = mk_insert (dc_cache D) k (t, v) c"
    using assms(3) by (auto simp: read_uncached_def cache_insert_def on_cache_def on_world_def and_then_apply split: sum.splits prod.splits)
  moreover from fetch_law [OF assms(1) f] have "ok w1" "src w1 = src w" "src w k = Some v" by auto
  moreover have "(src w)(k \<mapsto> v) = src w" using \<open>src w k = Some v\<close> by auto
  ultimately show ?thesis using coherent_insert [OF assms(2), of k v t] by simp
qed

lemma cached_read:
  assumes "ok w" and "coherent holds (src w) c" and "read_cached D now t k fetcher (w, c) = (Inr v, (w', c'))"
  shows "ok w' \<and> src w' = src w \<and> src w k = Some v \<and> coherent holds (src w') c'"
proof -
  obtain r c1 where get: "mk_get (dc_cache D) k c = (r, c1)" by fastforce
  note law = found_law [OF get]
  have c1: "coherent holds (src w) c1" using assms(2) law unfolding coherent_def by blast
  show ?thesis
  proof (cases r)
    case None
    then have "read_uncached D t k fetcher (w, c1) = (Inr v, (w', c'))"
      using assms(3) get by (simp add: read_cached_def on_cache_def and_then_apply)
    then show ?thesis by (rule uncached_read [OF assms(1) c1])
  next
    case (Some e)
    obtain time val where e: "e = (time, val)" by (cases e)
    show ?thesis
    proof (cases "now - time < dc_time_limit D")
      case True
      then have "v = val" "w' = w" "c' = c1" using assms(3) get Some e by (auto simp: read_cached_def on_cache_def and_then_apply)
      moreover have "src w k = Some val" using law Some e assms(2) unfolding coherent_def by blast
      ultimately show ?thesis using assms(1) c1 by simp
    next
      case False
      let ?c2 = "mk_remove (dc_cache D) k c1"
      have c2: "coherent holds (src w) ?c2" by (rule coherent_remove [OF c1]) simp
      have "read_uncached D t k fetcher (w, ?c2) = (Inr v, (w', c'))"
        using assms(3) get Some e False by (simp add: read_cached_def cache_remove_def on_cache_def and_then_apply)
      then show ?thesis by (rule uncached_read [OF assms(1) c2])
    qed
  qed
qed

text \<open>A value that does not come from the store was put into the cache less than the limit ago.\<close>

lemma served_value_is_young:
  assumes "read_cached D now t k fetcher (w, c) = (Inr v, (w', c'))"
  shows "(\<exists>time. (k, time, v) \<in> holds c \<and> now - time < dc_time_limit D) \<or> (\<exists>w'. fetcher k w = (Inr v, w'))"
proof -
  obtain r c1 where get: "mk_get (dc_cache D) k c = (r, c1)" by fastforce
  from found_law [OF get] assms get show ?thesis
    by (cases r) (auto simp: read_cached_def read_uncached_def cache_insert_def cache_remove_def on_cache_def on_world_def
        and_then_apply split: sum.splits prod.splits if_splits)
qed

lemma cached_write:
  assumes "coherent holds (src w) c" and "write_cached D t k v putter (w, c) = (Inr (), (w', c'))"
    and "putter k v w = (Inr (), w') \<Longrightarrow> src w' = (src w)(k \<mapsto> v)"
  shows "coherent holds (src w') c'"
proof -
  have "putter k v w = (Inr (), w')" "c' = mk_insert (dc_cache D) k (t, v) c"
    using assms(2) by (auto simp: write_cached_def cache_insert_def on_cache_def on_world_def and_then_apply split: prod.splits)
  then show ?thesis using assms(3) coherent_insert [OF assms(1)] by simp
qed

lemma cached_delete:
  assumes "coherent holds (src w) c" and "delete_with_cache D k deleter (w, c) = (r, (w', c'))"
    and "\<forall>k'. k' \<noteq> k \<longrightarrow> src w' k' = src w k'"
  shows "coherent holds (src w') c'"
proof -
  have "c' = mk_remove (dc_cache D) k c"
    using assms(2) by (auto simp: delete_with_cache_def cache_remove_def on_cache_def on_world_def and_then_apply split: prod.splits)
  then show ?thesis using coherent_remove [OF assms(1,3)] by simp
qed

end

section \<open>Instances\<close>

text \<open>The cache of raw values is the cache of values that are fetched by \<open>get\<close>.\<close>

lemma gdc_ops:
  "gdc_read_uncached D t key T = read_uncached D t key (\<lambda>k. lift_tikv (tk_get T k))"
  "gdc_read_cached D now t key T = read_cached D now t key (\<lambda>k. lift_tikv (tk_get T k))"
  "gdc_delete_with_cache D key T = delete_with_cache D key (\<lambda>k. lift_tikv (tk_delete T k))"
proof -
  show read: "gdc_read_uncached D t key T = read_uncached D t key (\<lambda>k. lift_tikv (tk_get T k))"
    by (simp add: gdc_read_uncached_def read_uncached_def)
  show "gdc_read_cached D now t key T = read_cached D now t key (\<lambda>k. lift_tikv (tk_get T k))"
    unfolding gdc_read_cached_def read_cached_def read ..
qed (simp add: gdc_delete_with_cache_def delete_with_cache_def)

locale raw_cache = tikv_store T ok db view + moka_laws "dc_cache D" holds
  for T :: "'w tikv" and ok :: "'w \<Rightarrow> bool" and db :: "'w \<Rightarrow> kv" and view :: "'w \<Rightarrow> kv"
    and D :: "'c generic_data_cache" and holds :: "'c \<Rightarrow> (bytes \<times> nat \<times> bytes option) set"

sublocale raw_cache \<subseteq> raw: cached_source D holds "\<lambda>w k. Some (view w k)" "\<lambda>k. lift_tikv (tk_get T k)" ok
proof
  fix w k v w' assume w: "ok w" and "lift_tikv (tk_get T k) w = (Inr v, w')"
  then have "tk_get T k w = (Inr v, w')" by (auto simp: map_err_apply split: prod.splits sum.splits)
  then show "ok w' \<and> (\<lambda>k. Some (view w' k)) = (\<lambda>k. Some (view w k)) \<and> Some (view w k) = Some v"
    using get_law w unfolding call_ok_def by (metis (no_types, lifting))
qed

context raw_cache
begin

lemma raw_read:
  assumes "ok w" and "coherent holds (\<lambda>k. Some (view w k)) c" and "gdc_read_cached D now t k T (w, c) = (Inr v, (w', c'))"
  shows "v = view w k \<and> coherent holds (\<lambda>k. Some (view w' k)) c'"
  using raw.cached_read [OF assms(1,2) assms(3) [unfolded gdc_ops]] by auto

lemma raw_write:
  assumes "ok w" and "coherent holds (\<lambda>k. Some (view w k)) c" and "gdc_write_cached D t k b T (w, c) = (Inr (), (w', c'))"
  shows "view w' = (view w)(k \<mapsto> b) \<and> coherent holds (\<lambda>k. Some (view w' k)) c'"
proof -
  have put: "tk_put T k b w = (Inr (), w')" and c': "c' = mk_insert (dc_cache D) k (t, Some b) c"
    using assms(3) by (auto simp: gdc_write_cached_def cache_insert_def on_cache_def on_world_def and_then_apply map_err_apply
        split: prod.splits sum.splits)
  have v: "view w' = (view w)(k \<mapsto> b)" using put_law assms(1) put unfolding call_ok_def by blast
  then have "(\<lambda>k. Some (view w' k)) = (\<lambda>k. Some (view w k))(k \<mapsto> Some b)" by auto
  with v raw.coherent_insert [OF assms(2), of k "Some b" t] c' show ?thesis by simp
qed

end

text \<open>A cache of the last entries, on the store in memory.\<close>

definition list_moka :: "nat \<Rightarrow> ('k, 'v, ('k \<times> 'v) list) moka" where
  "list_moka n = \<lparr>mk_get = (\<lambda>k c. (map_of c k, c)), mk_insert = (\<lambda>k v c. take n ((k, v) # filter (\<lambda>x. fst x \<noteq> k) c)),
     mk_remove = (\<lambda>k. filter (\<lambda>x. fst x \<noteq> k))\<rparr>"

interpretation list_moka: moka_laws "list_moka n" set
  by unfold_locales (auto simp: list_moka_def dest: map_of_SomeD in_set_takeD)

definition sample_raw_cache :: "(bytes \<times> nat \<times> bytes option) list generic_data_cache" where
  "sample_raw_cache = \<lparr>dc_cache = list_moka 3, dc_time_limit = 5\<rparr>"

interpretation memcache: raw_cache mem_tikv mem_ok mem_content "\<lambda>s. map_of (mem_view s)" sample_raw_cache set
proof -
  have "moka_laws (dc_cache sample_raw_cache) set"
    unfolding sample_raw_cache_def txn_data_cache.simps by (rule list_moka.moka_laws_axioms)
  then show "raw_cache mem_tikv mem_ok mem_content (\<lambda>s. map_of (mem_view s)) sample_raw_cache set"
    by (intro raw_cache.intro mem.tikv_store_axioms)
qed

text \<open>
  The value is put into the cache before it is written. When writing fails, it stays there: the next
  read returns a value that the store never had.
\<close>

lemma failed_write_is_served:
  "case gdc_write_cached sample_raw_cache 0 [1] [7] mem_tikv (mem_with [] [Some (TikvKeyError [])], []) of
     (Inl e, (w, c)) \<Rightarrow> map_of (mem_view w) [1] = None
       \<and> fst (gdc_read_cached sample_raw_cache 1 1 [1] mem_tikv (w, c)) = Inr (Some [7])
   | _ \<Rightarrow> False"
  by (simp add: gdc_write_cached_def gdc_read_cached_def cache_insert_def sample_raw_cache_def list_moka_def on_cache_def on_world_def
      and_then_apply map_err_apply mem_with_def mem_tikv_def mem_call_def)

end
