(* ===== verification/Spec2Isabelle.thy ===== *)
theory Spec2Isabelle
  imports Szymanski Key_Lock Lazy_Lock_Map Client_Mux Directory_Facts Block_List_Facts File_Read Request_Facts Write_Path Grpc_Facts Remote_Txn
    Mount_Program Data_Cache
begin

text \<open>
  A verification development for tifs, a file system on the transactional key-value store TiKV
  (\<open>src/src\<close>) with a remote variant over gRPC (\<open>src/rust-grpc-example\<close>).

  \<^bold>\<open>The program.\<close> The kernel sends FUSE requests. \<open>AsyncFs\<close> (\<open>fs/async_fs/\<close>) turns each callback into
  a call of the file system instance \<open>TiFs\<close> (\<open>fs/tikv_fs.rs\<close>, \<open>fs/tikv_fs_trait_impl.rs\<close>) and answers
  with its result (\<open>fs/reply.rs\<close>). \<open>TiFs\<close> keeps the table of file handles, collects written data in
  the handlers (\<open>fs/file_handler.rs\<close>) and runs each request in a retry loop on a \<open>Txn\<close>
  (\<open>fs/fuse_to_hashfs.rs\<close>), which cuts files into blocks (\<open>fs/hash_block/\<close>, \<open>fs/parsers.rs\<close>), addresses
  blocks by their hash, caches them, and calls a hash file system (\<open>fs/hash_fs_interface.rs\<close>). This is
  either \<open>TikvBasedHashFs\<close> (\<open>fs/hash_fs_tikv_implementation.rs\<close>, \<open>fs/snapshot.rs\<close>), whose operations are
  mini transactions (\<open>fs/mini_transaction.rs\<close>, \<open>fs/flexible_transaction.rs\<close>) on clients that a multiplexer
  hands out (\<open>fs/transaction_client_mux.rs\<close>), or the gRPC client, whose server calls a
  \<open>TikvBasedHashFs\<close> elsewhere. Everything is stored under the keys of \<open>fs/key.rs\<close>. Processes
  exclude each other by Szymanski's algorithm on the store (\<open>fs/szymanskis_critical_section.rs\<close>), and
  tasks of one process by a map of locks (\<open>fs/utils/lazy_lock_map.rs\<close>).

  \<^bold>\<open>Effects.\<close> A fallible function that has effects is a function from a world to a result (an error or a
  value) and the world after (\<open>comp\<close> of \<open>Prelude\<close>); \<open>and_then\<close> is the operator \<open>?\<close>. Integers keep
  their width as words. What the code takes from libraries it cannot be read from is a parameter:
  the operations of the store (\<open>tikv\<close>), encodings (\<open>json\<close>, \<open>ext\<close>, \<open>grpc_ext\<close>), digests, the order in
  which hash maps iterate, the block cache, the clock, fresh identifiers, making connections. What the
  program relies on is laid down by locales (\<open>tikv_store\<close>, \<open>fs_store\<close>, \<open>block_cache_laws\<close>,
  \<open>file_contract\<close>, \<open>directory_buffer\<close>, \<open>connected_client\<close>) and by named predicates (\<open>json_ok\<close>, \<open>ext_ok\<close>,
  \<open>grpc_ext_ok\<close>); each has an executable instance, on which the examples are evaluated. An in-memory
  store whose calls may fail interprets the locales of the store.

  \<^bold>\<open>Theories.\<close>
  \<^item> \<open>Prelude\<close>: words and big-endian bytes, hash maps as association lists, computations.
  \<^item> \<open>Fs_Types\<close>, \<open>Fs_Error\<close>: the structs of \<open>inode.rs\<close>, \<open>meta.rs\<close> and others; \<open>error.rs\<close> and which errors
    are retried. Shown: which POSIX numbers survive the interface.
  \<^item> \<open>Keys\<close>, \<open>Key_Facts\<close>: builder, parser and ranges of \<open>key.rs\<close>. Shown: keys never collide, parsing undoes
    building, scan ranges contain exactly the keys meant.
  \<^item> \<open>Szymanski\<close>, \<open>Key_Lock\<close>: the critical section as a step relation on the lock table and the program
    counters of the participants, refined from an abstract protocol; the lock object over it. Shown:
    mutual exclusion in every interleaving, the run of a single participant, and that a participant that
    fails behind the door locks the others out.
  \<^item> \<open>Lazy_Lock_Map\<close>: weak references and reference counts. Shown: one lock per key.
  \<^item> \<open>Fs_Config\<close>: options and configuration of \<open>fs_config.rs\<close>. Shown: printing and parsing, the effect of
    \<open>from_options\<close>.
  \<^item> \<open>Mount_Program\<close>: the program \<open>mount.tifs\<close> (\<open>bin/tifs.rs\<close>, \<open>lib.rs\<close>) and the construction of instance and
    client configuration (\<open>client.rs\<close>). Shown: the process it starts in the background has its configuration.
  \<^item> \<open>Data_Cache\<close>: the metadata caches of \<open>utils/txn_data_cache.rs\<close>. Shown: coherence as long as calls
    succeed, the age of what is served, and how a failed write breaks coherence.
  \<^item> \<open>Tikv\<close>, \<open>Flexible_Transaction\<close>, \<open>Client_Mux\<close>: the store with a calculus for computations on its content,
    the loops that start, finish and repeat transactions, the multiplexer. Shown: a mini transaction
    commits its effect or none; a transaction is obtained; one task makes a client.
  \<^item> \<open>Inode_Ops\<close>, \<open>Block_Splitter\<close>: sizes, inline data, modes, logical inode numbers; the splitting of
    reads and writes. Shown: their functional correctness and round trips.
  \<^item> \<open>Environment\<close>, \<open>Mini_Transaction\<close>, \<open>Fs_View\<close>: library functions; the operations of one transaction;
    the content of the store read as directories, block maps and counters.
  \<^item> \<open>Directory_Facts\<close>, \<open>Block_Facts\<close>, \<open>Block_List_Facts\<close>: what these operations do to that view. Shown: entries
    and parent links stay consistent, rename, removal, reservation of inode numbers, counting of
    references, the chunked reading of block maps.
  \<^item> \<open>Hash_Fs\<close>, \<open>Snapshot\<close>, \<open>Hash_Fs_Interface\<close>: \<open>TikvBasedHashFs\<close> with every operation, and the trait as a
    record of operations.
  \<^item> \<open>Fuse_To_Hashfs\<close>, \<open>Txn_Facts\<close>, \<open>Write_Facts\<close>, \<open>File_Write\<close>, \<open>File_Content\<close>, \<open>File_Read\<close>: \<open>Txn\<close>. Shown: no
    write, complete or interrupted, loses a block that a file refers to; a write changes exactly its
    bytes; reading returns the bytes of the file, and what was written before.
  \<^item> \<open>Tikv_Fs\<close>, \<open>Async_Fs\<close>, \<open>Tikv_Fs_Facts\<close>, \<open>Handle_Facts\<close>, \<open>Request_Facts\<close>, \<open>Write_Path\<close>: the instance with its
    handle table, all FUSE handlers and callbacks. Shown: handles are free when given out and stay
    bound until released, requests end, listings are complete, names become UTF-8, what was written and
    synchronised is read back, and how a failed flush loses data.
  \<^item> \<open>Grpc_Messages\<close>, \<open>Grpc_Fs\<close>, \<open>Grpc_Client\<close>, \<open>Grpc_Facts\<close>: messages and conversions
    (\<open>rust-grpc-example/src/lib.rs\<close>), the server, the client with its pool. Shown: a connected client
    implements the interface that is served; connecting ends.
  \<^item> \<open>Remote_Txn\<close>: files on the client. \<open>file_contract\<close> of \<open>Txn_Facts\<close> is what \<open>Txn\<close> relies on; the hash file
    system on TiKV keeps it (\<open>file_store\<close>), and so does a client of a server on it (\<open>remote_store\<close>). Shown:
    no write through a client loses a block, and what was written and synchronised through a client is
    read back.

  \<^bold>\<open>Bounds and fuel.\<close> The retry loops of transactions end because the back-off grants \<open>SPIN_ATTEMPTS\<close>,
  200, delays. \<open>chunk_fuel\<close> is the number of chunks of a range and shown to be enough by
  \<open>chunked_block_list_complete\<close>. \<open>ce_fuel\<close> bounds the attempts of a request; four are enough by
  \<open>requests_end_after_four_attempts\<close>. \<open>env_fuel\<close> bounds the depth of the recursion over directories of a
  snapshot, which on a cyclic graph would not end; \<open>None\<close> stands for not returning. The fuel of
  \<open>give_one_transaction\<close> is the number of rounds, enough by \<open>transaction_obtained\<close>; connecting needs no fuel,
  as each attempt sleeps for a second of the ten minutes.

  \<^bold>\<open>Order of events.\<close> Requests of the instance run one after the other, and jobs of a pipe stage in the order
  in which they are pushed. Interleavings are modelled where the code has a protocol for them: the critical
  section, the lock objects, the lock map and the multiplexer.

  \<^bold>\<open>Not modelled.\<close> The processes, pipes and file descriptors of the mounting program and the other command line
  programs (I/O around the modelled parts); tracing, stop watches and prints (no effect on results); code
  that is commented out (\<open>setlk\<close>, \<open>lseek\<close>, the traditional block format, local storage); the negotiation of
  kernel capabilities in \<open>init\<close>; the Greeter sample service; generated code. The metadata caches are modelled,
  but no compiled code uses them.
\<close>

end
